(* ===== verification/Dearsql_Prelude.thy ===== *)
theory Dearsql_Prelude
  imports Main "HOL-Library.Multiset" "HOL-Library.Char_ord" "HOL-Library.List_Lexorder"
begin

text \<open>
  Shared vocabulary of the development. A C++ \<^verbatim>\<open>std::string\<close> is a HOL \<open>string\<close>: a list of
  8-bit characters, so \<open>length\<close> counts bytes as \<^verbatim>\<open>size()\<close> does. This theory models what the
  sources use of the standard library: the \<^verbatim>\<open><cctype>\<close> classifications of the C locale,
  \<^verbatim>\<open>find\<close>, \<^verbatim>\<open>substr\<close>, \<^verbatim>\<open>starts_with\<close>, \<^verbatim>\<open>std::stable_sort\<close>, \<^verbatim>\<open>std::to_string\<close>, and the
  two ways in which the sources join strings. An offset that C++ reports as \<^verbatim>\<open>npos\<close> is \<open>None\<close>.
\<close>

named_theorems char_class \<open>unfolding rules of the byte classifications\<close>
named_theorems quote_simps \<open>rewrites about quoted text\<close>
named_theorems bound_intros \<open>bounds on offsets into a buffer\<close>


section \<open>Bytes\<close>

type_synonym bytes = string

abbreviation dquote :: char where "dquote \<equiv> CHR 0x22"
abbreviation squote :: char where "squote \<equiv> CHR 0x27"
abbreviation backslash :: char where "backslash \<equiv> CHR 0x5C"
abbreviation backtick :: char where "backtick \<equiv> CHR 0x60"
abbreviation newline :: char where "newline \<equiv> CHR 0x0A"
abbreviation tabulator :: char where "tabulator \<equiv> CHR 0x09"
abbreviation carriage :: char where "carriage \<equiv> CHR 0x0D"
abbreviation unit_separator :: char where "unit_separator \<equiv> CHR 0x1F"

definition byte :: "char \<Rightarrow> nat" where
  "byte c = of_char c"

definition isspace :: "char \<Rightarrow> bool" where
  "isspace c \<longleftrightarrow> byte c = 32 \<or> (9 \<le> byte c \<and> byte c \<le> 13)"

definition isupper :: "char \<Rightarrow> bool" where
  "isupper c \<longleftrightarrow> 65 \<le> byte c \<and> byte c \<le> 90"

definition islower :: "char \<Rightarrow> bool" where
  "islower c \<longleftrightarrow> 97 \<le> byte c \<and> byte c \<le> 122"

definition isalpha :: "char \<Rightarrow> bool" where
  "isalpha c \<longleftrightarrow> isupper c \<or> islower c"

definition isdigit :: "char \<Rightarrow> bool" where
  "isdigit c \<longleftrightarrow> 48 \<le> byte c \<and> byte c \<le> 57"

definition isalnum :: "char \<Rightarrow> bool" where
  "isalnum c \<longleftrightarrow> isalpha c \<or> isdigit c"

definition tolower :: "char \<Rightarrow> char" where
  "tolower c = (if isupper c then char_of (byte c + 32) else c)"

definition toupper :: "char \<Rightarrow> char" where
  "toupper c = (if islower c then char_of (byte c - 32) else c)"

lemmas [char_class] = byte_def isspace_def isupper_def islower_def isalpha_def isdigit_def isalnum_def

lemma byte_less_256: "byte c < 256"
  by (simp add: byte_def)

lemma byte_inject [simp]: "byte c = byte d \<longleftrightarrow> c = d"
  by (simp add: byte_def)

lemma byte_char_of [simp]: "n < 256 \<Longrightarrow> byte (char_of n) = n"
  by (simp add: byte_def)

lemma char_of_byte [simp]: "char_of (byte c) = c"
  by (simp add: byte_def)

lemma isalnum_not_isspace: "isalnum c \<Longrightarrow> \<not> isspace c"
  by (auto simp: isalnum_def isalpha_def isupper_def islower_def isdigit_def isspace_def)

lemma tolower_idem [simp]: "tolower (tolower c) = tolower c"
  by (auto simp: tolower_def isupper_def)

lemma toupper_tolower [simp]: "toupper (tolower c) = toupper c"
  by (auto simp: tolower_def toupper_def isupper_def islower_def byte_def)

lemma tolower_toupper [simp]: "tolower (toupper c) = tolower c"
  by (auto simp: tolower_def toupper_def isupper_def islower_def byte_def)

lemma toupper_idem [simp]: "toupper (toupper c) = toupper c"
  by (auto simp: toupper_def islower_def)

lemma tolower_eq_iff_toupper_eq: "tolower c = tolower d \<longleftrightarrow> toupper c = toupper d"
  by (metis tolower_toupper toupper_tolower)


section \<open>Offsets and substrings\<close>

definition substr :: "bytes \<Rightarrow> nat \<Rightarrow> nat \<Rightarrow> bytes" where
  "substr s pos n = take n (drop pos s)"

definition starts_with :: "bytes \<Rightarrow> bytes \<Rightarrow> bool" where
  "starts_with s p \<longleftrightarrow> take (length p) s = p"

definition ends_with :: "bytes \<Rightarrow> bytes \<Rightarrow> bool" where
  "ends_with s p \<longleftrightarrow> length p \<le> length s \<and> drop (length s - length p) s = p"

text \<open>The bytes up to the first NUL, which is what a C string holds.\<close>

definition c_str :: "bytes \<Rightarrow> bytes" where
  "c_str s = takeWhile (\<lambda>c. c \<noteq> CHR 0x00) s"

text \<open>\<^verbatim>\<open>s.substr(0, s.find_last_not_of(' ') + 1)\<close>.\<close>

definition trim_right_spaces :: "bytes \<Rightarrow> bytes" where
  "trim_right_spaces s = rev (dropWhile (\<lambda>c. c = CHR '' '') (rev s))"

text \<open>\<^verbatim>\<open>operator<\<close> on strings, which also orders the keys of a \<^verbatim>\<open>std::map\<close>: by unsigned bytes.\<close>

fun text_before :: "bytes \<Rightarrow> bytes \<Rightarrow> bool" where
  "text_before s [] = False"
| "text_before [] (d # t) = True"
| "text_before (c # s) (d # t) = (byte c < byte d \<or> byte c = byte d \<and> text_before s t)"

lemma text_before_less: "text_before s t \<longleftrightarrow> map byte s < map byte t"
  by (induction s t rule: text_before.induct) auto

definition str_find_char :: "char \<Rightarrow> bytes \<Rightarrow> nat \<Rightarrow> nat option" where
  "str_find_char c s start = List.find (\<lambda>i. s ! i = c) [start..<length s]"

definition str_find :: "bytes \<Rightarrow> bytes \<Rightarrow> nat \<Rightarrow> nat option" where
  "str_find p s start =
     List.find (\<lambda>i. substr s i (length p) = p) [start..<Suc (length s) - length p]"

lemma starts_with_append: "starts_with s p \<longleftrightarrow> (\<exists>r. s = p @ r)"
  unfolding starts_with_def by (metis append_eq_conv_conj append_take_drop_id)

lemma ends_with_append: "ends_with s p \<longleftrightarrow> (\<exists>r. s = r @ p)"
proof
  assume "ends_with s p"
  then have "s = take (length s - length p) s @ p" unfolding ends_with_def by (metis append_take_drop_id)
  then show "\<exists>r. s = r @ p" ..
qed (auto simp: ends_with_def)

lemma find_upt_Some:
  assumes "List.find P [a..<b] = Some k"
  shows "a \<le> k" "k < b" "P k" "\<And>j. a \<le> j \<Longrightarrow> j < k \<Longrightarrow> \<not> P j"
proof -
  from assms obtain i where i: "i < length [a..<b]" "P ([a..<b] ! i)" "k = [a..<b] ! i"
    and least: "\<forall>j<i. \<not> P ([a..<b] ! j)"
    by (auto simp: find_Some_iff)
  then have k: "k = a + i" "a + i < b" by auto
  with i show "a \<le> k" "k < b" "P k" by auto
  fix j assume "a \<le> j" "j < k"
  with k have "j - a < i" "a + (j - a) = j" by auto
  with least k show "\<not> P j"
    by (metis (no_types, lifting) nth_upt add_strict_left_mono order_less_trans)
qed

lemma find_upt_None: "List.find P [a..<b] = None \<longleftrightarrow> (\<forall>k. a \<le> k \<and> k < b \<longrightarrow> \<not> P k)"
  by (auto simp: find_None_iff)

lemma find_uptI:
  assumes "a \<le> k" "k < b" "P k" "\<And>j. a \<le> j \<Longrightarrow> j < k \<Longrightarrow> \<not> P j"
  shows "List.find P [a..<b] = Some k"
proof (cases "List.find P [a..<b]")
  case None
  with assms show ?thesis by (auto simp: find_upt_None)
next
  case (Some m)
  note m = find_upt_Some [OF Some]
  have "m = k"
  proof (rule ccontr)
    assume "m \<noteq> k"
    then consider "m < k" | "k < m" by linarith
    then show False
      by cases (use m assms in blast)+
  qed
  with Some show ?thesis by simp
qed

lemma str_find_char_bounds [bound_intros]:
  "str_find_char c s a = Some k \<Longrightarrow> a \<le> k \<and> k < length s"
  using find_upt_Some(1,2) unfolding str_find_char_def by blast

lemma str_find_bounds [bound_intros]:
  assumes "str_find p s a = Some k"
  shows "a \<le> k \<and> k + length p \<le> length s"
  using find_upt_Some(1,2) [OF assms [unfolded str_find_def]] by linarith


section \<open>Sorting\<close>

text \<open>
  \<^verbatim>\<open>std::ranges::stable_sort(v, lt)\<close>: insertion into an already sorted tail, an element going
  in front of those it is equivalent to. The three laws below are what the standard promises
  for a strict weak ordering: a permutation, ordered, and equivalent elements in their old order.
\<close>

fun insert_by :: "('a \<Rightarrow> 'a \<Rightarrow> bool) \<Rightarrow> 'a \<Rightarrow> 'a list \<Rightarrow> 'a list" where
  "insert_by lt x [] = [x]"
| "insert_by lt x (y # ys) = (if lt y x then y # insert_by lt x ys else x # y # ys)"

definition stable_sort_by :: "('a \<Rightarrow> 'a \<Rightarrow> bool) \<Rightarrow> 'a list \<Rightarrow> 'a list" where
  "stable_sort_by lt xs = foldr (insert_by lt) xs []"

locale strict_weak_order =
  fixes lt :: "'a \<Rightarrow> 'a \<Rightarrow> bool"
  assumes asym: "lt x y \<Longrightarrow> \<not> lt y x"
    and incomparable_trans: "\<not> lt x y \<Longrightarrow> \<not> lt y z \<Longrightarrow> \<not> lt x z"
begin

definition equivalent :: "'a \<Rightarrow> 'a \<Rightarrow> bool" where
  "equivalent x y \<longleftrightarrow> \<not> lt x y \<and> \<not> lt y x"

definition ordered :: "'a list \<Rightarrow> bool" where
  "ordered xs \<longleftrightarrow> sorted_wrt (\<lambda>x y. \<not> lt y x) xs"

lemma mset_insert_by: "mset (insert_by lt x xs) = add_mset x (mset xs)"
  by (induction xs) auto

lemma set_insert_by: "set (insert_by lt x xs) = insert x (set xs)"
  by (induction xs) auto

lemma ordered_insert_by: "ordered xs \<Longrightarrow> ordered (insert_by lt x xs)"
  unfolding ordered_def
  by (induction xs) (auto simp: set_insert_by dest: asym, blast dest: incomparable_trans)

lemma insert_by_equivalent:
  "ordered xs \<Longrightarrow> filter (equivalent z) (insert_by lt x xs) =
     (if equivalent z x then x # filter (equivalent z) xs else filter (equivalent z) xs)"
proof (induction xs)
  case (Cons y ys)
  then have "ordered ys" by (simp add: ordered_def)
  show ?case
  proof (cases "lt y x")
    case True
    then have "equivalent z x \<Longrightarrow> \<not> equivalent z y"
      unfolding equivalent_def using incomparable_trans by blast
    with True Cons.IH \<open>ordered ys\<close> show ?thesis by auto
  qed simp
qed simp

lemma sort_mset: "mset (stable_sort_by lt xs) = mset xs"
  unfolding stable_sort_by_def by (induction xs) (auto simp: mset_insert_by)

lemma sort_set: "set (stable_sort_by lt xs) = set xs"
  using sort_mset mset_eq_setD by blast

lemma sort_ordered: "ordered (stable_sort_by lt xs)"
  unfolding stable_sort_by_def
  by (induction xs) (simp add: ordered_def, simp add: ordered_insert_by)

lemma sort_stable: "filter (equivalent z) (stable_sort_by lt xs) = filter (equivalent z) xs"
  unfolding stable_sort_by_def
proof (induction xs)
  case (Cons x xs)
  have "ordered (foldr (insert_by lt) xs [])"
    using sort_ordered unfolding stable_sort_by_def .
  with Cons show ?case by (simp add: insert_by_equivalent)
qed simp

end

text \<open>\<^verbatim>\<open>std::ranges::sort\<close> followed by \<^verbatim>\<open>std::ranges::unique\<close> on a total order.\<close>

lemma sorted_remdups_adj_sort: "sorted (remdups_adj (sort xs))"
  by (simp add: sorted_remdups_adj)

lemma distinct_remdups_adj_sorted: "sorted xs \<Longrightarrow> distinct (remdups_adj xs)"
  by (induction xs rule: remdups_adj.induct) auto

lemma distinct_remdups_adj_sort: "distinct (remdups_adj (sort xs))"
  by (simp add: distinct_remdups_adj_sorted)


section \<open>Numbers as text\<close>

text \<open>\<^verbatim>\<open>std::to_string\<close> and \<^verbatim>\<open>std::format("{}")\<close> on integers: decimal, a minus sign in front.\<close>

definition digit_char :: "nat \<Rightarrow> char" where
  "digit_char d = char_of (48 + d)"

fun nat_to_string :: "nat \<Rightarrow> bytes" where
  "nat_to_string n =
     (if n < 10 then [digit_char n] else nat_to_string (n div 10) @ [digit_char (n mod 10)])"

declare nat_to_string.simps [simp del]

definition to_string :: "int \<Rightarrow> bytes" where
  "to_string i = (if i < 0 then CHR ''-'' # nat_to_string (nat (- i)) else nat_to_string (nat i))"

text \<open>\<^verbatim>\<open>static_cast<int>\<close> of a wider count.\<close>

definition to_int32 :: "int \<Rightarrow> int" where
  "to_int32 v = (v + 2 ^ 31) mod 2 ^ 32 - 2 ^ 31"

definition digit_value :: "char \<Rightarrow> nat" where
  "digit_value c = byte c - 48"

definition nat_of_digits :: "bytes \<Rightarrow> nat" where
  "nat_of_digits s = foldl (\<lambda>n c. n * 10 + digit_value c) 0 s"

text \<open>Sign and digits as \<^verbatim>\<open>strtol\<close> and its relatives find them, white space first.\<close>

definition signed_digits :: "bytes \<Rightarrow> bool \<times> bytes" where
  "signed_digits s =
     (let r = dropWhile isspace s;
          signed = (r \<noteq> [] \<and> (hd r = CHR ''-'' \<or> hd r = CHR ''+''))
      in (r \<noteq> [] \<and> hd r = CHR ''-'', takeWhile isdigit (if signed then tl r else r)))"

text \<open>\<^verbatim>\<open>strtoull\<close>: saturates at the largest value, a minus sign negates modulo \<open>2 ^ 64\<close>.\<close>

definition strtoull :: "bytes \<Rightarrow> nat" where
  "strtoull s =
     (case signed_digits s of (neg, ds) \<Rightarrow>
        let v = int (nat_of_digits ds)
        in nat (if 2 ^ 64 \<le> v then 2 ^ 64 - 1 else if neg then (2 ^ 64 - v) mod 2 ^ 64 else v))"

text \<open>\<^verbatim>\<open>strtol\<close> and \<^verbatim>\<open>atoll\<close> saturate at 64 bits; \<^verbatim>\<open>atoi\<close> is the former cut to 32 bits.\<close>

definition atoll :: "bytes \<Rightarrow> int" where
  "atoll s =
     (case signed_digits s of (neg, ds) \<Rightarrow>
        let v = (if neg then - int (nat_of_digits ds) else int (nat_of_digits ds))
        in max (- (2 ^ 63)) (min (2 ^ 63 - 1) v))"

definition atoi :: "bytes \<Rightarrow> int" where
  "atoi s = (atoll s + 2 ^ 31) mod 2 ^ 32 - 2 ^ 31"

lemma isdigit_digit_char [simp]: "d < 10 \<Longrightarrow> isdigit (digit_char d)"
  by (simp add: digit_char_def isdigit_def)

lemma digit_value_digit_char [simp]: "d < 10 \<Longrightarrow> digit_value (digit_char d) = d"
  by (simp add: digit_char_def digit_value_def)

lemma digit_char_eval:
  "digit_char 0 = CHR ''0''" "digit_char (Suc 0) = CHR ''1''" "digit_char 1 = CHR ''1''"
  "digit_char 2 = CHR ''2''" "digit_char 3 = CHR ''3''" "digit_char 4 = CHR ''4''"
  "digit_char 5 = CHR ''5''" "digit_char 6 = CHR ''6''" "digit_char 7 = CHR ''7''"
  "digit_char 8 = CHR ''8''" "digit_char 9 = CHR ''9''"
  by code_simp+

lemma nat_to_string_nonempty [simp]: "nat_to_string n \<noteq> []"
  by (subst nat_to_string.simps) simp

lemma nat_to_string_digits: "list_all isdigit (nat_to_string n)"
proof (induction n rule: nat_to_string.induct)
  case (1 n)
  then show ?case by (cases "n < 10") (simp_all add: nat_to_string.simps [of n])
qed

lemma nat_of_digits_snoc: "nat_of_digits (s @ [c]) = nat_of_digits s * 10 + digit_value c"
  by (simp add: nat_of_digits_def)

lemma nat_of_digits_to_string [simp]: "nat_of_digits (nat_to_string n) = n"
proof (induction n rule: nat_to_string.induct)
  case (1 n)
  show ?case
  proof (cases "n < 10")
    case True
    then show ?thesis by (simp add: nat_to_string.simps [of n] nat_of_digits_def)
  next
    case False
    with "1.IH" show ?thesis by (simp add: nat_to_string.simps [of n] nat_of_digits_snoc)
  qed
qed


text \<open>
  \<^verbatim>\<open>std::stoi\<close>, \<^verbatim>\<open>std::stol\<close> and \<^verbatim>\<open>std::stoll\<close>: leading white space, an optional sign, then the longest run
  of digits; what follows is ignored. No digits (\<^verbatim>\<open>std::invalid_argument\<close>) and a value outside the
  type (\<^verbatim>\<open>std::out_of_range\<close>) are \<open>None\<close>. \<open>int_range\<close> is the 32-bit \<^verbatim>\<open>int\<close>, \<open>long_range\<close> the 64-bit
  \<^verbatim>\<open>long\<close> and \<^verbatim>\<open>long long\<close>.
\<close>

definition int_range :: "int \<Rightarrow> bool" where
  "int_range i \<longleftrightarrow> - (2 ^ 31) \<le> i \<and> i < 2 ^ 31"

definition long_range :: "int \<Rightarrow> bool" where
  "long_range i \<longleftrightarrow> - (2 ^ 63) \<le> i \<and> i < 2 ^ 63"

definition read_integer :: "(int \<Rightarrow> bool) \<Rightarrow> bytes \<Rightarrow> int option" where
  "read_integer fits s =
     (let r = dropWhile isspace s;
          neg = (r \<noteq> [] \<and> hd r = CHR ''-'');
          ds = takeWhile isdigit (if r \<noteq> [] \<and> (hd r = CHR ''-'' \<or> hd r = CHR ''+'') then tl r else r);
          v = (if neg then - int (nat_of_digits ds) else int (nat_of_digits ds))
      in if ds = [] then None else if fits v then Some v else None)"

definition stoi :: "bytes \<Rightarrow> int option" where
  "stoi = read_integer int_range"

definition stol :: "bytes \<Rightarrow> int option" where
  "stol = read_integer long_range"

lemma isdigit_not_isspace: "isdigit c \<Longrightarrow> \<not> isspace c"
  by (auto simp: isdigit_def isspace_def)

lemma isdigit_not_sign: "isdigit c \<Longrightarrow> c \<noteq> CHR ''-'' \<and> c \<noteq> CHR ''+''"
  by (auto simp: isdigit_def byte_def)

lemma read_integer_nat_to_string:
  assumes "fits (int n)"
  shows "read_integer fits (nat_to_string n) = Some (int n)"
proof -
  obtain c r where cr: "nat_to_string n = c # r"
    using nat_to_string_nonempty by (metis neq_Nil_conv)
  with nat_to_string_digits [of n] have "isdigit c" "list_all isdigit (c # r)" by auto
  then have "dropWhile isspace (nat_to_string n) = c # r" "takeWhile isdigit r = r"
    by (auto simp: cr isdigit_not_isspace takeWhile_eq_all_conv list_all_iff)
  with \<open>isdigit c\<close> assms show ?thesis
    unfolding read_integer_def Let_def
    by (simp add: isdigit_not_sign nat_of_digits_to_string [of n, unfolded cr]
        del: takeWhile_eq_all_conv)
qed

lemma stoi_nat_to_string: "int n < 2 ^ 31 \<Longrightarrow> stoi (nat_to_string n) = Some (int n)"
  by (simp add: stoi_def read_integer_nat_to_string int_range_def)

lemma stol_nat_to_string: "int n < 2 ^ 63 \<Longrightarrow> stol (nat_to_string n) = Some (int n)"
  by (simp add: stol_def read_integer_nat_to_string long_range_def)


section \<open>Computations that may throw\<close>

text \<open>\<open>Inl\<close> is an exception under way: what follows it is not run.\<close>

fun on_result :: "'e + 'a \<Rightarrow> ('a \<Rightarrow> 'e + 'b) \<Rightarrow> 'e + 'b" where
  "on_result (Inl e) f = Inl e"
| "on_result (Inr x) f = f x"

fun map_result :: "('a \<Rightarrow> 'e + 'b) \<Rightarrow> 'a list \<Rightarrow> 'e + 'b list" where
  "map_result f [] = Inr []"
| "map_result f (x # xs) = on_result (f x) (\<lambda>y. on_result (map_result f xs) (\<lambda>ys. Inr (y # ys)))"

lemma map_result_cong [fundef_cong]:
  "xs = ys \<Longrightarrow> (\<And>x. x \<in> set ys \<Longrightarrow> f x = g x) \<Longrightarrow> map_result f xs = map_result g ys"
  by (induction ys arbitrary: xs) auto

lemma on_result_Inr: "on_result r f = Inr y \<longleftrightarrow> (\<exists>x. r = Inr x \<and> f x = Inr y)"
  by (cases r) auto

lemma map_result_Inr: "map_result f xs = Inr ys \<longleftrightarrow> list_all2 (\<lambda>x y. f x = Inr y) xs ys"
  by (induction xs arbitrary: ys) (auto simp: on_result_Inr list_all2_Cons1)


section \<open>Joining\<close>

text \<open>
  Two loops occur in the sources. \<open>join_with\<close> puts the separator before every element but the
  first (\<^verbatim>\<open>if (i > 0) out += sep\<close>). \<open>join_nonempty\<close> puts it wherever something has been written
  already (\<^verbatim>\<open>if (!out.empty()) out += sep\<close>), so leading empty elements leave no separator.
\<close>

fun join_with :: "bytes \<Rightarrow> bytes list \<Rightarrow> bytes" where
  "join_with sep [] = []"
| "join_with sep [x] = x"
| "join_with sep (x # y # zs) = x @ sep @ join_with sep (y # zs)"

fun join_nonempty :: "bytes \<Rightarrow> bytes \<Rightarrow> bytes list \<Rightarrow> bytes" where
  "join_nonempty sep out [] = out"
| "join_nonempty sep out (x # xs) =
     join_nonempty sep (if out = [] then x else out @ sep @ x) xs"

lemma join_with_Cons: "join_with sep (x # xs) = x @ concat (map ((@) sep) xs)"
  by (induction xs arbitrary: x) auto

lemma join_nonempty_acc:
  "out \<noteq> [] \<Longrightarrow> join_nonempty sep out xs = out @ concat (map ((@) sep) xs)"
  by (induction xs arbitrary: out) auto

lemma join_nonempty_eq_join_with:
  "list_all (\<lambda>x. x \<noteq> []) xs \<Longrightarrow> join_nonempty sep [] xs = join_with sep xs"
  by (cases xs) (auto simp: join_nonempty_acc join_with_Cons)


section \<open>Searching for the best match\<close>

text \<open>
  A loop that keeps the first candidate of the highest rank: \<^verbatim>\<open>if (rank > bestRank) { bestRank = rank;
  best = &x; }\<close> with \<^verbatim>\<open>bestRank\<close> starting at -1.
\<close>

locale ranked_search =
  fixes ok :: "'a \<Rightarrow> bool"
    and rank :: "'a \<Rightarrow> int"
  assumes rank_nonneg: "0 \<le> rank x"
begin

definition keep_better :: "'a option \<times> int \<Rightarrow> 'a \<Rightarrow> 'a option \<times> int" where
  "keep_better st x = (if ok x \<and> rank x > snd st then (Some x, rank x) else st)"

definition best :: "'a list \<Rightarrow> 'a option" where
  "best xs = fst (foldl keep_better (None, -1) xs)"

definition search_inv :: "'a list \<Rightarrow> 'a option \<times> int \<Rightarrow> bool" where
  "search_inv xs st \<longleftrightarrow>
     (case fst st of
        None \<Rightarrow> snd st = -1 \<and> (\<forall>x\<in>set xs. \<not> ok x)
      | Some x \<Rightarrow> snd st = rank x \<and> ok x \<and>
          (\<exists>pre post. xs = pre @ x # post \<and> (\<forall>y\<in>set pre. ok y \<longrightarrow> rank y < rank x) \<and>
             (\<forall>y\<in>set post. ok y \<longrightarrow> rank y \<le> rank x)))"

lemma search_inv_step: "search_inv xs st \<Longrightarrow> search_inv (xs @ [y]) (keep_better st y)"
proof -
  assume inv: "search_inv xs st"
  show ?thesis
  proof (cases "fst st")
    case None
    with inv have none: "snd st = -1" "\<forall>x\<in>set xs. \<not> ok x" by (simp_all add: search_inv_def)
    moreover have "xs @ [y] = xs @ y # []" by simp
    ultimately show ?thesis
      using rank_nonneg [of y] None unfolding search_inv_def keep_better_def by fastforce
  next
    case (Some x)
    with inv obtain pre post where xs: "xs = pre @ x # post" and st: "snd st = rank x" "ok x"
      and "\<forall>z\<in>set pre. ok z \<longrightarrow> rank z < rank x" "\<forall>z\<in>set post. ok z \<longrightarrow> rank z \<le> rank x"
      by (auto simp: search_inv_def)
    then have all: "\<forall>z\<in>set xs. ok z \<longrightarrow> rank z \<le> rank x" by auto
    show ?thesis
    proof (cases "ok y \<and> rank y > snd st")
      case True
      then have "keep_better st y = (Some y, rank y)" by (simp add: keep_better_def)
      moreover have "\<forall>z\<in>set xs. ok z \<longrightarrow> rank z < rank y" using all True st by auto
      moreover have "xs @ [y] = xs @ y # []" by simp
      ultimately show ?thesis using True unfolding search_inv_def by fastforce
    next
      case False
      then have "keep_better st y = st" by (auto simp: keep_better_def)
      moreover have "xs @ [y] = pre @ x # (post @ [y])" using xs by simp
      moreover have "\<forall>z\<in>set (post @ [y]). ok z \<longrightarrow> rank z \<le> rank x"
        using False st \<open>\<forall>z\<in>set post. ok z \<longrightarrow> rank z \<le> rank x\<close> by auto
      ultimately show ?thesis
        using Some st \<open>\<forall>z\<in>set pre. ok z \<longrightarrow> rank z < rank x\<close> unfolding search_inv_def
        by (simp only: option.case) blast
    qed
  qed
qed

lemma search_inv_all: "search_inv xs (foldl keep_better (None, -1) xs)"
proof (induction xs rule: rev_induct)
  case Nil
  show ?case by (simp add: search_inv_def)
next
  case (snoc y xs)
  from search_inv_step [OF this, of y] show ?case by simp
qed

lemma best_None: "best xs = None \<longleftrightarrow> (\<forall>x\<in>set xs. \<not> ok x)"
  using search_inv_all [of xs] by (auto simp: best_def search_inv_def split: option.splits)

lemma best_Some:
  assumes "best xs = Some x"
  shows "ok x" "x \<in> set xs" "\<And>y. y \<in> set xs \<Longrightarrow> ok y \<Longrightarrow> rank y \<le> rank x"
    "\<exists>pre post. xs = pre @ x # post \<and> (\<forall>y\<in>set pre. ok y \<longrightarrow> rank y < rank x)"
proof -
  from search_inv_all [of xs] assms obtain pre post where x: "ok x" "xs = pre @ x # post"
    and "\<forall>y\<in>set pre. ok y \<longrightarrow> rank y < rank x" "\<forall>y\<in>set post. ok y \<longrightarrow> rank y \<le> rank x"
    by (auto simp: best_def search_inv_def)
  then show "ok x" "x \<in> set xs" "\<And>y. y \<in> set xs \<Longrightarrow> ok y \<Longrightarrow> rank y \<le> rank x"
    "\<exists>pre post. xs = pre @ x # post \<and> (\<forall>y\<in>set pre. ok y \<longrightarrow> rank y < rank x)"
    by fastforce+
qed

end

end
