(* ===== verification/Sql_Text.thy ===== *)
theory Sql_Text
  imports Dearsql_Prelude "HOL-Library.Sublist"
begin

text \<open>
  The string helpers at the top of \<^verbatim>\<open>src/completion.cpp\<close>: ASCII case folding, case-insensitive
  comparison and search, the subsequence test, the dotted-path splitter and the identifier
  byte classes. Each hand-written loop is shown to compute its mathematical meaning, so the
  components above reason with case-folded equality, \<open>subseq\<close> and \<open>join_with\<close>.
\<close>

section \<open>Case folding\<close>

definition lowerc :: "char \<Rightarrow> char" where
  "lowerc c = (if isupper c then char_of (byte c - 65 + 97) else c)"

definition upperc :: "char \<Rightarrow> char" where
  "upperc c = (if islower c then char_of (byte c - 97 + 65) else c)"

definition lower :: "bytes \<Rightarrow> bytes" where
  "lower s = map lowerc s"

definition upper :: "bytes \<Rightarrow> bytes" where
  "upper s = map upperc s"

definition ieq :: "bytes \<Rightarrow> bytes \<Rightarrow> bool" where
  "ieq a b \<longleftrightarrow> length a = length b \<and> (\<forall>i\<in>set [0..<length a]. lowerc (a ! i) = lowerc (b ! i))"

definition istartsWith :: "bytes \<Rightarrow> bytes \<Rightarrow> bool" where
  "istartsWith s p \<longleftrightarrow> length p \<le> length s \<and> ieq (substr s 0 (length p)) p"

definition ifind :: "bytes \<Rightarrow> bytes \<Rightarrow> nat \<Rightarrow> nat option" where
  "ifind s p start =
     (if p = [] then Some start
      else List.find (\<lambda>i. ieq (substr s i (length p)) p) [start..<Suc (length s) - length p])"

fun subsequence_scan :: "bytes \<Rightarrow> bytes \<Rightarrow> bool" where
  "subsequence_scan s [] = True"
| "subsequence_scan [] (d # p) = False"
| "subsequence_scan (c # s) (d # p) =
     (if lowerc c = lowerc d then subsequence_scan s p else subsequence_scan s (d # p))"

definition isSubsequence :: "bytes \<Rightarrow> bytes \<Rightarrow> bool" where
  "isSubsequence s p = subsequence_scan s p"

text \<open>
  \<^verbatim>\<open>iless\<close> compares plain \<^verbatim>\<open>char\<close> values, which are signed on the supported x86-64 and Apple
  targets: a byte from 128 up counts as negative there.
\<close>

definition signed_byte :: "char \<Rightarrow> int" where
  "signed_byte c = (if byte c < 128 then int (byte c) else int (byte c) - 256)"

fun iless :: "bytes \<Rightarrow> bytes \<Rightarrow> bool" where
  "iless a [] = False"
| "iless [] (y # b) = True"
| "iless (x # a) (y # b) =
     (if signed_byte (lowerc x) < signed_byte (lowerc y) then True
      else if signed_byte (lowerc y) < signed_byte (lowerc x) then False
      else iless a b)"


section \<open>Dotted paths and identifier bytes\<close>

fun split_dots :: "bytes \<Rightarrow> bytes \<Rightarrow> bytes list" where
  "split_dots part [] = [part]"
| "split_dots part (c # s) =
     (if c = CHR ''.'' then part # split_dots [] s else split_dots (part @ [c]) s)"

definition splitPath :: "bytes \<Rightarrow> bytes list" where
  "splitPath path = (if path = [] then [] else split_dots [] path)"

definition isIdentStartByte :: "char \<Rightarrow> bool" where
  "isIdentStartByte c \<longleftrightarrow> isalpha c \<or> c = CHR ''_'' \<or> 128 \<le> byte c"

definition isIdentByte :: "char \<Rightarrow> bool" where
  "isIdentByte c \<longleftrightarrow> isalnum c \<or> c = CHR ''_'' \<or> c = CHR ''$'' \<or> 128 \<le> byte c"

lemmas [char_class] = isIdentStartByte_def isIdentByte_def


section \<open>What the loops compute\<close>

lemma lowerc_tolower: "lowerc = tolower"
  by (rule ext) (simp add: lowerc_def tolower_def isupper_def)

lemma upperc_toupper: "upperc = toupper"
  by (rule ext) (auto simp: upperc_def toupper_def islower_def)

lemma upper_lower_iff: "upper a = upper b \<longleftrightarrow> lower a = lower b"
  unfolding upper_def lower_def lowerc_tolower upperc_toupper
proof (induction a arbitrary: b)
  case (Cons c a)
  show ?case
    by (cases b) (simp, simp only: list.map list.inject tolower_eq_iff_toupper_eq Cons.IH)
qed auto

lemma ieq_lower: "ieq a b \<longleftrightarrow> lower a = lower b"
  unfolding ieq_def lower_def by (subst list_eq_iff_nth_eq) auto

lemma ieq_refl [simp]: "ieq a a"
  by (simp add: ieq_lower)

lemma ieq_sym: "ieq a b \<longleftrightarrow> ieq b a"
  by (auto simp: ieq_lower)

lemma ieq_trans: "ieq a b \<Longrightarrow> ieq b c \<Longrightarrow> ieq a c"
  by (simp add: ieq_lower)

lemma ieq_length: "ieq a b \<Longrightarrow> length a = length b"
  by (simp add: ieq_def)

lemma istartsWith_lower: "istartsWith s p \<longleftrightarrow> (\<exists>r. lower s = lower p @ r)"
proof
  assume "istartsWith s p"
  then have "lower (take (length p) s) = lower p"
    by (simp add: istartsWith_def substr_def ieq_lower)
  then have "lower s = lower p @ lower (drop (length p) s)"
    by (metis append_take_drop_id lower_def map_append)
  then show "\<exists>r. lower s = lower p @ r" by blast
next
  assume "\<exists>r. lower s = lower p @ r"
  then obtain r where r: "lower s = lower p @ r" by blast
  then have "length (lower s) = length (lower p) + length r" by simp
  then have len: "length p \<le> length s" by (simp add: lower_def)
  have "lower (take (length p) s) = take (length (lower p)) (lower s)"
    by (simp add: lower_def take_map)
  with r len show "istartsWith s p"
    by (simp add: istartsWith_def substr_def ieq_lower)
qed

lemma ifind_Some:
  assumes "ifind s p a = Some k" "p \<noteq> []"
  shows "a \<le> k" "k + length p \<le> length s" "ieq (substr s k (length p)) p"
    "\<And>j. a \<le> j \<Longrightarrow> j < k \<Longrightarrow> \<not> ieq (substr s j (length p)) p"
  using find_upt_Some [of "\<lambda>i. ieq (substr s i (length p)) p" a "Suc (length s) - length p" k] assms
  by (simp_all add: ifind_def)

lemma subsequence_scan_subseq: "subsequence_scan s p \<longleftrightarrow> subseq (lower p) (lower s)"
proof (induction s p rule: subsequence_scan.induct)
  case (3 c s d p)
  then show ?case by (simp add: lower_def)
qed (simp_all add: lower_def)

lemma isSubsequence_subseq: "isSubsequence s p \<longleftrightarrow> subseq (lower p) (lower s)"
  by (simp add: isSubsequence_def subsequence_scan_subseq)

lemma ifind_isSubsequence:
  assumes "ifind s p a = Some k" "p \<noteq> []"
  shows "isSubsequence s p"
proof -
  from ifind_Some(3) [OF assms] have "lower (take (length p) (drop k s)) = lower p"
    by (simp add: substr_def ieq_lower)
  moreover have "lower s = lower (take k s) @ lower (take (length p) (drop k s)) @ lower (drop (length p) (drop k s))"
    by (metis append_take_drop_id lower_def map_append)
  ultimately have "lower s = lower (take k s) @ lower p @ lower (drop (length p) (drop k s))"
    by simp
  then show ?thesis
    by (metis isSubsequence_subseq list_emb_append2 subseq_drop_many subseq_order.order_refl list_emb_prefix)
qed

lemma signed_byte_inject: "signed_byte c = signed_byte d \<longleftrightarrow> c = d"
  unfolding signed_byte_def using byte_less_256 [of c] byte_less_256 [of d]
  by (auto split: if_splits simp flip: byte_inject)

lemma iless_irrefl [simp]: "\<not> iless a a"
  by (induction a) auto

lemma iless_lower: "iless a b \<longleftrightarrow> iless (lower a) (lower b)"
  by (induction a b rule: iless.induct) (auto simp: lower_def lowerc_tolower)

lemma iless_asym: "iless a b \<Longrightarrow> \<not> iless b a"
  by (induction a b rule: iless.induct) (auto split: if_splits)

lemma iless_incomparable: "\<not> iless a b \<Longrightarrow> \<not> iless b a \<Longrightarrow> ieq a b"
proof (induction a b rule: iless.induct)
  case (1 a)
  then show ?case by (cases a) auto
next
  case (3 x a y b)
  then have "signed_byte (lowerc x) = signed_byte (lowerc y)" "ieq a b"
    by (auto split: if_splits)
  then show ?case by (simp add: ieq_lower lower_def signed_byte_inject)
qed simp

lemma iless_trans: "iless a b \<Longrightarrow> iless b c \<Longrightarrow> iless a c"
proof (induction a b arbitrary: c rule: iless.induct)
  case (2 y b)
  then show ?case by (cases c) auto
next
  case (3 x a y b)
  then show ?case by (cases c) (auto split: if_splits)
qed simp

lemma iless_cong: "ieq a a' \<Longrightarrow> ieq b b' \<Longrightarrow> iless a b \<longleftrightarrow> iless a' b'"
  by (metis ieq_lower iless_lower)

interpretation iless_order: strict_weak_order iless
proof
  show "\<And>x y. iless x y \<Longrightarrow> \<not> iless y x" by (rule iless_asym)
  show "\<And>x y z. \<not> iless x y \<Longrightarrow> \<not> iless y z \<Longrightarrow> \<not> iless x z"
    by (metis iless_cong iless_incomparable iless_trans ieq_refl)
qed

lemma split_dots_nonempty [simp]: "split_dots part s \<noteq> []"
  by (induction part s rule: split_dots.induct) auto

lemma split_dots_join: "join_with ''.'' (split_dots part s) = part @ s"
proof (induction part s rule: split_dots.induct)
  case (2 part c s)
  obtain x xs where "split_dots [] s = x # xs"
    by (cases "split_dots [] s") auto
  with 2 show ?case by auto
qed simp

lemma splitPath_join: "join_with ''.'' (splitPath p) = p"
  by (simp add: splitPath_def split_dots_join)

lemma split_dots_no_dot:
  "CHR ''.'' \<notin> set part \<Longrightarrow> list_all (\<lambda>x. CHR ''.'' \<notin> set x) (split_dots part s)"
  by (induction part s rule: split_dots.induct) auto

lemma isIdentStart_isIdent: "isIdentStartByte c \<Longrightarrow> isIdentByte c"
  by (auto simp: isIdentStartByte_def isIdentByte_def isalnum_def)

lemma isIdentByte_not_isspace: "isIdentByte c \<Longrightarrow> \<not> isspace c"
  by (auto simp: isIdentByte_def isspace_def dest: isalnum_not_isspace simp: byte_def)

end
