(* ===== verification/Connection_Info.thy ===== *)
theory Connection_Info
  imports Dearsql_Prelude
begin

text \<open>
  \<^verbatim>\<open>include/dearsql/connection_info.hpp\<close> and \<^verbatim>\<open>src/connection_info.cpp\<close>: the database and TLS mode
  enumerations with their text forms, the connection record shared by every backend, and the
  connection strings built from it. The lemmas are the round trips of the text forms, and that
  the two escaping routines are injective encodings whose output cannot end the value early.
\<close>


section \<open>Enumerations\<close>

datatype DatabaseType =
    SQLITE | POSTGRESQL | MYSQL | MARIADB | REDIS | MONGODB | MSSQL | ORACLE | REDSHIFT
  | CASSANDRA | DUCKDB | TIDB | COCKROACHDB | S3

datatype SslMode = Disable | Allow | Prefer | Require | VerifyCA | VerifyFull | VerifyIdentity

text \<open>The numeric value of an enumerator (\<^verbatim>\<open>static_cast<size_t>(type)\<close>) and its inverse.\<close>

fun type_index :: "DatabaseType \<Rightarrow> nat" where
  "type_index SQLITE = 0"
| "type_index POSTGRESQL = 1"
| "type_index MYSQL = 2"
| "type_index MARIADB = 3"
| "type_index REDIS = 4"
| "type_index MONGODB = 5"
| "type_index MSSQL = 6"
| "type_index ORACLE = 7"
| "type_index REDSHIFT = 8"
| "type_index CASSANDRA = 9"
| "type_index DUCKDB = 10"
| "type_index TIDB = 11"
| "type_index COCKROACHDB = 12"
| "type_index S3 = 13"

definition all_types :: "DatabaseType list" where
  "all_types = [SQLITE, POSTGRESQL, MYSQL, MARIADB, REDIS, MONGODB, MSSQL, ORACLE, REDSHIFT,
     CASSANDRA, DUCKDB, TIDB, COCKROACHDB, S3]"

instantiation DatabaseType :: linorder
begin

definition less_eq_DatabaseType :: "DatabaseType \<Rightarrow> DatabaseType \<Rightarrow> bool" where
  "less_eq_DatabaseType a b \<longleftrightarrow> type_index a \<le> type_index b"

definition less_DatabaseType :: "DatabaseType \<Rightarrow> DatabaseType \<Rightarrow> bool" where
  "less_DatabaseType a b \<longleftrightarrow> type_index a < type_index b"

instance
proof
  fix a b :: DatabaseType
  assume "a \<le> b" "b \<le> a"
  then show "a = b"
    by (cases a; cases b; simp add: less_eq_DatabaseType_def)
qed (auto simp: less_eq_DatabaseType_def less_DatabaseType_def)

end

fun sslModeToString :: "SslMode \<Rightarrow> bytes" where
  "sslModeToString Disable = ''disable''"
| "sslModeToString Allow = ''allow''"
| "sslModeToString Prefer = ''prefer''"
| "sslModeToString Require = ''require''"
| "sslModeToString VerifyCA = ''verify-ca''"
| "sslModeToString VerifyFull = ''verify-full''"
| "sslModeToString VerifyIdentity = ''verify-identity''"

definition stringToSslMode :: "bytes \<Rightarrow> SslMode" where
  "stringToSslMode str =
     (if str = ''disable'' then Disable
      else if str = ''allow'' then Allow
      else if str = ''prefer'' then Prefer
      else if str = ''require'' then Require
      else if str = ''verify-ca'' then VerifyCA
      else if str = ''verify-full'' then VerifyFull
      else if str = ''verify-identity'' then VerifyIdentity
      else Prefer)"

fun databaseTypeToString :: "DatabaseType \<Rightarrow> bytes" where
  "databaseTypeToString SQLITE = ''sqlite''"
| "databaseTypeToString POSTGRESQL = ''postgresql''"
| "databaseTypeToString MYSQL = ''mysql''"
| "databaseTypeToString MARIADB = ''mariadb''"
| "databaseTypeToString REDIS = ''redis''"
| "databaseTypeToString MONGODB = ''mongodb''"
| "databaseTypeToString MSSQL = ''mssql''"
| "databaseTypeToString ORACLE = ''oracle''"
| "databaseTypeToString REDSHIFT = ''redshift''"
| "databaseTypeToString CASSANDRA = ''cassandra''"
| "databaseTypeToString DUCKDB = ''duckdb''"
| "databaseTypeToString TIDB = ''tidb''"
| "databaseTypeToString COCKROACHDB = ''cockroachdb''"
| "databaseTypeToString S3 = ''s3''"

definition stringToDatabaseType :: "bytes \<Rightarrow> DatabaseType" where
  "stringToDatabaseType s =
     (if s = ''sqlite'' then SQLITE
      else if s = ''postgresql'' \<or> s = ''postgres'' then POSTGRESQL
      else if s = ''mysql'' then MYSQL
      else if s = ''mariadb'' then MARIADB
      else if s = ''redis'' then REDIS
      else if s = ''mongodb'' \<or> s = ''mongo'' then MONGODB
      else if s = ''mssql'' then MSSQL
      else if s = ''oracle'' then ORACLE
      else if s = ''redshift'' then REDSHIFT
      else if s = ''cassandra'' then CASSANDRA
      else if s = ''duckdb'' then DUCKDB
      else if s = ''tidb'' then TIDB
      else if s = ''cockroachdb'' \<or> s = ''cockroach'' \<or> s = ''crdb'' then COCKROACHDB
      else if s = ''s3'' then S3
      else SQLITE)"

definition isPostgresFamily :: "DatabaseType \<Rightarrow> bool" where
  "isPostgresFamily t \<longleftrightarrow> t = POSTGRESQL \<or> t = REDSHIFT \<or> t = COCKROACHDB"

definition isMySQLFamily :: "DatabaseType \<Rightarrow> bool" where
  "isMySQLFamily t \<longleftrightarrow> t = MYSQL \<or> t = MARIADB \<or> t = TIDB"

text \<open>
  \<^verbatim>\<open>std::filesystem::path(path).extension()\<close> on POSIX: the file name is what follows the last
  slash; the extension starts at its last dot, and there is none in \<open>.\<close>, in \<open>..\<close>, without a dot
  or when the only dot leads the name.
\<close>

definition path_filename :: "bytes \<Rightarrow> bytes" where
  "path_filename p = rev (takeWhile (\<lambda>c. c \<noteq> CHR ''/'') (rev p))"

definition path_extension :: "bytes \<Rightarrow> bytes" where
  "path_extension p =
     (let f = path_filename p; tail = takeWhile (\<lambda>c. c \<noteq> CHR ''.'') (rev f)
      in if f = ''.'' \<or> f = ''..'' then []
         else if length tail + 1 \<ge> length f then []
         else CHR ''.'' # rev tail)"

definition isCsvPath :: "bytes \<Rightarrow> bool" where
  "isCsvPath p \<longleftrightarrow> map tolower (path_extension p) = ''.csv''"


section \<open>Connection strings\<close>

record ConnectionInfo =
  ci_type :: DatabaseType
  ci_name :: bytes
  ci_path :: bytes
  ci_host :: bytes
  ci_port :: int
  ci_database :: bytes
  ci_username :: bytes
  ci_password :: bytes
  ci_showAllDatabases :: bool
  ci_sslmode :: SslMode
  ci_sslCACertPath :: bytes
  ci_readOnly :: bool

definition default_info :: ConnectionInfo where
  "default_info = \<lparr>ci_type = SQLITE, ci_name = [], ci_path = [], ci_host = [], ci_port = 5432, ci_database = [],
     ci_username = [], ci_password = [], ci_showAllDatabases = False, ci_sslmode = Prefer, ci_sslCACertPath = [],
     ci_readOnly = False\<rparr>"

fun libpq_escape_chars :: "bytes \<Rightarrow> bytes" where
  "libpq_escape_chars [] = []"
| "libpq_escape_chars (ch # s) =
     (if ch = squote \<or> ch = backslash then [backslash, ch] else [ch]) @ libpq_escape_chars s"

definition escapeLibpqValue :: "bytes \<Rightarrow> bytes" where
  "escapeLibpqValue value = [squote] @ libpq_escape_chars value @ [squote]"

definition appendLibpqKeyword :: "bytes \<Rightarrow> bytes \<Rightarrow> bytes \<Rightarrow> bytes" where
  "appendLibpqKeyword connStr key value = connStr @ '' '' @ key @ ''='' @ escapeLibpqValue value"

definition hex_digit :: "nat \<Rightarrow> char" where
  "hex_digit n = ''0123456789ABCDEF'' ! n"

definition uri_unreserved :: "char \<Rightarrow> bool" where
  "uri_unreserved ch \<longleftrightarrow> isalnum ch \<or> ch = CHR ''-'' \<or> ch = CHR ''_'' \<or> ch = CHR ''.'' \<or> ch = CHR ''~''"

fun uriEncode :: "bytes \<Rightarrow> bytes" where
  "uriEncode [] = []"
| "uriEncode (ch # s) =
     (if uri_unreserved ch then [ch]
      else [CHR ''%'', hex_digit (byte ch div 16), hex_digit (byte ch mod 16)]) @ uriEncode s"

definition libpqConnectionString :: "ConnectionInfo \<Rightarrow> bytes \<Rightarrow> bytes" where
  "libpqConnectionString ci dbName =
     (let s0 = ''host='' @ escapeLibpqValue (ci_host ci) @ '' port='' @ to_string (ci_port ci);
          s1 = s0 @ '' connect_timeout=10'';
          s2 = appendLibpqKeyword s1 ''dbname''
                 (if dbName \<noteq> [] then dbName
                  else if ci_database ci \<noteq> [] then ci_database ci
                  else if ci_type ci = REDSHIFT then ''dev''
                  else if ci_type ci = COCKROACHDB then ''defaultdb''
                  else ''postgres'');
          s3 = (if ci_username ci \<noteq> [] then appendLibpqKeyword s2 ''user'' (ci_username ci) else s2);
          s4 = (if ci_password ci \<noteq> [] then appendLibpqKeyword s3 ''password'' (ci_password ci) else s3);
          s5 = s4 @ '' sslmode='' @ sslModeToString (ci_sslmode ci)
      in if (ci_sslmode ci = VerifyCA \<or> ci_sslmode ci = VerifyFull) \<and> ci_sslCACertPath ci \<noteq> []
         then appendLibpqKeyword s5 ''sslrootcert'' (ci_sslCACertPath ci) else s5)"

definition mysqlConnectionString :: "ConnectionInfo \<Rightarrow> bytes \<Rightarrow> bytes" where
  "mysqlConnectionString ci dbName =
     (let targetDb = (if dbName \<noteq> [] then dbName else ci_database ci);
          s0 = ''host='' @ ci_host ci @ '' port='' @ to_string (ci_port ci) @ '' dbname='' @ targetDb;
          s1 = (if ci_username ci \<noteq> [] then s0 @ '' user='' @ ci_username ci else s0)
      in if ci_password ci \<noteq> [] then s1 @ '' password='' @ ci_password ci else s1)"

definition mongoConnectionString :: "ConnectionInfo \<Rightarrow> bytes \<Rightarrow> bytes" where
  "mongoConnectionString ci dbName =
     (let s0 = ''mongodb://'';
          s1 = (if ci_username ci \<noteq> []
                then s0 @ uriEncode (ci_username ci)
                       @ (if ci_password ci \<noteq> [] then '':'' @ uriEncode (ci_password ci) else []) @ ''@''
                else s0);
          s2 = s1 @ ci_host ci @ '':'' @ to_string (ci_port ci);
          s3 = (if dbName \<noteq> [] then s2 @ ''/'' @ uriEncode dbName
                else if ci_database ci \<noteq> [] then s2 @ ''/'' @ uriEncode (ci_database ci) else s2)
      in if ci_sslmode ci = Require \<or> ci_sslmode ci = VerifyCA \<or> ci_sslmode ci = VerifyFull
         then s3 @ (if str_find_char (CHR ''?'') s3 0 \<noteq> None then ''&'' else ''?'') @ ''tls=true''
                @ (if ci_sslCACertPath ci \<noteq> [] then ''&tlsCAFile='' @ uriEncode (ci_sslCACertPath ci)
                   else if ci_sslmode ci = Require then ''&tlsAllowInvalidCertificates=true'' else [])
         else s3)"

definition buildConnectionString :: "ConnectionInfo \<Rightarrow> bytes \<Rightarrow> bytes" where
  "buildConnectionString ci dbName =
     (case ci_type ci of
        SQLITE \<Rightarrow> ci_path ci
      | DUCKDB \<Rightarrow> ci_path ci
      | COCKROACHDB \<Rightarrow> libpqConnectionString ci dbName
      | REDSHIFT \<Rightarrow> libpqConnectionString ci dbName
      | POSTGRESQL \<Rightarrow> libpqConnectionString ci dbName
      | MYSQL \<Rightarrow> mysqlConnectionString ci dbName
      | TIDB \<Rightarrow> mysqlConnectionString ci dbName
      | MARIADB \<Rightarrow> mysqlConnectionString ci dbName
      | REDIS \<Rightarrow> ''redis://'' @ ci_host ci @ '':'' @ to_string (ci_port ci)
      | MONGODB \<Rightarrow> mongoConnectionString ci dbName
      | MSSQL \<Rightarrow> ci_host ci @ '':'' @ to_string (ci_port ci)
      | ORACLE \<Rightarrow> ''//'' @ ci_host ci @ '':'' @ to_string (ci_port ci) @ ''/'' @ ci_database ci
      | CASSANDRA \<Rightarrow> ci_host ci @ '':'' @ to_string (ci_port ci)
      | S3 \<Rightarrow> ci_host ci @ '':'' @ to_string (ci_port ci))"

text \<open>
  Decoders used in the statements below, not part of the program: the quoting rule the libpq
  manual gives for connection strings (a value in single quotes, a backslash before a quote or
  a backslash), and percent decoding.
\<close>

fun libpq_read_value :: "bytes \<Rightarrow> (bytes \<times> bytes) option" where
  "libpq_read_value [] = None"
| "libpq_read_value (c # s) =
     (if c = squote then Some ([], s)
      else if c = backslash
      then (case s of [] \<Rightarrow> None
            | d # s' \<Rightarrow> map_option (\<lambda>(v, r). (d # v, r)) (libpq_read_value s'))
      else map_option (\<lambda>(v, r). (c # v, r)) (libpq_read_value s))"

definition libpq_unquote :: "bytes \<Rightarrow> (bytes \<times> bytes) option" where
  "libpq_unquote s = (case s of [] \<Rightarrow> None | c # r \<Rightarrow> if c = squote then libpq_read_value r else None)"

definition hex_value :: "char \<Rightarrow> nat option" where
  "hex_value c = List.find (\<lambda>i. ''0123456789ABCDEF'' ! i = c) [0..<16]"

fun uriDecode :: "bytes \<Rightarrow> bytes option" where
  "uriDecode [] = Some []"
| "uriDecode (c # s) =
     (if c = CHR ''%'' then
        (case s of h # l # s' \<Rightarrow>
           (case (hex_value h, hex_value l) of
              (Some a, Some b) \<Rightarrow> map_option ((#) (char_of (16 * a + b))) (uriDecode s')
            | _ \<Rightarrow> None)
         | _ \<Rightarrow> None)
      else map_option ((#) c) (uriDecode s))"


section \<open>Lemmas\<close>

lemma libpq_read_value_escaped:
  "libpq_read_value (libpq_escape_chars v @ squote # rest) = Some (v, rest)"
  by (induction v) auto

lemma hex_value_hex_digit: "n < 16 \<Longrightarrow> hex_value (hex_digit n) = Some n"
  unfolding hex_value_def hex_digit_def
  by (rule find_uptI) (auto simp: numeral_eq_Suc less_Suc_eq nth_Cons')

lemma byte_div_mod: "char_of (16 * (byte c div 16) + byte c mod 16) = c"
  by (simp add: byte_def)

lemma percent_not_unreserved: "\<not> uri_unreserved (CHR ''%'')"
  by (simp add: uri_unreserved_def char_class)

lemma byte_nibbles: "byte c div 16 < 16" "byte c mod 16 < 16"
  using byte_less_256 [of c] by auto

lemma uriEncode_Cons_decode:
  assumes "uriDecode s = Some t"
  shows "uriDecode ((if uri_unreserved ch then [ch]
      else [CHR ''%'', hex_digit (byte ch div 16), hex_digit (byte ch mod 16)]) @ s) = Some (ch # t)"
proof (cases "uri_unreserved ch")
  case True
  then have "ch \<noteq> CHR ''%''" using percent_not_unreserved by blast
  with True assms show ?thesis by simp
next
  case False
  with assms show ?thesis
    by (simp add: hex_value_hex_digit byte_nibbles byte_div_mod)
qed

lemma hex_digit_alnum: "n < 16 \<Longrightarrow> isalnum (hex_digit n)"
proof -
  assume "n < 16"
  then have "n \<in> set [0..<16]" by simp
  moreover have "list_all (\<lambda>n. isalnum (hex_digit n)) [0..<16]"
    by (simp add: upt_conv_Cons hex_digit_def char_class)
  ultimately show ?thesis by (simp only: list_all_iff)
qed

lemma uriEncode_charset:
  "list_all (\<lambda>c. uri_unreserved c \<or> c = CHR ''%'') (uriEncode s)"
  by (induction s) (auto simp: hex_digit_alnum byte_nibbles uri_unreserved_def)


section \<open>Properties\<close>

text \<open>Every database type and every TLS mode survives being written as text and read back, so a saved
  connection reopens on the backend, and with the protection, it was saved for.\<close>
lemma settings_roundtrip:
  "stringToDatabaseType (databaseTypeToString t) = t \<and> stringToSslMode (sslModeToString m) = m"
proof
  show "stringToDatabaseType (databaseTypeToString t) = t"
    by (cases t) (simp_all add: stringToDatabaseType_def)
  show "stringToSslMode (sslModeToString m) = m" by (cases m) (simp_all add: stringToSslMode_def)
qed

text \<open>A value appended to a libpq connection string reads back unchanged and ends where
  the program ended it, whatever quotes and backslashes it holds and whatever follows.\<close>
lemma escapeLibpqValue_roundtrip:
  "libpq_unquote (escapeLibpqValue v @ rest) = Some (v, rest)"
  by (simp add: libpq_unquote_def escapeLibpqValue_def libpq_read_value_escaped)

lemma uriEncode_decodes: "uriDecode (uriEncode s) = Some s"
  by (induction s) (simp, simp only: uriEncode.simps uriEncode_Cons_decode)

text \<open>C40: what goes into a connection's text comes out of it: a value of a libpq connection string reads
  back unchanged and ends where the program ended it; percent encoding is undone by decoding and
  yields unreserved characters and percent signs only, so no part of a URI ends another early;
  database types and TLS modes survive being saved and read.\<close>
theorem connection_text_roundtrips:
  "libpq_unquote (escapeLibpqValue v @ rest) = Some (v, rest) \<and>
   uriDecode (uriEncode v) = Some v \<and>
   list_all (\<lambda>c. uri_unreserved c \<or> c = CHR ''%'') (uriEncode v) \<and>
   stringToDatabaseType (databaseTypeToString t) = t \<and> stringToSslMode (sslModeToString m) = m"
  by (intro conjI escapeLibpqValue_roundtrip uriEncode_decodes uriEncode_charset
      settings_roundtrip [THEN conjunct1] settings_roundtrip [THEN conjunct2])

end
