(* ===== verification/Sql_Lexer.thy ===== *)
theory Sql_Lexer
  imports Sql_Text Connection_Info
begin

text \<open>
  The tokenizer and the statement splitter of \<^verbatim>\<open>src/completion.cpp\<close>: dialect switches, the token
  loop with its branches in source order, \<^verbatim>\<open>statementAt\<close>, and the two public splitters
  \<^verbatim>\<open>statementRangeAt\<close> and \<^verbatim>\<open>statementRanges\<close>. The branch loops run over the rest of the buffer, so
  \<^verbatim>\<open>s[i + k]\<close> of the source is the k-th byte of \<open>drop i s\<close>.
\<close>

section \<open>Dialects and tokens\<close>

record Dialect =
  dl_backtickIdent :: bool
  dl_bracketIdent :: bool
  dl_doubleQuoteIdent :: bool
  dl_dollarQuote :: bool
  dl_hashComment :: bool
  dl_backslashEscape :: bool
  dl_hashIdent :: bool

definition default_dialect :: Dialect where
  "default_dialect = \<lparr>dl_backtickIdent = False, dl_bracketIdent = False, dl_doubleQuoteIdent = True,
     dl_dollarQuote = False, dl_hashComment = False, dl_backslashEscape = False,
     dl_hashIdent = False\<rparr>"

definition mysql_dialect :: Dialect where
  "mysql_dialect = default_dialect\<lparr>dl_backtickIdent := True, dl_doubleQuoteIdent := False,
     dl_hashComment := True, dl_backslashEscape := True\<rparr>"

definition dialectFor :: "DatabaseType \<Rightarrow> Dialect" where
  "dialectFor type =
     (case type of
        MYSQL \<Rightarrow> mysql_dialect
      | MARIADB \<Rightarrow> mysql_dialect
      | TIDB \<Rightarrow> mysql_dialect
      | SQLITE \<Rightarrow> default_dialect\<lparr>dl_backtickIdent := True, dl_bracketIdent := True\<rparr>
      | MSSQL \<Rightarrow> default_dialect\<lparr>dl_bracketIdent := True, dl_hashIdent := True\<rparr>
      | POSTGRESQL \<Rightarrow> default_dialect\<lparr>dl_dollarQuote := True\<rparr>
      | REDSHIFT \<Rightarrow> default_dialect\<lparr>dl_dollarQuote := True\<rparr>
      | COCKROACHDB \<Rightarrow> default_dialect\<lparr>dl_dollarQuote := True\<rparr>
      | DUCKDB \<Rightarrow> default_dialect\<lparr>dl_dollarQuote := True\<rparr>
      | CASSANDRA \<Rightarrow> default_dialect\<lparr>dl_dollarQuote := True\<rparr>
      | _ \<Rightarrow> default_dialect)"

definition isSqlDialect :: "DatabaseType \<Rightarrow> bool" where
  "isSqlDialect type \<longleftrightarrow> type \<noteq> REDIS \<and> type \<noteq> MONGODB"

datatype Tok = TWord | TQuotedIdent | TString | TNumber | TComment | TParam | TPunct | TOp

record Token =
  tk_kind :: Tok
  tk_begin :: nat
  tk_end :: nat
  tk_closed :: bool
  tk_lineComment :: bool
  tk_text :: bytes


section \<open>One token\<close>

text \<open>\<^verbatim>\<open>scanQuoted\<close> on the bytes after the opening quote: text, closed, bytes read.\<close>

fun scanQuoted :: "char \<Rightarrow> bool \<Rightarrow> bytes \<Rightarrow> bytes \<times> bool \<times> nat" where
  "scanQuoted close bs [] = ([], False, 0)"
| "scanQuoted close bs (ch # r) =
     (if bs \<and> ch = backslash \<and> r \<noteq> [] then
        (case r of e # r' \<Rightarrow>
           (case scanQuoted close bs r' of (t, c, n) \<Rightarrow> (e # t, c, n + 2)))
      else if ch = close then
        (if r \<noteq> [] \<and> hd r = close
         then (case scanQuoted close bs (tl r) of (t, c, n) \<Rightarrow> (close # t, c, n + 2))
         else ([], True, 1))
      else (case scanQuoted close bs r of (t, c, n) \<Rightarrow> (ch # t, c, n + 1)))"

fun scan_number :: "char \<Rightarrow> bytes \<Rightarrow> nat" where
  "scan_number prev [] = 0"
| "scan_number prev (ch # r) =
     (if isalnum ch \<or> ch = CHR ''_'' \<or> ch = CHR ''.'' then Suc (scan_number ch r)
      else if (ch = CHR ''+'' \<or> ch = CHR ''-'') \<and> (prev = CHR ''e'' \<or> prev = CHR ''E'') \<and>
              r \<noteq> [] \<and> isdigit (hd r)
      then Suc (scan_number ch r)
      else 0)"

text \<open>Length of the longest prefix whose bytes satisfy a test: the \<^verbatim>\<open>while (...) ++k\<close> loops.\<close>

definition span_length :: "(char \<Rightarrow> bool) \<Rightarrow> bytes \<Rightarrow> nat" where
  "span_length P r = length (takeWhile P r)"

definition quoted_token :: "Tok \<Rightarrow> nat \<Rightarrow> char \<Rightarrow> bool \<Rightarrow> bytes \<Rightarrow> Token" where
  "quoted_token kind i close bs r =
     (case scanQuoted close bs r of (t, c, n) \<Rightarrow>
        \<lparr>tk_kind = kind, tk_begin = i, tk_end = i + 1 + n, tk_closed = c, tk_lineComment = False,
         tk_text = t\<rparr>)"

definition plain_token :: "Tok \<Rightarrow> nat \<Rightarrow> nat \<Rightarrow> bytes \<Rightarrow> Token" where
  "plain_token kind i e t =
     \<lparr>tk_kind = kind, tk_begin = i, tk_end = e, tk_closed = True, tk_lineComment = False,
      tk_text = t\<rparr>"

definition line_comment_token :: "bytes \<Rightarrow> nat \<Rightarrow> Token" where
  "line_comment_token s i =
     (plain_token TComment i
        (case str_find_char newline s i of None \<Rightarrow> length s | Some e \<Rightarrow> e) [])\<lparr>tk_lineComment := True\<rparr>"

definition block_comment_token :: "bytes \<Rightarrow> nat \<Rightarrow> Token" where
  "block_comment_token s i =
     (let e = str_find ''*/'' s (i + 2)
      in (plain_token TComment i (case e of None \<Rightarrow> length s | Some k \<Rightarrow> k + 2) [])
           \<lparr>tk_closed := (e \<noteq> None)\<rparr>)"

definition dollar_token :: "bytes \<Rightarrow> nat \<Rightarrow> Token" where
  "dollar_token s i =
     (let k = i + 1 + span_length (\<lambda>c. c \<noteq> CHR ''$'' \<and> isIdentByte c) (drop (i + 1) s)
      in if k < length s \<and> s ! k = CHR ''$'' then
           let tag = substr s i (k - i + 1); e = str_find tag s (k + 1)
           in (plain_token TString i (case e of None \<Rightarrow> length s | Some p \<Rightarrow> p + length tag) [])
                \<lparr>tk_closed := (e \<noteq> None)\<rparr>
         else plain_token TOp i (i + 1) ''$'')"

definition starts_number :: "bytes \<Rightarrow> nat \<Rightarrow> char \<Rightarrow> char \<Rightarrow> bool" where
  "starts_number s i c next \<longleftrightarrow>
     isdigit c \<or>
     (c = CHR ''.'' \<and> isdigit next \<and>
      (i = 0 \<or>
       (\<not> isIdentByte (s ! (i - 1)) \<and> s ! (i - 1) \<noteq> dquote \<and> s ! (i - 1) \<noteq> backtick \<and>
        s ! (i - 1) \<noteq> CHR '']'' \<and> s ! (i - 1) \<noteq> CHR '')'')))"

definition starts_param :: "bytes \<Rightarrow> nat \<Rightarrow> char \<Rightarrow> char \<Rightarrow> bool" where
  "starts_param s i c next \<longleftrightarrow>
     c = CHR ''@'' \<or> c = CHR ''?'' \<or>
     (c = CHR '':'' \<and> isIdentStartByte next \<and> (i = 0 \<or> s ! (i - 1) \<noteq> CHR '':'')) \<or>
     (c = CHR ''$'' \<and> isdigit next)"

definition is_punct_char :: "char \<Rightarrow> bool" where
  "is_punct_char c \<longleftrightarrow>
     c = CHR ''('' \<or> c = CHR '')'' \<or> c = CHR '','' \<or> c = CHR '';'' \<or> c = CHR ''.''"

definition lex_token :: "Dialect \<Rightarrow> bytes \<Rightarrow> nat \<Rightarrow> Token" where
  "lex_token d s i =
     (let c = s ! i;
          next = (if i + 1 < length s then s ! (i + 1) else CHR 0x00);
          r = drop (i + 1) s
      in if (c = CHR ''-'' \<and> next = CHR ''-'') \<or> (c = CHR ''#'' \<and> dl_hashComment d)
         then line_comment_token s i
         else if c = CHR ''/'' \<and> next = CHR ''*'' then block_comment_token s i
         else if c = squote then quoted_token TString i squote (dl_backslashEscape d) r
         else if c = dquote
         then quoted_token (if dl_doubleQuoteIdent d then TQuotedIdent else TString) i dquote
                (\<not> dl_doubleQuoteIdent d \<and> dl_backslashEscape d) r
         else if c = backtick \<and> dl_backtickIdent d then quoted_token TQuotedIdent i backtick False r
         else if c = CHR ''['' \<and> dl_bracketIdent d then quoted_token TQuotedIdent i (CHR '']'') False r
         else if c = CHR ''$'' \<and> dl_dollarQuote d \<and> (next = CHR ''$'' \<or> isIdentStartByte next)
         then dollar_token s i
         else if starts_number s i c next
         then plain_token TNumber i (i + 1 + scan_number c r) []
         else if isIdentStartByte c \<or> (c = CHR ''#'' \<and> dl_hashIdent d)
         then (let k = i + 1 + span_length (\<lambda>b. isIdentByte b \<or> (dl_hashIdent d \<and> b = CHR ''#'')) r
               in plain_token TWord i k (substr s i (k - i)))
         else if starts_param s i c next
         then plain_token TParam i (i + 1 + span_length (\<lambda>b. b = CHR ''@'' \<or> isIdentByte b) r) []
         else if is_punct_char c then plain_token TPunct i (i + 1) [c]
         else plain_token TOp i (i + 1) [c])"


section \<open>The token loop\<close>

function tokenize_from :: "Dialect \<Rightarrow> bytes \<Rightarrow> nat \<Rightarrow> Token list" where
  "tokenize_from d s i =
     (if i < length s then
        if isspace (s ! i) then tokenize_from d s (i + 1)
        else let t = lex_token d s i in t # tokenize_from d s (max (tk_end t) (i + 1))
      else [])"
  by pat_completeness auto
termination
  by (relation "measure (\<lambda>(d, s, i). length s - i)") auto

declare tokenize_from.simps [simp del]

definition tokenize :: "bytes \<Rightarrow> Dialect \<Rightarrow> Token list" where
  "tokenize s d = tokenize_from d s 0"


section \<open>Statements\<close>

record StatementSpan =
  sp_begin :: nat
  sp_end :: nat
  sp_firstTok :: nat
  sp_lastTok :: nat

definition is_semicolon :: "Token \<Rightarrow> bool" where
  "is_semicolon t \<longleftrightarrow> tk_kind t = TPunct \<and> tk_text t = '';''"

text \<open>The loop of \<^verbatim>\<open>statementAt\<close> from token index \<open>i\<close> on, with its \<^verbatim>\<open>break\<close>.\<close>

fun statement_scan :: "nat \<Rightarrow> StatementSpan \<Rightarrow> nat \<Rightarrow> Token list \<Rightarrow> StatementSpan" where
  "statement_scan offset span i [] = span"
| "statement_scan offset span i (t # ts) =
     (if \<not> is_semicolon t then statement_scan offset span (i + 1) ts
      else if tk_end t \<le> offset
      then statement_scan offset (span\<lparr>sp_begin := tk_end t, sp_firstTok := i + 1\<rparr>) (i + 1) ts
      else span\<lparr>sp_end := tk_begin t, sp_lastTok := i\<rparr>)"

definition statementAt :: "Token list \<Rightarrow> nat \<Rightarrow> nat \<Rightarrow> StatementSpan" where
  "statementAt all offset len =
     statement_scan offset
       \<lparr>sp_begin = 0, sp_end = len, sp_firstTok = 0, sp_lastTok = length all\<rparr> 0 all"

definition statementRangeAt :: "bytes \<Rightarrow> nat \<Rightarrow> DatabaseType \<Rightarrow> nat \<times> nat" where
  "statementRangeAt sql offset0 type =
     (let offset = min offset0 (length sql);
          span = statementAt (tokenize sql (dialectFor type)) offset (length sql);
          text = substr sql (sp_begin span) (sp_end span - sp_begin span);
          b = sp_begin span + span_length isspace text;
          e = sp_end span - span_length isspace (rev (drop (b - sp_begin span) text))
      in (b, e))"

text \<open>The loop of \<^verbatim>\<open>statementRanges\<close>: \<open>fst_tok\<close> is \<open>None\<close> for \<^verbatim>\<open>npos\<close>.\<close>

fun ranges_scan :: "nat option \<Rightarrow> nat \<Rightarrow> Token list \<Rightarrow> (nat \<times> nat) list" where
  "ranges_scan fst_tok last_end [] = (case fst_tok of None \<Rightarrow> [] | Some f \<Rightarrow> [(f, last_end)])"
| "ranges_scan fst_tok last_end (t # ts) =
     (if is_semicolon t
      then (case fst_tok of None \<Rightarrow> [] | Some f \<Rightarrow> [(f, last_end)]) @ ranges_scan None last_end ts
      else if tk_kind t \<noteq> TComment
      then ranges_scan (Some (case fst_tok of None \<Rightarrow> tk_begin t | Some f \<Rightarrow> f)) (tk_end t) ts
      else ranges_scan fst_tok last_end ts)"

definition statementRanges :: "bytes \<Rightarrow> DatabaseType \<Rightarrow> (nat \<times> nat) list" where
  "statementRanges sql type = ranges_scan None 0 (tokenize sql (dialectFor type))"


section \<open>Every token is in bounds\<close>

lemma scanQuoted_read: "snd (snd (scanQuoted close bs r)) \<le> length r"
proof (induction "length r" arbitrary: r rule: less_induct)
  case less
  show ?case
  proof (cases r)
    case (Cons ch r1)
    show ?thesis
    proof (cases r1)
      case Nil
      with Cons show ?thesis by simp
    next
      case (Cons e r2)
      with \<open>r = ch # r1\<close> less [of r1] less [of r2] show ?thesis
        by (auto simp: scanQuoted.simps(2) [of close bs ch "e # r2"] case_prod_beta simp del: scanQuoted.simps(2))
    qed
  qed simp
qed

lemma scanQuoted_length: "scanQuoted close bs r = (t, c, n) \<Longrightarrow> n \<le> length r"
  using scanQuoted_read [of close bs r] by simp

lemma scan_number_length: "scan_number p r \<le> length r"
  by (induction p r rule: scan_number.induct) auto

lemma span_length_le: "span_length P r \<le> length r"
  by (simp add: span_length_def length_takeWhile_le)

lemma quoted_token_end:
  "i < length s \<Longrightarrow> tk_end (quoted_token k i close bs (drop (i + 1) s)) \<le> length s"
  by (auto simp: quoted_token_def dest!: scanQuoted_length split: prod.split)

lemma quoted_token_sel [simp]:
  "tk_begin (quoted_token k i close bs r) = i" "tk_kind (quoted_token k i close bs r) = k"
  "i < tk_end (quoted_token k i close bs r)"
  by (auto simp: quoted_token_def split: prod.split)

lemma plain_token_sel [simp]:
  "tk_begin (plain_token k i e t) = i" "tk_end (plain_token k i e t) = e"
  "tk_kind (plain_token k i e t) = k" "tk_text (plain_token k i e t) = t"
  "tk_closed (plain_token k i e t)" "\<not> tk_lineComment (plain_token k i e t)"
  by (simp_all add: plain_token_def)

lemma line_comment_token_sel [simp]:
  "tk_begin (line_comment_token s i) = i" "tk_kind (line_comment_token s i) = TComment"
  by (simp_all add: line_comment_token_def)

lemma line_comment_token_end:
  assumes "i < length s" "s ! i \<noteq> newline"
  shows "i < tk_end (line_comment_token s i)" "tk_end (line_comment_token s i) \<le> length s"
proof -
  have "\<And>e. str_find_char newline s i = Some e \<Longrightarrow> i \<noteq> e"
    using assms(2) find_upt_Some(3) unfolding str_find_char_def by blast
  then show "i < tk_end (line_comment_token s i)" "tk_end (line_comment_token s i) \<le> length s"
    using assms(1) by (auto simp: line_comment_token_def split: option.split dest: str_find_char_bounds
        order.not_eq_order_implies_strict)
qed

lemma block_comment_token_sel [simp]:
  "tk_begin (block_comment_token s i) = i" "tk_kind (block_comment_token s i) = TComment"
  "\<not> tk_lineComment (block_comment_token s i)"
  by (simp_all add: block_comment_token_def Let_def)

lemma block_comment_token_end:
  "i < length s \<Longrightarrow> i < tk_end (block_comment_token s i)"
  "i < length s \<Longrightarrow> tk_end (block_comment_token s i) \<le> length s"
  by (auto simp: block_comment_token_def Let_def split: option.split dest!: str_find_bounds)

lemma dollar_token_sel [simp]:
  "tk_begin (dollar_token s i) = i" "tk_kind (dollar_token s i) \<in> {TString, TOp}"
  "\<not> tk_lineComment (dollar_token s i)"
  by (simp_all add: dollar_token_def Let_def)

lemma dollar_token_end:
  "i < length s \<Longrightarrow> i < tk_end (dollar_token s i)"
  "i < length s \<Longrightarrow> tk_end (dollar_token s i) \<le> length s"
  by (auto simp: dollar_token_def Let_def split: option.split dest!: str_find_bounds)

lemma lex_token_begin [simp]: "tk_begin (lex_token d s i) = i"
  by (simp add: lex_token_def Let_def)

text \<open>Which tokens the branches of the lexer can build: a fact about all of them is a fact about
  whatever it returns.\<close>

lemma lex_token_branches [case_names line block quoted dollar number word param punct operator]:
  assumes line: "s ! i \<noteq> newline \<Longrightarrow> P (line_comment_token s i)"
    and block: "P (block_comment_token s i)"
    and quoted: "\<And>k close bs. k \<in> {TString, TQuotedIdent} \<Longrightarrow>
      P (quoted_token k i close bs (drop (i + 1) s))"
    and dollar: "P (dollar_token s i)"
    and number: "P (plain_token TNumber i (i + 1 + scan_number (s ! i) (drop (i + 1) s)) [])"
    and word: "\<And>n. n \<le> length (drop (i + 1) s) \<Longrightarrow>
      P (plain_token TWord i (i + 1 + n) (substr s i (i + 1 + n - i)))"
    and param: "\<And>n. n \<le> length (drop (i + 1) s) \<Longrightarrow> P (plain_token TParam i (i + 1 + n) [])"
    and punct: "P (plain_token TPunct i (i + 1) [s ! i])"
    and operator: "P (plain_token TOp i (i + 1) [s ! i])"
  shows "P (lex_token d s i)"
proof -
  have branch: "P (if b then x else y)" if "b \<Longrightarrow> P x" "\<not> b \<Longrightarrow> P y" for b x y
    using that by simp
  show ?thesis
    unfolding lex_token_def Let_def
    by (rule branch line block quoted dollar number word param punct operator span_length_le | simp | force)+
qed

lemma lex_token_end:
  assumes "i < length s"
  shows "i < tk_end (lex_token d s i) \<and> tk_end (lex_token d s i) \<le> length s"
proof (induction rule: lex_token_branches)
  case number
  have "scan_number (s ! i) (drop (i + 1) s) \<le> length (drop (i + 1) s)"
    by (rule scan_number_length)
  with assms show ?case by simp
qed (use assms line_comment_token_end [OF assms] block_comment_token_end [OF assms]
    dollar_token_end [OF assms] quoted_token_end [OF assms] in auto)

lemma tokenize_from_step:
  assumes "i < length s" "\<not> isspace (s ! i)"
  shows "tokenize_from d s i = lex_token d s i # tokenize_from d s (tk_end (lex_token d s i))"
proof -
  have "max (tk_end (lex_token d s i)) (i + 1) = tk_end (lex_token d s i)"
    using lex_token_end [OF assms(1), of d] by simp
  with assms show ?thesis by (simp add: tokenize_from.simps [of d s i] Let_def)
qed

lemma tokenize_from_space:
  "i < length s \<Longrightarrow> isspace (s ! i) \<Longrightarrow> tokenize_from d s i = tokenize_from d s (Suc i)"
  by (simp add: tokenize_from.simps [of d s i])

lemma tokenize_from_end: "length s \<le> i \<Longrightarrow> tokenize_from d s i = []"
  by (simp add: tokenize_from.simps [of d s i])

lemmas tokenize_from_cases = tokenize_from_step tokenize_from_space tokenize_from_end

text \<open>An induction rule that follows the token loop: one case per way an iteration can go.\<close>

lemma tokenize_from_induct [case_names stop space token]:
  assumes stop: "\<And>i. length s \<le> i \<Longrightarrow> P i"
    and space: "\<And>i. i < length s \<Longrightarrow> isspace (s ! i) \<Longrightarrow> P (Suc i) \<Longrightarrow> P i"
    and token: "\<And>i. i < length s \<Longrightarrow> \<not> isspace (s ! i) \<Longrightarrow> P (tk_end (lex_token d s i)) \<Longrightarrow> P i"
  shows "P i"
proof (induction "length s - i" arbitrary: i rule: less_induct)
  case less
  consider "length s \<le> i" | "i < length s" "isspace (s ! i)" | "i < length s" "\<not> isspace (s ! i)"
    by linarith
  then show ?case
  proof cases
    case 3
    then have "length s - tk_end (lex_token d s i) < length s - i"
      using lex_token_end [of i s d] by auto
    with less 3 show ?thesis by (blast intro: token)
  qed (use less stop space in auto)
qed

definition token_ok :: "nat \<Rightarrow> Token \<Rightarrow> bool" where
  "token_ok n t \<longleftrightarrow> tk_begin t < tk_end t \<and> tk_end t \<le> n"

lemma tokenize_from_bounds:
  "t \<in> set (tokenize_from d s i) \<Longrightarrow> i \<le> tk_begin t \<and> token_ok (length s) t"
proof (induction i rule: tokenize_from_induct [where s = s and d = d])
  case (stop i)
  then show ?case by (simp add: tokenize_from_end)
next
  case (space i)
  then show ?case by (fastforce simp: tokenize_from_space)
next
  case (token i)
  then show ?case
    using lex_token_end [of i s d] by (fastforce simp: tokenize_from_step token_ok_def)
qed

lemma tokenize_from_ordered:
  "sorted_wrt (\<lambda>t u. tk_end t \<le> tk_begin u) (tokenize_from d s i)"
proof (induction i rule: tokenize_from_induct [where s = s and d = d])
  case (token i)
  then show ?case by (auto simp: tokenize_from_step dest: tokenize_from_bounds)
qed (simp_all add: tokenize_from_cases)

lemma tokenize_from_covers:
  "i \<le> k \<Longrightarrow> k < length s \<Longrightarrow> \<not> isspace (s ! k) \<Longrightarrow>
   \<exists>t\<in>set (tokenize_from d s i). tk_begin t \<le> k \<and> k < tk_end t"
proof (induction i rule: tokenize_from_induct [where s = s and d = d])
  case (space i)
  then show ?case by (metis tokenize_from_space le_neq_implies_less Suc_leI)
next
  case (token i)
  then show ?case
    by (cases "k < tk_end (lex_token d s i)") (auto simp: tokenize_from_step)
qed simp

lemma tokenize_from_visible:
  "t \<in> set (tokenize_from d s i) \<Longrightarrow> \<exists>j<length s. t = lex_token d s j \<and> \<not> isspace (s ! j)"
proof (induction i rule: tokenize_from_induct [where s = s and d = d])
  case (token i)
  then show ?case by (auto simp: tokenize_from_step)
qed (simp_all add: tokenize_from_cases)


section \<open>Statements\<close>

lemma lex_token_semicolon:
  assumes "i < length s" "is_semicolon (lex_token d s i)"
  shows "tk_end (lex_token d s i) = Suc i \<and> s ! i = CHR '';''"
proof -
  have "is_semicolon (lex_token d s i) \<longrightarrow> tk_end (lex_token d s i) = Suc i \<and> s ! i = CHR '';''"
    using dollar_token_sel(2) [of s i]
    by (induction rule: lex_token_branches) (auto simp: is_semicolon_def)
  with assms(2) show ?thesis by simp
qed

lemma tokenize_semicolon:
  assumes "t \<in> set (tokenize_from d s i)" "is_semicolon t"
  shows "tk_end t = Suc (tk_begin t) \<and> s ! tk_begin t = CHR '';''"
  using tokenize_from_visible [OF assms(1)] assms(2) lex_token_semicolon by fastforce

text \<open>
  What the scan of \<^verbatim>\<open>statementAt\<close> returns, for a token list in order whose semicolons are one byte
  long: bounds around the offset, and no semicolon between them.
\<close>

definition span_ok :: "nat \<Rightarrow> nat \<Rightarrow> nat \<Rightarrow> Token list \<Rightarrow> StatementSpan \<Rightarrow> bool" where
  "span_ok lo offset hi ts span \<longleftrightarrow>
     lo \<le> sp_begin span \<and> sp_begin span \<le> offset \<and> offset \<le> sp_end span \<and> sp_end span \<le> hi \<and>
     (\<forall>t\<in>set ts. is_semicolon t \<longrightarrow> tk_end t \<le> sp_begin span \<or> sp_end span \<le> tk_begin t)"

lemma statement_scan_ok:
  assumes "sorted_wrt (\<lambda>t u. tk_end t \<le> tk_begin u) ts"
    and "\<forall>t\<in>set ts. token_ok hi t \<and> sp_begin span \<le> tk_begin t"
    and "\<forall>t\<in>set ts. is_semicolon t \<longrightarrow> tk_end t = Suc (tk_begin t)"
    and "sp_begin span \<le> offset" "offset \<le> hi" "sp_end span = hi"
  shows "span_ok (sp_begin span) offset hi ts (statement_scan offset span i ts)"
  using assms
proof (induction ts arbitrary: span i)
  case Nil
  then show ?case by (simp add: span_ok_def)
next
  case (Cons t ts)
  consider (other) "\<not> is_semicolon t" | (before) "is_semicolon t" "tk_end t \<le> offset"
    | (after) "is_semicolon t" "offset < tk_end t" by linarith
  then show ?case
  proof cases
    case other
    with Cons show ?thesis by (simp add: span_ok_def)
  next
    case before
    let ?span = "span\<lparr>sp_begin := tk_end t, sp_firstTok := i + 1\<rparr>"
    have "span_ok (sp_begin ?span) offset hi ts (statement_scan offset ?span (i + 1) ts)"
      by (rule Cons.IH) (use Cons.prems before in \<open>auto simp: token_ok_def\<close>)
    with before Cons.prems show ?thesis by (auto simp: span_ok_def token_ok_def)
  next
    case after
    then have "tk_end t = Suc (tk_begin t)" using Cons.prems by simp
    with after Cons.prems show ?thesis by (auto simp: span_ok_def token_ok_def)
  qed
qed

lemma statementAt_ok:
  assumes "offset \<le> length s"
  shows "span_ok 0 offset (length s) (tokenize s d) (statementAt (tokenize s d) offset (length s))"
proof -
  let ?span = "\<lparr>sp_begin = 0, sp_end = length s, sp_firstTok = 0, sp_lastTok = length (tokenize s d)\<rparr>"
  have "span_ok (sp_begin ?span) offset (length s) (tokenize s d)
      (statement_scan offset ?span 0 (tokenize s d))"
    by (rule statement_scan_ok)
      (use assms tokenize_from_ordered tokenize_from_bounds tokenize_semicolon
       in \<open>auto simp: tokenize_def\<close>)
  then show ?thesis by (simp add: statementAt_def)
qed

text \<open>The bounds are the ends of the buffer or edges of semicolon tokens.\<close>

definition span_ends :: "nat \<Rightarrow> nat \<Rightarrow> Token list \<Rightarrow> nat \<Rightarrow> nat \<Rightarrow> bool" where
  "span_ends lo hi ts b e \<longleftrightarrow>
     (b = lo \<or> (\<exists>t\<in>set ts. is_semicolon t \<and> tk_end t = b)) \<and>
     (e = hi \<or> (\<exists>t\<in>set ts. is_semicolon t \<and> tk_begin t = e))"

lemma statement_scan_ends:
  "sp_end span = hi \<Longrightarrow>
     span_ends (sp_begin span) hi ts (sp_begin (statement_scan offset span i ts)) (sp_end (statement_scan offset span i ts))"
proof (induction ts arbitrary: span i)
  case (Cons t ts)
  show ?case
    using Cons.IH [of span "i + 1"] Cons.IH [of "span\<lparr>sp_begin := tk_end t, sp_firstTok := i + 1\<rparr>" "i + 1"] Cons.prems
    by (auto simp: span_ends_def)
qed (simp add: span_ends_def)

lemma statementAt_ends:
  "span_ends 0 (length s) (tokenize s d) (sp_begin (statementAt (tokenize s d) offset (length s)))
     (sp_end (statementAt (tokenize s d) offset (length s)))"
  using statement_scan_ends [of "\<lparr>sp_begin = 0, sp_end = length s, sp_firstTok = 0, sp_lastTok = length (tokenize s d)\<rparr>"]
  by (simp add: statementAt_def)

text \<open>Trimming white space at both ends of a stretch of the buffer.\<close>

lemma span_length_nth: "k < span_length P xs \<Longrightarrow> P (xs ! k)"
  unfolding span_length_def by (metis nth_mem set_takeWhileD takeWhile_nth)

lemma span_length_stop: "span_length P xs < length xs \<Longrightarrow> \<not> P (xs ! span_length P xs)"
  unfolding span_length_def by (rule nth_length_takeWhile)

lemma span_length_rev_nth: "k < length xs \<Longrightarrow> length xs - span_length P (rev xs) \<le> k \<Longrightarrow> P (xs ! k)"
  using span_length_nth [of "length xs - Suc k" P "rev xs"] by (simp add: rev_nth)

lemma span_length_rev_stop:
  assumes "span_length P (rev xs) < length xs"
  shows "\<not> P (xs ! (length xs - Suc (span_length P (rev xs))))"
  using span_length_stop [of P "rev xs"] assms by (simp add: rev_nth)

definition trimmed :: "bytes \<Rightarrow> nat \<Rightarrow> nat \<Rightarrow> nat \<Rightarrow> nat \<Rightarrow> bool" where
  "trimmed s lo hi b e \<longleftrightarrow>
     lo \<le> b \<and> b \<le> e \<and> e \<le> hi \<and>
     (\<forall>k. lo \<le> k \<and> k < b \<or> e \<le> k \<and> k < hi \<longrightarrow> isspace (s ! k)) \<and>
     (b < e \<longrightarrow> \<not> isspace (s ! b) \<and> \<not> isspace (s ! (e - 1)))"

lemma trim_ends:
  assumes "lo \<le> hi" "hi \<le> length s"
    and "body = substr s lo (hi - lo)"
    and "b = lo + span_length isspace body"
    and "e = hi - span_length isspace (rev (drop (b - lo) body))"
  shows "trimmed s lo hi b e"
proof -
  have len: "length body = hi - lo" using assms by (simp add: substr_def)
  have nth: "body ! k = s ! (lo + k)" if "k < hi - lo" for k
    using that assms by (simp add: substr_def)
  define rest where "rest = drop (b - lo) body"
  have b: "lo \<le> b" "b \<le> hi" using span_length_le [of isspace body] len assms by auto
  then have rlen: "length rest = hi - b" using len by (simp add: rest_def)
  have rnth: "rest ! k = s ! (b + k)" if "k < hi - b" for k
    using that len b nth [of "b - lo + k"] by (simp add: rest_def)
  define m where "m = span_length isspace (rev rest)"
  have m: "m \<le> hi - b" using span_length_le [of isspace "rev rest"] rlen by (simp add: m_def)
  have e: "e = hi - m" using assms by (simp add: m_def rest_def)
  have left: "isspace (s ! k)" if "lo \<le> k" "k < b" for k
  proof -
    have "k - lo < span_length isspace body" using that assms(4) by linarith
    then have "isspace (body ! (k - lo))" by (rule span_length_nth)
    moreover have "k - lo < hi - lo" using that b by linarith
    ultimately show ?thesis using nth [of "k - lo"] that by simp
  qed
  have right: "isspace (s ! k)" if "e \<le> k" "k < hi" for k
  proof -
    have "b \<le> k" using that e m b by simp
    have "isspace (rest ! (k - b))"
      by (rule span_length_rev_nth) (use that e m b rlen \<open>b \<le> k\<close> in \<open>auto simp: m_def\<close>)
    with that \<open>b \<le> k\<close> rnth [of "k - b"] show ?thesis by simp
  qed
  have ends: "\<not> isspace (s ! b) \<and> \<not> isspace (s ! (e - 1))" if "b < e"
  proof
    from that e have lt: "b < hi" "m < hi - b" by auto
    then have "b - lo = span_length isspace body" "b - lo < length body" using assms(4) b len by linarith+
    then have "\<not> isspace (body ! (b - lo))" by (metis span_length_stop)
    with lt b nth [of "b - lo"] show "\<not> isspace (s ! b)" by simp
    have "\<not> isspace (rest ! (length rest - Suc m))"
      unfolding m_def by (rule span_length_rev_stop) (use lt rlen in \<open>simp add: m_def\<close>)
    with rnth [of "length rest - Suc m"] lt rlen show "\<not> isspace (s ! (e - 1))" by (simp add: e)
  qed
  from b m e left right ends show ?thesis by (auto simp: trimmed_def)
qed

lemma trim_blank:
  assumes "lo \<le> hi" "hi \<le> length s"
    and "body = substr s lo (hi - lo)"
    and "b = lo + span_length isspace body"
    and "e = hi - span_length isspace (rev (drop (b - lo) body))"
    and "b = e"
  shows "b = hi"
proof (rule ccontr)
  assume "b \<noteq> hi"
  have len: "length body = hi - lo" using assms(1-3) by (simp add: substr_def)
  with \<open>b \<noteq> hi\<close> have short: "span_length isspace body < length body"
    using span_length_le [of isspace body] assms(1,4) by simp
  then have stop: "\<not> isspace (body ! span_length isspace body)" by (rule span_length_stop)
  define rest where "rest = drop (b - lo) body"
  have "\<not> isspace (rest ! 0)" "length rest = hi - b" "rest \<noteq> []"
    using stop short len assms(4) by (simp_all add: rest_def)
  moreover have "b = hi - span_length isspace (rev rest)"
    using assms(5) unfolding rest_def assms(6) [symmetric] .
  then have "length rest - span_length isspace (rev rest) \<le> 0" using \<open>length rest = hi - b\<close> by linarith
  then have "isspace (rest ! 0)" 
    using \<open>rest \<noteq> []\<close> span_length_rev_nth [of 0 rest isspace] by simp
  ultimately show False by simp
qed


text \<open>
  The scan of \<^verbatim>\<open>statementRanges\<close> over a suffix of the token list, with an open statement when
  \<open>fst_tok\<close> is set.
\<close>

definition open_bound :: "nat option \<Rightarrow> nat set" where
  "open_bound fst_tok = (case fst_tok of None \<Rightarrow> {} | Some f \<Rightarrow> {f})"

definition scan_inv :: "nat \<Rightarrow> nat option \<Rightarrow> nat \<Rightarrow> Token list \<Rightarrow> bool" where
  "scan_inv n fst_tok last_end ts \<longleftrightarrow>
     sorted_wrt (\<lambda>t u. tk_end t \<le> tk_begin u) ts \<and>
     (\<forall>t\<in>set ts. token_ok n t \<and> last_end \<le> tk_begin t) \<and> last_end \<le> n \<and>
     (\<forall>f. fst_tok = Some f \<longrightarrow> f < last_end)"

lemma scan_inv_skip: "scan_inv n f l (t # ts) \<Longrightarrow> scan_inv n f l ts"
  by (auto simp: scan_inv_def)

lemma scan_inv_close: "scan_inv n f l (t # ts) \<Longrightarrow> scan_inv n None l ts"
  by (auto simp: scan_inv_def)

lemma scan_inv_extend:
  "scan_inv n f l (t # ts) \<Longrightarrow>
   scan_inv n (Some (case f of None \<Rightarrow> tk_begin t | Some f \<Rightarrow> f)) (tk_end t) ts"
  by (fastforce simp: scan_inv_def token_ok_def split: option.splits)

lemmas scan_inv_rules = scan_inv_skip scan_inv_close scan_inv_extend

lemma ranges_scan_bounds:
  "scan_inv n f l ts \<Longrightarrow> (b, e) \<in> set (ranges_scan f l ts) \<Longrightarrow>
   b < e \<and> e \<le> n \<and> b \<in> open_bound f \<union> tk_begin ` set ts"
proof (induction f l ts rule: ranges_scan.induct)
  case (1 f l)
  then show ?case by (auto simp: scan_inv_def open_bound_def split: option.splits)
next
  case (2 f l t ts)
  consider "is_semicolon t" | "\<not> is_semicolon t" "tk_kind t \<noteq> TComment"
    | "\<not> is_semicolon t" "tk_kind t = TComment" by blast
  then show ?case
  proof cases
    case 1
    then show ?thesis
      using 2 scan_inv_close [OF "2.prems"(1)]
      by (auto simp: open_bound_def scan_inv_def split: option.splits)
  next
    case 2
    then show ?thesis
      using "2.IH"(2) [OF 2 scan_inv_extend] "2.prems"
      by (auto simp: open_bound_def split: option.splits)
  next
    case 3
    then show ?thesis using 2 scan_inv_skip [OF "2.prems"(1)] by auto
  qed
qed


lemma ranges_scan_open:
  "scan_inv n (Some f) l ts \<Longrightarrow> \<exists>e. (f, e) \<in> set (ranges_scan (Some f) l ts) \<and> l \<le> e"
proof (induction ts arbitrary: l)
  case (Cons t ts)
  show ?case
  proof (cases "\<not> is_semicolon t \<and> tk_kind t \<noteq> TComment")
    case True
    have "scan_inv n (Some f) (tk_end t) ts" using scan_inv_extend [OF Cons.prems] by simp
    from Cons.IH [OF this] obtain e
      where "(f, e) \<in> set (ranges_scan (Some f) (tk_end t) ts)" "tk_end t \<le> e" by blast
    moreover have "l \<le> tk_end t" using Cons.prems by (auto simp: scan_inv_def token_ok_def)
    ultimately show ?thesis using True by auto
  next
    case False
    then show ?thesis using Cons.IH [OF scan_inv_skip [OF Cons.prems]] by auto
  qed
qed simp

lemma ranges_scan_ordered:
  "scan_inv n f l ts \<Longrightarrow> sorted_wrt (\<lambda>x y. snd x < fst y) (ranges_scan f l ts)"
proof (induction ts arbitrary: f l)
  case Nil
  then show ?case by (simp split: option.split)
next
  case (Cons t ts)
  have "l < b" if "(b, e) \<in> set (ranges_scan None l ts)" for b e
  proof -
    from ranges_scan_bounds [OF scan_inv_close [OF Cons.prems] that]
    obtain u where "u \<in> set ts" "b = tk_begin u" by (auto simp: open_bound_def)
    with Cons.prems show ?thesis by (fastforce simp: scan_inv_def token_ok_def)
  qed
  then have "sorted_wrt (\<lambda>x y. snd x < fst y) (ranges_scan f l (t # ts))" if "is_semicolon t"
    using that Cons.IH [OF scan_inv_close [OF Cons.prems]] by (auto split: option.split)
  then show ?case
    using Cons.IH [OF scan_inv_extend [OF Cons.prems]] Cons.IH [OF scan_inv_skip [OF Cons.prems]]
    by (cases "is_semicolon t") auto
qed

lemma ranges_scan_covers:
  "scan_inv n f l ts \<Longrightarrow> t \<in> set ts \<Longrightarrow> \<not> is_semicolon t \<Longrightarrow> tk_kind t \<noteq> TComment \<Longrightarrow>
   \<exists>(b, e)\<in>set (ranges_scan f l ts). b \<le> tk_begin t \<and> tk_end t \<le> e"
proof (induction ts arbitrary: f l)
  case (Cons u ts)
  show ?case
  proof (cases "t = u")
    case True
    let ?f = "case f of None \<Rightarrow> tk_begin u | Some f \<Rightarrow> f"
    from ranges_scan_open [OF scan_inv_extend [OF Cons.prems(1)]] obtain e
      where e: "(?f, e) \<in> set (ranges_scan (Some ?f) (tk_end u) ts)" "tk_end u \<le> e" by blast
    moreover have "?f \<le> tk_begin u"
      using Cons.prems(1) by (auto simp: scan_inv_def split: option.split)
    ultimately have "\<exists>(b, e)\<in>set (ranges_scan (Some ?f) (tk_end u) ts). b \<le> tk_begin u \<and> tk_end u \<le> e"
      by blast
    with True Cons.prems(3,4) show ?thesis by simp
  next
    case False
    with Cons.prems have "t \<in> set ts" by simp
    with Cons.IH Cons.prems scan_inv_rules [OF Cons.prems(1)] show ?thesis
      by (cases "is_semicolon u"; cases "tk_kind u = TComment") (simp_all, blast+)
  qed
qed simp

lemma ranges_scan_splits:
  "scan_inv n f l ts \<Longrightarrow> t \<in> set ts \<Longrightarrow> is_semicolon t \<Longrightarrow> (b, e) \<in> set (ranges_scan f l ts) \<Longrightarrow>
   tk_end t \<le> b \<or> e \<le> tk_begin t"
proof (induction ts arbitrary: f l)
  case (Cons u ts)
  note rules = scan_inv_rules [OF Cons.prems(1)]
  show ?case
  proof (cases "t = u")
    case True
    from True Cons.prems(3,4) consider "f = Some b" "e = l" | "(b, e) \<in> set (ranges_scan None l ts)"
      by (auto split: option.splits)
    then show ?thesis
    proof cases
      case 1
      with True Cons.prems(1) show ?thesis by (auto simp: scan_inv_def)
    next
      case 2
      from ranges_scan_bounds [OF rules(2) 2] obtain v where "v \<in> set ts" "b = tk_begin v"
        by (auto simp: open_bound_def)
      with True Cons.prems(1) show ?thesis by (auto simp: scan_inv_def)
    qed
  next
    case False
    then have t: "t \<in> set ts" using Cons.prems by simp
    have "l \<le> tk_begin t" using Cons.prems(1) t by (auto simp: scan_inv_def)
    with Cons.prems(3,4) Cons.IH [OF rules(1) t] Cons.IH [OF rules(2) t] Cons.IH [OF rules(3) t]
    show ?thesis by (auto split: if_splits option.splits)
  qed
qed simp

lemma scan_inv_tokenize: "scan_inv (length s) None 0 (tokenize s d)"
  using tokenize_from_ordered tokenize_from_bounds unfolding tokenize_def scan_inv_def by blast



section \<open>Properties\<close>

text \<open>C1: the tokens of any text lie in order, do not overlap, are not empty and stay inside the
  buffer, and every byte outside all tokens is white space: nothing is lost or read twice.\<close>
theorem tokenize_partition:
  "sorted_wrt (\<lambda>t u. tk_end t \<le> tk_begin u) (tokenize s d) \<and>
   (\<forall>t\<in>set (tokenize s d). tk_begin t < tk_end t \<and> tk_end t \<le> length s) \<and>
   (\<forall>k<length s. (\<exists>t\<in>set (tokenize s d). tk_begin t \<le> k \<and> k < tk_end t) \<or> isspace (s ! k))"
  using tokenize_from_ordered tokenize_from_bounds tokenize_from_covers [of 0]
  unfolding tokenize_def token_ok_def by blast

definition sample_sql :: bytes where
  "sample_sql = ''SELECT 'a;b' -- c''"

theorem tokenize_partition_witness:
  "\<exists>t\<in>set (tokenize sample_sql (dialectFor MYSQL)). tk_begin t \<le> 8 \<and> 8 < tk_end t"
proof -
  have "\<not> isspace (sample_sql ! 8)" "8 < length sample_sql" by code_simp+
  then show ?thesis
    using tokenize_partition [of sample_sql "dialectFor MYSQL"] by blast
qed

text \<open>C3: the statement around an offset is the whole stretch between the semicolon tokens on either
  side, trimmed of white space: the stretch holds the offset, each end is an end of the buffer or
  the edge of a semicolon token, no semicolon token falls inside, and what the range leaves out of
  it is white space; a blank stretch gives the empty range at its end.\<close>
theorem statementRangeAt_spec:
  assumes "statementRangeAt sql offset type = (b, e)"
  shows "\<exists>lo hi. lo \<le> min offset (length sql) \<and> min offset (length sql) \<le> hi \<and> hi \<le> length sql \<and>
    (lo = 0 \<or> (\<exists>t\<in>set (tokenize sql (dialectFor type)). is_semicolon t \<and> tk_end t = lo)) \<and>
    (hi = length sql \<or> (\<exists>t\<in>set (tokenize sql (dialectFor type)). is_semicolon t \<and> tk_begin t = hi)) \<and>
    (\<forall>t\<in>set (tokenize sql (dialectFor type)). is_semicolon t \<longrightarrow> tk_end t \<le> lo \<or> hi \<le> tk_begin t) \<and>
    lo \<le> b \<and> b \<le> e \<and> e \<le> hi \<and>
    (\<forall>k. lo \<le> k \<and> k < b \<or> e \<le> k \<and> k < hi \<longrightarrow> isspace (sql ! k)) \<and>
    (if b < e then \<not> isspace (sql ! b) \<and> \<not> isspace (sql ! (e - 1)) else b = hi)"
proof -
  define off where "off = min offset (length sql)"
  define span where "span = statementAt (tokenize sql (dialectFor type)) off (length sql)"
  define body where "body = substr sql (sp_begin span) (sp_end span - sp_begin span)"
  have ok: "span_ok 0 off (length sql) (tokenize sql (dialectFor type)) span"
    unfolding span_def by (rule statementAt_ok) (simp add: off_def)
  have ends: "span_ends 0 (length sql) (tokenize sql (dialectFor type)) (sp_begin span) (sp_end span)"
    unfolding span_def by (rule statementAt_ends)
  from assms have b: "b = sp_begin span + span_length isspace body"
    and e: "e = sp_end span - span_length isspace (rev (drop (b - sp_begin span) body))"
    unfolding statementRangeAt_def Let_def off_def [symmetric] span_def [symmetric] body_def
    by auto
  have t: "trimmed sql (sp_begin span) (sp_end span) b e"
    by (rule trim_ends [OF _ _ body_def b e]) (use ok in \<open>simp_all add: span_ok_def\<close>)
  have "b = sp_end span" if "b = e"
    by (rule trim_blank [OF _ _ body_def b e that]) (use ok in \<open>simp_all add: span_ok_def\<close>)
  with t have "if b < e then \<not> isspace (sql ! b) \<and> \<not> isspace (sql ! (e - 1)) else b = sp_end span"
    by (auto simp: trimmed_def)
  with ok ends t show ?thesis
    unfolding off_def [symmetric] span_ok_def span_ends_def trimmed_def by blast
qed

theorem statementRangeAt_spec_witness:
  "statementRangeAt ''a ;  b ; c'' 5 SQLITE = (5, 6) \<and>
   (\<exists>lo hi. lo \<le> 5 \<and> 6 \<le> hi \<and> hi \<le> length ''a ;  b ; c'' \<and>
     (\<forall>k. lo \<le> k \<and> k < 5 \<or> 6 \<le> k \<and> k < hi \<longrightarrow> isspace (''a ;  b ; c'' ! k)))"
proof -
  have eq: "statementRangeAt ''a ;  b ; c'' 5 SQLITE = (5, 6)" by code_simp
  with statementRangeAt_spec [OF eq] show ?thesis by blast
qed

text \<open>C2: the ranges of all statements are non-empty, in bounds, in order and strictly apart;
  every token that is neither a comment nor a semicolon lies in one of them, and every
  semicolon token lies outside all of them.\<close>
theorem statementRanges_spec:
  "sorted_wrt (\<lambda>x y. snd x < fst y) (statementRanges sql type) \<and>
   (\<forall>(b, e)\<in>set (statementRanges sql type). b < e \<and> e \<le> length sql) \<and>
   (\<forall>t\<in>set (tokenize sql (dialectFor type)).
      if is_semicolon t
      then \<forall>(b, e)\<in>set (statementRanges sql type). tk_end t \<le> b \<or> e \<le> tk_begin t
      else tk_kind t \<noteq> TComment \<longrightarrow>
        (\<exists>(b, e)\<in>set (statementRanges sql type). b \<le> tk_begin t \<and> tk_end t \<le> e))"
proof -
  note inv = scan_inv_tokenize [of sql "dialectFor type"]
  have "if is_semicolon t
      then \<forall>(b, e)\<in>set (statementRanges sql type). tk_end t \<le> b \<or> e \<le> tk_begin t
      else tk_kind t \<noteq> TComment \<longrightarrow>
        (\<exists>(b, e)\<in>set (statementRanges sql type). b \<le> tk_begin t \<and> tk_end t \<le> e)"
    if "t \<in> set (tokenize sql (dialectFor type))" for t
    using ranges_scan_covers [OF inv that] ranges_scan_splits [OF inv that]
    by (auto simp only: statementRanges_def split: if_split)
  moreover have "b < e \<and> e \<le> length sql" if "(b, e) \<in> set (statementRanges sql type)" for b e
    using ranges_scan_bounds [OF inv] that unfolding statementRanges_def by blast
  ultimately show ?thesis
    using ranges_scan_ordered [OF inv] unfolding statementRanges_def by blast
qed

theorem statementRanges_spec_witness:
  "statementRanges ''SELECT 1; -- x
; DROP'' POSTGRESQL = [(0, 8), (17, 21)] \<and>
   sorted_wrt (\<lambda>x y. snd x < fst y) (statementRanges ''SELECT 1; -- x
; DROP'' POSTGRESQL)"
proof
  show "statementRanges ''SELECT 1; -- x
; DROP'' POSTGRESQL = [(0, 8), (17, 21)]" by code_simp
qed (use statementRanges_spec in blast)

end
