(* ===== verification/Catalog_Types.thy ===== *)
theory Catalog_Types
  imports Dearsql_Prelude
begin

text \<open>
  \<^verbatim>\<open>include/dearsql/types.hpp\<close>, \<^verbatim>\<open>src/types.cpp\<close> and \<^verbatim>\<open>include/dearsql/query_result.hpp\<close>: the catalog
  records every backend fills, the sentinels for NULL and booleans, the pass that fills in
  incoming foreign keys, the human-readable byte size, and query results. The main lemma gives
  the outcome of the foreign-key pass, which works through pointers into the vector, table by
  table; the byte-size lemmas bound the rounding error of what is shown.
\<close>


section \<open>Sentinels\<close>

definition NULL_SENTINEL :: bytes where "NULL_SENTINEL = ''dearsql__null''"
definition BOOL_TRUE_SENTINEL :: bytes where "BOOL_TRUE_SENTINEL = ''dearsql__bool_true''"
definition BOOL_FALSE_SENTINEL :: bytes where "BOOL_FALSE_SENTINEL = ''dearsql__bool_false''"

definition isNullSentinel :: "bytes \<Rightarrow> bool" where
  "isNullSentinel v \<longleftrightarrow> v = NULL_SENTINEL"

definition isBoolSentinel :: "bytes \<Rightarrow> bool" where
  "isBoolSentinel v \<longleftrightarrow> v = BOOL_TRUE_SENTINEL \<or> v = BOOL_FALSE_SENTINEL"

definition boolSentinelValue :: "bytes \<Rightarrow> bool" where
  "boolSentinelValue v \<longleftrightarrow> v = BOOL_TRUE_SENTINEL"


section \<open>Catalog records\<close>

record Column =
  col_name :: bytes
  col_type :: bytes
  col_defaultValue :: bytes
  col_comment :: bytes
  col_isPrimaryKey :: bool
  col_isNotNull :: bool
  col_isUnique :: bool
  col_isAutoIncrement :: bool

record Index =
  idx_name :: bytes
  idx_columns :: "bytes list"
  idx_isUnique :: bool
  idx_isPrimary :: bool
  idx_type :: bytes

record ForeignKey =
  fk_name :: bytes
  fk_sourceColumn :: bytes
  fk_targetTable :: bytes
  fk_targetColumn :: bytes
  fk_onDelete :: bytes
  fk_onUpdate :: bytes

record Table =
  tbl_name :: bytes
  tbl_schema :: bytes
  tbl_comment :: bytes
  tbl_definition :: bytes
  tbl_fullName :: bytes
  tbl_columns :: "Column list"
  tbl_indexes :: "Index list"
  tbl_foreignKeys :: "ForeignKey list"
  tbl_incomingForeignKeys :: "ForeignKey list"
  tbl_sizeBytes :: int

text \<open>The default-constructed \<^verbatim>\<open>Table\<close> and \<^verbatim>\<open>Column\<close>.\<close>

definition default_table :: Table where
  "default_table = \<lparr>tbl_name = [], tbl_schema = [], tbl_comment = [], tbl_definition = [],
     tbl_fullName = [], tbl_columns = [], tbl_indexes = [], tbl_foreignKeys = [],
     tbl_incomingForeignKeys = [], tbl_sizeBytes = -1\<rparr>"

definition default_column :: Column where
  "default_column = \<lparr>col_name = [], col_type = [], col_defaultValue = [], col_comment = [],
     col_isPrimaryKey = False, col_isNotNull = False, col_isUnique = False,
     col_isAutoIncrement = False\<rparr>"

datatype RoutineKind = RFunction | RProcedure

record Routine =
  rt_name :: bytes
  rt_signature :: bytes
  rt_kind :: RoutineKind
  rt_returnType :: bytes


section \<open>Incoming foreign keys\<close>

text \<open>
  \<^verbatim>\<open>populateIncomingForeignKeys\<close> keeps pointers into the vector in a hash map from table name to
  table; the model keeps the index the pointer stands for. Storing under an existing name
  overwrites, so of two tables with one name the later one is found.
\<close>

definition table_lookup :: "Table list \<Rightarrow> (bytes \<rightharpoonup> nat)" where
  "table_lookup ts = foldl (\<lambda>m i. m(tbl_name (ts ! i) \<mapsto> i)) Map.empty [0..<length ts]"

definition incoming_key :: "Table \<Rightarrow> ForeignKey \<Rightarrow> ForeignKey" where
  "incoming_key src fk = fk\<lparr>fk_targetTable := tbl_name src\<rparr>"

definition push_incoming ::
    "(bytes \<rightharpoonup> nat) \<Rightarrow> Table \<Rightarrow> Table list \<Rightarrow> ForeignKey \<Rightarrow> Table list" where
  "push_incoming lookup src ts fk =
     (case lookup (fk_targetTable fk) of
        None \<Rightarrow> ts
      | Some i \<Rightarrow> ts[i := (ts ! i)\<lparr>tbl_incomingForeignKeys :=
                              tbl_incomingForeignKeys (ts ! i) @ [incoming_key src fk]\<rparr>])"

definition populateIncomingForeignKeys :: "Table list \<Rightarrow> Table list" where
  "populateIncomingForeignKeys tables =
     (let cleared = map (\<lambda>t. t\<lparr>tbl_incomingForeignKeys := []\<rparr>) tables;
          lookup = table_lookup tables
      in foldl (\<lambda>ts src. foldl (push_incoming lookup src) ts (tbl_foreignKeys src)) cleared tables)"


section \<open>Byte sizes\<close>

text \<open>
  \<^verbatim>\<open>static_cast<double>(int64_t)\<close> on a non-negative value rounds to 53 significant bits, ties to
  even; every division in \<^verbatim>\<open>formatByteSize\<close> is by a power of two and therefore exact, and
  \<^verbatim>\<open>{:.1f}\<close> prints the exact quotient rounded to the nearest decimal, ties to even.
\<close>

definition round_div :: "nat \<Rightarrow> nat \<Rightarrow> nat" where
  "round_div a b =
     (let q = a div b; r = a mod b
      in if 2 * r < b then q else if b < 2 * r then q + 1 else if even q then q else q + 1)"

fun bit_length :: "nat \<Rightarrow> nat" where
  "bit_length n = (if n = 0 then 0 else Suc (bit_length (n div 2)))"

declare bit_length.simps [simp del]

definition double_of :: "nat \<Rightarrow> nat" where
  "double_of n = (let k = bit_length n - 53 in round_div n (2 ^ k) * 2 ^ k)"

definition fixed1 :: "nat \<Rightarrow> nat \<Rightarrow> bytes" where
  "fixed1 a b = (let t = round_div (10 * a) b in nat_to_string (t div 10) @ ''.'' @ [digit_char (t mod 10)])"

definition fixed2 :: "nat \<Rightarrow> nat \<Rightarrow> bytes" where
  "fixed2 a b = (let t = round_div (100 * a) b
     in nat_to_string (t div 100) @ ''.'' @ [digit_char (t div 10 mod 10), digit_char (t mod 10)])"

definition formatByteSize :: "int \<Rightarrow> bytes" where
  "formatByteSize n =
     (if n < 0 then []
      else let b = double_of (nat n)
           in if b < 1024 then to_string n @ '' B''
              else if b < 1024 ^ 2 then fixed1 b 1024 @ '' KB''
              else if b < 1024 ^ 3 then fixed1 b (1024 ^ 2) @ '' MB''
              else if b < 1024 ^ 4 then fixed2 b (1024 ^ 3) @ '' GB''
              else fixed2 b (1024 ^ 4) @ '' TB'')"


section \<open>Query results\<close>

record StatementResult =
  sr_success :: bool
  sr_errorMessage :: bytes
  sr_columnNames :: "bytes list"
  sr_tableData :: "bytes list list"
  sr_affectedRows :: int
  sr_message :: bytes

text \<open>The timings of \<^verbatim>\<open>QueryResult\<close> are measurements the library never reads back; they are left out.\<close>

record QueryResult =
  qr_statements :: "StatementResult list"
  qr_messages :: "bytes list"

definition default_statement :: StatementResult where
  "default_statement = \<lparr>sr_success = True, sr_errorMessage = [], sr_columnNames = [],
     sr_tableData = [], sr_affectedRows = 0, sr_message = []\<rparr>"

definition qr_success :: "QueryResult \<Rightarrow> bool" where
  "qr_success r \<longleftrightarrow> qr_statements r \<noteq> [] \<and> list_all sr_success (qr_statements r)"

definition qr_errorMessage :: "QueryResult \<Rightarrow> bytes" where
  "qr_errorMessage r =
     (case List.find (\<lambda>s. \<not> sr_success s) (qr_statements r) of
        None \<Rightarrow> [] | Some s \<Rightarrow> sr_errorMessage s)"


section \<open>Lemmas\<close>

lemma foldl_upd_upt:
  "foldl (\<lambda>m i. m(f i \<mapsto> i)) m0 [0..<n] k =
     (if \<exists>i<n. f i = k then Some (GREATEST i. i < n \<and> f i = k) else m0 k)"
proof (induction n)
  case (Suc n)
  show ?case
  proof (cases "f n = k")
    case True
    then have "(GREATEST i. i < Suc n \<and> f i = k) = n"
      by (intro Greatest_equality) auto
    with True show ?thesis by auto
  next
    case False
    then have "(\<lambda>i. i < Suc n \<and> f i = k) = (\<lambda>i. i < n \<and> f i = k)"
      by (auto simp: less_Suc_eq)
    moreover from False have "(\<exists>i<Suc n. f i = k) \<longleftrightarrow> (\<exists>i<n. f i = k)"
      by (auto simp: less_Suc_eq)
    ultimately show ?thesis using Suc False by auto
  qed
qed simp

lemma table_lookup_Some_iff:
  "table_lookup ts k = Some i \<longleftrightarrow>
     i < length ts \<and> tbl_name (ts ! i) = k \<and>
     (\<forall>j. i < j \<and> j < length ts \<longrightarrow> tbl_name (ts ! j) \<noteq> k)"
    (is "?L \<longleftrightarrow> ?R")
proof
  let ?P = "\<lambda>i. i < length ts \<and> tbl_name (ts ! i) = k"
  note eq = foldl_upd_upt [of "\<lambda>i. tbl_name (ts ! i)" Map.empty "length ts" k,
      folded table_lookup_def]
  {
    assume ?L
    with eq have "(if \<exists>i. ?P i then Some (Greatest ?P) else None) = Some i" by simp
    then have ex: "\<exists>i. ?P i" and i: "i = Greatest ?P"
      by (auto split: if_split_asm)
    have "?P i" unfolding i
      by (rule GreatestI_ex_nat [OF ex, where b = "length ts"]) simp
    moreover have "j \<le> i" if "?P j" for j
      unfolding i by (rule Greatest_le_nat [where b = "length ts"]) (use that in auto)
    ultimately show ?R by (metis not_le)
  next
    assume ?R
    then have "Greatest ?P = i" by (intro Greatest_equality) (simp, metis not_le)
    with \<open>?R\<close> eq show ?L by auto
  }
qed

lemma push_incoming_length [simp]: "length (push_incoming m src ts fk) = length ts"
  by (simp add: push_incoming_def split: option.split)

lemma push_incoming_nth:
  "i < length ts \<Longrightarrow> push_incoming m src ts fk ! i =
     (ts ! i)\<lparr>tbl_incomingForeignKeys := tbl_incomingForeignKeys (ts ! i) @
        (if m (fk_targetTable fk) = Some i then [incoming_key src fk] else [])\<rparr>"
  by (auto simp: push_incoming_def nth_list_update split: option.split)

lemma foldl_push_length [simp]: "length (foldl (push_incoming m src) ts fks) = length ts"
  by (induction fks arbitrary: ts) simp_all

lemma foldl_push_nth:
  "i < length ts \<Longrightarrow> foldl (push_incoming m src) ts fks ! i =
     (ts ! i)\<lparr>tbl_incomingForeignKeys := tbl_incomingForeignKeys (ts ! i) @
        map (incoming_key src) (filter (\<lambda>fk. m (fk_targetTable fk) = Some i) fks)\<rparr>"
  by (induction fks arbitrary: ts) (auto simp: push_incoming_nth)

lemma foldl_sources_length [simp]:
  "length (foldl (\<lambda>ts src. foldl (push_incoming m src) ts (tbl_foreignKeys src)) ts srcs) = length ts"
  by (induction srcs arbitrary: ts) simp_all

lemma foldl_sources_nth:
  "i < length ts \<Longrightarrow>
   foldl (\<lambda>ts src. foldl (push_incoming m src) ts (tbl_foreignKeys src)) ts srcs ! i =
     (ts ! i)\<lparr>tbl_incomingForeignKeys := tbl_incomingForeignKeys (ts ! i) @
        concat (map (\<lambda>src. map (incoming_key src)
          (filter (\<lambda>fk. m (fk_targetTable fk) = Some i) (tbl_foreignKeys src))) srcs)\<rparr>"
  by (induction srcs arbitrary: ts) (auto simp: foldl_push_nth)

lemma round_div_error: "0 < b \<Longrightarrow> 2 * (round_div a b * b) \<le> 2 * a + b \<and> 2 * a \<le> 2 * (round_div a b * b) + b"
proof -
  assume "0 < b"
  then have r: "a mod b < b" by simp
  have a: "a = a div b * b + a mod b" by simp
  define q where "q = a div b * b"
  have "(a div b + 1) * b = q + b" by (simp add: q_def)
  with r a show ?thesis
    unfolding round_div_def Let_def q_def [symmetric] by auto
qed

lemma bit_length_le: "n < 2 ^ k \<Longrightarrow> bit_length n \<le> k"
proof (induction k arbitrary: n)
  case 0
  then show ?case by (simp add: bit_length.simps)
next
  case (Suc k)
  then have "n div 2 < 2 ^ k" by auto
  with Suc.IH show ?case by (subst bit_length.simps) simp
qed

lemma double_of_exact: "n < 2 ^ 53 \<Longrightarrow> double_of n = n"
  using bit_length_le [of n 53] by (simp add: double_of_def round_div_def)


section \<open>Properties\<close>

text \<open>After the pass, a table's incoming keys are exactly the foreign keys of all tables, in
  catalog order, that name it as their target, each renamed to the table it comes from; of
  several tables with one name only the last collects them, and every other field is untouched.\<close>
lemma populateIncomingForeignKeys_nth:
  assumes "i < length ts"
  shows "populateIncomingForeignKeys ts ! i =
    (ts ! i)\<lparr>tbl_incomingForeignKeys :=
      (if \<forall>j. i < j \<and> j < length ts \<longrightarrow> tbl_name (ts ! j) \<noteq> tbl_name (ts ! i)
       then concat (map (\<lambda>src. map (\<lambda>fk. fk\<lparr>fk_targetTable := tbl_name src\<rparr>)
              (filter (\<lambda>fk. fk_targetTable fk = tbl_name (ts ! i)) (tbl_foreignKeys src))) ts)
       else [])\<rparr>"
proof -
  have hit: "table_lookup ts k = Some i \<longleftrightarrow> k = tbl_name (ts ! i) \<and>
      (\<forall>j. i < j \<and> j < length ts \<longrightarrow> tbl_name (ts ! j) \<noteq> tbl_name (ts ! i))" for k
    using assms by (auto simp: table_lookup_Some_iff)
  have key: "incoming_key src = (\<lambda>fk. fk\<lparr>fk_targetTable := tbl_name src\<rparr>)" for src
    by (rule ext) (simp add: incoming_key_def)
  from assms show ?thesis
    unfolding populateIncomingForeignKeys_def Let_def
    by (simp add: foldl_sources_nth hit key)
qed

definition users_orders :: "Table list" where
  "users_orders =
    [default_table\<lparr>tbl_name := ''users''\<rparr>,
     default_table\<lparr>tbl_name := ''orders'', tbl_foreignKeys :=
       [\<lparr>fk_name = ''fk'', fk_sourceColumn = ''uid'', fk_targetTable = ''users'',
         fk_targetColumn = ''id'', fk_onDelete = [], fk_onUpdate = []\<rparr>]\<rparr>]"

lemma populateIncomingForeignKeys_nth_witness:
  "map fk_targetTable (tbl_incomingForeignKeys (populateIncomingForeignKeys users_orders ! 0)) = [''orders'']"
proof -
  have "\<forall>j. 0 < j \<and> j < length users_orders \<longrightarrow> tbl_name (users_orders ! j) \<noteq> tbl_name (users_orders ! 0)"
    by (auto simp: users_orders_def default_table_def less_Suc_eq)
  then show ?thesis
    using populateIncomingForeignKeys_nth [of 0 users_orders]
    by (simp add: users_orders_def default_table_def)
qed

text \<open>C39: a size of at least one kilobyte and below 2 to the 53 bytes is shown in the largest unit
  it reaches, and the shown decimal is within half a unit of its last digit of the exact size.\<close>
theorem formatByteSize_rounding:
  assumes "1024 \<le> n" "n < 2 ^ 53"
  shows "\<exists>k t. k \<in> {1, 2, 3, 4} \<and> 1024 ^ k \<le> n \<and> (k < 4 \<longrightarrow> n < 1024 ^ Suc k) \<and>
    formatByteSize n =
      (if k \<le> 2 then nat_to_string (t div 10) @ ''.'' @ [digit_char (t mod 10)]
       else nat_to_string (t div 100) @ ''.'' @ [digit_char (t div 10 mod 10), digit_char (t mod 10)]) @
      ['' KB'', '' MB'', '' GB'', '' TB''] ! (k - 1) \<and>
    2 * \<bar>int t * 1024 ^ k - (if k \<le> 2 then 10 else 100) * n\<bar> \<le> 1024 ^ k"
    (is "\<exists>k t. ?Q k t")
proof -
  define m where "m = nat n"
  from assms have m: "double_of m = m" "n = int m" "1024 \<le> m" "m < 2 ^ 53"
    by (auto simp: m_def double_of_exact nat_less_iff le_nat_iff)
  have err: "2 * \<bar>int (round_div a b) * int b - int a\<bar> \<le> int b" if "0 < b" for a b
  proof -
    from round_div_error [OF that, of a]
    have "2 * (int (round_div a b) * int b) \<le> 2 * int a + int b"
      and "2 * int a \<le> 2 * (int (round_div a b) * int b) + int b"
      by (auto simp: zle_int [symmetric] simp del: zle_int)
    then show ?thesis by arith
  qed
  consider (kb) "m < 1024 ^ 2" | (mb) "1024 ^ 2 \<le> m" "m < 1024 ^ 3"
    | (gb) "1024 ^ 3 \<le> m" "m < 1024 ^ 4" | (tb) "1024 ^ 4 \<le> m"
    by linarith
  then show ?thesis
  proof cases
    case kb
    with m err [of 1024 "10 * m"] have "?Q 1 (round_div (10 * m) 1024)"
      by (simp add: formatByteSize_def fixed1_def Let_def)
    then show ?thesis by blast
  next
    case mb
    with m err [of "1024 ^ 2" "10 * m"] have "?Q 2 (round_div (10 * m) (1024 ^ 2))"
      by (simp add: formatByteSize_def fixed1_def Let_def)
    then show ?thesis by blast
  next
    case gb
    with m err [of "1024 ^ 3" "100 * m"] have "?Q 3 (round_div (100 * m) (1024 ^ 3))"
      by (simp add: formatByteSize_def fixed2_def Let_def)
    then show ?thesis by blast
  next
    case tb
    with m err [of "1024 ^ 4" "100 * m"] have "?Q 4 (round_div (100 * m) (1024 ^ 4))"
      by (simp add: formatByteSize_def fixed2_def Let_def)
    then show ?thesis by blast
  qed
qed

theorem formatByteSize_rounding_witness:
  "formatByteSize 1536 = ''1.5 KB'' \<and>
   (\<exists>k\<in>{1, 2, 3, 4}. (1024::int) ^ k \<le> 1536)"
proof -
  have "formatByteSize 1536 = ''1.5 KB''"
    by (simp add: formatByteSize_def double_of_exact fixed1_def round_div_def nat_to_string.simps
        digit_char_eval)
  moreover have "\<exists>k\<in>{1, 2, 3, 4}. (1024::int) ^ k \<le> 1536"
    using formatByteSize_rounding [of 1536] by auto
  ultimately show ?thesis ..
qed

end
