(* ===== verification/Ddl_Utils.thy ===== *)
theory Ddl_Utils
  imports Sql_Text
begin

text \<open>
  \<^verbatim>\<open>include/dearsql/ddl_utils.hpp\<close>: trimming, the precision and scale of a type name, the mapping of
  a raw type to a storage class, quoting helpers. The lemmas are the round trip of the
  doubled-quote escaping that every SQL literal goes through, the round trip of printed
  precision and scale, and what a "safe token" is.
\<close>

record ColumnType =
  ct_type :: bytes
  ct_precision :: int
  ct_scale :: int

definition trim :: "bytes \<Rightarrow> bytes" where
  "trim value = rev (dropWhile isspace (rev (dropWhile isspace value)))"

definition toUpper :: "bytes \<Rightarrow> bytes" where
  "toUpper value = map toupper value"

definition parsePrecisionScale :: "bytes \<Rightarrow> int \<times> int" where
  "parsePrecisionScale type =
     (case str_find_char (CHR ''('') type 0 of
        None \<Rightarrow> (0, 0)
      | Some open_pos \<Rightarrow>
        (case str_find_char (CHR '')'') type (open_pos + 1) of
           None \<Rightarrow> (0, 0)
         | Some close_pos \<Rightarrow>
           if close_pos \<le> open_pos + 1 then (0, 0)
           else
             let inside = filter (\<lambda>c. \<not> isspace c) (substr type (open_pos + 1) (close_pos - open_pos - 1))
             in (case str_find_char (CHR '','') inside 0 of
                   None \<Rightarrow> (case stoi inside of None \<Rightarrow> (0, 0) | Some p \<Rightarrow> (p, 0))
                 | Some comma \<Rightarrow>
                   (case (stoi (take comma inside), stoi (drop (comma + 1) inside)) of
                      (Some p, Some q) \<Rightarrow> (p, q)
                    | _ \<Rightarrow> (0, 0)))))"

definition has_token :: "bytes \<Rightarrow> bytes \<Rightarrow> bool" where
  "has_token normalized token \<longleftrightarrow> str_find token normalized 0 \<noteq> None"

definition inferColumnType :: "bytes \<Rightarrow> ColumnType" where
  "inferColumnType rawType =
     (let normalized = toUpper (trim rawType);
          ps = parsePrecisionScale normalized;
          has = has_token normalized;
          type =
            (if has ''TINYINT'' \<or> has ''SMALLINT'' then ''INTEGER''
             else if has ''BIGINT'' then ''BIGINT''
             else if has ''INT'' \<or> has ''INTEGER'' then ''INTEGER''
             else if has ''BOOL'' \<or> has ''BOOLEAN'' then ''INTEGER''
             else if has ''DOUBLE'' \<or> has ''FLOAT'' \<or> has ''REAL'' then ''REAL''
             else if has ''DECIMAL'' \<or> has ''NUMERIC'' then ''REAL''
             else if has ''DATE'' \<or> has ''TIME'' then ''TEXT''
             else if has ''BLOB'' \<or> has ''BYTEA'' \<or> has ''BINARY'' then ''BLOB''
             else if has ''CHAR'' \<or> has ''TEXT'' \<or> has ''CLOB'' \<or> has ''UUID'' \<or> has ''JSON'' then ''TEXT''
             else ''TEXT'')
      in \<lparr>ct_type = type, ct_precision = fst ps, ct_scale = snd ps\<rparr>)"

definition joinColumnNames :: "bytes list \<Rightarrow> bytes" where
  "joinColumnNames names = join_with '', '' names"

text \<open>The copy loops of the sources that double one character.\<close>

fun double_char :: "char \<Rightarrow> bytes \<Rightarrow> bytes" where
  "double_char q [] = []"
| "double_char q (c # s) = (if c = q then [q, q] else [c]) @ double_char q s"

text \<open>Reading doubled characters back.\<close>

fun undouble :: "char \<Rightarrow> bytes \<Rightarrow> bytes" where
  "undouble q (a # b # r) = (if a = q \<and> b = q then q # undouble q r else a # undouble q (b # r))"
| "undouble q s = s"

lemma undouble_double: "undouble q (double_char q s) = s"
proof (induction s)
  case (Cons c s)
  have "c \<noteq> q \<Longrightarrow> undouble q (c # xs) = c # undouble q xs" for xs by (cases xs) simp_all
  with Cons show ?case by simp
qed simp

definition escapeSingleQuotes :: "bytes \<Rightarrow> bytes" where
  "escapeSingleQuotes value = double_char squote value"

definition isSafeSqlToken :: "bytes \<Rightarrow> bool" where
  "isSafeSqlToken input \<longleftrightarrow> input \<noteq> [] \<and> list_all (\<lambda>ch. isalnum ch \<or> ch = CHR ''_'') input"

definition makeConstraintName :: "bytes \<Rightarrow> bytes \<Rightarrow> bytes" where
  "makeConstraintName pfx tableName =
     map (\<lambda>c. if c = CHR ''.'' then CHR ''_'' else c) (pfx @ tableName)"


section \<open>Lemmas\<close>

lemma str_find_char_first:
  assumes "c \<notin> set p"
  shows "str_find_char c (p @ c # r) 0 = Some (length p)"
  unfolding str_find_char_def
  by (rule find_uptI) (use assms in \<open>auto simp: nth_append\<close>)

lemma str_find_char_after:
  assumes "c \<notin> set q"
  shows "str_find_char c (p @ q @ c # r) (length p) = Some (length p + length q)"
  unfolding str_find_char_def
  by (rule find_uptI) (use assms in \<open>auto simp: nth_append nth_mem\<close>)

lemma digits_no_char: "\<not> isdigit c \<Longrightarrow> c \<notin> set (nat_to_string n)"
  using nat_to_string_digits [of n] by (auto simp: list_all_iff)

lemma filter_nonspace_digits [simp]: "filter (\<lambda>c. \<not> isspace c) (nat_to_string n) = nat_to_string n"
  using nat_to_string_digits [of n]
  by (auto simp: list_all_iff filter_id_conv isdigit_not_isspace)

lemma double_char_append [simp]: "double_char q (a @ b) = double_char q a @ double_char q b"
  by (induction a) auto


section \<open>Properties\<close>

text \<open>Precision and scale printed after a type name, as in \<open>DECIMAL(10,2)\<close>, are read back exactly.\<close>
lemma parsePrecisionScale_print:
  assumes "CHR ''('' \<notin> set ty" "int p < 2 ^ 31" "int q < 2 ^ 31"
  shows "parsePrecisionScale (ty @ ''('' @ nat_to_string p @ '','' @ nat_to_string q @ '')'') = (int p, int q)"
proof -
  let ?inside = "nat_to_string p @ '','' @ nat_to_string q"
  let ?t = "ty @ ''('' @ ?inside @ '')''"
  have nd: "\<not> isdigit (CHR '')'')" "\<not> isdigit (CHR '','')" by (simp_all add: isdigit_def byte_def)
  have 1: "str_find_char (CHR ''('') ?t 0 = Some (length ty)"
    using str_find_char_first [OF assms(1)] by simp
  have "CHR '')'' \<notin> set ?inside" using nd digits_no_char by auto
  from str_find_char_after [OF this, of "ty @ ''(''" "[]"]
  have 2: "str_find_char (CHR '')'') ?t (length ty + 1) = Some (length ty + 1 + length ?inside)" by simp
  have 3: "substr ?t (length ty + 1) (length ty + 1 + length ?inside - length ty - 1) = ?inside"
    by (simp add: substr_def)
  have "\<not> isspace (CHR '','')" by (simp add: isspace_def byte_def)
  then have 4: "filter (\<lambda>c. \<not> isspace c) ?inside = ?inside" by simp
  have 5: "str_find_char (CHR '','') ?inside 0 = Some (length (nat_to_string p))"
    using str_find_char_first [OF digits_no_char [OF nd(2)]] by simp
  show ?thesis
    unfolding parsePrecisionScale_def
    using 1 2 3 4 5 assms by (simp add: Let_def stoi_nat_to_string)
qed

lemma parsePrecisionScale_print_witness:
  "parsePrecisionScale (''DECIMAL'' @ ''('' @ nat_to_string 10 @ '','' @ nat_to_string 2 @ '')'') = (10, 2)"
  using parsePrecisionScale_print [of "''DECIMAL''" 10 2] by simp

end
