(* ===== verification/Sql_Builder.thy ===== *)
theory Sql_Builder
  imports Connection_Info Catalog_Types Ddl_Utils
begin

text \<open>
  \<^verbatim>\<open>src/sql_builder.cpp\<close> and \<^verbatim>\<open>include/dearsql/sql_builder.hpp\<close>: the dialect SQL builders. A builder object
  has no state, so it is its class: the datatype \<open>Builder\<close>. A virtual method is one function
  over \<open>Builder\<close>; a class without an override of its own takes the base-class equation
  (\<open>base_...\<close>). \<^verbatim>\<open>std::format\<close> with plain \<open>{}\<close> fields is concatenation.
\<close>

datatype Builder =
    PostgreSQLBuilder | MySQLBuilder | MSSQLBuilder | OracleBuilder | SQLiteBuilder
  | DuckDBBuilder | CassandraBuilder

fun databaseType :: "Builder \<Rightarrow> DatabaseType" where
  "databaseType PostgreSQLBuilder = POSTGRESQL"
| "databaseType MySQLBuilder = MYSQL"
| "databaseType MSSQLBuilder = MSSQL"
| "databaseType OracleBuilder = ORACLE"
| "databaseType SQLiteBuilder = SQLITE"
| "databaseType DuckDBBuilder = DUCKDB"
| "databaseType CassandraBuilder = CASSANDRA"

fun createSQLBuilder :: "DatabaseType \<Rightarrow> Builder" where
  "createSQLBuilder REDSHIFT = PostgreSQLBuilder"
| "createSQLBuilder COCKROACHDB = PostgreSQLBuilder"
| "createSQLBuilder POSTGRESQL = PostgreSQLBuilder"
| "createSQLBuilder MYSQL = MySQLBuilder"
| "createSQLBuilder MARIADB = MySQLBuilder"
| "createSQLBuilder TIDB = MySQLBuilder"
| "createSQLBuilder MSSQL = MSSQLBuilder"
| "createSQLBuilder ORACLE = OracleBuilder"
| "createSQLBuilder CASSANDRA = CassandraBuilder"
| "createSQLBuilder DUCKDB = DuckDBBuilder"
| "createSQLBuilder SQLITE = SQLiteBuilder"
| "createSQLBuilder REDIS = SQLiteBuilder"
| "createSQLBuilder MONGODB = SQLiteBuilder"
| "createSQLBuilder S3 = SQLiteBuilder"


section \<open>Types and auto-increment\<close>

definition autoIncrementClause :: "DatabaseType \<Rightarrow> bytes" where
  "autoIncrementClause type =
     (if type = MYSQL \<or> type = MARIADB \<or> type = TIDB then '' AUTO_INCREMENT''
      else if type = SQLITE then '' AUTOINCREMENT''
      else if type = MSSQL then '' IDENTITY(1,1)''
      else if type = ORACLE then '' GENERATED ALWAYS AS IDENTITY''
      else [])"

definition is_blank :: "char \<Rightarrow> bool" where
  "is_blank c \<longleftrightarrow> c = CHR '' '' \<or> c = tabulator"

definition normalizeTypeName :: "bytes \<Rightarrow> bytes" where
  "normalizeTypeName type =
     (let low = map tolower type;
          low1 = (case str_find_char (CHR ''('') low 0 of None \<Rightarrow> low | Some p \<Rightarrow> take p low);
          low2 = (case str_find_char (CHR '' '') low1 0 of None \<Rightarrow> low1 | Some p \<Rightarrow> take p low1)
      in rev (dropWhile is_blank (rev (dropWhile is_blank low2))))"

definition isIntegerType :: "bytes \<Rightarrow> bool" where
  "isIntegerType type \<longleftrightarrow>
     normalizeTypeName type \<in>
       set [''integer'', ''int'', ''bigint'', ''smallint'', ''tinyint'', ''mediumint'']"

definition serialTypeForColumn :: "bytes \<Rightarrow> bytes" where
  "serialTypeForColumn type =
     (if normalizeTypeName type = ''bigint'' then ''BIGSERIAL''
      else if normalizeTypeName type = ''smallint'' then ''SMALLSERIAL''
      else ''SERIAL'')"

definition supportsAutoIncrement :: "DatabaseType \<Rightarrow> bytes \<Rightarrow> bool" where
  "supportsAutoIncrement dbType columnType =
     (if dbType = DUCKDB then False
      else if dbType = SQLITE then normalizeTypeName columnType = ''integer''
      else if dbType = ORACLE
      then normalizeTypeName columnType = ''number'' \<or> isIntegerType (normalizeTypeName columnType)
      else isIntegerType columnType)"


section \<open>Quoting\<close>

definition base_quoteIdentifier :: "bytes \<Rightarrow> bytes" where
  "base_quoteIdentifier identifier = [dquote] @ double_char dquote identifier @ [dquote]"

definition mysql_quoteIdentifier :: "bytes \<Rightarrow> bytes" where
  "mysql_quoteIdentifier identifier = [backtick] @ double_char backtick identifier @ [backtick]"

definition mssql_quoteIdentifier :: "bytes \<Rightarrow> bytes" where
  "mssql_quoteIdentifier identifier = ''['' @ double_char (CHR '']'') identifier @ '']''"

fun quoteIdentifier :: "Builder \<Rightarrow> bytes \<Rightarrow> bytes" where
  "quoteIdentifier MySQLBuilder x = mysql_quoteIdentifier x"
| "quoteIdentifier MSSQLBuilder x = mssql_quoteIdentifier x"
| "quoteIdentifier _ x = base_quoteIdentifier x"

definition quoteList :: "Builder \<Rightarrow> bytes list \<Rightarrow> bytes" where
  "quoteList b names = join_nonempty '', '' [] (map (quoteIdentifier b) names)"

definition qualifiedRef :: "Builder \<Rightarrow> bytes \<Rightarrow> bytes \<Rightarrow> bytes" where
  "qualifiedRef b schema tableName =
     (if schema = [] then quoteIdentifier b tableName
      else quoteIdentifier b schema @ ''.'' @ quoteIdentifier b tableName)"

definition qualifiedName :: "Builder \<Rightarrow> Table \<Rightarrow> bytes" where
  "qualifiedName b table =
     (if tbl_schema table = [] then quoteIdentifier b (tbl_name table)
      else quoteIdentifier b (tbl_schema table) @ ''.'' @ quoteIdentifier b (tbl_name table))"

definition sql_literal :: "bytes \<Rightarrow> bytes" where
  "sql_literal v = [squote] @ escapeSingleQuotes v @ [squote]"


section \<open>CREATE TABLE\<close>

text \<open>The state of the column loop of \<^verbatim>\<open>createTable\<close>.\<close>

record CreateState =
  cs_sql :: bytes
  cs_trailingPk :: "bytes list"
  cs_inlinePk :: bool

definition createTable_column :: "Builder \<Rightarrow> CreateState \<Rightarrow> nat \<times> Column \<Rightarrow> CreateState" where
  "createTable_column b st ic =
     (let i = fst ic; col = snd ic; dbType = databaseType b;
          sql0 = cs_sql st @ (if i > 0 then '', '' else []);
          colType = (if col_isAutoIncrement col \<and> dbType = POSTGRESQL
                     then serialTypeForColumn (col_type col) else col_type col);
          sql1 = sql0 @ quoteIdentifier b (col_name col) @ '' '' @ colType;
          inlinePk = (col_isPrimaryKey col \<and> col_isAutoIncrement col \<and> dbType = SQLITE);
          sql2 = (if inlinePk then sql1 @ '' PRIMARY KEY AUTOINCREMENT'' else sql1);
          hasInline = (if inlinePk then True else cs_inlinePk st);
          trailing = (if inlinePk then [] else cs_trailingPk st);
          sql3 = (if col_isNotNull col \<and> \<not> col_isPrimaryKey col \<and> dbType \<noteq> CASSANDRA
                  then sql2 @ '' NOT NULL'' else sql2);
          sql4 = (if col_isAutoIncrement col \<and> dbType \<noteq> SQLITE \<and> dbType \<noteq> POSTGRESQL
                  then sql3 @ autoIncrementClause dbType else sql3);
          sql5 = (if isMySQLFamily dbType \<and> col_comment col \<noteq> []
                  then sql4 @ '' COMMENT '' @ sql_literal (col_comment col) else sql4);
          trailing1 = (if col_isPrimaryKey col \<and> \<not> inlinePk \<and> \<not> (dbType = SQLITE \<and> hasInline)
                       then trailing @ [col_name col] else trailing)
      in \<lparr>cs_sql = sql5, cs_trailingPk = trailing1, cs_inlinePk = hasInline\<rparr>)"

definition createTable_columns :: "Builder \<Rightarrow> bytes \<Rightarrow> Column list \<Rightarrow> CreateState" where
  "createTable_columns b sql cols =
     foldl (createTable_column b) \<lparr>cs_sql = sql, cs_trailingPk = [], cs_inlinePk = False\<rparr>
       (enumerate 0 cols)"

definition createTable :: "Builder \<Rightarrow> Table \<Rightarrow> bytes \<Rightarrow> bytes" where
  "createTable b table schemaPrefix =
     (let qualified = (if schemaPrefix \<noteq> []
                       then quoteIdentifier b schemaPrefix @ ''.'' @ quoteIdentifier b (tbl_name table)
                       else quoteIdentifier b (tbl_name table));
          dbType = databaseType b;
          isMySQL = isMySQLFamily dbType;
          st = createTable_columns b (''CREATE TABLE '' @ qualified @ '' ('') (tbl_columns table);
          sql1 = (if cs_trailingPk st \<noteq> []
                  then cs_sql st @ '', PRIMARY KEY ('' @
                       join_with '', '' (map (quoteIdentifier b) (cs_trailingPk st)) @ '')''
                  else cs_sql st);
          sql2 = sql1 @ '')'';
          sql3 = (if isMySQL
                  then sql2 @ '' ENGINE=InnoDB DEFAULT CHARSET=utf8mb4'' @
                       (if tbl_comment table \<noteq> [] then '' COMMENT='' @ sql_literal (tbl_comment table) else [])
                  else sql2)
      in if dbType = POSTGRESQL
         then sql3 @ concat (map (\<lambda>col. if col_comment col \<noteq> []
                then '';'' @ [newline] @ ''COMMENT ON COLUMN '' @ qualified @ ''.'' @
                     quoteIdentifier b (col_name col) @ '' IS '' @ sql_literal (col_comment col)
                else []) (tbl_columns table))
         else sql3)"


section \<open>Table DDL\<close>

definition ddl_column_line :: "Builder \<Rightarrow> Column \<Rightarrow> bytes" where
  "ddl_column_line b col =
     (let dbType = databaseType b;
          line0 = quoteIdentifier b (col_name col) @ '' '' @ col_type col;
          line1 = (if col_defaultValue col \<noteq> [] \<and> \<not> starts_with (col_defaultValue col) ''nextval(''
                   then line0 @ '' DEFAULT '' @ col_defaultValue col else line0);
          line2 = (if col_isAutoIncrement col \<and> \<not> isPostgresFamily dbType
                   then line1 @ autoIncrementClause dbType else line1)
      in if col_isNotNull col \<and> \<not> col_isPrimaryKey col \<and> dbType \<noteq> CASSANDRA
         then line2 @ '' NOT NULL'' else line2)"

definition ddl_is_constraint :: "Builder \<Rightarrow> Index \<Rightarrow> bool" where
  "ddl_is_constraint b idx \<longleftrightarrow> idx_isUnique idx \<and> databaseType b \<noteq> CASSANDRA"

definition ddl_indexes :: "Table \<Rightarrow> Index list" where
  "ddl_indexes table = filter (\<lambda>idx. \<not> (idx_isPrimary idx \<or> idx_columns idx = [])) (tbl_indexes table)"

text \<open>
  Foreign keys come one row per column: a row joins the first group with its name unless its name
  is empty, else it opens a group of its own.
\<close>

fun add_to_group ::
    "ForeignKey \<Rightarrow> (bytes \<times> ForeignKey list) list \<Rightarrow> (bytes \<times> ForeignKey list) list" where
  "add_to_group fk [] = [(fk_name fk, [fk])]"
| "add_to_group fk (g # gs) =
     (if fk_name fk \<noteq> [] \<and> fst g = fk_name fk then (fst g, snd g @ [fk]) # gs
      else g # add_to_group fk gs)"

definition group_foreign_keys :: "ForeignKey list \<Rightarrow> (bytes \<times> ForeignKey list) list" where
  "group_foreign_keys fks = foldl (\<lambda>gs fk. add_to_group fk gs) [] fks"

definition ddl_foreign_key_line :: "Builder \<Rightarrow> bytes \<times> ForeignKey list \<Rightarrow> bytes" where
  "ddl_foreign_key_line b g =
     (let name = fst g; parts = snd g; front = hd parts;
          line0 = (if name = [] then [] else ''CONSTRAINT '' @ quoteIdentifier b name @ '' '');
          line1 = line0 @ ''FOREIGN KEY ('' @ quoteList b (map fk_sourceColumn parts) @ '') REFERENCES '' @
                  quoteIdentifier b (fk_targetTable front) @ '' ('' @
                  quoteList b (map fk_targetColumn parts) @ '')'';
          line2 = (if fk_onDelete front \<noteq> [] \<and> fk_onDelete front \<noteq> ''NO ACTION''
                   then line1 @ '' ON DELETE '' @ fk_onDelete front else line1)
      in if fk_onUpdate front \<noteq> [] \<and> fk_onUpdate front \<noteq> ''NO ACTION''
         then line2 @ '' ON UPDATE '' @ fk_onUpdate front else line2)"

definition ddl_body :: "bytes list \<Rightarrow> bytes" where
  "ddl_body lines = concat (map (\<lambda>(i, line). ''    '' @ line @
     (if i + 1 < length lines then '','' @ [newline] else [newline])) (enumerate 0 lines))"

definition tableDdl :: "Builder \<Rightarrow> Table \<Rightarrow> bytes \<Rightarrow> bytes" where
  "tableDdl b table schemaPrefix =
     (let qualified = (if schemaPrefix = [] then quoteIdentifier b (tbl_name table)
                       else quoteIdentifier b schemaPrefix @ ''.'' @ quoteIdentifier b (tbl_name table));
          pk = map col_name (filter col_isPrimaryKey (tbl_columns table));
          lines0 = map (ddl_column_line b) (tbl_columns table);
          lines1 = (if pk \<noteq> [] then lines0 @ [''PRIMARY KEY ('' @ quoteList b pk @ '')''] else lines0);
          lines2 = lines1 @ map (\<lambda>idx. ''CONSTRAINT '' @ quoteIdentifier b (idx_name idx) @ '' UNIQUE ('' @
                     quoteList b (idx_columns idx) @ '')'')
                   (filter (ddl_is_constraint b) (ddl_indexes table));
          after = map (\<lambda>idx. ''CREATE INDEX '' @ quoteIdentifier b (idx_name idx) @ '' ON '' @ qualified @
                     '' ('' @ quoteList b (idx_columns idx) @ '');'')
                   (filter (\<lambda>idx. \<not> ddl_is_constraint b idx) (ddl_indexes table));
          lines3 = lines2 @ map (ddl_foreign_key_line b) (group_foreign_keys (tbl_foreignKeys table))
      in ''CREATE TABLE '' @ qualified @ '' ('' @ [newline] @ ddl_body lines3 @ '');'' @
         concat (map (\<lambda>a. [newline] @ a) after))"


section \<open>Queries and row changes\<close>

definition where_part :: "bytes \<Rightarrow> bytes" where
  "where_part whereClause = (if whereClause \<noteq> [] then '' WHERE '' @ whereClause else [])"

definition base_selectAll :: "Builder \<Rightarrow> Table \<Rightarrow> bytes \<Rightarrow> bytes \<Rightarrow> int \<Rightarrow> int \<Rightarrow> bytes" where
  "base_selectAll b table whereClause orderByClause limit offset =
     ''SELECT * FROM '' @ qualifiedName b table @ where_part whereClause @
     (if orderByClause \<noteq> [] then '' ORDER BY '' @ orderByClause else []) @
     '' LIMIT '' @ to_string limit @ '' OFFSET '' @ to_string offset"

definition mssql_selectAll :: "Builder \<Rightarrow> Table \<Rightarrow> bytes \<Rightarrow> bytes \<Rightarrow> int \<Rightarrow> int \<Rightarrow> bytes" where
  "mssql_selectAll b table whereClause orderByClause limit offset =
     ''SELECT * FROM '' @ qualifiedName b table @ where_part whereClause @
     '' ORDER BY '' @ (if orderByClause = [] then ''(SELECT NULL)'' else orderByClause) @
     '' OFFSET '' @ to_string offset @ '' ROWS FETCH NEXT '' @ to_string limit @ '' ROWS ONLY''"

definition oracle_selectAll :: "Builder \<Rightarrow> Table \<Rightarrow> bytes \<Rightarrow> bytes \<Rightarrow> int \<Rightarrow> int \<Rightarrow> bytes" where
  "oracle_selectAll b table whereClause orderByClause limit offset =
     ''SELECT * FROM '' @ qualifiedName b table @ where_part whereClause @
     '' ORDER BY '' @ (if orderByClause = [] then ''1'' else orderByClause) @
     '' OFFSET '' @ to_string offset @ '' ROWS FETCH NEXT '' @ to_string limit @ '' ROWS ONLY''"

definition cassandra_selectAll :: "Builder \<Rightarrow> Table \<Rightarrow> bytes \<Rightarrow> bytes \<Rightarrow> int \<Rightarrow> int \<Rightarrow> bytes" where
  "cassandra_selectAll b table whereClause orderByClause limit offset =
     ''SELECT * FROM '' @ qualifiedName b table @
     (if whereClause \<noteq> [] then '' WHERE '' @ whereClause @ '' ALLOW FILTERING'' else []) @
     (if orderByClause \<noteq> [] then '' ORDER BY '' @ orderByClause else []) @
     '' LIMIT '' @ to_string limit"

fun selectAll :: "Builder \<Rightarrow> Table \<Rightarrow> bytes \<Rightarrow> bytes \<Rightarrow> int \<Rightarrow> int \<Rightarrow> bytes" where
  "selectAll MSSQLBuilder t w ob lim ofs = mssql_selectAll MSSQLBuilder t w ob lim ofs"
| "selectAll OracleBuilder t w ob lim ofs = oracle_selectAll OracleBuilder t w ob lim ofs"
| "selectAll CassandraBuilder t w ob lim ofs = cassandra_selectAll CassandraBuilder t w ob lim ofs"
| "selectAll b t w ob lim ofs = base_selectAll b t w ob lim ofs"

definition countRows :: "Builder \<Rightarrow> Table \<Rightarrow> bytes \<Rightarrow> bytes" where
  "countRows b table whereClause = ''SELECT COUNT(*) FROM '' @ qualifiedName b table @ where_part whereClause"

definition insertRow :: "Builder \<Rightarrow> bytes \<Rightarrow> bytes list \<Rightarrow> bytes list \<Rightarrow> bytes" where
  "insertRow b qualifiedTable columnNames valueLiterals =
     (let n = min (length columnNames) (length valueLiterals);
          cols = join_with '', '' (map (quoteIdentifier b) (take n columnNames));
          vals = join_with '', '' (take n valueLiterals)
      in ''INSERT INTO '' @ qualifiedTable @ '' ('' @ cols @ '') VALUES ('' @ vals @ '')'')"

definition updateRow :: "Builder \<Rightarrow> bytes \<Rightarrow> (bytes \<times> bytes) list \<Rightarrow> bytes \<Rightarrow> bytes" where
  "updateRow b qualifiedTable assignments whereExpr =
     ''UPDATE '' @ qualifiedTable @ '' SET '' @
     join_with '', '' (map (\<lambda>(c, v). quoteIdentifier b c @ '' = '' @ v) assignments) @
     '' WHERE '' @ whereExpr"

definition deleteRow :: "Builder \<Rightarrow> bytes \<Rightarrow> bytes \<Rightarrow> bytes" where
  "deleteRow b qualifiedTable whereExpr = ''DELETE FROM '' @ qualifiedTable @ '' WHERE '' @ whereExpr"


section \<open>Table changes\<close>

definition base_renameTable :: "Builder \<Rightarrow> bytes \<Rightarrow> bytes \<Rightarrow> bytes \<Rightarrow> bytes" where
  "base_renameTable b schema oldName newName =
     ''ALTER TABLE '' @ qualifiedRef b schema oldName @ '' RENAME TO '' @ quoteIdentifier b newName"

definition mysql_renameTable :: "Builder \<Rightarrow> bytes \<Rightarrow> bytes \<Rightarrow> bytes \<Rightarrow> bytes" where
  "mysql_renameTable b schema oldName newName =
     ''RENAME TABLE '' @ qualifiedRef b schema oldName @ '' TO '' @ quoteIdentifier b newName"

definition mssql_renameTable :: "bytes \<Rightarrow> bytes \<Rightarrow> bytes \<Rightarrow> bytes" where
  "mssql_renameTable schema oldName newName =
     (let oldArg = (if schema = [] then oldName else schema @ ''.'' @ oldName)
      in ''EXEC sp_rename '' @ [squote] @ oldArg @ [squote] @ '', '' @ [squote] @ newName @ [squote])"

fun renameTable :: "Builder \<Rightarrow> bytes \<Rightarrow> bytes \<Rightarrow> bytes \<Rightarrow> bytes" where
  "renameTable MySQLBuilder sc old new = mysql_renameTable MySQLBuilder sc old new"
| "renameTable MSSQLBuilder sc old new = mssql_renameTable sc old new"
| "renameTable b sc old new = base_renameTable b sc old new"

definition base_dropTable :: "Builder \<Rightarrow> bytes \<Rightarrow> bytes \<Rightarrow> bytes" where
  "base_dropTable b schema tableName = ''DROP TABLE '' @ qualifiedRef b schema tableName"

definition oracle_dropTable :: "Builder \<Rightarrow> bytes \<Rightarrow> bytes \<Rightarrow> bytes" where
  "oracle_dropTable b schema tableName =
     ''DROP TABLE '' @ qualifiedRef b schema tableName @ '' CASCADE CONSTRAINTS''"

definition cassandra_dropTable :: "Builder \<Rightarrow> bytes \<Rightarrow> bytes \<Rightarrow> bytes" where
  "cassandra_dropTable b schema tableName = ''DROP TABLE IF EXISTS '' @ qualifiedRef b schema tableName"

fun dropTable :: "Builder \<Rightarrow> bytes \<Rightarrow> bytes \<Rightarrow> bytes" where
  "dropTable OracleBuilder sc t = oracle_dropTable OracleBuilder sc t"
| "dropTable CassandraBuilder sc t = cassandra_dropTable CassandraBuilder sc t"
| "dropTable b sc t = base_dropTable b sc t"

definition base_truncateTable :: "Builder \<Rightarrow> bytes \<Rightarrow> bytes \<Rightarrow> bytes" where
  "base_truncateTable b schema tableName = ''TRUNCATE TABLE '' @ qualifiedRef b schema tableName"

definition postgres_truncateTable :: "Builder \<Rightarrow> bytes \<Rightarrow> bytes \<Rightarrow> bytes" where
  "postgres_truncateTable b schema tableName = ''TRUNCATE TABLE ONLY '' @ qualifiedRef b schema tableName"

fun truncateTable :: "Builder \<Rightarrow> bytes \<Rightarrow> bytes \<Rightarrow> bytes" where
  "truncateTable PostgreSQLBuilder sc t = postgres_truncateTable PostgreSQLBuilder sc t"
| "truncateTable b sc t = base_truncateTable b sc t"


section \<open>Column changes\<close>

definition base_renameColumn :: "Builder \<Rightarrow> bytes \<Rightarrow> bytes \<Rightarrow> bytes \<Rightarrow> bytes" where
  "base_renameColumn b qualifiedTable oldColumnName newColumnName =
     ''ALTER TABLE '' @ qualifiedTable @ '' RENAME COLUMN '' @ quoteIdentifier b oldColumnName @
     '' TO '' @ quoteIdentifier b newColumnName"

definition mssql_renameColumn :: "bytes \<Rightarrow> bytes \<Rightarrow> bytes \<Rightarrow> bytes" where
  "mssql_renameColumn qualifiedTable oldColumnName newColumnName =
     ''EXEC sp_rename '' @ [squote] @ qualifiedTable @ ''.'' @ oldColumnName @ [squote] @ '', '' @
     [squote] @ newColumnName @ [squote] @ '', '' @ [squote] @ ''COLUMN'' @ [squote]"

fun renameColumn :: "Builder \<Rightarrow> bytes \<Rightarrow> bytes \<Rightarrow> bytes \<Rightarrow> bytes" where
  "renameColumn MSSQLBuilder qt old new = mssql_renameColumn qt old new"
| "renameColumn b qt old new = base_renameColumn b qt old new"

definition base_alterColumn :: "Builder \<Rightarrow> bytes \<Rightarrow> Column \<Rightarrow> bytes" where
  "base_alterColumn b qualifiedTable newColumn =
     (let col = quoteIdentifier b (col_name newColumn);
          alter = ''ALTER TABLE '' @ qualifiedTable @ '' ALTER COLUMN '' @ col;
          s1 = [alter @ '' TYPE '' @ col_type newColumn];
          s2 = s1 @ [alter @ '' '' @ (if col_isNotNull newColumn then ''SET NOT NULL'' else ''DROP NOT NULL'')];
          s3 = s2 @ [if col_defaultValue newColumn \<noteq> []
                     then alter @ '' SET DEFAULT '' @ col_defaultValue newColumn
                     else alter @ '' DROP DEFAULT''];
          s4 = (if col_comment newColumn \<noteq> []
                then s3 @ [''COMMENT ON COLUMN '' @ qualifiedTable @ ''.'' @ col @ '' IS '' @
                           sql_literal (col_comment newColumn)]
                else s3)
      in join_with ''; '' s4)"

definition mysql_alterColumn :: "Builder \<Rightarrow> bytes \<Rightarrow> Column \<Rightarrow> bytes" where
  "mysql_alterColumn b qualifiedTable newColumn =
     ''ALTER TABLE '' @ qualifiedTable @ '' MODIFY COLUMN '' @ quoteIdentifier b (col_name newColumn) @ '' '' @
     col_type newColumn @
     (if col_isNotNull newColumn then '' NOT NULL'' else []) @
     (if col_isAutoIncrement newColumn then autoIncrementClause (databaseType b) else []) @
     (if col_defaultValue newColumn \<noteq> [] then '' DEFAULT '' @ col_defaultValue newColumn else []) @
     (if col_comment newColumn \<noteq> [] then '' COMMENT '' @ sql_literal (col_comment newColumn) else [])"

definition mssql_alterColumn :: "Builder \<Rightarrow> bytes \<Rightarrow> Column \<Rightarrow> bytes" where
  "mssql_alterColumn b qualifiedTable newColumn =
     ''ALTER TABLE '' @ qualifiedTable @ '' ALTER COLUMN '' @ quoteIdentifier b (col_name newColumn) @ '' '' @
     col_type newColumn @ (if col_isNotNull newColumn then '' NOT NULL'' else [])"

definition oracle_alterColumn :: "Builder \<Rightarrow> bytes \<Rightarrow> Column \<Rightarrow> bytes" where
  "oracle_alterColumn b qualifiedTable newColumn =
     ''ALTER TABLE '' @ qualifiedTable @ '' MODIFY '' @ quoteIdentifier b (col_name newColumn) @ '' '' @
     col_type newColumn @ (if col_isNotNull newColumn then '' NOT NULL'' else [])"

definition sqlite_alterColumn :: bytes where
  "sqlite_alterColumn = ''-- SQLite doesn't support column modification directly''"

fun alterColumn :: "Builder \<Rightarrow> bytes \<Rightarrow> bytes \<Rightarrow> Column \<Rightarrow> bytes" where
  "alterColumn MySQLBuilder qt old col = mysql_alterColumn MySQLBuilder qt col"
| "alterColumn MSSQLBuilder qt old col = mssql_alterColumn MSSQLBuilder qt col"
| "alterColumn OracleBuilder qt old col = oracle_alterColumn OracleBuilder qt col"
| "alterColumn SQLiteBuilder qt old col = sqlite_alterColumn"
| "alterColumn b qt old col = base_alterColumn b qt col"

definition postgres_addColumn :: "Builder \<Rightarrow> bytes \<Rightarrow> Column \<Rightarrow> bytes" where
  "postgres_addColumn b qualifiedTable column =
     ''ALTER TABLE '' @ qualifiedTable @ '' ADD COLUMN '' @ quoteIdentifier b (col_name column) @ '' '' @
     (if col_isAutoIncrement column then serialTypeForColumn (col_type column) else col_type column) @
     (if col_isNotNull column then '' NOT NULL'' else []) @
     (if col_isUnique column then '' UNIQUE'' else []) @
     (if col_defaultValue column \<noteq> [] then '' DEFAULT '' @ col_defaultValue column else []) @
     (if col_comment column \<noteq> []
      then ''; COMMENT ON COLUMN '' @ qualifiedTable @ ''.'' @ quoteIdentifier b (col_name column) @ '' IS '' @
           sql_literal (col_comment column)
      else [])"

definition mysql_addColumn :: "Builder \<Rightarrow> bytes \<Rightarrow> Column \<Rightarrow> bytes" where
  "mysql_addColumn b qualifiedTable column =
     ''ALTER TABLE '' @ qualifiedTable @ '' ADD COLUMN '' @ quoteIdentifier b (col_name column) @ '' '' @
     col_type column @
     (if col_isNotNull column then '' NOT NULL'' else []) @
     (if col_isAutoIncrement column then autoIncrementClause MYSQL else []) @
     (if col_isUnique column then '' UNIQUE'' else []) @
     (if col_defaultValue column \<noteq> [] then '' DEFAULT '' @ col_defaultValue column else []) @
     (if col_comment column \<noteq> [] then '' COMMENT '' @ sql_literal (col_comment column) else [])"

definition mssql_addColumn :: "Builder \<Rightarrow> bytes \<Rightarrow> Column \<Rightarrow> bytes" where
  "mssql_addColumn b qualifiedTable column =
     ''ALTER TABLE '' @ qualifiedTable @ '' ADD '' @ quoteIdentifier b (col_name column) @ '' '' @
     col_type column @
     (if col_isAutoIncrement column then autoIncrementClause MSSQL else []) @
     (if col_isNotNull column then '' NOT NULL'' else []) @
     (if col_isUnique column then '' UNIQUE'' else []) @
     (if col_defaultValue column \<noteq> [] then '' DEFAULT '' @ col_defaultValue column else [])"

definition oracle_addColumn :: "Builder \<Rightarrow> bytes \<Rightarrow> Column \<Rightarrow> bytes" where
  "oracle_addColumn b qualifiedTable column =
     ''ALTER TABLE '' @ qualifiedTable @ '' ADD '' @ quoteIdentifier b (col_name column) @ '' '' @
     col_type column @
     (if col_isAutoIncrement column then autoIncrementClause ORACLE else []) @
     (if col_isNotNull column then '' NOT NULL'' else []) @
     (if col_isUnique column then '' UNIQUE'' else []) @
     (if col_defaultValue column \<noteq> [] then '' DEFAULT '' @ col_defaultValue column else [])"

definition sqlite_addColumn :: "Builder \<Rightarrow> bytes \<Rightarrow> Column \<Rightarrow> bytes" where
  "sqlite_addColumn b qualifiedTable column =
     ''ALTER TABLE '' @ qualifiedTable @ '' ADD COLUMN '' @ quoteIdentifier b (col_name column) @ '' '' @
     col_type column @
     (if col_isNotNull column then '' NOT NULL'' else []) @
     (if col_isUnique column then '' UNIQUE'' else []) @
     (if col_defaultValue column \<noteq> [] then '' DEFAULT '' @ col_defaultValue column else [])"

definition duckdb_addColumn :: "Builder \<Rightarrow> bytes \<Rightarrow> Column \<Rightarrow> bytes" where
  "duckdb_addColumn b qualifiedTable column =
     ''ALTER TABLE '' @ qualifiedTable @ '' ADD COLUMN '' @ quoteIdentifier b (col_name column) @ '' '' @
     col_type column @
     (if col_defaultValue column \<noteq> [] then '' DEFAULT '' @ col_defaultValue column else []) @
     (if col_isNotNull column then '' NOT NULL'' else [])"

definition cassandra_addColumn :: "Builder \<Rightarrow> bytes \<Rightarrow> Column \<Rightarrow> bytes" where
  "cassandra_addColumn b qualifiedTable column =
     ''ALTER TABLE '' @ qualifiedTable @ '' ADD '' @ quoteIdentifier b (col_name column) @ '' '' @
     col_type column"

fun addColumn :: "Builder \<Rightarrow> bytes \<Rightarrow> Column \<Rightarrow> bytes" where
  "addColumn PostgreSQLBuilder qt col = postgres_addColumn PostgreSQLBuilder qt col"
| "addColumn MySQLBuilder qt col = mysql_addColumn MySQLBuilder qt col"
| "addColumn MSSQLBuilder qt col = mssql_addColumn MSSQLBuilder qt col"
| "addColumn OracleBuilder qt col = oracle_addColumn OracleBuilder qt col"
| "addColumn SQLiteBuilder qt col = sqlite_addColumn SQLiteBuilder qt col"
| "addColumn DuckDBBuilder qt col = duckdb_addColumn DuckDBBuilder qt col"
| "addColumn CassandraBuilder qt col = cassandra_addColumn CassandraBuilder qt col"

text \<open>Every class but Cassandra's writes \<^verbatim>\<open>DROP COLUMN\<close>.\<close>

definition sql_dropColumn :: "Builder \<Rightarrow> bytes \<Rightarrow> bytes \<Rightarrow> bytes" where
  "sql_dropColumn b qualifiedTable columnName =
     ''ALTER TABLE '' @ qualifiedTable @ '' DROP COLUMN '' @ quoteIdentifier b columnName"

definition cassandra_dropColumn :: "Builder \<Rightarrow> bytes \<Rightarrow> bytes \<Rightarrow> bytes" where
  "cassandra_dropColumn b qualifiedTable columnName =
     ''ALTER TABLE '' @ qualifiedTable @ '' DROP '' @ quoteIdentifier b columnName"

fun dropColumn :: "Builder \<Rightarrow> bytes \<Rightarrow> bytes \<Rightarrow> bytes" where
  "dropColumn CassandraBuilder qt c = cassandra_dropColumn CassandraBuilder qt c"
| "dropColumn b qt c = sql_dropColumn b qt c"


section \<open>Column names\<close>

definition postgres_columnNames :: "Table \<Rightarrow> bytes" where
  "postgres_columnNames table =
     ''SELECT a.attname FROM pg_catalog.pg_attribute a '' @
     ''JOIN pg_catalog.pg_class c ON a.attrelid = c.oid '' @
     ''JOIN pg_catalog.pg_namespace n ON c.relnamespace = n.oid '' @
     ''WHERE n.nspname = '' @ sql_literal (if tbl_schema table = [] then ''public'' else tbl_schema table) @
     '' AND c.relname = '' @ sql_literal (tbl_name table) @
     '' AND a.attnum > 0 AND NOT a.attisdropped '' @
     ''ORDER BY a.attnum''"

definition mysql_columnNames :: "Table \<Rightarrow> bytes" where
  "mysql_columnNames table = ''DESCRIBE '' @ quoteIdentifier MySQLBuilder (tbl_name table)"

definition mssql_columnNames :: "Table \<Rightarrow> bytes" where
  "mssql_columnNames table =
     ''SELECT COLUMN_NAME FROM INFORMATION_SCHEMA.COLUMNS '' @
     ''WHERE TABLE_CATALOG = DB_NAME() AND TABLE_SCHEMA = '' @ sql_literal (tbl_schema table) @
     '' AND TABLE_NAME = '' @ sql_literal (tbl_name table) @ '' ORDER BY ORDINAL_POSITION''"

definition oracle_columnNames :: "Table \<Rightarrow> bytes" where
  "oracle_columnNames table =
     ''SELECT COLUMN_NAME FROM ALL_TAB_COLUMNS '' @
     ''WHERE OWNER = '' @ sql_literal (tbl_schema table) @
     '' AND TABLE_NAME = '' @ sql_literal (tbl_name table) @ '' ORDER BY COLUMN_ID''"

definition duckdb_columnNames :: "Table \<Rightarrow> bytes" where
  "duckdb_columnNames table =
     ''SELECT column_name FROM information_schema.columns '' @
     ''WHERE table_name = '' @ sql_literal (tbl_name table) @
     '' AND table_schema = '' @ [squote] @
     (if tbl_schema table = [] then ''main'' else escapeSingleQuotes (tbl_schema table)) @ [squote] @
     '' ORDER BY ordinal_position''"

definition sqlite_columnNames :: "Table \<Rightarrow> bytes" where
  "sqlite_columnNames table =
     ''SELECT name FROM pragma_table_info('' @ sql_literal (tbl_name table) @ '')''"

definition cassandra_columnNames :: "Table \<Rightarrow> bytes" where
  "cassandra_columnNames table =
     ''SELECT column_name FROM system_schema.columns '' @
     ''WHERE keyspace_name = '' @ sql_literal (tbl_schema table) @
     '' AND table_name = '' @ sql_literal (tbl_name table)"

fun columnNames :: "Builder \<Rightarrow> Table \<Rightarrow> bytes" where
  "columnNames PostgreSQLBuilder t = postgres_columnNames t"
| "columnNames MySQLBuilder t = mysql_columnNames t"
| "columnNames MSSQLBuilder t = mssql_columnNames t"
| "columnNames OracleBuilder t = oracle_columnNames t"
| "columnNames SQLiteBuilder t = sqlite_columnNames t"
| "columnNames DuckDBBuilder t = duckdb_columnNames t"
| "columnNames CassandraBuilder t = cassandra_columnNames t"


section \<open>Lemmas\<close>

lemma createTable_column_pk:
  "cs_inlinePk (createTable_column b st (i, col)) \<longleftrightarrow>
     cs_inlinePk st \<or> (databaseType b = SQLITE \<and> col_isPrimaryKey col \<and> col_isAutoIncrement col)"
  "cs_trailingPk (createTable_column b st (i, col)) =
     (if col_isPrimaryKey col \<and> databaseType b = SQLITE \<and> col_isAutoIncrement col then []
      else if col_isPrimaryKey col \<and> \<not> (databaseType b = SQLITE \<and> cs_inlinePk st)
      then cs_trailingPk st @ [col_name col]
      else cs_trailingPk st)"
  by (auto simp: createTable_column_def Let_def)

lemma foldl_createTable_pk:
  assumes "cs_inlinePk st \<longrightarrow> databaseType b = SQLITE \<and> cs_trailingPk st = []"
  shows "(cs_inlinePk (foldl (createTable_column b) st (enumerate n cols)) \<longleftrightarrow>
      cs_inlinePk st \<or>
      (databaseType b = SQLITE \<and> (\<exists>c\<in>set cols. col_isPrimaryKey c \<and> col_isAutoIncrement c))) \<and>
    cs_trailingPk (foldl (createTable_column b) st (enumerate n cols)) =
      (if cs_inlinePk (foldl (createTable_column b) st (enumerate n cols)) then []
       else cs_trailingPk st @ map col_name (filter col_isPrimaryKey cols))"
  using assms
proof (induction cols arbitrary: st n)
  case (Cons c cols)
  let ?st = "createTable_column b st (n, c)"
  have "cs_inlinePk ?st \<longrightarrow> databaseType b = SQLITE \<and> cs_trailingPk ?st = []"
    using Cons.prems by (auto simp: createTable_column_pk)
  from Cons.IH [OF this, of "Suc n"] show ?case by (auto simp: createTable_column_pk)
qed simp

text \<open>What a correct grouping of the rows seen so far looks like.\<close>

definition groups_ok :: "ForeignKey list \<Rightarrow> (bytes \<times> ForeignKey list) list \<Rightarrow> bool" where
  "groups_ok fks gs \<longleftrightarrow>
     mset (concat (map snd gs)) = mset fks \<and>
     distinct (filter (\<lambda>n. n \<noteq> []) (map fst gs)) \<and>
     (\<forall>(n, parts)\<in>set gs.
        if n = [] then \<exists>fk. parts = [fk] \<and> fk_name fk = []
        else parts \<noteq> [] \<and> parts = filter (\<lambda>fk. fk_name fk = n) fks)"

lemma add_to_group_new:
  "fk_name fk = [] \<or> fk_name fk \<notin> fst ` set gs \<Longrightarrow> add_to_group fk gs = gs @ [(fk_name fk, [fk])]"
  by (induction gs) auto

lemma add_to_group_old:
  assumes "fk_name fk \<noteq> []" "fk_name fk \<in> fst ` set gs"
  shows "\<exists>pre parts post. gs = pre @ (fk_name fk, parts) # post \<and> fk_name fk \<notin> fst ` set pre \<and>
    add_to_group fk gs = pre @ (fk_name fk, parts @ [fk]) # post"
  using assms
proof (induction gs)
  case (Cons g gs)
  show ?case
  proof (cases "fst g = fk_name fk")
    case True
    with Cons.prems have "g # gs = [] @ (fk_name fk, snd g) # gs"
      "add_to_group fk (g # gs) = [] @ (fk_name fk, snd g @ [fk]) # gs" by (auto simp: prod_eq_iff)
    then show ?thesis by (metis empty_iff image_empty list.set(1))
  next
    case False
    with Cons obtain pre parts post where "gs = pre @ (fk_name fk, parts) # post"
      "fk_name fk \<notin> fst ` set pre" "add_to_group fk gs = pre @ (fk_name fk, parts @ [fk]) # post" by auto
    with False have "g # gs = (g # pre) @ (fk_name fk, parts) # post"
      "fk_name fk \<notin> fst ` set (g # pre)"
      "add_to_group fk (g # gs) = (g # pre) @ (fk_name fk, parts @ [fk]) # post" by auto
    then show ?thesis by blast
  qed
qed simp

lemma groups_ok_named:
  "groups_ok fks gs \<Longrightarrow> n \<noteq> [] \<Longrightarrow> n \<notin> fst ` set gs \<Longrightarrow> filter (\<lambda>fk. fk_name fk = n) fks = []"
proof (rule ccontr)
  assume ok: "groups_ok fks gs" "n \<noteq> []" "n \<notin> fst ` set gs"
    and ne: "filter (\<lambda>fk. fk_name fk = n) fks \<noteq> []"
  then obtain fk where fk: "fk \<in> set fks" "fk_name fk = n"
    by (metis (mono_tags, lifting) filter_False)
  from ok(1) have "mset (concat (map snd gs)) = mset fks" by (simp add: groups_ok_def)
  then have "set (concat (map snd gs)) = set fks" by (rule mset_eq_setD)
  with fk(1) have "fk \<in> (\<Union>g\<in>set gs. set (snd g))" by simp
  then obtain g' where g': "g' \<in> set gs" "fk \<in> set (snd g')" by blast
  then obtain m parts where g: "(m, parts) \<in> set gs" "fk \<in> set parts" by (metis prod.collapse)
  with ok(1) fk ok(2) have "m = n" by (fastforce simp: groups_ok_def split: if_splits)
  with g ok(3) show False by force
qed

lemma groups_ok_add: 
  assumes ok: "groups_ok fks gs"
  shows "groups_ok (fks @ [fk]) (add_to_group fk gs)"
proof (cases "fk_name fk = [] \<or> fk_name fk \<notin> fst ` set gs")
  case True
  have none: "filter (\<lambda>k. fk_name k = fk_name fk) fks = []" if "fk_name fk \<noteq> []"
    using groups_ok_named [OF ok that] True that by blast
  have old: "if n = [] then \<exists>k. parts = [k] \<and> fk_name k = []
      else parts \<noteq> [] \<and> parts = filter (\<lambda>k. fk_name k = n) (fks @ [fk])" if "(n, parts) \<in> set gs" for n parts
    using ok that True by (force simp: groups_ok_def)
  have new: "if fk_name fk = [] then \<exists>k. [fk] = [k] \<and> fk_name k = []
      else [fk] \<noteq> [] \<and> [fk] = filter (\<lambda>k. fk_name k = fk_name fk) (fks @ [fk])"
    using none by auto
  have "mset (concat (map snd gs)) = mset fks" "distinct (filter (\<lambda>n. n \<noteq> []) (map fst gs))"
    using ok by (simp_all add: groups_ok_def)
  moreover have "\<forall>(n, parts)\<in>set (gs @ [(fk_name fk, [fk])]).
      if n = [] then \<exists>k. parts = [k] \<and> fk_name k = []
      else parts \<noteq> [] \<and> parts = filter (\<lambda>k. fk_name k = n) (fks @ [fk])"
    using old new by fastforce
  ultimately show ?thesis
    unfolding add_to_group_new [OF True] groups_ok_def using True by auto
next
  case False
  then obtain pre parts post where gs: "gs = pre @ (fk_name fk, parts) # post"
    and new: "add_to_group fk gs = pre @ (fk_name fk, parts @ [fk]) # post" and ne: "fk_name fk \<noteq> []"
    using add_to_group_old by blast
  from ok gs ne have post: "fk_name fk \<notin> fst ` set pre \<union> fst ` set post"
    by (auto simp: groups_ok_def)
  have "parts = filter (\<lambda>k. fk_name k = fk_name fk) fks"
    using ok gs ne by (auto simp: groups_ok_def)
  then have here: "parts @ [fk] = filter (\<lambda>k. fk_name k = fk_name fk) (fks @ [fk])" by simp
  have "if n = [] then \<exists>k. ps = [k] \<and> fk_name k = []
      else ps \<noteq> [] \<and> ps = filter (\<lambda>k. fk_name k = n) (fks @ [fk])"
    if "(n, ps) \<in> set pre \<union> set post" for n ps
  proof -
    from that gs have "(n, ps) \<in> set gs" by auto
    with ok have "if n = [] then \<exists>k. ps = [k] \<and> fk_name k = []
      else ps \<noteq> [] \<and> ps = filter (\<lambda>k. fk_name k = n) fks" unfolding groups_ok_def by blast
    moreover from that post have "fk_name fk \<noteq> n" by force
    then have "filter (\<lambda>k. fk_name k = n) (fks @ [fk]) = filter (\<lambda>k. fk_name k = n) fks" by simp
    ultimately show ?thesis by (simp only:)
  qed
  then have "\<forall>(n, ps)\<in>set (pre @ (fk_name fk, parts @ [fk]) # post).
      if n = [] then \<exists>k. ps = [k] \<and> fk_name k = []
      else ps \<noteq> [] \<and> ps = filter (\<lambda>k. fk_name k = n) (fks @ [fk])"
    using here ne by fastforce
  moreover have "mset (concat (map snd (pre @ (fk_name fk, parts @ [fk]) # post))) = mset (fks @ [fk])"
    "distinct (filter (\<lambda>n. n \<noteq> []) (map fst (pre @ (fk_name fk, parts @ [fk]) # post)))"
    using ok gs by (auto simp: groups_ok_def)
  ultimately show ?thesis
    unfolding new groups_ok_def by (intro conjI)
qed

lemma group_foreign_keys_ok: "groups_ok fks (group_foreign_keys fks)"
proof (induction fks rule: rev_induct)
  case Nil
  show ?case by (simp add: groups_ok_def group_foreign_keys_def)
next
  case (snoc fk fks)
  from groups_ok_add [OF this, of fk] show ?case by (simp add: group_foreign_keys_def)
qed

section \<open>Properties\<close>

text \<open>In CREATE TABLE the primary key is given exactly once: inline only on SQLite and only for an
  auto-increment key column, in which case the trailing clause is empty; otherwise the trailing
  clause names every key column in order.\<close>
lemma createTable_primary_key:
  "(cs_inlinePk (createTable_columns b sql cols) \<longleftrightarrow>
      databaseType b = SQLITE \<and> (\<exists>c\<in>set cols. col_isPrimaryKey c \<and> col_isAutoIncrement c)) \<and>
   cs_trailingPk (createTable_columns b sql cols) =
      (if databaseType b = SQLITE \<and> (\<exists>c\<in>set cols. col_isPrimaryKey c \<and> col_isAutoIncrement c)
       then [] else map col_name (filter col_isPrimaryKey cols))"
  using foldl_createTable_pk [of "\<lparr>cs_sql = sql, cs_trailingPk = [], cs_inlinePk = False\<rparr>" b 0 cols]
  by (auto simp: createTable_columns_def)

text \<open>Grouping foreign-key rows into constraints loses and duplicates no row, gives every named
  constraint one group holding exactly its rows in order, and keeps unnamed rows apart.\<close>
lemma group_foreign_keys_correct:
  "mset (concat (map snd (group_foreign_keys fks))) = mset fks \<and>
   distinct (filter (\<lambda>n. n \<noteq> []) (map fst (group_foreign_keys fks))) \<and>
   (\<forall>(n, parts)\<in>set (group_foreign_keys fks).
      if n = [] then \<exists>fk. parts = [fk] \<and> fk_name fk = []
      else parts \<noteq> [] \<and> parts = filter (\<lambda>fk. fk_name fk = n) fks)"
  using group_foreign_keys_ok [of fks] by (simp add: groups_ok_def)

definition fk_row :: "bytes \<Rightarrow> bytes \<Rightarrow> ForeignKey" where
  "fk_row n c = \<lparr>fk_name = n, fk_sourceColumn = c, fk_targetTable = ''t'', fk_targetColumn = c,
     fk_onDelete = [], fk_onUpdate = []\<rparr>"

lemma group_foreign_keys_correct_witness:
  "map (\<lambda>(n, ps). (n, map fk_sourceColumn ps))
     (group_foreign_keys [fk_row ''k'' ''a'', fk_row [] ''b'', fk_row ''k'' ''c'']) =
     [(''k'', [''a'', ''c'']), ([], [''b''])] \<and>
   distinct (filter (\<lambda>n. n \<noteq> []) (map fst (group_foreign_keys [fk_row ''k'' ''a'', fk_row [] ''b'', fk_row ''k'' ''c''])))"
proof
  show "map (\<lambda>(n, ps). (n, map fk_sourceColumn ps))
     (group_foreign_keys [fk_row ''k'' ''a'', fk_row [] ''b'', fk_row ''k'' ''c'']) =
     [(''k'', [''a'', ''c'']), ([], [''b''])]"
    by (simp add: group_foreign_keys_def fk_row_def)
qed (use group_foreign_keys_correct in blast)

end
