(* ===== verification/Sql_Quoting.thy ===== *)
theory Sql_Quoting
  imports Sql_Lexer Sql_Builder
begin

text \<open>
  What the lexer of \<^verbatim>\<open>completion.cpp\<close> makes of the text the builders of \<^verbatim>\<open>sql_builder.cpp\<close> write. The
  interface between the two is the locale \<open>identifier_quoting\<close>: a dialect, a quoting function and
  its two marks, with the law that the opening mark starts a scan to the undoubled closing mark.
  Inside it a statement made of pieces (words, quoted names, literals, symbols) is shown to be read
  back as exactly the tokens of its pieces. The interpretation \<open>iq\<close> is on every database type, and
  the statements of the builders are instances.
\<close>

section \<open>Fragments\<close>

text \<open>A statement as the pieces a builder puts together, and the bytes and token of a piece.\<close>

datatype Frag = FWord bytes | FIdent bytes | FText bytes | FSym char | FNum nat | FGap

fun frag_bytes :: "(bytes \<Rightarrow> bytes) \<Rightarrow> Frag \<Rightarrow> bytes" where
  "frag_bytes q (FWord w) = w"
| "frag_bytes q (FIdent x) = q x"
| "frag_bytes q (FText v) = sql_literal v"
| "frag_bytes q (FSym c) = [c]"
| "frag_bytes q (FNum n) = nat_to_string n"
| "frag_bytes q FGap = '' ''"

definition render :: "(bytes \<Rightarrow> bytes) \<Rightarrow> Frag list \<Rightarrow> bytes" where
  "render q fs = concat (map (frag_bytes q) fs)"

fun frag_lexeme :: "Frag \<Rightarrow> (Tok \<times> bytes) option" where
  "frag_lexeme (FWord w) = Some (TWord, w)"
| "frag_lexeme (FIdent x) = Some (TQuotedIdent, x)"
| "frag_lexeme (FText v) = Some (TString, v)"
| "frag_lexeme (FSym c) = Some (if is_punct_char c then TPunct else TOp, [c])"
| "frag_lexeme (FNum n) = Some (TNumber, [])"
| "frag_lexeme FGap = None"

fun frag_tokens :: "(bytes \<Rightarrow> bytes) \<Rightarrow> nat \<Rightarrow> Frag list \<Rightarrow> Token list" where
  "frag_tokens q i [] = []"
| "frag_tokens q i (f # fs) =
     (case frag_lexeme f of None \<Rightarrow> []
      | Some (k, t) \<Rightarrow> [plain_token k i (i + length (frag_bytes q f)) t]) @
     frag_tokens q (i + length (frag_bytes q f)) fs"

definition sym_ok :: "char \<Rightarrow> bool" where
  "sym_ok c \<longleftrightarrow> c \<in> set ''(),.;*=''"

text \<open>A piece alone, and a piece before another: nothing runs into its neighbour.\<close>

fun frag_ok :: "Dialect \<Rightarrow> Frag \<Rightarrow> bool" where
  "frag_ok d (FWord w) \<longleftrightarrow> w \<noteq> [] \<and> isIdentStartByte (hd w) \<and> list_all isIdentByte w"
| "frag_ok d (FText v) \<longleftrightarrow> \<not> dl_backslashEscape d \<or> backslash \<notin> set v"
| "frag_ok d (FSym c) \<longleftrightarrow> sym_ok c"
| "frag_ok d _ \<longleftrightarrow> True"

fun apart :: "Frag \<Rightarrow> Frag \<Rightarrow> bool" where
  "apart (FWord _) (FWord _) = False"
| "apart (FWord _) (FNum _) = False"
| "apart (FNum _) (FWord _) = False"
| "apart (FNum _) (FNum _) = False"
| "apart (FNum _) (FSym c) = (c \<noteq> CHR ''.'')"
| "apart (FSym c) (FNum _) = (c \<noteq> CHR ''.'')"
| "apart (FIdent _) (FIdent _) = False"
| "apart (FText _) (FText _) = False"
| "apart _ _ = True"

fun frags_ok :: "Dialect \<Rightarrow> Frag list \<Rightarrow> bool" where
  "frags_ok d [] = True"
| "frags_ok d (f # fs) \<longleftrightarrow> frag_ok d f \<and> (fs \<noteq> [] \<longrightarrow> apart f (hd fs)) \<and> frags_ok d fs"

section \<open>Reading back one piece\<close>

lemma length_double_char: "length (double_char q x) = length x + count_list x q"
  by (induction x) auto

lemma scanQuoted_double:
  assumes "bs \<longrightarrow> backslash \<notin> set v" "q \<noteq> backslash" "post = [] \<or> hd post \<noteq> q"
  shows "scanQuoted q bs (double_char q v @ q # post) = (v, True, length (double_char q v) + 1)"
  using assms(1)
proof (induction v)
  case Nil
  show ?case using assms(2,3) by auto
next
  case (Cons c v)
  then have "scanQuoted q bs (double_char q v @ q # post) = (v, True, length (double_char q v) + 1)"
    and c: "bs \<longrightarrow> c \<noteq> backslash" by auto
  then show ?case using assms(2) by auto
qed

lemma hd_nat_to_string: "isdigit (hd (nat_to_string n))"
  using nat_to_string_digits [of n] nat_to_string_nonempty by (simp add: list_all_iff)

lemma isIdentStart_not_delim:
  assumes "isIdentStartByte c"
  shows "c \<notin> set ''-#/$.['' \<union> {squote, dquote, backtick}" "\<not> isdigit c"
  using assms by (auto simp: isIdentStartByte_def isalpha_def isupper_def islower_def isdigit_def byte_def)

lemma isdigit_not_delim:
  assumes "isdigit c"
  shows "c \<notin> set ''-#/$['' \<union> {squote, dquote, backtick}"
  using assms by (auto simp: isdigit_def byte_def)

lemma lex_word:
  assumes "isIdentStartByte (hd w)" "w \<noteq> []" "list_all isIdentByte w"
    and "post = [] \<or> \<not> isIdentByte (hd post) \<and> hd post \<noteq> CHR ''#''"
  shows "lex_token d (pre @ w @ post) (length pre) = plain_token TWord (length pre) (length pre + length w) w"
proof -
  obtain c w' where w: "w = c # w'" using assms(2) by (cases w) auto
  let ?P = "\<lambda>b. isIdentByte b \<or> (dl_hashIdent d \<and> b = CHR ''#'')"
  have "takeWhile ?P (w' @ post) = w'"
    using assms(3,4) w by (cases post) (auto simp: takeWhile_append list_all_iff)
  then have "span_length ?P (w' @ post) = length w'" by (simp add: span_length_def)
  then show ?thesis
    using isIdentStart_not_delim [OF assms(1)] assms(1) w
    by (simp add: lex_token_def Let_def starts_number_def nth_append substr_def)
qed

lemma scan_number_digits:
  "list_all isdigit w \<Longrightarrow> isdigit p \<Longrightarrow>
   post = [] \<or> \<not> (isalnum (hd post) \<or> hd post = CHR ''_'' \<or> hd post = CHR ''.'') \<Longrightarrow>
   scan_number p (w @ post) = length w"
proof (induction w arbitrary: p)
  case Nil
  then show ?case by (cases post) (auto simp: isdigit_def byte_def)
next
  case (Cons c w)
  then show ?case by (simp add: isalnum_def)
qed

lemma lex_number:
  assumes "post = [] \<or> \<not> (isalnum (hd post) \<or> hd post = CHR ''_'' \<or> hd post = CHR ''.'')"
  shows "lex_token d (pre @ nat_to_string n @ post) (length pre) =
    plain_token TNumber (length pre) (length pre + length (nat_to_string n)) []"
proof -
  obtain c w where w: "nat_to_string n = c # w" using nat_to_string_nonempty by (cases "nat_to_string n") auto
  then have "list_all isdigit w" "isdigit c" using nat_to_string_digits [of n] by auto
  with assms have "scan_number c (w @ post) = length w" by (intro scan_number_digits)
  then show ?thesis
    using isdigit_not_delim [OF \<open>isdigit c\<close>] \<open>isdigit c\<close> w
    by (simp add: lex_token_def Let_def starts_number_def nth_append)
qed

lemma lex_text:
  assumes "\<not> dl_backslashEscape d \<or> backslash \<notin> set v" "post = [] \<or> hd post \<noteq> squote"
  shows "lex_token d (pre @ sql_literal v @ post) (length pre) =
    plain_token TString (length pre) (length pre + length (sql_literal v)) v"
proof -
  have "scanQuoted squote (dl_backslashEscape d) (double_char squote v @ squote # post) =
      (v, True, length (double_char squote v) + 1)"
    by (rule scanQuoted_double) (use assms in auto)
  then show ?thesis
    by (simp add: lex_token_def Let_def nth_append sql_literal_def escapeSingleQuotes_def
        quoted_token_def plain_token_def)
qed

lemma lex_symbol:
  assumes "sym_ok c" "post = [] \<or> c \<noteq> CHR ''.'' \<or> \<not> isdigit (hd post)"
  shows "lex_token d (pre @ c # post) (length pre) =
    plain_token (if is_punct_char c then TPunct else TOp) (length pre) (Suc (length pre)) [c]"
proof -
  from assms(1) have c: "c \<notin> set ''-#/$[@?:'' \<union> {squote, dquote, backtick}" "\<not> isdigit c" "\<not> isIdentStartByte c"
    by (auto simp: sym_ok_def isIdentStartByte_def isalpha_def isupper_def islower_def isdigit_def byte_def)
  have "\<not> isdigit (CHR 0x00)" by (simp add: isdigit_def byte_def)
  with assms(2) c show ?thesis
    by (cases post) (auto simp: lex_token_def Let_def nth_append starts_number_def starts_param_def)
qed


section \<open>The quoting interface\<close>

definition delimiter :: "char \<Rightarrow> bool" where
  "delimiter c \<longleftrightarrow> c \<in> {dquote, backtick, CHR ''['', CHR '']''}"

lemma delimiter_class:
  assumes "delimiter c"
  shows "\<not> isspace c" "\<not> isIdentByte c" "\<not> isdigit c" "\<not> sym_ok c" "c \<noteq> squote" "c \<noteq> CHR ''#''"
    "c \<noteq> backslash" "\<not> isalnum c" "c \<noteq> CHR ''_''" "c \<noteq> CHR ''.''"
  using assms by (auto simp: delimiter_def sym_ok_def char_class byte_def)

lemma sym_class:
  assumes "sym_ok c"
  shows "\<not> isspace c" "\<not> isIdentByte c" "\<not> isdigit c" "\<not> isalnum c" "\<not> delimiter c" "c \<noteq> squote"
    "c \<noteq> CHR ''#''" "c \<noteq> CHR ''_''"
  using assms by (auto simp: sym_ok_def delimiter_def char_class byte_def)

lemma mark_class [simp]:
  "\<not> isspace squote" "\<not> isIdentByte squote" "\<not> isdigit squote" "\<not> isalnum squote"
  "\<not> isIdentByte (CHR '' '')" "\<not> isdigit (CHR '' '')" "\<not> isalnum (CHR '' '')"
  "\<not> delimiter squote" "\<not> delimiter (CHR '' '')"
  by (simp_all add: delimiter_def char_class byte_def)

lemma isIdentStart_class:
  assumes "isIdentStartByte c"
  shows "\<not> isspace c" "\<not> isdigit c" "\<not> delimiter c" "c \<noteq> squote"
  using assms by (auto simp: delimiter_def char_class byte_def)

lemma isdigit_class:
  assumes "isdigit c"
  shows "\<not> isspace c" "\<not> delimiter c" "c \<noteq> squote"
  using assms by (auto simp: delimiter_def char_class byte_def)

text \<open>
  What the reader of a dialect and the writer of identifiers agree on: an identifier is written
  between an opening and a closing mark with the closing mark doubled, and the opening mark makes
  the lexer scan to an undoubled closing mark without escapes.
\<close>

locale identifier_quoting =
  fixes dialect :: Dialect
    and quote :: "bytes \<Rightarrow> bytes"
    and opener closer :: char
  assumes quote_eq: "quote x = opener # double_char closer x @ [closer]"
    and delimiters: "delimiter opener" "delimiter closer"
    and lex_opener: "i < length s \<Longrightarrow> s ! i = opener \<Longrightarrow>
      lex_token dialect s i = quoted_token TQuotedIdent i closer False (drop (i + 1) s)"
begin

lemma lex_quoted:
  assumes "post = [] \<or> hd post \<noteq> closer"
  shows "lex_token dialect (pre @ quote x @ post) (length pre) =
    plain_token TQuotedIdent (length pre) (length pre + length (quote x)) x"
proof -
  let ?s = "pre @ quote x @ post"
  have "scanQuoted closer False (double_char closer x @ closer # post) =
      (x, True, length (double_char closer x) + 1)"
    by (rule scanQuoted_double) (use assms delimiter_class [OF delimiters(2)] in auto)
  moreover have "lex_token dialect ?s (length pre) =
      quoted_token TQuotedIdent (length pre) closer False (drop (length pre + 1) ?s)"
    by (rule lex_opener) (simp_all add: quote_eq nth_append)
  ultimately show ?thesis by (simp add: quote_eq quoted_token_def plain_token_def)
qed

lemma quote_nonempty: "quote x \<noteq> []" "hd (quote x) = opener"
  by (simp_all add: quote_eq)

lemma frag_bytes_nonempty: "frag_ok dialect f \<Longrightarrow> frag_bytes quote f \<noteq> []"
  by (cases f) (simp_all add: quote_nonempty sql_literal_def)

lemma frag_hd_not_space:
  assumes "frag_ok dialect f" "frag_lexeme f \<noteq> None"
  shows "\<not> isspace (hd (frag_bytes quote f))"
  using assms delimiter_class [OF delimiters(1)]
  by (cases f) (simp_all add: quote_nonempty sql_literal_def sym_class isIdentStart_class
      isdigit_class hd_nat_to_string)

lemma render_Cons [simp]: "render quote (f # fs) = frag_bytes quote f @ render quote fs"
  and render_Nil [simp]: "render quote [] = []"
  by (simp_all add: render_def)

lemma hd_render: "frag_ok dialect f \<Longrightarrow> hd (render quote (f # fs)) = hd (frag_bytes quote f)"
  using frag_bytes_nonempty by simp

lemma next_frag:
  assumes "frags_ok dialect (f # fs)"
    and "\<And>g. frag_ok dialect g \<Longrightarrow> apart f g \<Longrightarrow> P (hd (frag_bytes quote g))"
  shows "render quote fs = [] \<or> P (hd (render quote fs))"
  using assms by (cases fs) (auto simp: frag_bytes_nonempty)

lemmas hd_classes = delimiter_class [OF delimiters(1)] sym_class isIdentStart_class isdigit_class
  quote_nonempty sql_literal_def hd_nat_to_string

text \<open>A piece is read back as its own token, whatever stands before it and whatever may follow.\<close>

lemma lex_frag:
  assumes ok: "frags_ok dialect (f # fs)" and lexeme: "frag_lexeme f = Some (k, t)"
  shows "lex_token dialect (pre @ render quote (f # fs)) (length pre) =
    plain_token k (length pre) (length pre + length (frag_bytes quote f)) t"
proof -
  let ?post = "render quote fs"
  note follow = next_frag [OF ok]
  show ?thesis
  proof (cases f)
    case (FWord w)
    have "?post = [] \<or> \<not> isIdentByte (hd ?post) \<and> hd ?post \<noteq> CHR ''#''"
    proof (rule follow)
      show "\<not> isIdentByte (hd (frag_bytes quote g)) \<and> hd (frag_bytes quote g) \<noteq> CHR ''#''"
        if "frag_ok dialect g" "apart f g" for g
        using that FWord by (cases g) (simp_all add: hd_classes)
    qed
    with FWord assms show ?thesis using lex_word [of w ?post dialect pre] by simp
  next
    case (FIdent x)
    have "?post = [] \<or> hd ?post \<noteq> closer"
    proof (rule follow)
      show "hd (frag_bytes quote g) \<noteq> closer" if "frag_ok dialect g" "apart f g" for g
        using that FIdent delimiters(2) by (cases g) (auto simp: hd_classes)
    qed
    with FIdent assms show ?thesis using lex_quoted [of ?post pre x] by simp
  next
    case (FText v)
    have "?post = [] \<or> hd ?post \<noteq> squote"
    proof (rule follow)
      show "hd (frag_bytes quote g) \<noteq> squote" if "frag_ok dialect g" "apart f g" for g
        using that FText by (cases g) (simp_all add: hd_classes)
    qed
    with FText assms show ?thesis using lex_text [of dialect v ?post pre] by simp
  next
    case (FSym c)
    have "?post = [] \<or> c \<noteq> CHR ''.'' \<or> \<not> isdigit (hd ?post)"
    proof (rule follow)
      show "c \<noteq> CHR ''.'' \<or> \<not> isdigit (hd (frag_bytes quote g))" if "frag_ok dialect g" "apart f g" for g
        using that FSym by (cases g) (simp_all add: hd_classes)
    qed
    with FSym assms show ?thesis using lex_symbol [of c ?post dialect pre] by auto
  next
    case (FNum n)
    have "?post = [] \<or> \<not> (isalnum (hd ?post) \<or> hd ?post = CHR ''_'' \<or> hd ?post = CHR ''.'')"
    proof (rule follow)
      show "\<not> (isalnum (hd (frag_bytes quote g)) \<or> hd (frag_bytes quote g) = CHR ''_'' \<or>
          hd (frag_bytes quote g) = CHR ''.'')" if "frag_ok dialect g" "apart f g" for g
        using that FNum by (cases g) (auto simp: hd_classes)
    qed
    with FNum assms show ?thesis using lex_number [of ?post dialect pre n] by simp
  qed (use lexeme in simp)
qed

lemma tokenize_render_from:
  "frags_ok dialect fs \<Longrightarrow>
   tokenize_from dialect (pre @ render quote fs) (length pre) = frag_tokens quote (length pre) fs"
proof (induction fs arbitrary: pre)
  case Nil
  then show ?case by (simp add: tokenize_from_end)
next
  case (Cons f fs)
  let ?s = "pre @ render quote (f # fs)"
  from Cons.prems have f: "frag_ok dialect f" and "frags_ok dialect fs" by auto
  from Cons.IH [OF this(2), of "pre @ frag_bytes quote f"]
  have rest: "tokenize_from dialect ?s (length pre + length (frag_bytes quote f)) =
      frag_tokens quote (length pre + length (frag_bytes quote f)) fs" by simp
  have at: "length pre < length ?s" "?s ! length pre = hd (frag_bytes quote f)"
    using frag_bytes_nonempty [OF f] by (simp_all add: nth_append hd_conv_nth)
  show ?case
  proof (cases "frag_lexeme f")
    case None
    then have "f = FGap" by (cases f) auto
    moreover have "isspace (CHR '' '')" by (simp add: isspace_def byte_def)
    ultimately show ?thesis using rest at None by (simp add: tokenize_from_space)
  next
    case (Some kt)
    obtain k t where kt: "kt = (k, t)" by (cases kt)
    from lex_frag [OF Cons.prems] Some kt rest frag_hd_not_space [OF f] at show ?thesis
      by (simp add: tokenize_from_step del: render_Cons)
  qed
qed

theorem tokenize_render: "frags_ok dialect fs \<Longrightarrow> tokenize (render quote fs) dialect = frag_tokens quote 0 fs"
  using tokenize_render_from [of fs "[]"] by (simp add: tokenize_def)

text \<open>Without a semicolon piece the text is one statement, from its first to its last token.\<close>

lemma ranges_scan_frags:
  "FSym (CHR '';'') \<notin> set fs \<Longrightarrow> fs \<noteq> [] \<Longrightarrow> frag_lexeme (last fs) \<noteq> None \<Longrightarrow>
   ranges_scan (Some f) l (frag_tokens quote i fs) = [(f, i + length (render quote fs))]"
proof (induction fs arbitrary: l i)
  case (Cons g gs)
  show ?case
  proof (cases "gs = []")
    case True
    with Cons.prems show ?thesis
      by (cases g) (auto simp: is_semicolon_def)
  next
    case False
    with Cons show ?thesis
      by (cases g) (auto simp: is_semicolon_def add.assoc)
  qed
qed simp

lemma render_one_statement:
  assumes "frags_ok dialect fs" "FSym (CHR '';'') \<notin> set fs" "fs \<noteq> []" "frag_lexeme (hd fs) \<noteq> None"
    "frag_lexeme (last fs) \<noteq> None"
  shows "ranges_scan None 0 (tokenize (render quote fs) dialect) = [(0, length (render quote fs))]"
proof -
  obtain f gs where fs: "fs = f # gs" using assms(3) by (cases fs) auto
  show ?thesis
  proof (cases "gs = []")
    case True
    with assms fs show ?thesis
      unfolding tokenize_render [OF assms(1)] by (cases f) (auto simp: is_semicolon_def)
  next
    case False
    with ranges_scan_frags [of gs] assms fs show ?thesis
      unfolding tokenize_render [OF assms(1)] by (cases f) (auto simp: is_semicolon_def)
  qed
qed

end

fun opener_of :: "Builder \<Rightarrow> char" where
  "opener_of MySQLBuilder = backtick"
| "opener_of MSSQLBuilder = CHR ''[''"
| "opener_of _ = dquote"

fun closer_of :: "Builder \<Rightarrow> char" where
  "closer_of MySQLBuilder = backtick"
| "closer_of MSSQLBuilder = CHR '']''"
| "closer_of _ = dquote"

interpretation iq: identifier_quoting "dialectFor ty" "quoteIdentifier (createSQLBuilder ty)"
  "opener_of (createSQLBuilder ty)" "closer_of (createSQLBuilder ty)" for ty :: DatabaseType
proof
  show "quoteIdentifier (createSQLBuilder ty) x =
      opener_of (createSQLBuilder ty) # double_char (closer_of (createSQLBuilder ty)) x @
      [closer_of (createSQLBuilder ty)]" for x
    by (cases ty) (simp_all add: base_quoteIdentifier_def mysql_quoteIdentifier_def mssql_quoteIdentifier_def)
  show "delimiter (opener_of (createSQLBuilder ty))" "delimiter (closer_of (createSQLBuilder ty))"
    by (cases ty; simp add: delimiter_def)+
  show "lex_token (dialectFor ty) s i =
      quoted_token TQuotedIdent i (closer_of (createSQLBuilder ty)) False (drop (i + 1) s)"
    if "i < length s" "s ! i = opener_of (createSQLBuilder ty)" for s i
    using that by (cases ty) (simp_all add: lex_token_def Let_def dialectFor_def default_dialect_def mysql_dialect_def)
qed

section \<open>Statements as pieces\<close>

text \<open>A statement is groups of pieces with a blank between groups.\<close>

fun spaced :: "Frag list list \<Rightarrow> Frag list" where
  "spaced [] = []"
| "spaced [g] = g"
| "spaced (g # h # gs) = g @ FGap # spaced (h # gs)"

definition group_ok :: "Dialect \<Rightarrow> Frag list \<Rightarrow> bool" where
  "group_ok d g \<longleftrightarrow> g \<noteq> [] \<and> frags_ok d g \<and> FSym (CHR '';'') \<notin> set g \<and>
     frag_lexeme (hd g) \<noteq> None \<and> frag_lexeme (last g) \<noteq> None"

definition name_frags :: "bytes \<Rightarrow> bytes \<Rightarrow> Frag list" where
  "name_frags schema name =
     (if schema = [] then [FIdent name] else [FIdent schema, FSym (CHR ''.''), FIdent name])"

fun comma_frags :: "Frag list \<Rightarrow> Frag list" where
  "comma_frags [] = []"
| "comma_frags [f] = [f]"
| "comma_frags (f # g # fs) = f # FSym (CHR '','') # FGap # comma_frags (g # fs)"

text \<open>The lexemes of a text, and those of keywords, of a qualified name and of a list.\<close>

definition lexemes :: "DatabaseType \<Rightarrow> bytes \<Rightarrow> (Tok \<times> bytes) list" where
  "lexemes ty sql = map (\<lambda>t. (tk_kind t, tk_text t)) (tokenize sql (dialectFor ty))"

definition keyword_lexemes :: "bytes list \<Rightarrow> (Tok \<times> bytes) list" where
  "keyword_lexemes ws = map (Pair TWord) ws"

definition name_lexemes :: "bytes \<Rightarrow> bytes \<Rightarrow> (Tok \<times> bytes) list" where
  "name_lexemes schema name =
     (if schema = [] then [(TQuotedIdent, name)]
      else [(TQuotedIdent, schema), (TPunct, ''.''), (TQuotedIdent, name)])"

fun comma_lexemes :: "(Tok \<times> bytes) list \<Rightarrow> (Tok \<times> bytes) list" where
  "comma_lexemes [] = []"
| "comma_lexemes [l] = [l]"
| "comma_lexemes (l # m # ls) = l # (TPunct, '','') # comma_lexemes (m # ls)"

text \<open>The text is read back as exactly the given lexemes and is one statement, end to end.\<close>

definition reads_as :: "DatabaseType \<Rightarrow> bytes \<Rightarrow> (Tok \<times> bytes) list \<Rightarrow> bool" where
  "reads_as ty sql ls \<longleftrightarrow> lexemes ty sql = ls \<and> statementRanges sql ty = [(0, length sql)]"

lemma render_simps [simp]:
  "render q [] = []" "render q (f # fs) = frag_bytes q f @ render q fs"
  "render q (fs @ gs) = render q fs @ render q gs"
  by (simp_all add: render_def)

lemma lexemes_frags:
  "map (\<lambda>t. (tk_kind t, tk_text t)) (frag_tokens q i fs) = List.map_filter frag_lexeme fs"
  by (induction fs arbitrary: i) (auto simp: map_filter_simps split: option.split)

lemma map_filter_append [simp]:
  "List.map_filter f (xs @ ys) = List.map_filter f xs @ List.map_filter f ys"
  by (simp add: List.map_filter_def)

lemma frags_ok_append:
  "frags_ok d (fs @ gs) \<longleftrightarrow>
   frags_ok d fs \<and> frags_ok d gs \<and> (fs \<noteq> [] \<longrightarrow> gs \<noteq> [] \<longrightarrow> apart (last fs) (hd gs))"
  by (induction fs) auto

lemma apart_FGap [simp]: "apart f FGap"
  by (cases f) auto

lemma group_ok_spaced:
  "gs \<noteq> [] \<Longrightarrow> list_all (group_ok d) gs \<Longrightarrow>
   group_ok d (spaced gs) \<and>
   List.map_filter frag_lexeme (spaced gs) = concat (map (List.map_filter frag_lexeme) gs) \<and>
   render q (spaced gs) = join_with '' '' (map (render q) gs)"
  by (induction gs rule: spaced.induct) (auto simp: group_ok_def frags_ok_append map_filter_simps)

lemma statement_reads_as:
  assumes "list_all (group_ok (dialectFor ty)) gs" "gs \<noteq> []"
    and "sql = join_with '' '' (map (render (quoteIdentifier (createSQLBuilder ty))) gs)"
    and "ls = concat (map (List.map_filter frag_lexeme) gs)"
  shows "reads_as ty sql ls"
proof -
  note sp = group_ok_spaced [OF assms(2,1), of "quoteIdentifier (createSQLBuilder ty)"]
  then have ok: "frags_ok (dialectFor ty) (spaced gs)" by (simp add: group_ok_def)
  show ?thesis
    using iq.render_one_statement [OF ok] iq.tokenize_render [OF ok] sp assms(3,4)
    by (simp add: reads_as_def lexemes_def lexemes_frags statementRanges_def group_ok_def)
qed

lemma comma_frags_ok:
  assumes "list_all (frag_ok d) fs" "list_all (\<lambda>f. frag_lexeme f \<noteq> None \<and> (\<forall>c. f \<noteq> FSym c)) fs" "fs \<noteq> []"
  shows "frags_ok d (comma_frags fs) \<and> FSym (CHR '';'') \<notin> set (comma_frags fs) \<and> comma_frags fs \<noteq> [] \<and>
    hd (comma_frags fs) = hd fs \<and> last (comma_frags fs) = last fs \<and>
    List.map_filter frag_lexeme (comma_frags fs) = comma_lexemes (map (the \<circ> frag_lexeme) fs)"
  using assms
proof (induction fs rule: comma_frags.induct)
  case (2 f)
  then show ?case by (auto simp: map_filter_simps)
next
  case (3 f g fs)
  then have "apart f (FSym (CHR '',''))" by (cases f) auto
  with 3 show ?case by (auto simp: map_filter_simps sym_ok_def is_punct_char_def)
qed simp

lemma render_comma: "render q (comma_frags fs) = join_with '', '' (map (frag_bytes q) fs)"
  by (induction fs rule: comma_frags.induct) auto

lemma group_ok_name [simp]: "group_ok d (name_frags schema name)"
  by (simp add: group_ok_def name_frags_def sym_ok_def)

lemma name_frags_read [simp]:
  "render (quoteIdentifier b) (name_frags schema name) = qualifiedRef b schema name"
  "List.map_filter frag_lexeme (name_frags schema name) = name_lexemes schema name"
  by (simp_all add: qualifiedRef_def name_frags_def name_lexemes_def map_filter_simps is_punct_char_def)

definition word_ok :: "bytes \<Rightarrow> bool" where
  "word_ok w \<longleftrightarrow> w \<noteq> [] \<and> isIdentStartByte (hd w) \<and> list_all isIdentByte w"

lemma group_ok_word [simp]: "group_ok d [FWord w] \<longleftrightarrow> word_ok w"
  by (simp add: group_ok_def word_ok_def)

lemma group_ok_ident [simp]: "group_ok d [FIdent x]"
  by (simp add: group_ok_def)

lemma words_ok [simp]:
  "list_all word_ok
     [''DROP'', ''TABLE'', ''IF'', ''EXISTS'', ''CASCADE'', ''CONSTRAINTS'', ''TRUNCATE'', ''ONLY'', ''ALTER'',
      ''RENAME'', ''TO'', ''COLUMN'', ''SELECT'', ''COUNT'', ''FROM'', ''INSERT'', ''INTO'', ''VALUES'']"
  by code_simp

lemmas statement_simps = map_filter_simps keyword_lexemes_def is_punct_char_def

definition list_group :: "Frag list \<Rightarrow> Frag list" where
  "list_group fs = FSym (CHR ''('') # comma_frags fs @ [FSym (CHR '')'')]"

lemma list_group_ok:
  assumes "fs \<noteq> []" "list_all (frag_ok d) fs" "list_all (\<lambda>f. frag_lexeme f \<noteq> None \<and> (\<forall>c. f \<noteq> FSym c)) fs"
  shows "group_ok d (list_group fs)"
    "render q (list_group fs) = ''('' @ join_with '', '' (map (frag_bytes q) fs) @ '')''"
    "List.map_filter frag_lexeme (list_group fs) =
      (TPunct, ''('') # comma_lexemes (map (the \<circ> frag_lexeme) fs) @ [(TPunct, '')'')]"
proof -
  note c = comma_frags_ok [OF assms(2,3,1)]
  have "apart (FSym (CHR ''('')) (hd fs)" by (cases "hd fs") auto
  moreover have "apart (last fs) (FSym (CHR '')''))" by (cases "last fs") auto
  ultimately show "group_ok d (list_group fs)"
    using c by (simp add: list_group_def group_ok_def frags_ok_append sym_ok_def)
  show "render q (list_group fs) = ''('' @ join_with '', '' (map (frag_bytes q) fs) @ '')''"
    by (simp add: list_group_def render_comma)
  show "List.map_filter frag_lexeme (list_group fs) =
      (TPunct, ''('') # comma_lexemes (map (the \<circ> frag_lexeme) fs) @ [(TPunct, '')'')]"
    using c by (simp add: list_group_def map_filter_simps is_punct_char_def)
qed

lemma backslashEscape_dialectFor: "dl_backslashEscape (dialectFor ty) = isMySQLFamily ty"
  by (cases ty) (simp_all add: dialectFor_def default_dialect_def mysql_dialect_def isMySQLFamily_def)

section \<open>The statements on tables and columns\<close>

lemma dropTable_reads:
  "reads_as ty (dropTable (createSQLBuilder ty) schema name)
     (keyword_lexemes [''DROP'', ''TABLE''] @
      (if ty = CASSANDRA then keyword_lexemes [''IF'', ''EXISTS''] else []) @
      name_lexemes schema name @
      (if ty = ORACLE then keyword_lexemes [''CASCADE'', ''CONSTRAINTS''] else []))"
proof -
  let ?b = "createSQLBuilder ty" and ?n = "name_frags schema name"
  have drop: "dropTable ?b schema name =
      (if ty = CASSANDRA then cassandra_dropTable ?b schema name
       else if ty = ORACLE then oracle_dropTable ?b schema name else base_dropTable ?b schema name)"
    by (cases ty) simp_all
  have "reads_as ty (cassandra_dropTable ?b schema name)
      (keyword_lexemes [''DROP'', ''TABLE'', ''IF'', ''EXISTS''] @ name_lexemes schema name)"
    by (rule statement_reads_as [where gs = "[[FWord ''DROP''], [FWord ''TABLE''], [FWord ''IF''], [FWord ''EXISTS''], ?n]"])
      (use words_ok in \<open>simp_all add: cassandra_dropTable_def statement_simps\<close>)
  moreover have "reads_as ty (oracle_dropTable ?b schema name)
      (keyword_lexemes [''DROP'', ''TABLE''] @ name_lexemes schema name @ keyword_lexemes [''CASCADE'', ''CONSTRAINTS''])"
    by (rule statement_reads_as [where gs = "[[FWord ''DROP''], [FWord ''TABLE''], ?n, [FWord ''CASCADE''], [FWord ''CONSTRAINTS'']]"])
      (use words_ok in \<open>simp_all add: oracle_dropTable_def statement_simps\<close>)
  moreover have "reads_as ty (base_dropTable ?b schema name)
      (keyword_lexemes [''DROP'', ''TABLE''] @ name_lexemes schema name)"
    by (rule statement_reads_as [where gs = "[[FWord ''DROP''], [FWord ''TABLE''], ?n]"])
      (use words_ok in \<open>simp_all add: base_dropTable_def statement_simps\<close>)
  ultimately show ?thesis unfolding drop by (auto simp: keyword_lexemes_def)
qed

lemma truncateTable_reads:
  "reads_as ty (truncateTable (createSQLBuilder ty) schema name)
     (keyword_lexemes [''TRUNCATE'', ''TABLE''] @
      (if isPostgresFamily ty then keyword_lexemes [''ONLY''] else []) @ name_lexemes schema name)"
proof -
  let ?b = "createSQLBuilder ty" and ?n = "name_frags schema name"
  have trunc: "truncateTable ?b schema name =
      (if isPostgresFamily ty then postgres_truncateTable ?b schema name else base_truncateTable ?b schema name)"
    by (cases ty) (simp_all add: isPostgresFamily_def)
  have "reads_as ty (postgres_truncateTable ?b schema name)
      (keyword_lexemes [''TRUNCATE'', ''TABLE'', ''ONLY''] @ name_lexemes schema name)"
    by (rule statement_reads_as [where gs = "[[FWord ''TRUNCATE''], [FWord ''TABLE''], [FWord ''ONLY''], ?n]"])
      (use words_ok in \<open>simp_all add: postgres_truncateTable_def statement_simps\<close>)
  moreover have "reads_as ty (base_truncateTable ?b schema name)
      (keyword_lexemes [''TRUNCATE'', ''TABLE''] @ name_lexemes schema name)"
    by (rule statement_reads_as [where gs = "[[FWord ''TRUNCATE''], [FWord ''TABLE''], ?n]"])
      (use words_ok in \<open>simp_all add: base_truncateTable_def statement_simps\<close>)
  ultimately show ?thesis unfolding trunc by (auto simp: keyword_lexemes_def)
qed

lemma renameTable_reads:
  assumes "ty \<noteq> MSSQL"
  shows "reads_as ty (renameTable (createSQLBuilder ty) schema old new)
    (if isMySQLFamily ty
     then keyword_lexemes [''RENAME'', ''TABLE''] @ name_lexemes schema old @ keyword_lexemes [''TO''] @
       [(TQuotedIdent, new)]
     else keyword_lexemes [''ALTER'', ''TABLE''] @ name_lexemes schema old @ keyword_lexemes [''RENAME'', ''TO''] @
       [(TQuotedIdent, new)])"
proof -
  let ?b = "createSQLBuilder ty" and ?n = "name_frags schema old"
  have rename: "renameTable ?b schema old new =
      (if isMySQLFamily ty then mysql_renameTable ?b schema old new else base_renameTable ?b schema old new)"
    using assms by (cases ty) (simp_all add: isMySQLFamily_def)
  have "reads_as ty (mysql_renameTable ?b schema old new)
      (keyword_lexemes [''RENAME'', ''TABLE''] @ name_lexemes schema old @ keyword_lexemes [''TO''] @
       [(TQuotedIdent, new)])"
    by (rule statement_reads_as [where gs = "[[FWord ''RENAME''], [FWord ''TABLE''], ?n, [FWord ''TO''], [FIdent new]]"])
      (use words_ok in \<open>simp_all add: mysql_renameTable_def statement_simps\<close>)
  moreover have "reads_as ty (base_renameTable ?b schema old new)
      (keyword_lexemes [''ALTER'', ''TABLE''] @ name_lexemes schema old @ keyword_lexemes [''RENAME'', ''TO''] @
       [(TQuotedIdent, new)])"
    by (rule statement_reads_as [where gs = "[[FWord ''ALTER''], [FWord ''TABLE''], ?n, [FWord ''RENAME''],
        [FWord ''TO''], [FIdent new]]"])
      (use words_ok in \<open>simp_all add: base_renameTable_def statement_simps\<close>)
  ultimately show ?thesis unfolding rename by simp
qed

lemma dropColumn_reads:
  "reads_as ty (dropColumn (createSQLBuilder ty) (qualifiedRef (createSQLBuilder ty) schema name) col)
     (keyword_lexemes [''ALTER'', ''TABLE''] @ name_lexemes schema name @ keyword_lexemes [''DROP''] @
      (if ty = CASSANDRA then [] else keyword_lexemes [''COLUMN'']) @ [(TQuotedIdent, col)])"
proof -
  let ?b = "createSQLBuilder ty" and ?n = "name_frags schema name"
  let ?q = "qualifiedRef ?b schema name"
  have drop: "dropColumn ?b ?q col =
      (if ty = CASSANDRA then cassandra_dropColumn ?b ?q col else sql_dropColumn ?b ?q col)"
    by (cases ty) simp_all
  have "reads_as ty (cassandra_dropColumn ?b ?q col)
      (keyword_lexemes [''ALTER'', ''TABLE''] @ name_lexemes schema name @ keyword_lexemes [''DROP''] @ [(TQuotedIdent, col)])"
    by (rule statement_reads_as [where gs = "[[FWord ''ALTER''], [FWord ''TABLE''], ?n, [FWord ''DROP''], [FIdent col]]"])
      (use words_ok in \<open>simp_all add: cassandra_dropColumn_def statement_simps\<close>)
  moreover have "reads_as ty (sql_dropColumn ?b ?q col)
      (keyword_lexemes [''ALTER'', ''TABLE''] @ name_lexemes schema name @ keyword_lexemes [''DROP'', ''COLUMN''] @
       [(TQuotedIdent, col)])"
    by (rule statement_reads_as [where gs = "[[FWord ''ALTER''], [FWord ''TABLE''], ?n, [FWord ''DROP''],
        [FWord ''COLUMN''], [FIdent col]]"])
      (use words_ok in \<open>simp_all add: sql_dropColumn_def statement_simps\<close>)
  ultimately show ?thesis unfolding drop by (auto simp: keyword_lexemes_def)
qed

lemma renameColumn_reads:
  assumes "ty \<noteq> MSSQL"
  shows "reads_as ty (renameColumn (createSQLBuilder ty) (qualifiedRef (createSQLBuilder ty) schema name) col new)
     (keyword_lexemes [''ALTER'', ''TABLE''] @ name_lexemes schema name @ keyword_lexemes [''RENAME'', ''COLUMN''] @
      [(TQuotedIdent, col)] @ keyword_lexemes [''TO''] @ [(TQuotedIdent, new)])"
proof -
  let ?b = "createSQLBuilder ty" and ?n = "name_frags schema name"
  let ?q = "qualifiedRef ?b schema name"
  have rename: "renameColumn ?b ?q col new = base_renameColumn ?b ?q col new"
    using assms by (cases ty) simp_all
  have "reads_as ty (base_renameColumn ?b ?q col new)
      (keyword_lexemes [''ALTER'', ''TABLE''] @ name_lexemes schema name @ keyword_lexemes [''RENAME'', ''COLUMN''] @
       [(TQuotedIdent, col)] @ keyword_lexemes [''TO''] @ [(TQuotedIdent, new)])"
    by (rule statement_reads_as [where gs = "[[FWord ''ALTER''], [FWord ''TABLE''], ?n, [FWord ''RENAME''],
        [FWord ''COLUMN''], [FIdent col], [FWord ''TO''], [FIdent new]]"])
      (use words_ok in \<open>simp_all add: base_renameColumn_def statement_simps\<close>)
  then show ?thesis unfolding rename .
qed

section \<open>Properties\<close>

text \<open>C5: in every dialect the builder's quoted identifier is read back by the lexer as one closed
  quoted-identifier token that spans the whole text and carries exactly the identifier.\<close>
theorem quoteIdentifier_one_token:
  "tokenize (quoteIdentifier (createSQLBuilder ty) x) (dialectFor ty) =
     [\<lparr>tk_kind = TQuotedIdent, tk_begin = 0, tk_end = length (quoteIdentifier (createSQLBuilder ty) x),
       tk_closed = True, tk_lineComment = False, tk_text = x\<rparr>]"
  using iq.tokenize_render [of ty "[FIdent x]"] by (simp add: plain_token_def)

text \<open>
  Backslashes that escape: in a literal that closes, each byte of text costs one byte, a doubled quote
  two, and a backslash one more than it gives, so a text as long as the value leaves none for them.
\<close>

lemma scanQuoted_count:
  assumes "scanQuoted q True r = (t, True, n)" "q \<noteq> backslash"
  shows "count_list (take n r) q + count_list (take n r) backslash + 2 * length t + 1 \<le> 2 * n"
  using assms(1)
proof (induction "length r" arbitrary: r t n rule: less_induct)
  case less
  obtain ch r1 where r: "r = ch # r1" using less.prems by (cases r) auto
  consider (escape) e r2 where "ch = backslash" "r1 = e # r2"
    | (closing) "ch = q" "r1 = [] \<or> hd r1 \<noteq> q" | (doubled) r2 where "ch = q" "r1 = q # r2"
    | (last_backslash) "ch = backslash" "r1 = []" | (other) "ch \<noteq> backslash" "ch \<noteq> q"
    using assms(2) by (cases r1) auto
  then show ?case
  proof cases
    case escape
    obtain t1 c1 n1 where s: "scanQuoted q True r2 = (t1, c1, n1)" by (metis prod.exhaust)
    with less.prems r escape have eq: "t = e # t1" "n = n1 + 2" "c1" by auto
    with less.hyps [of r2 t1 n1] s r escape assms(2) show ?thesis by auto
  next
    case closing
    with less.prems r assms(2) have "t = []" "n = 1" by auto
    with closing r assms(2) show ?thesis by simp
  next
    case doubled
    obtain t1 c1 n1 where s: "scanQuoted q True r2 = (t1, c1, n1)" by (metis prod.exhaust)
    with less.prems r doubled assms(2) have eq: "t = q # t1" "n = n1 + 2" "c1" by auto
    with less.hyps [of r2 t1 n1] s r doubled assms(2) show ?thesis by auto
  next
    case last_backslash
    with less.prems r assms(2) show ?thesis by auto
  next
    case other
    obtain t1 c1 n1 where s: "scanQuoted q True r1 = (t1, c1, n1)" by (metis prod.exhaust)
    with less.prems r other have eq: "t = ch # t1" "n = n1 + 1" "c1" by auto
    with less.hyps [of r1 t1 n1] s r other show ?thesis by auto
  qed
qed

lemma count_double_char: "count_list (double_char q v) q = 2 * count_list v q"
  "c \<noteq> q \<Longrightarrow> count_list (double_char q v) c = count_list v c"
  by (induction v) auto

lemma scanQuoted_exact:
  assumes "scanQuoted q True (double_char q v @ [q]) = (v, True, length (double_char q v) + 1)" "q \<noteq> backslash"
  shows "backslash \<notin> set v"
  using scanQuoted_count [OF assms] assms(2)
  by (simp add: count_double_char length_double_char count_list_0_iff)

text \<open>C6: a string literal is read back as one closed string token over all of it with the value as its
  text exactly when the dialect is not of the MySQL family or the value has no backslash.\<close>
theorem sql_literal_one_token:
  "tokenize (sql_literal v) (dialectFor ty) =
     [\<lparr>tk_kind = TString, tk_begin = 0, tk_end = length (sql_literal v),
       tk_closed = True, tk_lineComment = False, tk_text = v\<rparr>] \<longleftrightarrow>
   \<not> isMySQLFamily ty \<or> backslash \<notin> set v"
proof
  assume "\<not> isMySQLFamily ty \<or> backslash \<notin> set v"
  then show "tokenize (sql_literal v) (dialectFor ty) =
     [\<lparr>tk_kind = TString, tk_begin = 0, tk_end = length (sql_literal v),
       tk_closed = True, tk_lineComment = False, tk_text = v\<rparr>]"
    using iq.tokenize_render [of ty "[FText v]"] by (simp add: plain_token_def backslashEscape_dialectFor)
next
  assume one: "tokenize (sql_literal v) (dialectFor ty) =
     [\<lparr>tk_kind = TString, tk_begin = 0, tk_end = length (sql_literal v),
       tk_closed = True, tk_lineComment = False, tk_text = v\<rparr>]"
  have lit: "sql_literal v = squote # double_char squote v @ [squote]"
    by (simp add: sql_literal_def escapeSingleQuotes_def)
  have "\<not> isspace squote" by code_simp
  then have "hd (tokenize (sql_literal v) (dialectFor ty)) = lex_token (dialectFor ty) (sql_literal v) 0"
    using tokenize_from_step [of 0 "sql_literal v" "dialectFor ty"] by (simp add: tokenize_def lit)
  also have "\<dots> = quoted_token TString 0 squote (dl_backslashEscape (dialectFor ty)) (double_char squote v @ [squote])"
    by (simp add: lex_token_def Let_def lit)
  finally have "scanQuoted squote (isMySQLFamily ty) (double_char squote v @ [squote]) = (v, True, length (double_char squote v) + 1)"
    using one by (simp add: quoted_token_def backslashEscape_dialectFor lit split: prod.splits)
  then show "\<not> isMySQLFamily ty \<or> backslash \<notin> set v"
    using scanQuoted_exact [of squote v] by (cases "isMySQLFamily ty") simp_all
qed

theorem sql_literal_one_token_witness:
  "tokenize (sql_literal [CHR ''a'', squote, CHR '';'']) (dialectFor MYSQL) =
     [\<lparr>tk_kind = TString, tk_begin = 0, tk_end = 6, tk_closed = True, tk_lineComment = False,
       tk_text = [CHR ''a'', squote, CHR '';'']\<rparr>]"
proof -
  have "length (sql_literal [CHR ''a'', squote, CHR '';'']) = 6" by code_simp
  with sql_literal_one_token [of "[CHR ''a'', squote, CHR '';'']" MYSQL] show ?thesis by simp
qed

text \<open>DROP TABLE and TRUNCATE TABLE, for any schema and table name, are one statement whose tokens are
  the dialect's keywords and the two names exactly as given: no name can end the quoting or add a
  statement.\<close>
lemma dropTable_truncateTable_read_back:
  "reads_as ty (dropTable (createSQLBuilder ty) schema name)
     (keyword_lexemes [''DROP'', ''TABLE''] @
      (if ty = CASSANDRA then keyword_lexemes [''IF'', ''EXISTS''] else []) @
      name_lexemes schema name @
      (if ty = ORACLE then keyword_lexemes [''CASCADE'', ''CONSTRAINTS''] else [])) \<and>
   reads_as ty (truncateTable (createSQLBuilder ty) schema name)
     (keyword_lexemes [''TRUNCATE'', ''TABLE''] @
      (if isPostgresFamily ty then keyword_lexemes [''ONLY''] else []) @ name_lexemes schema name)"
  by (simp add: dropTable_reads truncateTable_reads)

text \<open>Outside SQL Server, renaming a table is one statement that names exactly the old and the new
  table.\<close>
lemma renameTable_reads_back:
  assumes "ty \<noteq> MSSQL"
  shows "reads_as ty (renameTable (createSQLBuilder ty) schema old new)
    (if isMySQLFamily ty
     then keyword_lexemes [''RENAME'', ''TABLE''] @ name_lexemes schema old @ keyword_lexemes [''TO''] @
       [(TQuotedIdent, new)]
     else keyword_lexemes [''ALTER'', ''TABLE''] @ name_lexemes schema old @ keyword_lexemes [''RENAME'', ''TO''] @
       [(TQuotedIdent, new)])"
  by (rule renameTable_reads [OF assms])

text \<open>Dropping a column (every dialect) and renaming one (every dialect but SQL Server) is one
  statement that names exactly the table and the columns given.\<close>
lemma column_statements_read_back:
  "reads_as ty (dropColumn (createSQLBuilder ty) (qualifiedRef (createSQLBuilder ty) schema name) col)
     (keyword_lexemes [''ALTER'', ''TABLE''] @ name_lexemes schema name @ keyword_lexemes [''DROP''] @
      (if ty = CASSANDRA then [] else keyword_lexemes [''COLUMN'']) @ [(TQuotedIdent, col)]) \<and>
   (ty \<noteq> MSSQL \<longrightarrow>
    reads_as ty (renameColumn (createSQLBuilder ty) (qualifiedRef (createSQLBuilder ty) schema name) col new)
     (keyword_lexemes [''ALTER'', ''TABLE''] @ name_lexemes schema name @ keyword_lexemes [''RENAME'', ''COLUMN''] @
      [(TQuotedIdent, col)] @ keyword_lexemes [''TO''] @ [(TQuotedIdent, new)]))"
  using dropColumn_reads renameColumn_reads by blast

text \<open>C4: an INSERT of at least one column and as many string values, escaped as literals, is one
  statement that reads back as the given table, columns and values in order, provided that the
  dialect is not of the MySQL family or no value has a backslash.\<close>
theorem insertRow_reads_back:
  assumes "cols \<noteq> []" "length vals = length cols"
    and "\<not> isMySQLFamily ty \<or> list_all (\<lambda>v. backslash \<notin> set v) vals"
  shows "reads_as ty (insertRow (createSQLBuilder ty) (qualifiedRef (createSQLBuilder ty) schema name)
      cols (map sql_literal vals))
    (keyword_lexemes [''INSERT'', ''INTO''] @ name_lexemes schema name @
     [(TPunct, ''('')] @ comma_lexemes (map (Pair TQuotedIdent) cols) @ [(TPunct, '')'')] @
     keyword_lexemes [''VALUES''] @
     [(TPunct, ''('')] @ comma_lexemes (map (Pair TString) vals) @ [(TPunct, '')'')])"
proof -
  let ?b = "createSQLBuilder ty"
  note esc = backslashEscape_dialectFor
  have vals: "vals \<noteq> []" using assms(1,2) by auto
  have "map FIdent cols \<noteq> []" "list_all (frag_ok (dialectFor ty)) (map FIdent cols)"
    "list_all (\<lambda>f. frag_lexeme f \<noteq> None \<and> (\<forall>c. f \<noteq> FSym c)) (map FIdent cols)"
    using assms(1) by (auto simp: list_all_iff)
  note c = list_group_ok [OF this]
  have "map FText vals \<noteq> []" "list_all (frag_ok (dialectFor ty)) (map FText vals)"
    "list_all (\<lambda>f. frag_lexeme f \<noteq> None \<and> (\<forall>c. f \<noteq> FSym c)) (map FText vals)"
    using vals assms(3) by (auto simp: list_all_iff esc)
  note v = list_group_ok [OF this]
  have maps: "map (the \<circ> (frag_lexeme \<circ> FIdent)) cols = map (Pair TQuotedIdent) cols"
    "map (the \<circ> (frag_lexeme \<circ> FText)) vals = map (Pair TString) vals"
    "map (frag_bytes (quoteIdentifier ?b) \<circ> FIdent) cols = map (quoteIdentifier ?b) cols"
    "map (frag_bytes (quoteIdentifier ?b) \<circ> FText) vals = map sql_literal vals"
    by simp_all
  show ?thesis
    by (rule statement_reads_as [where gs = "[[FWord ''INSERT''], [FWord ''INTO''], name_frags schema name,
        list_group (map FIdent cols), [FWord ''VALUES''], list_group (map FText vals)]"])
      (use words_ok assms(2) in \<open>simp_all add: insertRow_def Let_def statement_simps c v maps comp_assoc\<close>)
qed

lemma renameTable_reads_back_witness:
  "reads_as SQLITE (renameTable SQLiteBuilder [] ''a; b'' [dquote])
    (keyword_lexemes [''ALTER'', ''TABLE''] @ name_lexemes [] ''a; b'' @ keyword_lexemes [''RENAME'', ''TO''] @
     [(TQuotedIdent, [dquote])])"
  using renameTable_reads_back [of SQLITE "[]" "''a; b''" "[dquote]"] by (simp add: isMySQLFamily_def)

lemma column_statements_read_back_witness:
  "reads_as MYSQL (renameColumn MySQLBuilder (qualifiedRef MySQLBuilder ''s'' ''t'') ''a'' [backtick])
    (keyword_lexemes [''ALTER'', ''TABLE''] @ name_lexemes ''s'' ''t'' @ keyword_lexemes [''RENAME'', ''COLUMN''] @
     [(TQuotedIdent, ''a'')] @ keyword_lexemes [''TO''] @ [(TQuotedIdent, [backtick])])"
  using column_statements_read_back [of MYSQL "''s''" "''t''" "''a''" "[backtick]"] by simp

theorem insertRow_reads_back_witness:
  "reads_as POSTGRESQL (insertRow PostgreSQLBuilder (qualifiedRef PostgreSQLBuilder [] ''t'')
      [''c''] (map sql_literal [[squote, CHR '';'']]))
    (keyword_lexemes [''INSERT'', ''INTO''] @ name_lexemes [] ''t'' @
     [(TPunct, ''('')] @ comma_lexemes (map (Pair TQuotedIdent) [''c'']) @ [(TPunct, '')'')] @
     keyword_lexemes [''VALUES''] @
     [(TPunct, ''('')] @ comma_lexemes (map (Pair TString) [[squote, CHR '';'']]) @ [(TPunct, '')'')])"
  using insertRow_reads_back [of "[''c'']" "[[squote, CHR '';'']]" POSTGRESQL "[]" "''t''"]
  by (simp add: isMySQLFamily_def)

text \<open>The two places where a given text does leave its quotes. On SQL Server the names of a table
  rename go between single quotes unescaped, so a name with a quote makes a second statement; and
  a literal that ends in a backslash stays open under the MySQL lexer.\<close>
lemma unescaped_text_escapes:
  "length (statementRanges (renameTable MSSQLBuilder [] ''t'' ([CHR ''x'', squote] @ ''; DROP TABLE t --'')) MSSQL) = 2 \<and>
   map tk_closed (tokenize (sql_literal [CHR ''x'', backslash]) (dialectFor MYSQL)) = [False]"
proof
  show "length (statementRanges (renameTable MSSQLBuilder [] ''t''
      ([CHR ''x'', squote] @ ''; DROP TABLE t --'')) MSSQL) = 2" by code_simp
  show "map tk_closed (tokenize (sql_literal [CHR ''x'', backslash]) (dialectFor MYSQL)) = [False]"
    by code_simp
qed

end
