(* ===== verification/Sql_Words.thy ===== *)
theory Sql_Words
  imports Sql_Quoting
begin

text \<open>
  The keyword and function tables of \<^verbatim>\<open>src/completion.cpp\<close> as they are written there, the word sets
  that are looked up by \<^verbatim>\<open>inSet\<close>, and the public functions on them: \<^verbatim>\<open>sqlKeywords\<close>, \<^verbatim>\<open>sqlFunctions\<close>,
  \<^verbatim>\<open>identifierNeedsQuoting\<close> and \<^verbatim>\<open>quoteIdentifierIfNeeded\<close>. \<^verbatim>\<open>std::ranges::sort\<close> on strings is \<open>sort\<close>
  in the byte order of \<^verbatim>\<open>HOL-Library.List_Lexorder\<close>, and a \<^verbatim>\<open>WordSet\<close> is the list of its words.
\<close>

section \<open>The word lists\<close>

definition kw_cassandra :: "bytes list" where
  "kw_cassandra = [
    ''SELECT'', ''FROM'', ''WHERE'', ''AND'', ''IN'', ''INSERT'', ''INTO'', ''VALUES'',
    ''UPDATE'', ''SET'', ''DELETE'', ''CREATE'', ''DROP'', ''ALTER'', ''TRUNCATE'', ''USE'',
    ''KEYSPACE'', ''KEYSPACES'', ''TABLE'', ''TABLES'', ''INDEX'', ''TYPE'', ''MATERIALIZED'',
    ''VIEW'', ''PRIMARY'', ''KEY'', ''CLUSTERING'', ''ORDER'', ''BY'', ''ASC'', ''DESC'',
    ''LIMIT'', ''PER'', ''PARTITION'', ''ALLOW'', ''FILTERING'', ''IF'', ''EXISTS'', ''NOT'',
    ''USING'', ''TTL'', ''TIMESTAMP'', ''BATCH'', ''APPLY'', ''BEGIN'', ''UNLOGGED'',
    ''COUNTER'', ''WITH'', ''REPLICATION'', ''CONTAINS'', ''DISTINCT'', ''JSON'', ''AS'',
    ''NULL'', ''TRUE'', ''FALSE'', ''ADD'', ''RENAME'', ''TO'', ''GRANT'', ''REVOKE'',
    ''ROLE'', ''DESCRIBE'', ''TEXT'', ''INT'', ''BIGINT'', ''SMALLINT'', ''TINYINT'', ''UUID'',
    ''TIMEUUID'', ''BOOLEAN'', ''FLOAT'', ''DOUBLE'', ''DECIMAL'', ''VARINT'', ''LIST'',
    ''MAP'', ''FROZEN'', ''TUPLE'', ''BLOB'', ''DATE'', ''TIME'', ''INET'', ''ASCII'',
    ''VARCHAR'', ''DURATION'', ''STATIC'']"

definition kw_common :: "bytes list" where
  "kw_common = [
    ''SELECT'', ''FROM'', ''WHERE'', ''AND'', ''OR'', ''NOT'', ''IN'', ''IS'', ''NULL'',
    ''AS'', ''ON'', ''JOIN'', ''LEFT'', ''RIGHT'', ''INNER'', ''OUTER'', ''CROSS'', ''FULL'',
    ''NATURAL'', ''GROUP'', ''BY'', ''ORDER'', ''ASC'', ''DESC'', ''HAVING'', ''UNION'',
    ''ALL'', ''DISTINCT'', ''BETWEEN'', ''LIKE'', ''EXISTS'', ''CASE'', ''WHEN'', ''THEN'',
    ''ELSE'', ''END'', ''BEGIN'', ''COMMIT'', ''ROLLBACK'', ''WITH'', ''RECURSIVE'',
    ''CASCADE'', ''RESTRICT'', ''REFERENCES'', ''PRIMARY'', ''KEY'', ''FOREIGN'', ''UNIQUE'',
    ''CHECK'', ''DEFAULT'', ''CONSTRAINT'', ''IF'', ''TEMPORARY'', ''INTO'', ''VALUES'',
    ''SET'', ''INSERT'', ''UPDATE'', ''DELETE'', ''CREATE'', ''DROP'', ''ALTER'', ''TABLE'',
    ''INDEX'', ''VIEW'', ''TRIGGER'', ''ADD'', ''COLUMN'', ''RENAME'', ''TO'', ''OVER'',
    ''PARTITION'', ''EXCEPT'', ''INTERSECT'', ''TRUE'', ''FALSE'', ''USING'', ''TRANSACTION'',
    ''GRANT'', ''REVOKE'', ''ANY'', ''SOME'', ''DATE'', ''TIME'', ''TIMESTAMP'', ''INTEGER'',
    ''INT'', ''BIGINT'', ''SMALLINT'', ''DECIMAL'', ''NUMERIC'', ''REAL'', ''FLOAT'', ''CHAR'',
    ''VARCHAR'', ''TEXT'', ''REPLACE'']"

definition kw_postgres :: "bytes list" where
  "kw_postgres = [
    ''LIMIT'', ''OFFSET'', ''RETURNING'', ''ILIKE'', ''SIMILAR'', ''LATERAL'',
    ''MATERIALIZED'', ''CONCURRENTLY'', ''VACUUM'', ''ANALYZE'', ''COPY'', ''ONLY'',
    ''SCHEMA'', ''DATABASE'', ''SEQUENCE'', ''FUNCTION'', ''PROCEDURE'', ''RETURNS'',
    ''LANGUAGE'', ''DECLARE'', ''CONFLICT'', ''DO'', ''NOTHING'', ''FILTER'', ''WINDOW'',
    ''FETCH'', ''FIRST'', ''NEXT'', ''ROWS'', ''ROW'', ''GENERATED'', ''ALWAYS'', ''IDENTITY'',
    ''STORED'', ''SERIAL'', ''BIGSERIAL'', ''SMALLSERIAL'', ''BOOLEAN'', ''JSON'', ''JSONB'',
    ''UUID'', ''BYTEA'', ''ARRAY'', ''DOUBLE'', ''PRECISION'', ''TIMESTAMPTZ'', ''EXTENSION'',
    ''TRUNCATE'', ''CALL'', ''NULLS'', ''INTERVAL'', ''EXPLAIN'', ''TABLESAMPLE'',
    ''UNLOGGED'', ''EXECUTE'', ''RETURN'', ''OWNER'', ''TYPE'', ''ENUM'', ''DOMAIN'']"

definition kw_redshift :: "bytes list" where
  "kw_redshift = [
    ''DISTKEY'', ''SORTKEY'', ''DISTSTYLE'', ''ENCODE'', ''UNLOAD'']"

definition kw_mysql :: "bytes list" where
  "kw_mysql = [
    ''LIMIT'', ''OFFSET'', ''AUTO_INCREMENT'', ''ENGINE'', ''CHARSET'', ''COLLATE'', ''SHOW'',
    ''DESCRIBE'', ''DATABASES'', ''TABLES'', ''COLUMNS'', ''USE'', ''IGNORE'', ''DUPLICATE'',
    ''STRAIGHT_JOIN'', ''REGEXP'', ''RLIKE'', ''UNSIGNED'', ''SIGNED'', ''ZEROFILL'',
    ''TINYINT'', ''MEDIUMINT'', ''LONGTEXT'', ''MEDIUMTEXT'', ''TINYTEXT'', ''BLOB'',
    ''LONGBLOB'', ''DATETIME'', ''ENUM'', ''JSON'', ''BOOLEAN'', ''DOUBLE'', ''PROCEDURE'',
    ''FUNCTION'', ''DATABASE'', ''SCHEMA'', ''TRUNCATE'', ''CALL'', ''EXPLAIN'', ''DELIMITER'',
    ''LOCK'', ''UNLOCK'', ''INTERVAL'', ''WINDOW'', ''ROWS'', ''DIV'', ''XOR'', ''SEPARATOR'',
    ''MODIFY'', ''CHANGE'', ''AFTER'', ''FIRST'', ''PROCESSLIST'', ''VARIABLES'', ''STATUS'',
    ''GENERATED'', ''ALWAYS'', ''STORED'', ''VIRTUAL'', ''DECLARE'']"

definition kw_mariadb :: "bytes list" where
  "kw_mariadb = [
    ''RETURNING'', ''SEQUENCE'']"

definition kw_sqlite :: "bytes list" where
  "kw_sqlite = [
    ''LIMIT'', ''OFFSET'', ''AUTOINCREMENT'', ''PRAGMA'', ''GLOB'', ''REGEXP'', ''VACUUM'',
    ''ANALYZE'', ''ATTACH'', ''DETACH'', ''WITHOUT'', ''ROWID'', ''CONFLICT'', ''ABORT'',
    ''FAIL'', ''IGNORE'', ''RETURNING'', ''STRICT'', ''VIRTUAL'', ''EXPLAIN'', ''QUERY'',
    ''PLAN'', ''INDEXED'', ''BLOB'', ''BOOLEAN'', ''DATETIME'', ''FILTER'', ''WINDOW'',
    ''ROWS'', ''NULLS'', ''GENERATED'', ''ALWAYS'', ''STORED'', ''DO'', ''NOTHING'',
    ''DATABASE'', ''IMMEDIATE'', ''EXCLUSIVE'', ''DEFERRED'', ''REINDEX'']"

definition kw_mssql :: "bytes list" where
  "kw_mssql = [
    ''TOP'', ''OFFSET'', ''FETCH'', ''NEXT'', ''ROWS'', ''ONLY'', ''IDENTITY'', ''NOLOCK'',
    ''OUTPUT'', ''GO'', ''EXEC'', ''EXECUTE'', ''DECLARE'', ''MERGE'', ''MATCHED'', ''PIVOT'',
    ''UNPIVOT'', ''APPLY'', ''PROCEDURE'', ''PROC'', ''FUNCTION'', ''DATABASE'', ''SCHEMA'',
    ''TRUNCATE'', ''NVARCHAR'', ''NCHAR'', ''NTEXT'', ''BIT'', ''DATETIME'', ''DATETIME2'',
    ''DATETIMEOFFSET'', ''UNIQUEIDENTIFIER'', ''MONEY'', ''VARBINARY'', ''IMAGE'', ''PRINT'',
    ''RAISERROR'', ''TRY'', ''CATCH'', ''THROW'', ''WHILE'', ''RETURN'', ''USE'',
    ''CLUSTERED'', ''NONCLUSTERED'', ''INCLUDE'', ''PERCENT'', ''TIES'', ''ROWS'', ''RETURNS'',
    ''TRAN'', ''SEQUENCE'']"

definition kw_oracle :: "bytes list" where
  "kw_oracle = [
    ''ROWNUM'', ''ROWID'', ''CONNECT'', ''PRIOR'', ''START'', ''MINUS'', ''DUAL'', ''MERGE'',
    ''MATCHED'', ''NOCYCLE'', ''FETCH'', ''FIRST'', ''NEXT'', ''ROWS'', ''ONLY'', ''OFFSET'',
    ''NUMBER'', ''VARCHAR2'', ''NVARCHAR2'', ''CLOB'', ''BLOB'', ''RAW'', ''SEQUENCE'',
    ''PROCEDURE'', ''FUNCTION'', ''PACKAGE'', ''BODY'', ''SYNONYM'', ''DECLARE'',
    ''EXCEPTION'', ''LOOP'', ''RETURNING'', ''TRUNCATE'', ''PURGE'', ''EXPLAIN'', ''PLAN'',
    ''NULLS'', ''LEVEL'', ''SIBLINGS'', ''SCHEMA'', ''IDENTITY'', ''GENERATED'', ''ALWAYS'',
    ''RETURN'', ''NOCOPY'']"

definition kw_duckdb :: "bytes list" where
  "kw_duckdb = [
    ''LIMIT'', ''OFFSET'', ''RETURNING'', ''ILIKE'', ''SIMILAR'', ''LATERAL'', ''QUALIFY'',
    ''PIVOT'', ''UNPIVOT'', ''DESCRIBE'', ''SUMMARIZE'', ''SHOW'', ''EXCLUDE'', ''COPY'',
    ''ATTACH'', ''DETACH'', ''ASOF'', ''POSITIONAL'', ''ANTI'', ''SEMI'', ''SAMPLE'',
    ''INSTALL'', ''LOAD'', ''PRAGMA'', ''EXPLAIN'', ''ANALYZE'', ''SEQUENCE'', ''SCHEMA'',
    ''MACRO'', ''STRUCT'', ''LIST'', ''MAP'', ''BOOLEAN'', ''DOUBLE'', ''HUGEINT'',
    ''UBIGINT'', ''BLOB'', ''UUID'', ''JSON'', ''TIMESTAMPTZ'', ''FILTER'', ''WINDOW'',
    ''NULLS'', ''CONFLICT'', ''DO'', ''NOTHING'', ''GENERATED'', ''ALWAYS'', ''VIRTUAL'',
    ''DATABASE'', ''INTERVAL'', ''FUNCTION'', ''TYPE'', ''ENUM'', ''USE'']"

definition fn_cassandra :: "bytes list" where
  "fn_cassandra = [
    ''COUNT'', ''MIN'', ''MAX'', ''SUM'', ''AVG'', ''CAST'', ''NOW'', ''UUID'', ''TOKEN'',
    ''TTL'', ''WRITETIME'', ''TOTIMESTAMP'', ''TODATE'', ''TOUNIXTIMESTAMP'', ''MINTIMEUUID'',
    ''MAXTIMEUUID'', ''CURRENTTIMESTAMP'', ''CURRENTDATE'', ''TOJSON'', ''FROMJSON'']"

definition fn_common :: "bytes list" where
  "fn_common = [
    ''COUNT'', ''SUM'', ''AVG'', ''MIN'', ''MAX'', ''COALESCE'', ''NULLIF'', ''CAST'',
    ''UPPER'', ''LOWER'', ''TRIM'', ''LTRIM'', ''RTRIM'', ''REPLACE'', ''ABS'', ''ROUND'',
    ''FLOOR'', ''ROW_NUMBER'', ''RANK'', ''DENSE_RANK'', ''NTILE'', ''LAG'', ''LEAD'',
    ''FIRST_VALUE'', ''LAST_VALUE'', ''CURRENT_TIMESTAMP'', ''CURRENT_DATE'']"

definition fn_postgres :: "bytes list" where
  "fn_postgres = [
    ''STRING_AGG'', ''ARRAY_AGG'', ''BOOL_AND'', ''BOOL_OR'', ''JSON_AGG'', ''JSONB_AGG'',
    ''JSON_BUILD_OBJECT'', ''JSONB_BUILD_OBJECT'', ''JSON_BUILD_ARRAY'', ''JSON_OBJECT_AGG'',
    ''JSONB_SET'', ''JSONB_EXTRACT_PATH'', ''JSON_EXTRACT_PATH'', ''TO_JSON'', ''TO_JSONB'',
    ''ROW_TO_JSON'', ''LENGTH'', ''CHAR_LENGTH'', ''SUBSTRING'', ''SUBSTR'', ''POSITION'',
    ''STRPOS'', ''SPLIT_PART'', ''INITCAP'', ''LPAD'', ''RPAD'', ''LEFT'', ''RIGHT'',
    ''REVERSE'', ''REPEAT'', ''TRANSLATE'', ''FORMAT'', ''CONCAT'', ''CONCAT_WS'',
    ''REGEXP_REPLACE'', ''REGEXP_MATCHES'', ''REGEXP_SPLIT_TO_TABLE'', ''NOW'',
    ''CURRENT_TIME'', ''CLOCK_TIMESTAMP'', ''DATE_TRUNC'', ''DATE_PART'', ''EXTRACT'', ''AGE'',
    ''TO_CHAR'', ''TO_DATE'', ''TO_TIMESTAMP'', ''TO_NUMBER'', ''MAKE_DATE'',
    ''MAKE_INTERVAL'', ''GENERATE_SERIES'', ''UNNEST'', ''ARRAY_LENGTH'', ''ARRAY_TO_STRING'',
    ''STRING_TO_ARRAY'', ''CARDINALITY'', ''RANDOM'', ''PI'', ''CEIL'', ''CEILING'', ''MOD'',
    ''POWER'', ''SQRT'', ''SIGN'', ''EXP'', ''LN'', ''LOG'', ''GREATEST'', ''LEAST'',
    ''GEN_RANDOM_UUID'', ''NEXTVAL'', ''CURRVAL'', ''SETVAL'', ''PG_SIZE_PRETTY'',
    ''PG_TOTAL_RELATION_SIZE'', ''PERCENT_RANK'', ''CUME_DIST'', ''NTH_VALUE'',
    ''PERCENTILE_CONT'', ''MODE'']"

definition fn_redshift :: "bytes list" where
  "fn_redshift = [
    ''LISTAGG'', ''GETDATE'', ''DATEADD'', ''DATEDIFF'', ''NVL'', ''NVL2'', ''DECODE'']"

definition fn_mysql :: "bytes list" where
  "fn_mysql = [
    ''GROUP_CONCAT'', ''JSON_ARRAYAGG'', ''JSON_OBJECTAGG'', ''LENGTH'', ''CHAR_LENGTH'',
    ''SUBSTRING'', ''SUBSTR'', ''SUBSTRING_INDEX'', ''LOCATE'', ''INSTR'', ''POSITION'',
    ''CONCAT'', ''CONCAT_WS'', ''LEFT'', ''RIGHT'', ''REVERSE'', ''REPEAT'', ''LPAD'',
    ''RPAD'', ''FORMAT'', ''REGEXP_REPLACE'', ''REGEXP_LIKE'', ''NOW'', ''CURDATE'',
    ''CURTIME'', ''SYSDATE'', ''DATE'', ''DATE_ADD'', ''DATE_SUB'', ''DATEDIFF'',
    ''TIMESTAMPDIFF'', ''DATE_FORMAT'', ''STR_TO_DATE'', ''UNIX_TIMESTAMP'', ''FROM_UNIXTIME'',
    ''YEAR'', ''MONTH'', ''DAY'', ''HOUR'', ''MINUTE'', ''SECOND'', ''EXTRACT'', ''IFNULL'',
    ''IF'', ''ISNULL'', ''CONVERT'', ''JSON_EXTRACT'', ''JSON_UNQUOTE'', ''JSON_OBJECT'',
    ''JSON_ARRAY'', ''JSON_CONTAINS'', ''JSON_SET'', ''RAND'', ''UUID'', ''LAST_INSERT_ID'',
    ''CEIL'', ''CEILING'', ''MOD'', ''POWER'', ''POW'', ''SQRT'', ''SIGN'', ''EXP'', ''LN'',
    ''LOG'', ''GREATEST'', ''LEAST'', ''PERCENT_RANK'', ''CUME_DIST'', ''NTH_VALUE'']"

definition fn_sqlite :: "bytes list" where
  "fn_sqlite = [
    ''GROUP_CONCAT'', ''TOTAL'', ''LENGTH'', ''SUBSTR'', ''SUBSTRING'', ''INSTR'', ''CONCAT'',
    ''PRINTF'', ''FORMAT'', ''HEX'', ''QUOTE'', ''TYPEOF'', ''UNICODE'', ''CHAR'',
    ''ZEROBLOB'', ''RANDOM'', ''RANDOMBLOB'', ''IFNULL'', ''IIF'', ''DATE'', ''TIME'',
    ''DATETIME'', ''JULIANDAY'', ''UNIXEPOCH'', ''STRFTIME'', ''JSON'', ''JSON_EXTRACT'',
    ''JSON_OBJECT'', ''JSON_ARRAY'', ''JSON_GROUP_ARRAY'', ''JSON_GROUP_OBJECT'',
    ''JSON_EACH'', ''JSON_TREE'', ''LAST_INSERT_ROWID'', ''CHANGES'', ''TOTAL_CHANGES'',
    ''LIKELIHOOD'', ''PERCENT_RANK'', ''CUME_DIST'', ''NTH_VALUE'', ''CEIL'', ''CEILING'',
    ''MOD'', ''POWER'', ''SQRT'', ''SIGN'', ''EXP'', ''LN'', ''LOG'']"

definition fn_mssql :: "bytes list" where
  "fn_mssql = [
    ''LEN'', ''DATALENGTH'', ''SUBSTRING'', ''CHARINDEX'', ''PATINDEX'', ''CONCAT'',
    ''CONCAT_WS'', ''LEFT'', ''RIGHT'', ''REVERSE'', ''REPLICATE'', ''STUFF'', ''STRING_AGG'',
    ''STRING_SPLIT'', ''FORMAT'', ''CONVERT'', ''TRY_CAST'', ''TRY_CONVERT'', ''PARSE'',
    ''ISNULL'', ''IIF'', ''CHOOSE'', ''GETDATE'', ''GETUTCDATE'', ''SYSDATETIME'',
    ''SYSUTCDATETIME'', ''DATEADD'', ''DATEDIFF'', ''DATEPART'', ''DATENAME'', ''EOMONTH'',
    ''YEAR'', ''MONTH'', ''DAY'', ''NEWID'', ''SCOPE_IDENTITY'', ''OBJECT_ID'',
    ''OBJECT_NAME'', ''DB_NAME'', ''JSON_VALUE'', ''JSON_QUERY'', ''JSON_MODIFY'',
    ''OPENJSON'', ''ISJSON'', ''CEILING'', ''POWER'', ''SQRT'', ''SIGN'', ''EXP'', ''LOG'',
    ''RAND'', ''PERCENT_RANK'', ''CUME_DIST'', ''GREATEST'', ''LEAST'']"

definition fn_oracle :: "bytes list" where
  "fn_oracle = [
    ''NVL'', ''NVL2'', ''DECODE'', ''LENGTH'', ''SUBSTR'', ''INSTR'', ''CONCAT'', ''LPAD'',
    ''RPAD'', ''INITCAP'', ''TRANSLATE'', ''REGEXP_LIKE'', ''REGEXP_REPLACE'',
    ''REGEXP_SUBSTR'', ''REGEXP_INSTR'', ''LISTAGG'', ''SYSDATE'', ''SYSTIMESTAMP'',
    ''TO_CHAR'', ''TO_DATE'', ''TO_NUMBER'', ''TO_TIMESTAMP'', ''ADD_MONTHS'',
    ''MONTHS_BETWEEN'', ''LAST_DAY'', ''NEXT_DAY'', ''TRUNC'', ''EXTRACT'', ''CEIL'', ''MOD'',
    ''POWER'', ''SQRT'', ''SIGN'', ''EXP'', ''LN'', ''LOG'', ''GREATEST'', ''LEAST'',
    ''SYS_GUID'', ''JSON_VALUE'', ''JSON_QUERY'', ''JSON_OBJECT'', ''JSON_ARRAYAGG'',
    ''PERCENT_RANK'', ''CUME_DIST'', ''NTH_VALUE'']"

definition fn_duckdb :: "bytes list" where
  "fn_duckdb = [
    ''STRING_AGG'', ''LIST'', ''ARRAY_AGG'', ''ANY_VALUE'', ''ARG_MAX'', ''ARG_MIN'',
    ''MEDIAN'', ''QUANTILE_CONT'', ''MODE'', ''APPROX_COUNT_DISTINCT'', ''LENGTH'',
    ''SUBSTRING'', ''SUBSTR'', ''STRPOS'', ''INSTR'', ''CONCAT'', ''CONCAT_WS'', ''LEFT'',
    ''RIGHT'', ''REVERSE'', ''REPEAT'', ''LPAD'', ''RPAD'', ''SPLIT_PART'', ''STRING_SPLIT'',
    ''REGEXP_MATCHES'', ''REGEXP_REPLACE'', ''REGEXP_EXTRACT'', ''NOW'', ''TODAY'',
    ''DATE_TRUNC'', ''DATE_PART'', ''DATEDIFF'', ''DATE_DIFF'', ''EXTRACT'', ''STRFTIME'',
    ''STRPTIME'', ''EPOCH'', ''AGE'', ''MAKE_DATE'', ''GENERATE_SERIES'', ''RANGE'',
    ''UNNEST'', ''LIST_VALUE'', ''STRUCT_PACK'', ''READ_CSV'', ''READ_CSV_AUTO'',
    ''READ_PARQUET'', ''READ_JSON'', ''READ_JSON_AUTO'', ''IFNULL'', ''CEIL'', ''CEILING'',
    ''MOD'', ''POWER'', ''SQRT'', ''SIGN'', ''EXP'', ''LN'', ''LOG'', ''GREATEST'', ''LEAST'',
    ''RANDOM'', ''UUID'', ''GEN_RANDOM_UUID'']"

definition reservedWords :: "bytes list" where
  "reservedWords = [
    ''ALL'', ''AND'', ''ANY'', ''AS'', ''ASC'', ''BETWEEN'', ''BY'', ''CASE'', ''CHECK'',
    ''COLUMN'', ''CONSTRAINT'', ''CREATE'', ''CROSS'', ''CURRENT_DATE'', ''CURRENT_TIME'',
    ''CURRENT_TIMESTAMP'', ''CURRENT_USER'', ''DEFAULT'', ''DELETE'', ''DESC'', ''DISTINCT'',
    ''DROP'', ''ELSE'', ''END'', ''EXCEPT'', ''EXISTS'', ''FALSE'', ''FETCH'', ''FOR'',
    ''FOREIGN'', ''FROM'', ''FULL'', ''GRANT'', ''GROUP'', ''HAVING'', ''IN'', ''INDEX'',
    ''INNER'', ''INSERT'', ''INTERSECT'', ''INTO'', ''IS'', ''JOIN'', ''KEY'', ''LEFT'',
    ''LIKE'', ''LIMIT'', ''NATURAL'', ''NOT'', ''NULL'', ''OFFSET'', ''ON'', ''OR'', ''ORDER'',
    ''OUTER'', ''PRIMARY'', ''REFERENCES'', ''RIGHT'', ''SELECT'', ''SET'', ''SOME'',
    ''TABLE'', ''THEN'', ''TO'', ''TRUE'', ''UNION'', ''UNIQUE'', ''UPDATE'', ''USER'',
    ''USING'', ''VALUES'', ''WHEN'', ''WHERE'', ''WINDOW'', ''WITH'']"

definition notAliasWords :: "bytes list" where
  "notAliasWords = [
    ''WHERE'', ''ON'', ''USING'', ''JOIN'', ''INNER'', ''LEFT'', ''RIGHT'', ''FULL'',
    ''OUTER'', ''CROSS'', ''NATURAL'', ''SET'', ''VALUES'', ''GROUP'', ''ORDER'', ''HAVING'',
    ''LIMIT'', ''OFFSET'', ''UNION'', ''INTERSECT'', ''EXCEPT'', ''MINUS'', ''WINDOW'',
    ''FETCH'', ''FOR'', ''RETURNING'', ''SELECT'', ''FROM'', ''AS'', ''WITH'', ''LATERAL'',
    ''APPLY'', ''STRAIGHT_JOIN'', ''QUALIFY'', ''PIVOT'', ''UNPIVOT'', ''SAMPLE'',
    ''TABLESAMPLE'', ''START'', ''CONNECT'', ''DEFAULT'', ''OUTPUT'', ''ASOF'', ''POSITIONAL'',
    ''ANTI'', ''SEMI'', ''PARTITION'', ''INTO'', ''WHEN'', ''THEN'', ''ELSE'', ''END'',
    ''AND'', ''OR'', ''NOT'', ''IS'', ''IN'', ''LIKE'', ''ILIKE'', ''BETWEEN'', ''IF'',
    ''ALLOW'', ''USE'', ''IGNORE'', ''FORCE'', ''NULL'', ''TRUE'', ''FALSE'', ''LOCK'',
    ''ONLY'', ''DO'', ''TOP'']"

definition clauseKeywords :: "bytes list" where
  "clauseKeywords = [
    ''WHERE'', ''JOIN'', ''INNER'', ''LEFT'', ''RIGHT'', ''FULL'', ''CROSS'', ''OUTER'',
    ''ON'', ''USING'', ''AS'', ''GROUP'', ''ORDER'', ''HAVING'', ''LIMIT'', ''UNION'', ''SET'',
    ''VALUES'', ''SELECT'', ''NATURAL'', ''OFFSET'', ''RETURNING'', ''WINDOW'', ''EXCEPT'',
    ''INTERSECT'', ''FETCH'', ''QUALIFY'', ''DEFAULT'']"

definition statementKeywords :: "bytes list" where
  "statementKeywords = [
    ''SELECT'', ''INSERT'', ''UPDATE'', ''DELETE'', ''WITH'', ''CREATE'', ''ALTER'', ''DROP'',
    ''TRUNCATE'', ''EXPLAIN'', ''BEGIN'', ''COMMIT'', ''ROLLBACK'', ''GRANT'', ''REVOKE'',
    ''SHOW'', ''DESCRIBE'', ''USE'', ''PRAGMA'', ''VACUUM'', ''ANALYZE'', ''CALL'', ''EXEC'',
    ''EXECUTE'', ''DECLARE'', ''MERGE'', ''SET'', ''COPY'']"


section \<open>The tables\<close>

definition append_words :: "bytes list \<Rightarrow> bytes list \<Rightarrow> bytes list" where
  "append_words out ws = out @ ws"

definition sortUnique :: "bytes list \<Rightarrow> bytes list" where
  "sortUnique v = remdups_adj (sort v)"

definition buildKeywords :: "DatabaseType \<Rightarrow> bytes list" where
  "buildKeywords type =
     (if \<not> isSqlDialect type then []
      else if type = CASSANDRA then sortUnique (append_words [] kw_cassandra)
      else
        let kw = append_words [] kw_common;
            kw = (case type of
                POSTGRESQL \<Rightarrow> append_words kw kw_postgres
              | REDSHIFT \<Rightarrow> append_words (append_words kw kw_postgres) kw_redshift
              | COCKROACHDB \<Rightarrow> append_words kw kw_postgres
              | MYSQL \<Rightarrow> append_words kw kw_mysql
              | MARIADB \<Rightarrow> append_words (append_words kw kw_mysql) kw_mariadb
              | TIDB \<Rightarrow> append_words kw kw_mysql
              | SQLITE \<Rightarrow> append_words kw kw_sqlite
              | MSSQL \<Rightarrow> append_words kw kw_mssql
              | ORACLE \<Rightarrow> append_words kw kw_oracle
              | DUCKDB \<Rightarrow> append_words kw kw_duckdb
              | _ \<Rightarrow> kw)
        in sortUnique kw)"

definition buildFunctions :: "DatabaseType \<Rightarrow> bytes list" where
  "buildFunctions type =
     (if \<not> isSqlDialect type then []
      else if type = CASSANDRA then sortUnique (append_words [] fn_cassandra)
      else
        let fn = append_words [] fn_common;
            fn = (case type of
                POSTGRESQL \<Rightarrow> append_words fn fn_postgres
              | REDSHIFT \<Rightarrow> append_words (append_words fn fn_postgres) fn_redshift
              | COCKROACHDB \<Rightarrow> append_words fn fn_postgres
              | MYSQL \<Rightarrow> append_words fn fn_mysql
              | MARIADB \<Rightarrow> append_words fn fn_mysql
              | TIDB \<Rightarrow> append_words fn fn_mysql
              | SQLITE \<Rightarrow> append_words fn fn_sqlite
              | MSSQL \<Rightarrow> append_words fn fn_mssql
              | ORACLE \<Rightarrow> append_words fn fn_oracle
              | DUCKDB \<Rightarrow> append_words fn fn_duckdb
              | _ \<Rightarrow> fn)
        in sortUnique fn)"

text \<open>The tables hold one entry per type up to COCKROACHDB; a later type reads the last entry.\<close>

definition kTypeCount :: nat where
  "kTypeCount = type_index COCKROACHDB + 1"

definition per_type :: "(DatabaseType \<Rightarrow> 'a) \<Rightarrow> DatabaseType \<Rightarrow> 'a" where
  "per_type build type = map build (take kTypeCount all_types) ! min (type_index type) (kTypeCount - 1)"

definition builderFor :: "DatabaseType \<Rightarrow> Builder" where
  "builderFor type = per_type createSQLBuilder type"

definition sqlKeywords :: "DatabaseType \<Rightarrow> bytes list" where
  "sqlKeywords type = per_type buildKeywords type"

definition sqlFunctions :: "DatabaseType \<Rightarrow> bytes list" where
  "sqlFunctions type = per_type buildFunctions type"

definition inSet :: "bytes list \<Rightarrow> bytes \<Rightarrow> bool" where
  "inSet ws word \<longleftrightarrow> upper word \<in> set ws"


section \<open>Quoting when needed\<close>

definition identifierNeedsQuoting :: "bytes \<Rightarrow> DatabaseType \<Rightarrow> bool" where
  "identifierNeedsQuoting name type =
     (if name = [] then True
      else if \<not> isIdentStartByte (hd name) then True
      else
        let foldsLower = isPostgresFamily type \<or> type = CASSANDRA;
            foldsUpper = (type = ORACLE)
        in if list_ex (\<lambda>c. \<not> (isalnum c \<or> c = CHR ''_'' \<or> 128 \<le> byte c) \<or>
                (foldsLower \<and> isupper c) \<or> (foldsUpper \<and> islower c)) name
           then True
           else inSet reservedWords name)"

definition quoteIdentifierIfNeeded :: "bytes \<Rightarrow> DatabaseType \<Rightarrow> bytes" where
  "quoteIdentifierIfNeeded name type =
     (if \<not> identifierNeedsQuoting name type then name
      else quoteIdentifier (builderFor type) name)"


section \<open>Lemmas\<close>

lemma per_type_eq: "per_type build type = build (if type = S3 then COCKROACHDB else type)"
  by (cases type) (simp_all add: per_type_def kTypeCount_def all_types_def)

lemma sortUnique_strict: "sorted_wrt (<) (sortUnique v)"
  unfolding sortUnique_def strict_sorted_iff by (simp add: distinct_remdups_adj_sorted)

lemma set_sortUnique [simp]: "set (sortUnique v) = set v"
  by (simp add: sortUnique_def)

lemma sortUnique_Nil [simp]: "sortUnique v = [] \<longleftrightarrow> v = []"
  using set_sortUnique [of v] by (metis set_empty)

text \<open>The bytes the tables are written in, one fact per byte so that the lists are checked quickly.\<close>

definition table_byte :: "char \<Rightarrow> bool" where
  "table_byte c \<longleftrightarrow> isupper c \<or> isdigit c \<or> c = CHR ''_''"

lemma table_byte_eval:
  "table_byte (CHR ''A'')" "table_byte (CHR ''B'')" "table_byte (CHR ''C'')"
  "table_byte (CHR ''D'')" "table_byte (CHR ''E'')" "table_byte (CHR ''F'')"
  "table_byte (CHR ''G'')" "table_byte (CHR ''H'')" "table_byte (CHR ''I'')"
  "table_byte (CHR ''J'')" "table_byte (CHR ''K'')" "table_byte (CHR ''L'')"
  "table_byte (CHR ''M'')" "table_byte (CHR ''N'')" "table_byte (CHR ''O'')"
  "table_byte (CHR ''P'')" "table_byte (CHR ''Q'')" "table_byte (CHR ''R'')"
  "table_byte (CHR ''S'')" "table_byte (CHR ''T'')" "table_byte (CHR ''U'')"
  "table_byte (CHR ''V'')" "table_byte (CHR ''W'')" "table_byte (CHR ''X'')"
  "table_byte (CHR ''Y'')" "table_byte (CHR ''Z'')" "table_byte (CHR ''0'')"
  "table_byte (CHR ''1'')" "table_byte (CHR ''2'')" "table_byte (CHR ''3'')"
  "table_byte (CHR ''4'')" "table_byte (CHR ''5'')" "table_byte (CHR ''6'')"
  "table_byte (CHR ''7'')" "table_byte (CHR ''8'')" "table_byte (CHR ''9'')"
  "table_byte (CHR ''_'')"
  by (simp_all add: table_byte_def char_class byte_def)

lemma isupper_eval:
  "isupper (CHR ''A'')" "isupper (CHR ''B'')" "isupper (CHR ''C'')" "isupper (CHR ''D'')"
  "isupper (CHR ''E'')" "isupper (CHR ''F'')" "isupper (CHR ''G'')" "isupper (CHR ''H'')"
  "isupper (CHR ''I'')" "isupper (CHR ''J'')" "isupper (CHR ''K'')" "isupper (CHR ''L'')"
  "isupper (CHR ''M'')" "isupper (CHR ''N'')" "isupper (CHR ''O'')" "isupper (CHR ''P'')"
  "isupper (CHR ''Q'')" "isupper (CHR ''R'')" "isupper (CHR ''S'')" "isupper (CHR ''T'')"
  "isupper (CHR ''U'')" "isupper (CHR ''V'')" "isupper (CHR ''W'')" "isupper (CHR ''X'')"
  "isupper (CHR ''Y'')" "isupper (CHR ''Z'')"
  by (simp_all add: char_class byte_def)

definition table_word :: "bytes \<Rightarrow> bool" where
  "table_word w \<longleftrightarrow> (case w of [] \<Rightarrow> False | c # r \<Rightarrow> isupper c \<and> list_all table_byte r)"

lemma table_word_Cons: "table_word (c # r) \<longleftrightarrow> isupper c \<and> list_all table_byte r"
  by (simp add: table_word_def)

lemmas table_word_eval = table_word_Cons table_byte_eval isupper_eval list.pred_inject

lemma keyword_lists:
  "list_all table_word kw_cassandra"
  "list_all table_word kw_common"
  "list_all table_word kw_postgres"
  "list_all table_word kw_redshift"
  "list_all table_word kw_mysql"
  "list_all table_word kw_mariadb"
  "list_all table_word kw_sqlite"
  "list_all table_word kw_mssql"
  "list_all table_word kw_oracle"
  "list_all table_word kw_duckdb"
  by (simp_all only: table_word_eval kw_cassandra_def kw_common_def kw_postgres_def kw_redshift_def kw_mysql_def
      kw_mariadb_def kw_sqlite_def kw_mssql_def kw_oracle_def kw_duckdb_def simp_thms)

lemma function_lists:
  "list_all table_word fn_cassandra"
  "list_all table_word fn_common"
  "list_all table_word fn_postgres"
  "list_all table_word fn_redshift"
  "list_all table_word fn_mysql"
  "list_all table_word fn_sqlite"
  "list_all table_word fn_mssql"
  "list_all table_word fn_oracle"
  "list_all table_word fn_duckdb"
  by (simp_all only: table_word_eval fn_cassandra_def fn_common_def fn_postgres_def fn_redshift_def fn_mysql_def
      fn_sqlite_def fn_mssql_def fn_oracle_def fn_duckdb_def simp_thms)

lemma word_set_lists:
  "list_all table_word reservedWords" "list_all table_word notAliasWords" "list_all table_word clauseKeywords"
  "list_all table_word statementKeywords"
  by (simp_all only: table_word_eval reservedWords_def notAliasWords_def clauseKeywords_def
      statementKeywords_def simp_thms)


lemma table_word_upper: "table_word w \<Longrightarrow> upper w = w"
proof -
  have "table_byte c \<Longrightarrow> upperc c = c" for c
    by (auto simp: table_byte_def upperc_def isupper_def islower_def isdigit_def byte_def)
  moreover have "isupper c \<Longrightarrow> table_byte c" for c by (simp add: table_byte_def)
  ultimately show "table_word w \<Longrightarrow> upper w = w"
    by (auto simp: table_word_def upper_def list_all_iff map_idI split: list.splits)
qed

lemma table_word_lexes: "table_word w \<Longrightarrow> word_ok w"
proof -
  have "isIdentByte c" if "table_byte c" for c
    using that by (auto simp: table_byte_def isIdentByte_def isalnum_def isalpha_def)
  moreover have "isIdentStartByte c" if "isupper c" for c
    using that by (simp add: isIdentStartByte_def isalpha_def)
  ultimately show "table_word w \<Longrightarrow> word_ok w"
    by (auto simp: table_word_def word_ok_def list_all_iff isIdentStart_isIdent split: list.splits)
qed

lemma list_all_sortUnique [simp]: "list_all P (sortUnique v) \<longleftrightarrow> list_all P v"
  by (simp add: list_all_iff)

lemma buildKeywords_ok:
  "sorted_wrt (<) (buildKeywords type)" "buildKeywords type = [] \<longleftrightarrow> \<not> isSqlDialect type"
  "list_all table_word (buildKeywords type)"
proof -
  show "sorted_wrt (<) (buildKeywords type)"
    by (simp add: buildKeywords_def sortUnique_strict Let_def)
  show "buildKeywords type = [] \<longleftrightarrow> \<not> isSqlDialect type"
    by (cases type) (simp_all add: buildKeywords_def append_words_def kw_common_def kw_cassandra_def)
  show "list_all table_word (buildKeywords type)"
    using keyword_lists by (cases type) (simp_all add: buildKeywords_def append_words_def)
qed

lemma buildFunctions_ok:
  "sorted_wrt (<) (buildFunctions type)" "buildFunctions type = [] \<longleftrightarrow> \<not> isSqlDialect type"
  "list_all table_word (buildFunctions type)"
proof -
  show "sorted_wrt (<) (buildFunctions type)"
    by (simp add: buildFunctions_def sortUnique_strict Let_def)
  show "buildFunctions type = [] \<longleftrightarrow> \<not> isSqlDialect type"
    by (cases type) (simp_all add: buildFunctions_def append_words_def fn_common_def fn_cassandra_def)
  show "list_all table_word (buildFunctions type)"
    using function_lists by (cases type) (simp_all add: buildFunctions_def append_words_def)
qed

lemma inSet_ieq:
  assumes "list_all table_word ws"
  shows "inSet ws w \<longleftrightarrow> (\<exists>k\<in>set ws. ieq k w)"
proof
  assume "inSet ws w"
  then have "upper w \<in> set ws" by (simp add: inSet_def)
  moreover have "ieq (upper w) w"
    unfolding ieq_lower upper_lower_iff [symmetric] by (simp add: upper_def upperc_toupper)
  ultimately show "\<exists>k\<in>set ws. ieq k w" by blast
next
  assume "\<exists>k\<in>set ws. ieq k w"
  then obtain k where k: "k \<in> set ws" "upper k = upper w"
    unfolding ieq_lower upper_lower_iff [symmetric] by blast
  with assms have "upper k = k" by (simp add: list_all_iff table_word_upper)
  with k show "inSet ws w" by (simp add: inSet_def)
qed

text \<open>How a dialect folds an unquoted identifier.\<close>

definition folded :: "DatabaseType \<Rightarrow> bytes \<Rightarrow> bytes" where
  "folded type name =
     (if isPostgresFamily type \<or> type = CASSANDRA then lower name
      else if type = ORACLE then upper name else name)"

lemma unquoted_name:
  assumes "\<not> identifierNeedsQuoting name type"
  shows "word_ok name \<and> folded type name = name \<and> \<not> inSet reservedWords name"
proof -
  let ?lo = "isPostgresFamily type \<or> type = CASSANDRA"
  from assms have ne: "name \<noteq> []" "isIdentStartByte (hd name)" "\<not> inSet reservedWords name"
    and bytes: "\<And>c. c \<in> set name \<Longrightarrow> isIdentByte c \<and> \<not> (?lo \<and> isupper c) \<and> \<not> (type = ORACLE \<and> islower c)"
    by (auto simp: identifierNeedsQuoting_def Let_def list_ex_iff isIdentByte_def split: if_splits)
  have "lower name = name" if ?lo
    unfolding lower_def using bytes that by (intro map_idI) (auto simp: lowerc_def)
  moreover have "upper name = name" if "type = ORACLE"
    unfolding upper_def using bytes that by (intro map_idI) (auto simp: upperc_def)
  ultimately show ?thesis
    using ne bytes by (auto simp: word_ok_def list_all_iff folded_def)
qed

lemma quoteIdentifier_builderFor:
  "quoteIdentifier (builderFor type) name = quoteIdentifier (createSQLBuilder type) name"
  by (simp add: builderFor_def per_type_eq)

section \<open>Properties\<close>

text \<open>The keyword and function tables of every dialect are strictly ascending (so free of
  duplicates), uppercase, made of identifiers, and empty exactly for Redis and MongoDB.\<close>
lemma word_tables:
  "sorted_wrt (<) (sqlKeywords type) \<and> sorted_wrt (<) (sqlFunctions type) \<and>
   (sqlKeywords type = [] \<longleftrightarrow> type = REDIS \<or> type = MONGODB) \<and>
   (sqlFunctions type = [] \<longleftrightarrow> type = REDIS \<or> type = MONGODB) \<and>
   list_all (\<lambda>w. upper w = w \<and> word_ok w) (sqlKeywords type @ sqlFunctions type)"
proof -
  have "list_all (\<lambda>w. upper w = w \<and> word_ok w) ws" if "list_all table_word ws" for ws
    using that table_word_upper table_word_lexes by (simp add: list_all_iff)
  then show ?thesis
    unfolding sqlKeywords_def sqlFunctions_def per_type_eq
    using buildKeywords_ok buildFunctions_ok by (auto simp: isSqlDialect_def)
qed

text \<open>A name quoted only when needed is always read back as written: one token that spans the
  text and carries the name, either quoted, or a word that is not reserved and that the
  dialect's case folding leaves alone.\<close>
lemma quoteIdentifierIfNeeded_reads_back:
  "\<exists>k. tokenize (quoteIdentifierIfNeeded name type) (dialectFor type) =
        [\<lparr>tk_kind = k, tk_begin = 0, tk_end = length (quoteIdentifierIfNeeded name type),
          tk_closed = True, tk_lineComment = False, tk_text = name\<rparr>] \<and>
       (k = TQuotedIdent \<or>
        k = TWord \<and> \<not> inSet reservedWords name \<and> folded type name = name)"
proof (cases "identifierNeedsQuoting name type")
  case True
  then show ?thesis
    using iq.tokenize_render [of type "[FIdent name]"]
    by (simp add: quoteIdentifierIfNeeded_def quoteIdentifier_builderFor plain_token_def)
next
  case False
  note name = unquoted_name [OF False]
  then have "frags_ok (dialectFor type) [FWord name]" by (simp add: word_ok_def)
  from iq.tokenize_render [OF this] False name show ?thesis
    by (simp add: quoteIdentifierIfNeeded_def plain_token_def)
qed

end
