(* ===== verification/Sql_Analyzer.thy ===== *)
theory Sql_Analyzer
  imports Sql_Words
begin

text \<open>
  The \<^verbatim>\<open>Analyzer\<close> class of \<^verbatim>\<open>src/completion.cpp\<close>: the tokens of the statement at the cursor, the tree of
  parenthesised groups, the CTEs and the relations each scope names, and the questions asked of
  them. The class is the record \<open>Analyzer\<close>; a method is a function of it. Token and group indices
  are \<^verbatim>\<open>int\<close> as in the source, so index -1 means what it means there. A pointer into the catalog is the
  object it points to, under \<open>option\<close>; \<^verbatim>\<open>nullptr\<close> is \<open>None\<close>.
\<close>

section \<open>Catalog and analyzer data\<close>

record CatalogObject =
  co_schema :: bytes
  co_name :: bytes

record CompletionCatalog =
  cat_tables :: "Table list"
  cat_views :: "Table list"
  cat_sequences :: "CatalogObject list"
  cat_routines :: "Routine list"
  cat_schemas :: "bytes list"
  cat_defaultSchema :: bytes

record ColInfo =
  cl_name :: bytes
  cl_type :: bytes
  cl_column :: "Column option"

record RelationRef =
  rr_name :: bytes
  rr_alias :: bytes
  rr_path :: "bytes list"
  rr_group :: int
  rr_derived :: int
  rr_function :: bool
  rr_columnAliases :: "bytes list"

record Cte =
  cte_name :: bytes
  cte_columns :: "bytes list"
  cte_body :: int

record Group =
  gr_parent :: int
  gr_open :: int
  gr_close :: int

record Relation =
  rel_table :: "Table option"
  rel_isView :: bool

datatype Ctx =
  CtxNone | CtxStatementStart | CtxKeyword | CtxRelation | CtxAfterRelation | CtxColumn | CtxTargetColumns

record Context =
  cx_kind :: Ctx
  cx_target :: "bytes list"

record Analyzer =
  an_catalog :: CompletionCatalog
  an_type :: DatabaseType
  an_all :: "Token list"
  an_toks :: "Token list"
  an_span :: StatementSpan
  an_groups :: "Group list"
  an_groupOf :: "int list"
  an_opens :: "int list"
  an_ctes :: "Cte list"
  an_refs :: "RelationRef list"


section \<open>Token predicates\<close>

definition an_size :: "Analyzer \<Rightarrow> int" where
  "an_size a = int (length (an_toks a))"

definition tok :: "Analyzer \<Rightarrow> int \<Rightarrow> Token" where
  "tok a i = an_toks a ! nat i"

definition first_byte :: "bytes \<Rightarrow> char" where
  "first_byte s = (case s of [] \<Rightarrow> CHR 0x00 | c # r \<Rightarrow> c)"

definition isPunct :: "Analyzer \<Rightarrow> int \<Rightarrow> char \<Rightarrow> bool" where
  "isPunct a i c \<longleftrightarrow>
     0 \<le> i \<and> i < an_size a \<and> tk_kind (tok a i) = TPunct \<and> first_byte (tk_text (tok a i)) = c"

definition isKw :: "Analyzer \<Rightarrow> int \<Rightarrow> bytes \<Rightarrow> bool" where
  "isKw a i kw \<longleftrightarrow> 0 \<le> i \<and> i < an_size a \<and> tk_kind (tok a i) = TWord \<and> ieq (tk_text (tok a i)) kw"

definition isKwIn :: "Analyzer \<Rightarrow> int \<Rightarrow> bytes list \<Rightarrow> bool" where
  "isKwIn a i kws \<longleftrightarrow> list_ex (isKw a i) kws"

definition isIdent :: "Analyzer \<Rightarrow> int \<Rightarrow> bool" where
  "isIdent a i =
     (if i < 0 \<or> an_size a \<le> i then False
      else tk_kind (tok a i) = TWord \<or> tk_kind (tok a i) = TQuotedIdent)"

definition isNameIdent :: "Analyzer \<Rightarrow> int \<Rightarrow> bool" where
  "isNameIdent a i =
     (if \<not> isIdent a i then False
      else tk_kind (tok a i) = TQuotedIdent \<or> \<not> inSet notAliasWords (tk_text (tok a i)))"

definition groupOf :: "Analyzer \<Rightarrow> int \<Rightarrow> int" where
  "groupOf a i = an_groupOf a ! nat i"

definition group_at :: "Analyzer \<Rightarrow> int \<Rightarrow> Group" where
  "group_at a g = an_groups a ! nat g"

definition opens :: "Analyzer \<Rightarrow> int \<Rightarrow> int" where
  "opens a i = an_opens a ! nat i"

definition closeOf :: "Analyzer \<Rightarrow> int \<Rightarrow> int" where
  "closeOf a openIdx = (let g = opens a openIdx in if g < 0 then openIdx else gr_close (group_at a g))"

text \<open>
  \<^verbatim>\<open>closeOf(k) + 1\<close>, the index after a parenthesised group. The maximum makes the loops that jump
  over groups total for any record; for an analyzer the constructor built the two are equal
  (\<open>after_group_closeOf\<close> below).
\<close>

definition after_group :: "Analyzer \<Rightarrow> int \<Rightarrow> int" where
  "after_group a k = max (closeOf a k + 1) (k + 1)"

lemma after_group_greater [simp]: "j \<le> k \<Longrightarrow> j < after_group a k"
  by (simp add: after_group_def)

lemma after_group_ge [simp]: "j \<le> k \<Longrightarrow> j \<le> after_group a k"
  by (simp add: after_group_def)

text \<open>
  The parent chain of a group. A parent has a smaller index (\<open>parent_smaller\<close> below), so the
  test \<open>p < g\<close> never stops the walk of a built analyzer.
\<close>

function isAncestorOrSelf :: "Analyzer \<Rightarrow> int \<Rightarrow> int \<Rightarrow> bool" where
  "isAncestorOrSelf a ancestor g =
     (if g < 0 then False
      else if g = ancestor then True
      else let p = gr_parent (group_at a g) in if p < g then isAncestorOrSelf a ancestor p else False)"
  by pat_completeness auto
termination
  by (relation "measure (\<lambda>(a, ancestor, g). nat (g + 1))") auto

function depthOf :: "Analyzer \<Rightarrow> int \<Rightarrow> int" where
  "depthOf a g =
     (if g > 0 then let p = gr_parent (group_at a g) in if p < g then depthOf a p + 1 else 0 else 0)"
  by pat_completeness auto
termination
  by (relation "measure (\<lambda>(a, g). nat g)") auto

declare isAncestorOrSelf.simps [simp del] depthOf.simps [simp del]

definition groupAt_step :: "Analyzer \<Rightarrow> int list \<Rightarrow> nat \<Rightarrow> int list" where
  "groupAt_step a stack i =
     (if isPunct a (int i) (CHR ''('') then opens a (int i) # stack
      else if isPunct a (int i) (CHR '')'') \<and> length stack > 1 then tl stack
      else stack)"

definition groupAt :: "Analyzer \<Rightarrow> int \<Rightarrow> int" where
  "groupAt a index = hd (foldl (groupAt_step a) [0] [0..<nat (min index (an_size a))])"

definition statementStartsWith :: "Analyzer \<Rightarrow> bytes \<Rightarrow> bool" where
  "statementStartsWith a kw = isKw a 0 kw"


section \<open>Relation lookup\<close>

definition qualifierMatches :: "bytes \<Rightarrow> bytes list \<Rightarrow> bool" where
  "qualifierMatches schemaPath qualifier =
     (if qualifier = [] then True
      else let segs = splitPath schemaPath
           in if length segs < length qualifier then False
              else list_all2 ieq (drop (length segs - length qualifier) segs) qualifier)"

definition relation_rank :: "CompletionCatalog \<Rightarrow> bytes \<Rightarrow> Table \<Rightarrow> int" where
  "relation_rank catalog name t =
     (if tbl_name t = name then 1 else 0) +
     (if ieq (tbl_schema t) (cat_defaultSchema catalog) then 4 else if tbl_schema t = [] then 2 else 0)"

definition consider_table ::
    "CompletionCatalog \<Rightarrow> bytes \<Rightarrow> bytes list \<Rightarrow> bool \<Rightarrow> Relation \<times> int \<Rightarrow> Table \<Rightarrow> Relation \<times> int" where
  "consider_table catalog name qual isView st t =
     (if \<not> ieq (tbl_name t) name \<or> \<not> qualifierMatches (tbl_schema t) qual then st
      else let rank = relation_rank catalog name t
           in if rank > snd st then (\<lparr>rel_table = Some t, rel_isView = isView\<rparr>, rank) else st)"

definition find_relation :: "CompletionCatalog \<Rightarrow> bytes list \<Rightarrow> Relation" where
  "find_relation catalog path =
     (if path = [] then \<lparr>rel_table = None, rel_isView = False\<rparr>
      else let name = last path; qual = butlast path;
               st = foldl (consider_table catalog name qual False)
                      (\<lparr>rel_table = None, rel_isView = False\<rparr>, -1) (cat_tables catalog)
           in fst (foldl (consider_table catalog name qual True) st (cat_views catalog)))"

definition findRelation :: "Analyzer \<Rightarrow> bytes list \<Rightarrow> Relation" where
  "findRelation a path = find_relation (an_catalog a) path"

definition findCte :: "Analyzer \<Rightarrow> bytes \<Rightarrow> Cte option" where
  "findCte a name = List.find (\<lambda>c. ieq (cte_name c) name) (an_ctes a)"

definition findRef_step ::
    "Analyzer \<Rightarrow> bytes \<Rightarrow> int \<Rightarrow> RelationRef option \<times> int \<Rightarrow> RelationRef \<Rightarrow> RelationRef option \<times> int" where
  "findRef_step a name g st r =
     (if \<not> ieq (rr_name r) name \<or> \<not> isAncestorOrSelf a (rr_group r) g then st
      else let d = depthOf a (rr_group r) in if d > snd st then (Some r, d) else st)"

definition findRef :: "Analyzer \<Rightarrow> bytes \<Rightarrow> int \<Rightarrow> RelationRef option" where
  "findRef a name g = fst (foldl (findRef_step a name g) (None, -1) (an_refs a))"

definition visibleRefs :: "Analyzer \<Rightarrow> int \<Rightarrow> RelationRef list" where
  "visibleRefs a g =
     stable_sort_by (\<lambda>x y. depthOf a (rr_group x) > depthOf a (rr_group y))
       (filter (\<lambda>r. isAncestorOrSelf a (rr_group r) g) (an_refs a))"

definition visibleRefsIn :: "Analyzer \<Rightarrow> int \<Rightarrow> RelationRef list" where
  "visibleRefsIn a g = filter (\<lambda>r. rr_group r = g) (an_refs a)"

definition findRefIn :: "Analyzer \<Rightarrow> bytes \<Rightarrow> int \<Rightarrow> RelationRef option" where
  "findRefIn a name g =
     (case List.find (\<lambda>r. rr_group r = g \<and> ieq (rr_name r) name) (an_refs a) of
        Some r \<Rightarrow> Some r
      | None \<Rightarrow> findRef a name g)"

definition tableColumns :: "Table \<Rightarrow> ColInfo list" where
  "tableColumns t =
     map (\<lambda>c. \<lparr>cl_name = col_name c, cl_type = col_type c, cl_column = Some c\<rparr>) (tbl_columns t)"

definition named_column :: "bytes \<Rightarrow> ColInfo" where
  "named_column n = \<lparr>cl_name = n, cl_type = [], cl_column = None\<rparr>"

fun applyAliases :: "ColInfo list \<Rightarrow> bytes list \<Rightarrow> ColInfo list" where
  "applyAliases cols [] = cols"
| "applyAliases [] (al # als) = named_column al # applyAliases [] als"
| "applyAliases (c # cols) (al # als) = c\<lparr>cl_name := al, cl_column := None\<rparr> # applyAliases cols als"


section \<open>Select lists\<close>

function find_select :: "Analyzer \<Rightarrow> int \<Rightarrow> int \<Rightarrow> int \<Rightarrow> int" where
  "find_select a g e k =
     (if k < e \<and> \<not> (groupOf a k = g \<and> isKw a k ''SELECT'') then find_select a g e (k + 1) else k)"
  by pat_completeness auto
termination
  by (relation "measure (\<lambda>(a, g, e, k). nat (e - k))") auto

function skip_modifiers :: "Analyzer \<Rightarrow> int \<Rightarrow> int \<Rightarrow> int" where
  "skip_modifiers a e k =
     (if k < e then
        if isKwIn a k [''DISTINCT'', ''ALL''] then
          skip_modifiers a e
            (if isKw a (k + 1) ''ON'' \<and> isPunct a (k + 2) (CHR ''('') then after_group a (k + 2) else k + 1)
        else if isKw a k ''TOP'' then
          let k2 = (if isPunct a (k + 1) (CHR ''('') then after_group a (k + 1) else k + 2)
          in skip_modifiers a e (if isKw a k2 ''PERCENT'' then k2 + 1 else k2)
        else k
      else k)"
  by pat_completeness auto
termination
  by (relation "measure (\<lambda>(a, e, k). nat (e - k))") auto

definition select_stop_words :: "bytes list" where
  "select_stop_words = [''FROM'', ''INTO'', ''WHERE'', ''GROUP'', ''ORDER'', ''HAVING'', ''LIMIT'',
     ''UNION'', ''EXCEPT'', ''INTERSECT'', ''WINDOW'', ''FETCH'', ''OFFSET'']"

text \<open>The items of a select list: the element indices collected between two calls of \<^verbatim>\<open>flush\<close>.\<close>

function select_items :: "Analyzer \<Rightarrow> int \<Rightarrow> int \<Rightarrow> int list \<Rightarrow> int list list" where
  "select_items a e k item =
     (if k < e then
        if isKwIn a k select_stop_words then [item]
        else if isPunct a k (CHR '','') then item # select_items a e (k + 1) []
        else select_items a e (if isPunct a k (CHR ''('') then after_group a k else k + 1) (item @ [k])
      else [item])"
  by pat_completeness auto
termination
  by (relation "measure (\<lambda>(a, e, k, item). nat (e - k))") auto

declare find_select.simps [simp del] skip_modifiers.simps [simp del] select_items.simps [simp del]

text \<open>The search over the candidates' columns, until one gave a type or a catalog column.\<close>

fun pick_column :: "bytes \<Rightarrow> ColInfo \<Rightarrow> ColInfo list list \<Rightarrow> ColInfo" where
  "pick_column name info [] = info"
| "pick_column name info (cols # rest) =
     (let info1 = (case List.find (\<lambda>c. ieq (cl_name c) name) cols of
                     None \<Rightarrow> info
                   | Some c \<Rightarrow> info\<lparr>cl_type := cl_type c, cl_column := cl_column c\<rparr>)
      in if cl_type info1 \<noteq> [] \<or> cl_column info1 \<noteq> None then info1 else pick_column name info1 rest)"

text \<open>
  \<^verbatim>\<open>deriveItem\<close>: what one item adds. \<open>cols_of\<close> is \<^verbatim>\<open>refColumns(r, depth + 1)\<close>. An item alternates
  identifiers and dots when \<open>dotted_path\<close> holds.
\<close>

definition dotted_path :: "Analyzer \<Rightarrow> int list \<Rightarrow> bool" where
  "dotted_path a item \<longleftrightarrow>
     list_all (\<lambda>(i, k). if i mod 2 = 0 then isIdent a k else isPunct a k (CHR ''.'')) (enumerate 0 item)"

definition deriveItem :: "Analyzer \<Rightarrow> int \<Rightarrow> (RelationRef \<Rightarrow> ColInfo list) \<Rightarrow> int list \<Rightarrow> ColInfo list" where
  "deriveItem a g cols_of item =
     (if item = [] then []
      else
        let lst = last item; n = length item; name = tk_text (tok a lst) in
        if tk_kind (tok a lst) = TOp \<and> name = ''*'' then
          if n = 1 then concat (map cols_of (visibleRefsIn a g))
          else if n \<ge> 3 \<and> isPunct a (item ! (n - 2)) (CHR ''.'') \<and> isIdent a (item ! (n - 3)) then
            (case findRefIn a (tk_text (tok a (item ! (n - 3)))) g of None \<Rightarrow> [] | Some r \<Rightarrow> cols_of r)
          else []
        else if \<not> isIdent a lst then []
        else if n \<ge> 2 \<and> isKw a (item ! (n - 2)) ''AS'' then [named_column name]
        else if dotted_path a item \<and> n mod 2 = 1 then
          let owner = (if n \<ge> 3 then findRefIn a (tk_text (tok a (item ! (n - 3)))) g else None);
              candidates = (case owner of
                  Some r \<Rightarrow> [r]
                | None \<Rightarrow> if n = 1 then visibleRefsIn a g else [])
          in [pick_column name (named_column name) (map cols_of candidates)]
        else if n \<ge> 2 \<and> tk_kind (tok a lst) = TWord \<and> inSet notAliasWords name then []
        else if n \<ge> 2 \<and> \<not> isPunct a (item ! (n - 2)) (CHR ''.'') \<and> tk_kind (tok a (item ! (n - 2))) \<noteq> TOp
        then [named_column name]
        else [])"

definition select_list :: "Analyzer \<Rightarrow> int \<Rightarrow> (RelationRef \<Rightarrow> ColInfo list) \<Rightarrow> ColInfo list" where
  "select_list a g cols_of =
     (let grp = group_at a g;
          e = min (gr_close grp) (an_size a);
          k = find_select a g e (gr_open grp + 1)
      in if k \<ge> e then []
         else concat (map (deriveItem a g cols_of) (select_items a e (skip_modifiers a e (k + 1)) [])))"

function (sequential)
  selectColumns :: "Analyzer \<Rightarrow> int \<Rightarrow> int \<Rightarrow> ColInfo list" and
  cteColumns :: "Analyzer \<Rightarrow> Cte \<Rightarrow> int \<Rightarrow> ColInfo list" and
  refColumns :: "Analyzer \<Rightarrow> RelationRef \<Rightarrow> int \<Rightarrow> ColInfo list" where
  "selectColumns a g depth =
     (if depth > 6 then [] else select_list a g (\<lambda>r. refColumns a r (depth + 1)))"
| "cteColumns a c depth =
     applyAliases (if cte_body c \<ge> 0 then selectColumns a (cte_body c) (depth + 1) else []) (cte_columns c)"
| "refColumns a r depth =
     (if depth > 6 then []
      else applyAliases
        (if rr_derived r \<ge> 0 then selectColumns a (rr_derived r) (depth + 1)
         else if rr_function r then []
         else case (if length (rr_path r) = 1 then findCte a (rr_path r ! 0) else None) of
             Some c \<Rightarrow> cteColumns a c depth
           | None \<Rightarrow> (case rel_table (findRelation a (rr_path r)) of
                 Some t \<Rightarrow> tableColumns t
               | None \<Rightarrow> []))
        (rr_columnAliases r))"
  by pat_completeness auto
termination
  by (relation "measure (\<lambda>x. case x of
      Inl (a, g, depth) \<Rightarrow> 3 * nat (8 - depth)
    | Inr (Inl (a, c, depth)) \<Rightarrow> 3 * nat (8 - depth) + 1
    | Inr (Inr (a, r, depth)) \<Rightarrow> 3 * nat (8 - depth) + 2)") auto

declare selectColumns.simps [simp del] cteColumns.simps [simp del] refColumns.simps [simp del]


section \<open>Context\<close>

text \<open>\<^verbatim>\<open>qualifierBefore\<close>: the parts and the new \<^verbatim>\<open>chainStart\<close>; the loop runs with \<open>j\<close> after \<open>chainStart\<close>.\<close>

function qualifier_scan :: "Analyzer \<Rightarrow> bytes list \<Rightarrow> int \<Rightarrow> int \<Rightarrow> bytes list \<times> int" where
  "qualifier_scan a parts chainStart j =
     (if isPunct a j (CHR ''.'') \<and> isIdent a (j - 1)
      then qualifier_scan a (tk_text (tok a (j - 1)) # parts) (j - 1) (j - 2)
      else (parts, chainStart))"
  by pat_completeness auto
termination
  by (relation "measure (\<lambda>(a, parts, chainStart, j). nat (j + 1))") (auto simp: isPunct_def)

definition qualifierBefore :: "Analyzer \<Rightarrow> int \<Rightarrow> bytes list \<times> int" where
  "qualifierBefore a i = qualifier_scan a [] i (i - 1)"

definition isTableFrom :: "Analyzer \<Rightarrow> int \<Rightarrow> bool" where
  "isTableFrom a i =
     (if isKw a (i - 1) ''DISTINCT'' then False
      else let g = groupOf a i in
        \<not> (g > 0 \<and> isKwIn a (gr_open (group_at a g) - 1)
             [''EXTRACT'', ''SUBSTRING'', ''SUBSTR'', ''TRIM'', ''OVERLAY'', ''POSITION'']))"

definition isRelationKeyword :: "Analyzer \<Rightarrow> int \<Rightarrow> bool" where
  "isRelationKeyword a i =
     (if isKw a i ''FROM'' then isTableFrom a i
      else if isKw a i ''USING'' then \<not> isPunct a (i + 1) (CHR ''('')
      else isKwIn a i [''JOIN'', ''UPDATE'', ''INTO'', ''TABLE'', ''STRAIGHT_JOIN''])"

lemma isKwIn_bounds: "isKwIn a i kws \<Longrightarrow> 0 \<le> i \<and> i < an_size a"
  by (auto simp: isKwIn_def list_ex_iff isKw_def)

function skip_back :: "Analyzer \<Rightarrow> bytes list \<Rightarrow> int \<Rightarrow> int" where
  "skip_back a kws j = (if isKwIn a j kws then skip_back a kws (j - 1) else j)"
  by pat_completeness auto
termination
  by (relation "measure (\<lambda>(a, kws, j). nat (j + 1))") (auto dest: isKwIn_bounds)

definition isCreateTable :: "Analyzer \<Rightarrow> int \<Rightarrow> bool" where
  "isCreateTable a i =
     isKw a (skip_back a [''TEMP'', ''TEMPORARY'', ''UNLOGGED'', ''GLOBAL'', ''LOCAL'', ''VIRTUAL'',
       ''EXTERNAL'', ''REPLACE'', ''OR''] (i - 1)) ''CREATE''"

function slot_count :: "Analyzer \<Rightarrow> bool \<Rightarrow> int \<Rightarrow> int \<Rightarrow> nat \<Rightarrow> nat" where
  "slot_count a is_list start k cnt =
     (if k < start then
        if isPunct a k (CHR ''('') then slot_count a is_list start (after_group a k) (cnt + 1)
        else if is_list \<and> isPunct a k (CHR '','') then slot_count a is_list start (k + 1) 0
        else if isKwIn a k [''LATERAL'', ''ONLY'', ''IF'', ''NOT'', ''EXISTS'']
        then slot_count a is_list start (k + 1) cnt
        else slot_count a is_list start (k + 1) (cnt + 1)
      else cnt)"
  by pat_completeness auto
termination
  by (relation "measure (\<lambda>(a, is_list, start, k, cnt). nat (start - k))") auto

declare qualifier_scan.simps [simp del] skip_back.simps [simp del] slot_count.simps [simp del]

definition relationSlotEmpty :: "Analyzer \<Rightarrow> int \<Rightarrow> int \<Rightarrow> bool" where
  "relationSlotEmpty a kw start = (slot_count a (isKwIn a kw [''FROM'', ''USING'']) start (kw + 1) 0 = 0)"

definition plain_context :: "Ctx \<Rightarrow> Context" where
  "plain_context kind = \<lparr>cx_kind = kind, cx_target = []\<rparr>"

text \<open>
  The backward scan of \<^verbatim>\<open>detectContext\<close>: \<open>Suc k\<close> tokens are left and the next one looked at is \<open>k\<close>.
  \<open>open_paren_context\<close> is what the first enclosing parenthesis decides, if anything.
\<close>

definition open_paren_context :: "Analyzer \<Rightarrow> int \<Rightarrow> Context option" where
  "open_paren_context a k =
     (let path_chain = (if isIdent a (k - 1)
            then (case qualifierBefore a (k - 1) of (path, chainStart) \<Rightarrow>
                    (path @ [tk_text (tok a (k - 1))], if chainStart = k then k - 1 else chainStart))
            else ([], k));
          path = fst path_chain; chainStart = snd path_chain
      in if path \<noteq> [] \<and> isKw a (chainStart - 1) ''INTO''
         then Some \<lparr>cx_kind = CtxTargetColumns, cx_target = path\<rparr>
         else if path \<noteq> [] \<and> isKw a (chainStart - 1) ''ON'' \<and> statementStartsWith a ''CREATE''
         then Some \<lparr>cx_kind = CtxTargetColumns, cx_target = path\<rparr>
         else if isKw a (k - 1) ''USING'' then Some (plain_context CtxColumn)
         else None)"

fun context_scan :: "Analyzer \<Rightarrow> int \<Rightarrow> nat \<Rightarrow> nat \<Rightarrow> bool \<Rightarrow> Context" where
  "context_scan a start 0 depth crossed =
     (if crossed then plain_context CtxKeyword
      else plain_context (if start = 0 then CtxStatementStart else CtxKeyword))"
| "context_scan a start (Suc k) depth crossed =
     (if isPunct a (int k) (CHR '')'') then context_scan a start k (depth + 1) crossed
      else if isPunct a (int k) (CHR ''('') then
        if depth > 0 then context_scan a start k (depth - 1) crossed
        else if \<not> crossed then
          (case open_paren_context a (int k) of
             Some c \<Rightarrow> c
           | None \<Rightarrow> context_scan a start k depth True)
        else context_scan a start k depth crossed
      else if depth > 0 \<or> tk_kind (tok a (int k)) \<noteq> TWord then context_scan a start k depth crossed
      else if isRelationKeyword a (int k) then
        if isKw a (int k) ''TABLE'' \<and> isCreateTable a (int k) then plain_context CtxNone
        else if crossed then plain_context CtxKeyword
        else plain_context (if relationSlotEmpty a (int k) start then CtxRelation else CtxAfterRelation)
      else if isKwIn a (int k) [''SELECT'', ''WHERE'', ''ON'', ''HAVING'', ''BY'', ''SET'', ''RETURNING'',
           ''VALUES'', ''OUTPUT'', ''QUALIFY'', ''WHEN'', ''THEN'', ''ELSE'']
      then plain_context CtxColumn
      else if isKwIn a (int k) [''LIMIT'', ''OFFSET'', ''FETCH'', ''TOP''] then plain_context CtxKeyword
      else context_scan a start k depth crossed)"

definition detectContext :: "Analyzer \<Rightarrow> int \<Rightarrow> Context" where
  "detectContext a start =
     (if isKw a (start - 1) ''AS'' then
        let g = groupOf a (start - 1) in
        if g > 0 \<and> isKwIn a (gr_open (group_at a g) - 1) [''CAST'', ''TRY_CAST'']
        then plain_context CtxKeyword
        else if statementStartsWith a ''CREATE'' \<or> statementStartsWith a ''ALTER''
        then plain_context CtxKeyword
        else plain_context CtxNone
      else context_scan a start (nat start) 0 False)"


section \<open>Construction\<close>

text \<open>\<^verbatim>\<open>buildGroups\<close>: the analyzer with its stack of open groups, innermost first.\<close>

definition buildGroups_step :: "Analyzer \<times> int list \<Rightarrow> nat \<Rightarrow> Analyzer \<times> int list" where
  "buildGroups_step st i =
     (let a = fst st; stack = snd st in
      if isPunct a (int i) (CHR ''('') then
        let g = int (length (an_groups a)) in
        (a\<lparr>an_groupOf := (an_groupOf a)[i := hd stack],
           an_groups := an_groups a @ [\<lparr>gr_parent = hd stack, gr_open = int i, gr_close = an_size a\<rparr>],
           an_opens := (an_opens a)[i := g]\<rparr>, g # stack)
      else if isPunct a (int i) (CHR '')'') then
        let st1 = (if length stack > 1
              then (a\<lparr>an_groups := (an_groups a)[nat (hd stack) := (group_at a (hd stack))\<lparr>gr_close := int i\<rparr>]\<rparr>,
                    tl stack)
              else (a, stack))
        in ((fst st1)\<lparr>an_groupOf := (an_groupOf (fst st1))[i := hd (snd st1)]\<rparr>, snd st1)
      else (a\<lparr>an_groupOf := (an_groupOf a)[i := hd stack]\<rparr>, stack))"

definition buildGroups_start :: "Analyzer \<Rightarrow> Analyzer" where
  "buildGroups_start a =
     a\<lparr>an_groupOf := replicate (length (an_toks a)) 0,
       an_opens := replicate (length (an_toks a)) (-1),
       an_groups := [\<lparr>gr_parent = -1, gr_open = -1, gr_close = an_size a\<rparr>]\<rparr>"

definition buildGroups :: "Analyzer \<Rightarrow> Analyzer" where
  "buildGroups a = fst (foldl buildGroups_step (buildGroups_start a, [0]) [0..<length (an_toks a)])"

definition identsInGroup :: "Analyzer \<Rightarrow> int \<Rightarrow> bytes list" where
  "identsInGroup a openIdx =
     (let g = opens a openIdx in
      if g < 0 then []
      else map (\<lambda>k. tk_text (tok a k))
             (filter (\<lambda>k. groupOf a k = g \<and> isIdent a k) [openIdx + 1..closeOf a openIdx - 1]))"

lemma isIdent_bounds: "isIdent a i \<Longrightarrow> 0 \<le> i \<and> i < an_size a"
  by (simp add: isIdent_def split: if_splits)

text \<open>One CTE of a WITH, from its name on: the entry and the index after its body.\<close>

definition cte_columns_at :: "Analyzer \<Rightarrow> int \<Rightarrow> bytes list \<times> int" where
  "cte_columns_at a j =
     (if isPunct a j (CHR ''('') then (identsInGroup a j, after_group a j) else ([], j))"

definition cte_body_at :: "Analyzer \<Rightarrow> int \<Rightarrow> int" where
  "cte_body_at a j =
     (let j1 = (if isKw a j ''NOT'' then j + 1 else j)
      in if isKw a j1 ''MATERIALIZED'' then j1 + 1 else j1)"

definition cte_item :: "Analyzer \<Rightarrow> int \<Rightarrow> (Cte \<times> int) option" where
  "cte_item a j =
     (case cte_columns_at a (j + 1) of (cols, j1) \<Rightarrow>
        if \<not> isKw a j1 ''AS'' then None
        else let j2 = cte_body_at a (j1 + 1) in
          if \<not> isPunct a j2 (CHR ''('') then None
          else Some (\<lparr>cte_name = tk_text (tok a j), cte_columns = cols, cte_body = opens a j2\<rparr>,
                     after_group a j2))"

lemma cte_item_progress:
  assumes "cte_item a j = Some (c, j')"
  shows "j < j'"
proof -
  obtain cols j1 where 1: "cte_columns_at a (j + 1) = (cols, j1)" by fastforce
  then have "j < j1"
    using after_group_greater [of j "j + 1" a] by (auto simp: cte_columns_at_def split: if_splits)
  moreover have "j1 + 1 \<le> cte_body_at a (j1 + 1)" by (simp add: cte_body_at_def Let_def)
  moreover have "j' = after_group a (cte_body_at a (j1 + 1))"
    using assms 1 by (auto simp: cte_item_def Let_def split: if_splits)
  ultimately show ?thesis by simp
qed

function cte_list :: "Analyzer \<Rightarrow> int \<Rightarrow> Cte list" where
  "cte_list a j =
     (if isIdent a j then
        (case cte_item a j of
           None \<Rightarrow> []
         | Some (c, j1) \<Rightarrow> c # (if isPunct a j1 (CHR '','') then cte_list a (j1 + 1) else []))
      else [])"
  by pat_completeness auto
termination
  by (relation "measure (\<lambda>(a, j). nat (an_size a - j))")
    (auto dest!: cte_item_progress isIdent_bounds)

definition collectCtes :: "Analyzer \<Rightarrow> Cte list" where
  "collectCtes a = concat (map (\<lambda>i.
     if \<not> isKw a (int i) ''WITH'' then []
     else cte_list a (if isKw a (int i + 1) ''RECURSIVE'' then int i + 2 else int i + 1))
     [0..<length (an_toks a)])"


function skip_forward :: "Analyzer \<Rightarrow> bytes list \<Rightarrow> int \<Rightarrow> int" where
  "skip_forward a kws j = (if isKwIn a j kws then skip_forward a kws (j + 1) else j)"
  by pat_completeness auto
termination
  by (relation "measure (\<lambda>(a, kws, j). nat (an_size a - j))") (auto dest: isKwIn_bounds)

function path_scan :: "Analyzer \<Rightarrow> bytes list \<Rightarrow> int \<Rightarrow> bytes list \<times> int" where
  "path_scan a path j =
     (if isPunct a j (CHR ''.'') \<and> isIdent a (j + 1)
      then path_scan a (path @ [tk_text (tok a (j + 1))]) (j + 2)
      else (path, j))"
  by pat_completeness auto
termination
  by (relation "measure (\<lambda>(a, path, j). nat (an_size a - j))") (auto simp: isPunct_def)

declare cte_list.simps [simp del] skip_forward.simps [simp del] path_scan.simps [simp del]

definition empty_ref :: "int \<Rightarrow> RelationRef" where
  "empty_ref g = \<lparr>rr_name = [], rr_alias = [], rr_path = [], rr_group = g, rr_derived = -1,
     rr_function = False, rr_columnAliases = []\<rparr>"

text \<open>The item at \<open>j\<close>: a derived table, a path with an optional argument list, or nothing.\<close>

definition relation_item :: "Analyzer \<Rightarrow> bool \<Rightarrow> int \<Rightarrow> int \<Rightarrow> (RelationRef \<times> int) option" where
  "relation_item a into g j =
     (if isPunct a j (CHR ''('') then Some ((empty_ref g)\<lparr>rr_derived := opens a j\<rparr>, after_group a j)
      else if isNameIdent a j then
        (case path_scan a [tk_text (tok a j)] (j + 1) of (path, j1) \<Rightarrow>
           if \<not> into \<and> isPunct a j1 (CHR ''('')
           then Some ((empty_ref g)\<lparr>rr_path := path, rr_function := True\<rparr>, after_group a j1)
           else Some ((empty_ref g)\<lparr>rr_path := path\<rparr>, j1))
      else None)"

definition relation_alias :: "Analyzer \<Rightarrow> bool \<Rightarrow> RelationRef \<Rightarrow> int \<Rightarrow> RelationRef \<times> int" where
  "relation_alias a into r j =
     (if isKw a j ''AS'' then
        if isIdent a (j + 1) then (r\<lparr>rr_alias := tk_text (tok a (j + 1))\<rparr>, j + 2) else (r, j + 1)
      else if \<not> into \<and> isNameIdent a j then (r\<lparr>rr_alias := tk_text (tok a j)\<rparr>, j + 1)
      else (r, j))"

definition relation_columns :: "Analyzer \<Rightarrow> RelationRef \<Rightarrow> int \<Rightarrow> RelationRef \<times> int" where
  "relation_columns a r j =
     (if rr_alias r \<noteq> [] \<and> isPunct a j (CHR ''('') \<and> (rr_derived r \<ge> 0 \<or> rr_function r)
      then (r\<lparr>rr_columnAliases := identsInGroup a j\<rparr>, after_group a j)
      else (r, j))"

definition relation_name :: "RelationRef \<Rightarrow> RelationRef" where
  "relation_name r =
     r\<lparr>rr_name := (if rr_alias r \<noteq> [] then rr_alias r
                   else if rr_path r = [] then [] else last (rr_path r))\<rparr>"

text \<open>One pass of the loop body from the item on: the reference and the index after it.\<close>

definition parse_relation :: "Analyzer \<Rightarrow> bool \<Rightarrow> int \<Rightarrow> int \<Rightarrow> (RelationRef \<times> int) option" where
  "parse_relation a into g j =
     (case relation_item a into g j of
        None \<Rightarrow> None
      | Some (r, j1) \<Rightarrow>
          (case relation_alias a into r j1 of (r2, j2) \<Rightarrow>
           case relation_columns a r2 j2 of (r3, j3) \<Rightarrow> Some (relation_name r3, j3)))"

definition relation_skip_words :: "bytes list" where
  "relation_skip_words = [''LATERAL'', ''ONLY'', ''IF'', ''NOT'', ''EXISTS'']"

lemma skip_forward_ge: "j \<le> skip_forward a kws j"
  by (induction a kws j rule: skip_forward.induct) (subst skip_forward.simps, force)

lemma path_scan_ge: "j \<le> snd (path_scan a path j)"
  by (induction a path j rule: path_scan.induct) (subst path_scan.simps, force)

lemma parse_relation_progress:
  assumes "parse_relation a into g j = Some (r, j')"
  shows "j < j'"
proof -
  from assms obtain r1 j1 where 1: "relation_item a into g j = Some (r1, j1)"
    by (auto simp: parse_relation_def split: option.splits)
  then have "j < j1"
    using path_scan_ge [of "j + 1" a "[tk_text (tok a j)]"]
    by (auto simp: relation_item_def split: if_splits prod.splits)
  moreover have "k \<le> snd (relation_alias a into x k)" "k \<le> snd (relation_columns a x k)" for x k
    by (auto simp: relation_alias_def relation_columns_def)
  ultimately show ?thesis
    using assms 1 unfolding parse_relation_def
    by (auto split: prod.splits) (metis order.strict_trans2 order_trans snd_conv)
qed

function relation_list :: "Analyzer \<Rightarrow> bool \<Rightarrow> bool \<Rightarrow> int \<Rightarrow> int \<Rightarrow> RelationRef list" where
  "relation_list a is_list into g j =
     (if j < an_size a \<and> groupOf a j = g then
        (case parse_relation a into g (skip_forward a relation_skip_words j) of
           None \<Rightarrow> []
         | Some (r, j1) \<Rightarrow>
             (if rr_name r \<noteq> [] then [r] else []) @
             (if is_list \<and> isPunct a j1 (CHR '','') then relation_list a is_list into g (j1 + 1) else []))
      else [])"
  by pat_completeness auto
termination
proof (relation "measure (\<lambda>(a, is_list, into, g, j). nat (an_size a - j))", goal_cases)
  case (2 a is_list into g j r j1)
  then show ?case
    using parse_relation_progress [of a into g "skip_forward a relation_skip_words j"]
      skip_forward_ge [of j a relation_skip_words] by force
qed simp

declare relation_list.simps [simp del]

definition parseRelationList :: "Analyzer \<Rightarrow> int \<Rightarrow> RelationRef list" where
  "parseRelationList a kw =
     relation_list a (isKwIn a kw [''FROM'', ''USING'']) (isKw a kw ''INTO'') (groupOf a kw) (kw + 1)"

definition collectRefs :: "Analyzer \<Rightarrow> RelationRef list" where
  "collectRefs a = concat (map (\<lambda>i.
     if tk_kind (tok a (int i)) \<noteq> TWord \<or> \<not> isRelationKeyword a (int i) then []
     else if isKw a (int i) ''TABLE'' \<and> isCreateTable a (int i) then []
     else parseRelationList a (int i)) [0..<length (an_toks a)])"

definition statement_tokens :: "Token list \<Rightarrow> StatementSpan \<Rightarrow> Token list" where
  "statement_tokens all span =
     filter (\<lambda>t. tk_kind t \<noteq> TComment) (map (\<lambda>i. all ! i) [sp_firstTok span..<sp_lastTok span])"

definition new_analyzer :: "bytes \<Rightarrow> nat \<Rightarrow> CompletionCatalog \<Rightarrow> DatabaseType \<Rightarrow> Analyzer" where
  "new_analyzer sql offset catalog type =
     (let all = tokenize sql (dialectFor type);
          span = statementAt all offset (length sql);
          a0 = \<lparr>an_catalog = catalog, an_type = type, an_all = all,
                an_toks = statement_tokens all span, an_span = span, an_groups = [],
                an_groupOf = [], an_opens = [], an_ctes = [], an_refs = []\<rparr>;
          a1 = buildGroups a0;
          a2 = a1\<lparr>an_ctes := collectCtes a1\<rparr>
      in a2\<lparr>an_refs := collectRefs a2\<rparr>)"


section \<open>The group tree\<close>

lemma isAncestorOrSelf_neg: "g < 0 \<Longrightarrow> \<not> isAncestorOrSelf a anc g"
  by (simp add: isAncestorOrSelf.simps [of a anc g])

lemma isAncestorOrSelf_self: "0 \<le> g \<Longrightarrow> isAncestorOrSelf a g g"
  by (simp add: isAncestorOrSelf.simps [of a g g])

lemma isAncestorOrSelf_parent:
  "0 \<le> g \<Longrightarrow> g \<noteq> anc \<Longrightarrow> gr_parent (group_at a g) < g \<Longrightarrow>
   isAncestorOrSelf a anc g \<longleftrightarrow> isAncestorOrSelf a anc (gr_parent (group_at a g))"
  by (simp add: isAncestorOrSelf.simps [of a anc g])

lemma isAncestorOrSelf_le: "isAncestorOrSelf a anc g \<Longrightarrow> 0 \<le> anc \<and> anc \<le> g"
proof (induction a anc g rule: isAncestorOrSelf.induct)
  case (1 a anc g)
  then show ?case
    by (auto simp: isAncestorOrSelf.simps [of a anc g] Let_def split: if_splits)
qed

lemma isAncestorOrSelf_cong:
  "(\<And>h. 0 \<le> h \<Longrightarrow> h \<le> g \<Longrightarrow> gr_parent (group_at a h) = gr_parent (group_at b h)) \<Longrightarrow>
   isAncestorOrSelf a anc g \<longleftrightarrow> isAncestorOrSelf b anc g"
proof (induction a anc g rule: isAncestorOrSelf.induct)
  case (1 a anc g)
  then show ?case
    by (auto simp: isAncestorOrSelf.simps [of a anc g] isAncestorOrSelf.simps [of b anc g] Let_def)
qed

lemma depthOf_nonneg: "0 \<le> depthOf a g"
proof (induction a g rule: depthOf.induct)
  case (1 a g)
  then show ?case by (auto simp: depthOf.simps [of a g] Let_def)
qed

text \<open>
  The state of \<^verbatim>\<open>buildGroups\<close> before token \<open>n\<close>: sizes, every group and index in range, the stack the
  parent chain of its head and the groups still open, and the tokens seen so far lie in a group
  exactly when they lie between its parentheses.
\<close>

definition group_wf :: "nat \<Rightarrow> Analyzer \<Rightarrow> int \<Rightarrow> bool" where
  "group_wf n a g \<longleftrightarrow>
     0 \<le> gr_parent (group_at a g) \<and> gr_parent (group_at a g) < g \<and>
     0 \<le> gr_open (group_at a g) \<and> gr_open (group_at a g) < int n \<and>
     isPunct a (gr_open (group_at a g)) (CHR ''('') \<and>
     opens a (gr_open (group_at a g)) = g \<and>
     gr_open (group_at a g) < gr_close (group_at a g) \<and>
     (gr_close (group_at a g) = an_size a \<or>
      gr_close (group_at a g) < int n \<and> isPunct a (gr_close (group_at a g)) (CHR '')''))"

definition index_wf :: "Analyzer \<Rightarrow> nat \<Rightarrow> bool" where
  "index_wf a i \<longleftrightarrow>
     0 \<le> groupOf a (int i) \<and> groupOf a (int i) < int (length (an_groups a)) \<and>
     (if isPunct a (int i) (CHR ''('')
      then 0 < opens a (int i) \<and> opens a (int i) < int (length (an_groups a)) \<and>
           gr_open (group_at a (opens a (int i))) = int i
      else opens a (int i) = -1)"

definition groups_range :: "nat \<Rightarrow> Analyzer \<Rightarrow> bool" where
  "groups_range n a \<longleftrightarrow>
     length (an_groupOf a) = length (an_toks a) \<and> length (an_opens a) = length (an_toks a) \<and>
     0 < length (an_groups a) \<and> gr_parent (group_at a 0) = -1 \<and>
     (\<forall>g. 0 < g \<and> g < int (length (an_groups a)) \<longrightarrow> group_wf n a g) \<and>
     (\<forall>i<n. index_wf a i) \<and>
     (\<forall>i. n \<le> i \<and> i < length (an_toks a) \<longrightarrow> opens a (int i) = -1)"

lemma groups_rangeD:
  assumes "groups_range n a"
  shows "\<And>g. 0 < g \<Longrightarrow> g < int (length (an_groups a)) \<Longrightarrow> group_wf n a g" "\<And>i. i < n \<Longrightarrow> index_wf a i"
    "length (an_groupOf a) = length (an_toks a)" "length (an_opens a) = length (an_toks a)"
    "0 < length (an_groups a)" "gr_parent (group_at a 0) = -1"
    "\<And>i. n \<le> i \<Longrightarrow> i < length (an_toks a) \<Longrightarrow> opens a (int i) = -1"
  using assms by (simp_all add: groups_range_def)

definition stack_ok :: "Analyzer \<Rightarrow> int list \<Rightarrow> bool" where
  "stack_ok a stack \<longleftrightarrow>
     stack \<noteq> [] \<and> last stack = 0 \<and>
     (\<forall>g. isAncestorOrSelf a g (hd stack) \<longleftrightarrow> g \<in> set stack) \<and>
     (\<forall>k. Suc k < length stack \<longrightarrow> 0 < stack ! k \<and> gr_parent (group_at a (stack ! k)) = stack ! Suc k) \<and>
     (\<forall>g. 0 < g \<and> g < int (length (an_groups a)) \<longrightarrow> (g \<in> set stack \<longleftrightarrow> gr_close (group_at a g) = an_size a)) \<and>
     (\<forall>g\<in>set stack. g < int (length (an_groups a)))"

definition nested :: "nat \<Rightarrow> Analyzer \<Rightarrow> bool" where
  "nested n a \<longleftrightarrow>
     (\<forall>i<n. \<forall>g. 0 < g \<and> g < int (length (an_groups a)) \<longrightarrow>
        (isAncestorOrSelf a g (groupOf a (int i)) \<longleftrightarrow>
         gr_open (group_at a g) < int i \<and> int i < gr_close (group_at a g)))"


lemma an_update_simps [simp]:
  "an_size (a\<lparr>an_groups := gs\<rparr>) = an_size a" "an_size (a\<lparr>an_groupOf := xs\<rparr>) = an_size a"
  "an_size (a\<lparr>an_opens := xs\<rparr>) = an_size a"
  "isPunct (a\<lparr>an_groups := gs\<rparr>) i c = isPunct a i c" "isPunct (a\<lparr>an_groupOf := xs\<rparr>) i c = isPunct a i c"
  "isPunct (a\<lparr>an_opens := xs\<rparr>) i c = isPunct a i c"
  "group_at (a\<lparr>an_groups := gs\<rparr>) g = gs ! nat g" "group_at (a\<lparr>an_groupOf := xs\<rparr>) g = group_at a g"
  "group_at (a\<lparr>an_opens := xs\<rparr>) g = group_at a g"
  "groupOf (a\<lparr>an_groups := gs\<rparr>) i = groupOf a i" "groupOf (a\<lparr>an_groupOf := xs\<rparr>) i = xs ! nat i"
  "groupOf (a\<lparr>an_opens := xs\<rparr>) i = groupOf a i"
  "opens (a\<lparr>an_groups := gs\<rparr>) i = opens a i" "opens (a\<lparr>an_groupOf := xs\<rparr>) i = opens a i"
  "opens (a\<lparr>an_opens := xs\<rparr>) i = xs ! nat i"
  by (simp_all add: an_size_def isPunct_def tok_def group_at_def groupOf_def opens_def)

lemma isPunct_both: "isPunct a i (CHR ''('') \<Longrightarrow> \<not> isPunct a i (CHR '')'')"
  by (auto simp: isPunct_def)

text \<open>Recording the group of token \<open>n\<close> only.\<close>

definition mark :: "Analyzer \<Rightarrow> nat \<Rightarrow> int \<Rightarrow> Analyzer" where
  "mark a n g = a\<lparr>an_groupOf := (an_groupOf a)[n := g]\<rparr>"

lemma mark_simps [simp]:
  "an_size (mark a n g) = an_size a" "isPunct (mark a n g) i c = isPunct a i c"
  "group_at (mark a n g) h = group_at a h" "opens (mark a n g) i = opens a i"
  "an_groups (mark a n g) = an_groups a" "an_toks (mark a n g) = an_toks a"
  "length (an_groupOf (mark a n g)) = length (an_groupOf a)" "an_opens (mark a n g) = an_opens a"
  by (simp_all add: mark_def)

lemma groupOf_mark:
  "n < length (an_groupOf a) \<Longrightarrow> groupOf (mark a n g) (int i) = (if i = n then g else groupOf a (int i))"
  by (simp add: mark_def groupOf_def)

lemma isAncestorOrSelf_mark [simp]: "isAncestorOrSelf (mark a n g) = isAncestorOrSelf a"
  by (intro ext isAncestorOrSelf_cong) simp

text \<open>Opening a group at token \<open>n\<close>.\<close>

definition open_group :: "Analyzer \<Rightarrow> nat \<Rightarrow> int \<Rightarrow> Analyzer" where
  "open_group a n p =
     a\<lparr>an_groups := an_groups a @ [\<lparr>gr_parent = p, gr_open = int n, gr_close = an_size a\<rparr>],
       an_opens := (an_opens a)[n := int (length (an_groups a))]\<rparr>"

lemma open_group_simps [simp]:
  "an_size (open_group a n p) = an_size a" "isPunct (open_group a n p) i c = isPunct a i c"
  "groupOf (open_group a n p) i = groupOf a i"
  "an_toks (open_group a n p) = an_toks a" "an_groupOf (open_group a n p) = an_groupOf a"
  "length (an_opens (open_group a n p)) = length (an_opens a)"
  "length (an_groups (open_group a n p)) = Suc (length (an_groups a))"
  by (simp_all add: open_group_def)

lemma opens_open_group:
  "n < length (an_opens a) \<Longrightarrow>
   opens (open_group a n p) (int i) = (if i = n then int (length (an_groups a)) else opens a (int i))"
  by (simp add: open_group_def opens_def)

lemma group_at_open_group:
  assumes "0 \<le> g" "g \<le> int (length (an_groups a))"
  shows "group_at (open_group a n p) g =
    (if g = int (length (an_groups a)) then \<lparr>gr_parent = p, gr_open = int n, gr_close = an_size a\<rparr>
     else group_at a g)"
  using assms by (auto simp: open_group_def group_at_def nth_append)

lemma isAncestorOrSelf_open_group:
  "g < int (length (an_groups a)) \<Longrightarrow>
   isAncestorOrSelf (open_group a n p) h g \<longleftrightarrow> isAncestorOrSelf a h g"
  by (rule isAncestorOrSelf_cong) (simp add: group_at_open_group)

text \<open>Closing group \<open>t\<close> at token \<open>n\<close>.\<close>

definition close_group :: "Analyzer \<Rightarrow> nat \<Rightarrow> int \<Rightarrow> Analyzer" where
  "close_group a n t = a\<lparr>an_groups := (an_groups a)[nat t := (group_at a t)\<lparr>gr_close := int n\<rparr>]\<rparr>"

lemma close_group_simps [simp]:
  "an_size (close_group a n t) = an_size a" "isPunct (close_group a n t) i c = isPunct a i c"
  "groupOf (close_group a n t) i = groupOf a i" "opens (close_group a n t) i = opens a i"
  "an_toks (close_group a n t) = an_toks a" "an_groupOf (close_group a n t) = an_groupOf a"
  "an_opens (close_group a n t) = an_opens a"
  "length (an_groups (close_group a n t)) = length (an_groups a)"
  by (simp_all add: close_group_def)

lemma group_at_close_group:
  assumes "0 \<le> g" "0 \<le> t" "t < int (length (an_groups a))"
  shows "group_at (close_group a n t) g =
    (if g = t then (group_at a t)\<lparr>gr_close := int n\<rparr> else group_at a g)"
  using assms by (auto simp: close_group_def group_at_def nth_list_update nat_eq_iff)

lemma isAncestorOrSelf_close_group:
  "0 \<le> t \<Longrightarrow> t < int (length (an_groups a)) \<Longrightarrow>
   isAncestorOrSelf (close_group a n t) h g \<longleftrightarrow> isAncestorOrSelf a h g"
  by (rule isAncestorOrSelf_cong) (simp add: group_at_close_group)

lemma buildGroups_step_eq:
  "buildGroups_step (a, stack) n =
     (if isPunct a (int n) (CHR ''('')
      then (mark (open_group a n (hd stack)) n (hd stack), int (length (an_groups a)) # stack)
      else if isPunct a (int n) (CHR '')'') \<and> length stack > 1
      then (mark (close_group a n (hd stack)) n (hd (tl stack)), tl stack)
      else (mark a n (hd stack), stack))"
  by (simp add: buildGroups_step_def Let_def mark_def open_group_def close_group_def)


definition build_inv :: "nat \<Rightarrow> Analyzer \<Rightarrow> int list \<Rightarrow> bool" where
  "build_inv n a stack \<longleftrightarrow> groups_range n a \<and> stack_ok a stack \<and> nested n a"

lemma stack_ok_hd:
  assumes "stack_ok a stack"
  shows "stack \<noteq> []" "0 \<le> hd stack" "hd stack < int (length (an_groups a))" "hd stack \<in> set stack"
proof -
  from assms show ne: "stack \<noteq> []" and in_set: "hd stack \<in> set stack" by (auto simp: stack_ok_def)
  with assms show "hd stack < int (length (an_groups a))" by (simp add: stack_ok_def)
  from assms in_set have "isAncestorOrSelf a (hd stack) (hd stack)" by (simp add: stack_ok_def)
  then show "0 \<le> hd stack" by (auto dest: isAncestorOrSelf_le)
qed

lemma stack_encloses:
  assumes rng: "groups_range n a" and ok: "stack_ok a stack" and n: "n < length (an_toks a)"
    and g: "0 < g" "g < int (length (an_groups a))"
  shows "g \<in> set stack \<longleftrightarrow> gr_open (group_at a g) < int n \<and> int n < gr_close (group_at a g)"
proof -
  have "g \<in> set stack \<longleftrightarrow> gr_close (group_at a g) = an_size a"
    using ok g by (simp add: stack_ok_def)
  with groups_rangeD(1) [OF rng g] n show ?thesis by (auto simp: group_wf_def an_size_def)
qed

lemma group_wf_mono: "group_wf n a g \<Longrightarrow> group_wf (Suc n) a g"
  by (auto simp: group_wf_def)

lemma group_wf_mark [simp]: "group_wf n (mark a k h) g = group_wf n a g"
  by (simp add: group_wf_def)

lemma index_wf_mark:
  "k < length (an_groupOf a) \<Longrightarrow> i \<noteq> k \<Longrightarrow> index_wf (mark a k h) i \<longleftrightarrow> index_wf a i"
  by (simp add: index_wf_def groupOf_mark)

lemma range_mark:
  assumes rng: "groups_range n a" and n: "n < length (an_toks a)"
    and g: "0 \<le> g" "g < int (length (an_groups a))" and "\<not> isPunct a (int n) (CHR ''('')"
  shows "groups_range (Suc n) (mark a n g)"
proof -
  note r = groups_rangeD [OF rng]
  have len: "n < length (an_groupOf a)" using r(3) n by simp
  have "index_wf (mark a n g) n"
    using assms(3-5) r(7) [of n] n len by (simp add: index_wf_def groupOf_mark)
  then have "index_wf (mark a n g) i" if "i < Suc n" for i
    using that r(2) [of i] len by (cases "i = n") (simp_all add: index_wf_mark)
  with r show ?thesis by (auto simp: groups_range_def group_wf_mono)
qed

lemma stack_mark [simp]: "stack_ok (mark a n g) stack = stack_ok a stack"
  by (simp add: stack_ok_def)

lemma nested_mark:
  assumes "groups_range n a" "stack_ok a stack" "nested n a" "n < length (an_toks a)"
  shows "nested (Suc n) (mark a n (hd stack))"
  unfolding nested_def
proof (intro allI impI)
  fix i g assume i: "i < Suc n" and g: "0 < g \<and> g < int (length (an_groups (mark a n (hd stack))))"
  have len: "n < length (an_groupOf a)" using assms(1,4) by (simp add: groups_range_def)
  show "isAncestorOrSelf (mark a n (hd stack)) g (groupOf (mark a n (hd stack)) (int i)) \<longleftrightarrow>
      gr_open (group_at (mark a n (hd stack)) g) < int i \<and> int i < gr_close (group_at (mark a n (hd stack)) g)"
  proof (cases "i = n")
    case True
    have "isAncestorOrSelf a g (hd stack) \<longleftrightarrow> g \<in> set stack" using assms(2) by (simp add: stack_ok_def)
    with True g stack_encloses [OF assms(1,2,4)] len show ?thesis by (simp add: groupOf_mark)
  next
    case False
    with i g assms(3) len show ?thesis by (simp add: groupOf_mark nested_def)
  qed
qed

lemma step_other:
  assumes "build_inv n a stack" "n < length (an_toks a)" "\<not> isPunct a (int n) (CHR ''('')"
  shows "build_inv (Suc n) (mark a n (hd stack)) stack"
  using assms stack_ok_hd [of a stack] by (auto simp: build_inv_def intro: range_mark nested_mark)

text \<open>A closing parenthesis: the head of the stack gets its end and leaves.\<close>

lemma stack_pop:
  assumes "stack_ok a stack" "length stack > 1"
  shows "stack = hd stack # tl stack" "tl stack \<noteq> []" "0 < hd stack"
    "gr_parent (group_at a (hd stack)) = hd (tl stack)"
proof -
  from assms(2) obtain t u rest where st: "stack = t # u # rest"
    by (cases stack; cases "tl stack") auto
  have "0 < stack ! 0 \<and> gr_parent (group_at a (stack ! 0)) = stack ! Suc 0"
    using assms unfolding stack_ok_def by simp
  with st show "stack = hd stack # tl stack" "tl stack \<noteq> []" "0 < hd stack"
    "gr_parent (group_at a (hd stack)) = hd (tl stack)" by simp_all
qed

lemma stack_descending:
  assumes rng: "groups_range n a" and ok: "stack_ok a stack"
  shows "sorted_wrt (>) stack"
proof -
  have "stack ! Suc k < stack ! k" if "Suc k < length stack" for k
  proof -
    have "0 < stack ! k" "gr_parent (group_at a (stack ! k)) = stack ! Suc k" "stack ! k < int (length (an_groups a))"
      using ok that unfolding stack_ok_def by auto
    with groups_rangeD(1) [OF rng, of "stack ! k"] show ?thesis by (simp add: group_wf_def)
  qed
  then show ?thesis by (simp add: sorted_wrt_iff_nth_Suc_transp transp_def)
qed

lemma stack_tl:
  assumes rng: "groups_range n a" and ok: "stack_ok a stack" and len: "length stack > 1"
  shows "\<And>g. isAncestorOrSelf a g (hd (tl stack)) \<longleftrightarrow> g \<in> set (tl stack)" "hd stack \<notin> set (tl stack)"
    "hd (tl stack) < hd stack" "0 \<le> hd (tl stack)"
proof -
  note p = stack_pop [OF ok len]
  let ?t = "hd stack" and ?u = "hd (tl stack)"
  have t: "?t < int (length (an_groups a))" using stack_ok_hd [OF ok] by auto
  from groups_rangeD(1) [OF rng p(3) t] p(4) show u: "?u < ?t" "0 \<le> ?u" by (auto simp: group_wf_def)
  have set: "set stack = insert ?t (set (tl stack))" using p(1) by (metis list.simps(15))
  have anc: "isAncestorOrSelf a g ?u \<longleftrightarrow> g \<in> set stack \<and> g \<noteq> ?t" for g
  proof (cases "g = ?t")
    case True
    with u show ?thesis by (auto dest: isAncestorOrSelf_le)
  next
    case False
    have "isAncestorOrSelf a g ?t \<longleftrightarrow> isAncestorOrSelf a g (gr_parent (group_at a ?t))"
      by (rule isAncestorOrSelf_parent) (use False u p(3,4) in auto)
    with False p(4) ok show ?thesis by (simp add: stack_ok_def)
  qed
  have "\<forall>x\<in>set (tl stack). x < ?t" using stack_descending [OF rng ok] p(1) by (metis sorted_wrt.simps(2))
  then show notin: "?t \<notin> set (tl stack)" by auto
  show "isAncestorOrSelf a g ?u \<longleftrightarrow> g \<in> set (tl stack)" for g
    using anc [of g] set notin by auto
qed

lemma step_close:
  assumes inv: "build_inv n a stack" and n: "n < length (an_toks a)"
    and close: "isPunct a (int n) (CHR '')'')" and len: "length stack > 1"
  shows "build_inv (Suc n) (mark (close_group a n (hd stack)) n (hd (tl stack))) (tl stack)"
proof -
  let ?t = "hd stack" and ?u = "hd (tl stack)"
  let ?b = "close_group a n ?t" and ?m = "length (an_groups a)"
  from inv have rng: "groups_range n a" and ok: "stack_ok a stack" and nst: "nested n a"
    by (simp_all add: build_inv_def)
  note p = stack_pop [OF ok len] and tl = stack_tl [OF rng ok len] and r = groups_rangeD [OF rng]
  have t: "0 < ?t" "?t < int ?m" using stack_ok_hd [OF ok] p by auto
  have gb: "group_at ?b g = (if g = ?t then (group_at a ?t)\<lparr>gr_close := int n\<rparr> else group_at a g)" if "0 \<le> g" for g
    using that t by (simp add: group_at_close_group)
  have anc: "isAncestorOrSelf ?b = isAncestorOrSelf a"
    using t by (intro ext isAncestorOrSelf_close_group) auto
  have here: "n < length (an_groupOf a)" "opens a (int n) = -1" "\<not> isPunct a (int n) (CHR ''('')" "int n < an_size a"
    using r(3,7) n close isPunct_both by (auto simp: an_size_def)
  have "group_wf (Suc n) ?b g" if "0 < g" "g < int ?m" for g
    using r(1) [OF that] gb [of g] that close by (cases "g = ?t") (auto simp: group_wf_def)
  moreover have "index_wf (mark ?b n ?u) i" if "i < Suc n" for i
  proof (cases "i = n")
    case True
    with here tl(3,4) t show ?thesis by (simp add: index_wf_def groupOf_mark)
  next
    case False
    with that r(2) [of i] gb [of "opens a (int i)"] here show ?thesis
      by (auto simp: index_wf_def groupOf_mark)
  qed
  ultimately have "groups_range (Suc n) (mark ?b n ?u)"
    using r(3-7) gb [of 0] t by (simp add: groups_range_def)
  moreover have "stack_ok ?b (tl stack)"
    unfolding stack_ok_def anc
  proof (intro conjI allI impI)
    have set: "set stack = insert ?t (set (tl stack))" using p(1) by (metis list.simps(15))
    show "tl stack \<noteq> []" by (rule p(2))
    show "last (tl stack) = 0" using ok p(2) by (simp add: stack_ok_def last_tl)
    show "isAncestorOrSelf a g ?u \<longleftrightarrow> g \<in> set (tl stack)" for g by (rule tl(1))
    show "\<forall>g\<in>set (tl stack). g < int (length (an_groups ?b))"
      using ok set by (simp add: stack_ok_def)
    fix g assume g: "0 < g \<and> g < int (length (an_groups ?b))"
    have "g \<in> set stack \<longleftrightarrow> gr_close (group_at a g) = an_size a" using ok g by (simp add: stack_ok_def)
    with g gb [of g] here tl(2) set show "g \<in> set (tl stack) \<longleftrightarrow> gr_close (group_at ?b g) = an_size ?b"
      by (cases "g = ?t") auto
  next
    fix k assume k: "Suc k < length (tl stack)"
    then have "0 < stack ! Suc k \<and> gr_parent (group_at a (stack ! Suc k)) = stack ! Suc (Suc k)"
      using ok by (simp add: stack_ok_def)
    then show "0 < tl stack ! k" "gr_parent (group_at ?b (tl stack ! k)) = tl stack ! Suc k"
      using k gb [of "stack ! Suc k"] by (auto simp: nth_tl)
  qed
  moreover have "nested (Suc n) (mark ?b n ?u)"
    unfolding nested_def
  proof (intro allI impI)
    fix i g assume i: "i < Suc n" and "0 < g \<and> g < int (length (an_groups (mark ?b n ?u)))"
    then have g: "0 < g" "g < int ?m" by auto
    have old: "isAncestorOrSelf a g (groupOf a (int i)) \<longleftrightarrow>
        gr_open (group_at a g) < int i \<and> int i < gr_close (group_at a g)" if "i \<noteq> n"
      using that i g nst by (simp add: nested_def)
    have t_open: "gr_close (group_at a ?t) = an_size a"
      using ok t stack_ok_hd(4) [OF ok] by (simp add: stack_ok_def)
    have top: "isAncestorOrSelf a g ?u \<longleftrightarrow> g \<in> set stack \<and> g \<noteq> ?t"
      using tl(1) [of g] tl(2) p(1) by (metis list.simps(15) insert_iff)
    show "isAncestorOrSelf (mark ?b n ?u) g (groupOf (mark ?b n ?u) (int i)) \<longleftrightarrow>
        gr_open (group_at (mark ?b n ?u) g) < int i \<and> int i < gr_close (group_at (mark ?b n ?u) g)"
    proof (cases "i = n")
      case True
      with top g gb [of g] stack_encloses [OF rng ok n g] here show ?thesis
        by (auto simp: groupOf_mark anc)
    next
      case False
      with old i g gb [of g] here t_open show ?thesis
        by (auto simp: groupOf_mark anc)
    qed
  qed
  ultimately show ?thesis by (simp add: build_inv_def)
qed

text \<open>An opening parenthesis: a new group below the head of the stack.\<close>

lemma step_open:
  assumes inv: "build_inv n a stack" and n: "n < length (an_toks a)"
    and opn: "isPunct a (int n) (CHR ''('')"
  shows "build_inv (Suc n) (mark (open_group a n (hd stack)) n (hd stack)) (int (length (an_groups a)) # stack)"
proof -
  let ?t = "hd stack" and ?m = "length (an_groups a)"
  let ?b = "open_group a n ?t"
  from inv have rng: "groups_range n a" and ok: "stack_ok a stack" and nst: "nested n a"
    by (simp_all add: build_inv_def)
  note r = groups_rangeD [OF rng] and t = stack_ok_hd [OF ok]
  have lens: "n < length (an_groupOf a)" "n < length (an_opens a)" "int n < an_size a"
    using r(3,4) n by (simp_all add: an_size_def)
  have gb: "group_at ?b g = (if g = int ?m then \<lparr>gr_parent = ?t, gr_open = int n, gr_close = an_size a\<rparr>
      else group_at a g)" if "0 \<le> g" "g \<le> int ?m" for g
    using that by (rule group_at_open_group)
  have ob: "opens ?b (int i) = (if i = n then int ?m else opens a (int i))" for i
    using lens by (simp add: opens_open_group)
  have anc: "isAncestorOrSelf ?b h g \<longleftrightarrow> isAncestorOrSelf a h g" if "g < int ?m" for h g
    using that by (rule isAncestorOrSelf_open_group)
  have "group_wf (Suc n) ?b g" if "0 < g" "g < int (Suc ?m)" for g
  proof (cases "g = int ?m")
    case True
    with gb [of g] t opn lens ob [of n] show ?thesis by (simp add: group_wf_def)
  next
    case False
    with that have g: "0 < g" "g < int ?m" by auto
    from r(1) [OF g] have w: "group_wf n a g" .
    then have "opens ?b (gr_open (group_at a g)) = opens a (gr_open (group_at a g))"
      using ob [of "nat (gr_open (group_at a g))"] by (auto simp: group_wf_def)
    with w gb [of g] g show ?thesis by (auto simp: group_wf_def)
  qed
  moreover have "index_wf (mark ?b n ?t) i" if "i < Suc n" for i
  proof (cases "i = n")
    case True
    with gb [of "int ?m"] t r(5) opn ob lens show ?thesis by (simp add: index_wf_def groupOf_mark)
  next
    case False
    with that r(2) [of i] gb [of "opens a (int i)"] ob [of i] lens show ?thesis
      by (auto simp: index_wf_def groupOf_mark)
  qed
  ultimately have "groups_range (Suc n) (mark ?b n ?t)"
    using r(3-7) gb [of 0] ob by (auto simp: groups_range_def)
  moreover have "stack_ok ?b (int ?m # stack)"
    unfolding stack_ok_def
  proof (intro conjI allI impI)
    have "isAncestorOrSelf ?b g (int ?m) \<longleftrightarrow> isAncestorOrSelf ?b g ?t" if "g \<noteq> int ?m" for g
      using isAncestorOrSelf_parent [of "int ?m" g ?b] that gb [of "int ?m"] t by simp
    then show "isAncestorOrSelf ?b g (hd (int ?m # stack)) \<longleftrightarrow> g \<in> set (int ?m # stack)" for g
      using ok anc [OF t(3)] isAncestorOrSelf_self [of "int ?m" ?b] by (cases "g = int ?m") (auto simp: stack_ok_def)
    show "int ?m # stack \<noteq> []" "last (int ?m # stack) = 0" using ok by (auto simp: stack_ok_def)
    show "\<forall>g\<in>set (int ?m # stack). g < int (length (an_groups ?b))" using ok by (auto simp: stack_ok_def)
    fix g assume "0 < g \<and> g < int (length (an_groups ?b))"
    then show "g \<in> set (int ?m # stack) \<longleftrightarrow> gr_close (group_at ?b g) = an_size ?b"
      using ok gb [of g] by (cases "g = int ?m") (auto simp: stack_ok_def)
  next
    fix k assume k: "Suc k < length (int ?m # stack)"
    have "0 < (int ?m # stack) ! k \<and> gr_parent (group_at ?b ((int ?m # stack) ! k)) = (int ?m # stack) ! Suc k"
    proof (cases k)
      case 0
      with gb [of "int ?m"] r(5) t(1) show ?thesis by (simp add: hd_conv_nth)
    next
      case (Suc j)
      with k have "0 < stack ! j" "gr_parent (group_at a (stack ! j)) = stack ! Suc j" "stack ! j < int ?m"
        using ok by (auto simp: stack_ok_def)
      with Suc gb [of "stack ! j"] show ?thesis by simp
    qed
    then show "0 < (int ?m # stack) ! k" "gr_parent (group_at ?b ((int ?m # stack) ! k)) = (int ?m # stack) ! Suc k"
      by auto
  qed
  moreover have "nested (Suc n) (mark ?b n ?t)"
    unfolding nested_def
  proof (intro allI impI)
    fix i g assume i: "i < Suc n" and g: "0 < g \<and> g < int (length (an_groups (mark ?b n ?t)))"
    have grp: "groupOf (mark ?b n ?t) (int i) = (if i = n then ?t else groupOf a (int i))"
      using lens by (simp add: groupOf_mark)
    have "groupOf a (int i) < int ?m" if "i \<noteq> n" using r(2) [of i] that i by (simp add: index_wf_def)
    with grp t have small: "groupOf (mark ?b n ?t) (int i) < int ?m" by auto
    show "isAncestorOrSelf (mark ?b n ?t) g (groupOf (mark ?b n ?t) (int i)) \<longleftrightarrow>
        gr_open (group_at (mark ?b n ?t) g) < int i \<and> int i < gr_close (group_at (mark ?b n ?t) g)"
    proof (cases "g = int ?m")
      case True
      then have "\<not> isAncestorOrSelf ?b g (groupOf (mark ?b n ?t) (int i))"
        using small by (auto dest: isAncestorOrSelf_le)
      with True gb [of g] i show ?thesis by auto
    next
      case False
      with g have g': "0 < g" "g < int ?m" by auto
      have "isAncestorOrSelf a g ?t \<longleftrightarrow> g \<in> set stack" using ok by (simp add: stack_ok_def)
      then have "isAncestorOrSelf a g (if i = n then ?t else groupOf a (int i)) \<longleftrightarrow>
          gr_open (group_at a g) < int i \<and> int i < gr_close (group_at a g)"
        using stack_encloses [OF rng ok n g'] nst i g' by (cases "i = n") (simp_all add: nested_def)
      with False g' gb [of g] grp small anc show ?thesis by simp
    qed
  qed
  ultimately show ?thesis by (simp add: build_inv_def)
qed

lemma buildGroups_step_toks [simp]: "an_toks (fst (buildGroups_step st i)) = an_toks (fst st)"
  by (cases st) (simp add: buildGroups_step_eq)

lemma build_inv_step:
  "build_inv n a stack \<Longrightarrow> n < length (an_toks a) \<Longrightarrow>
   build_inv (Suc n) (fst (buildGroups_step (a, stack) n)) (snd (buildGroups_step (a, stack) n))"
  by (simp add: buildGroups_step_eq step_open step_close step_other)

lemma build_inv_start: "build_inv 0 (buildGroups_start a) [0]"
proof -
  let ?a = "buildGroups_start a"
  have "isAncestorOrSelf ?a g 0 \<longleftrightarrow> g = 0" for g
    using isAncestorOrSelf_le [of ?a g 0] isAncestorOrSelf_self [of 0 ?a] by auto
  then show ?thesis
    by (auto simp: build_inv_def groups_range_def stack_ok_def nested_def buildGroups_start_def group_at_def
        opens_def an_size_def)
qed

definition build_state :: "Analyzer \<Rightarrow> nat \<Rightarrow> Analyzer \<times> int list" where
  "build_state a n = foldl buildGroups_step (buildGroups_start a, [0]) [0..<n]"

lemma build_state_simps:
  "build_state a 0 = (buildGroups_start a, [0])"
  "build_state a (Suc n) = buildGroups_step (build_state a n) n"
  "buildGroups a = fst (build_state a (length (an_toks a)))"
  by (simp_all add: build_state_def buildGroups_def)

lemma build_state_toks [simp]: "an_toks (fst (build_state a n)) = an_toks a"
  by (induction n) (simp_all add: build_state_simps buildGroups_start_def)

lemma build_state_inv:
  "n \<le> length (an_toks a) \<Longrightarrow> build_inv n (fst (build_state a n)) (snd (build_state a n))"
proof (induction n)
  case 0
  then show ?case using build_inv_start by (simp add: build_state_simps)
next
  case (Suc n)
  then show ?case
    using build_inv_step [of n "fst (build_state a n)" "snd (build_state a n)"] by (simp add: build_state_simps)
qed


text \<open>A fully built analyzer, and the facts the loops and the scopes rest on.\<close>

definition scopes_ok :: "Analyzer \<Rightarrow> bool" where
  "scopes_ok a \<longleftrightarrow> groups_range (length (an_toks a)) a \<and> nested (length (an_toks a)) a"

lemma buildGroups_ok: "scopes_ok (buildGroups a)"
  using build_state_inv [of "length (an_toks a)" a]
  by (simp add: scopes_ok_def build_inv_def build_state_simps)

lemma scopes_ok_fields:
  assumes "an_toks b = an_toks a" "an_groups b = an_groups a" "an_groupOf b = an_groupOf a" "an_opens b = an_opens a"
  shows "scopes_ok b \<longleftrightarrow> scopes_ok a"
proof -
  have simps: "isPunct b = isPunct a" "group_at b = group_at a" "groupOf b = groupOf a" "opens b = opens a"
    "an_size b = an_size a"
    using assms by (auto simp: isPunct_def tok_def an_size_def group_at_def groupOf_def opens_def fun_eq_iff)
  have "isAncestorOrSelf b = isAncestorOrSelf a" by (intro ext isAncestorOrSelf_cong) (simp add: simps)
  with simps assms show ?thesis
    by (simp add: scopes_ok_def groups_range_def nested_def group_wf_def index_wf_def)
qed

lemma new_analyzer_ok: "scopes_ok (new_analyzer sql offset catalog type)"
  unfolding new_analyzer_def Let_def
  by (rule iffD2 [OF scopes_ok_fields buildGroups_ok]) simp_all

lemma scopes_ok_group:
  assumes "scopes_ok a" "0 < g" "g < int (length (an_groups a))"
  shows "group_wf (length (an_toks a)) a g"
  using assms by (simp add: scopes_ok_def groups_range_def)

lemma scopes_ok_index:
  assumes "scopes_ok a" "0 \<le> i" "i < an_size a"
  shows "index_wf a (nat i)"
  using assms by (simp add: scopes_ok_def groups_range_def an_size_def nat_less_iff)

lemma isPunct_bounds: "isPunct a i c \<Longrightarrow> 0 \<le> i \<and> i < an_size a"
  by (simp add: isPunct_def)

lemma closeOf_after:
  assumes ok: "scopes_ok a" and k: "isPunct a k (CHR ''('')"
  shows "k < closeOf a k" "closeOf a k \<le> an_size a"
proof -
  note b = isPunct_bounds [OF k]
  from b scopes_ok_index [OF ok, of k] k have g: "0 < opens a k" "opens a k < int (length (an_groups a))"
    "gr_open (group_at a (opens a k)) = k" by (auto simp: index_wf_def)
  from scopes_ok_group [OF ok g(1,2)] g(3) have "k < gr_close (group_at a (opens a k))"
    "gr_close (group_at a (opens a k)) \<le> an_size a" by (auto simp: group_wf_def an_size_def)
  with g show "k < closeOf a k" "closeOf a k \<le> an_size a" by (simp_all add: closeOf_def Let_def)
qed

lemma after_group_closeOf: "scopes_ok a \<Longrightarrow> isPunct a k (CHR ''('') \<Longrightarrow> after_group a k = closeOf a k + 1"
  using closeOf_after(1) [of a k] by (simp add: after_group_def)

lemma parent_smaller:
  "scopes_ok a \<Longrightarrow> 0 \<le> g \<Longrightarrow> g < int (length (an_groups a)) \<Longrightarrow> gr_parent (group_at a g) < g"
  using scopes_ok_group [of a g] by (cases "g = 0") (auto simp: group_wf_def scopes_ok_def groups_range_def)

text \<open>The stack of \<^verbatim>\<open>groupAt\<close> is the stack \<^verbatim>\<open>buildGroups\<close> had at that token.\<close>

lemma opens_step:
  "i < n \<Longrightarrow> opens (fst (buildGroups_step st n)) (int i) = opens (fst st) (int i)"
  by (cases st) (auto simp: buildGroups_step_eq open_group_def opens_def)

lemma opens_later:
  "n \<le> m \<Longrightarrow> i < n \<Longrightarrow> opens (fst (build_state a m)) (int i) = opens (fst (build_state a n)) (int i)"
  by (induction m rule: dec_induct) (simp_all add: build_state_simps opens_step)

lemma isPunct_build [simp]: "isPunct (fst (build_state a n)) i c = isPunct a i c"
  by (simp add: isPunct_def tok_def an_size_def)

lemma groupAt_stack:
  assumes "n \<le> length (an_toks a)"
  shows "foldl (groupAt_step (buildGroups a)) [0] [0..<n] = snd (build_state a n)"
  using assms
proof (induction n)
  case 0
  then show ?case by (simp add: build_state_simps)
next
  case (Suc n)
  obtain b st where st: "build_state a n = (b, st)" by (cases "build_state a n")
  have len: "length (an_opens b) = length (an_toks a)"
    using build_state_inv [of n a] build_state_toks [of a n] Suc.prems st
    by (simp add: build_inv_def groups_range_def)
  have punct: "isPunct b i c = isPunct a i c" for i c using isPunct_build [of a n i c] st by simp
  have new: "opens (fst (buildGroups_step (b, st) n)) (int n) = int (length (an_groups b))"
    if "isPunct a (int n) (CHR ''('')"
    using that Suc.prems len punct by (simp add: buildGroups_step_eq opens_open_group)
  have "opens (buildGroups a) (int n) = opens (fst (build_state a (Suc n))) (int n)"
    unfolding build_state_simps(3) by (rule opens_later) (use Suc.prems in auto)
  moreover have "isPunct (buildGroups a) i c = isPunct a i c" for i c by (simp add: build_state_simps)
  ultimately show ?case
    using new Suc st punct by (auto simp: groupAt_step_def build_state_simps buildGroups_step_eq)
qed


text \<open>What later tokens change of a group: nothing but the end of one that is still open.\<close>

definition group_grows :: "nat \<Rightarrow> Analyzer \<Rightarrow> Analyzer \<Rightarrow> bool" where
  "group_grows n a b \<longleftrightarrow>
     length (an_groups a) \<le> length (an_groups b) \<and>
     (\<forall>g. 0 \<le> g \<and> g < int (length (an_groups a)) \<longrightarrow>
        gr_parent (group_at b g) = gr_parent (group_at a g) \<and> gr_open (group_at b g) = gr_open (group_at a g) \<and>
        (gr_close (group_at b g) = gr_close (group_at a g) \<or>
         gr_close (group_at a g) = an_size a \<and> int n \<le> gr_close (group_at b g))) \<and>
     (\<forall>g. int (length (an_groups a)) \<le> g \<and> g < int (length (an_groups b)) \<longrightarrow> int n \<le> gr_open (group_at b g))"

lemma group_grows_step:
  assumes inv: "build_inv m b st" and m: "m < length (an_toks b)" and "n \<le> m"
    and grows: "group_grows n a b" and size: "an_size a = an_size b"
  shows "group_grows n a (fst (buildGroups_step (b, st) m))"
proof -
  from inv have ok: "stack_ok b st" by (simp add: build_inv_def)
  note t = stack_ok_hd [OF ok]
  have top: "gr_close (group_at b (hd st)) = an_size b" if "length st > 1"
    using ok t stack_pop(3) [OF ok that] by (simp add: stack_ok_def)
  show ?thesis
    using grows assms(3) t top size
    by (auto simp: buildGroups_step_eq group_grows_def group_at_open_group group_at_close_group)
qed

lemma group_grows_later:
  assumes "n \<le> m" "m \<le> length (an_toks a)"
  shows "group_grows n (fst (build_state a n)) (fst (build_state a m))"
  using assms
proof (induction m rule: dec_induct)
  case base
  then show ?case by (simp add: group_grows_def)
next
  case (step m)
  have "group_grows n (fst (build_state a n)) (fst (buildGroups_step (fst (build_state a m), snd (build_state a m)) m))"
    by (rule group_grows_step) (use step build_state_inv [of m a] in \<open>auto simp: an_size_def\<close>)
  then show ?case by (simp add: build_state_simps)
qed

lemma groupAt_encloses:
  assumes k: "k \<le> length (an_toks a)" and g: "0 < g" "g < int (length (an_groups (buildGroups a)))"
  shows "isAncestorOrSelf (buildGroups a) g (groupAt (buildGroups a) (int k)) \<longleftrightarrow>
    gr_open (group_at (buildGroups a) g) < int k \<and> int k \<le> gr_close (group_at (buildGroups a) g)"
proof -
  let ?b = "buildGroups a" and ?c = "fst (build_state a k)" and ?st = "snd (build_state a k)"
  have inv: "build_inv k ?c ?st" using build_state_inv [OF k] .
  then have rng: "groups_range k ?c" and ok: "stack_ok ?c ?st" by (simp_all add: build_inv_def)
  have grows: "group_grows k ?c ?b" unfolding build_state_simps(3) by (rule group_grows_later) (use k in auto)
  have at: "groupAt ?b (int k) = hd ?st"
    using groupAt_stack [OF k] k by (simp add: groupAt_def an_size_def build_state_simps(3))
  have anc: "isAncestorOrSelf ?b g (hd ?st) \<longleftrightarrow> isAncestorOrSelf ?c g (hd ?st)"
    by (rule isAncestorOrSelf_cong) (use grows stack_ok_hd [OF ok] in \<open>auto simp: group_grows_def\<close>)
  have set: "isAncestorOrSelf ?c g (hd ?st) \<longleftrightarrow> g \<in> set ?st" using ok by (simp add: stack_ok_def)
  show ?thesis
  proof (cases "g < int (length (an_groups ?c))")
    case True
    have "g \<in> set ?st \<longleftrightarrow> gr_close (group_at ?c g) = an_size ?c" using ok g True by (simp add: stack_ok_def)
    moreover have "group_wf k ?c g" using groups_rangeD(1) [OF rng] g True by blast
    moreover have "gr_open (group_at ?b g) = gr_open (group_at ?c g)"
      "gr_close (group_at ?b g) = gr_close (group_at ?c g) \<or>
       gr_close (group_at ?c g) = an_size ?c \<and> int k \<le> gr_close (group_at ?b g)"
      using grows g True by (auto simp: group_grows_def)
    moreover have "int k \<le> an_size ?c" using k by (simp add: an_size_def)
    ultimately show ?thesis using at anc set by (auto simp: group_wf_def)
  next
    case False
    then have "g \<notin> set ?st" using ok by (auto simp: stack_ok_def)
    moreover have "int k \<le> gr_open (group_at ?b g)" using False g grows by (auto simp: group_grows_def)
    ultimately show ?thesis using at anc set by auto
  qed
qed


lemma analyzer_field_simps [simp]:
  "an_size (a\<lparr>an_ctes := cs\<rparr>) = an_size a" "an_size (a\<lparr>an_refs := rs\<rparr>) = an_size a"
  "isPunct (a\<lparr>an_ctes := cs\<rparr>) = isPunct a" "isPunct (a\<lparr>an_refs := rs\<rparr>) = isPunct a"
  "group_at (a\<lparr>an_ctes := cs\<rparr>) = group_at a" "group_at (a\<lparr>an_refs := rs\<rparr>) = group_at a"
  "groupOf (a\<lparr>an_ctes := cs\<rparr>) = groupOf a" "groupOf (a\<lparr>an_refs := rs\<rparr>) = groupOf a"
  "opens (a\<lparr>an_ctes := cs\<rparr>) = opens a" "opens (a\<lparr>an_refs := rs\<rparr>) = opens a"
  by (simp_all add: an_size_def isPunct_def tok_def group_at_def groupOf_def opens_def fun_eq_iff)

lemma isAncestorOrSelf_fields [simp]:
  "isAncestorOrSelf (a\<lparr>an_ctes := cs\<rparr>) = isAncestorOrSelf a"
  "isAncestorOrSelf (a\<lparr>an_refs := rs\<rparr>) = isAncestorOrSelf a"
  by (intro ext isAncestorOrSelf_cong; simp)+

lemma groupAt_fields [simp]:
  "groupAt (a\<lparr>an_ctes := cs\<rparr>) = groupAt a" "groupAt (a\<lparr>an_refs := rs\<rparr>) = groupAt a"
proof -
  have "groupAt_step (a\<lparr>an_ctes := cs\<rparr>) = groupAt_step a" "groupAt_step (a\<lparr>an_refs := rs\<rparr>) = groupAt_step a"
    by (simp_all add: fun_eq_iff groupAt_step_def)
  then show "groupAt (a\<lparr>an_ctes := cs\<rparr>) = groupAt a" "groupAt (a\<lparr>an_refs := rs\<rparr>) = groupAt a"
    by (intro ext; simp add: groupAt_def)+
qed

text \<open>The analyzer the constructor starts from.\<close>

definition raw_analyzer :: "bytes \<Rightarrow> nat \<Rightarrow> CompletionCatalog \<Rightarrow> DatabaseType \<Rightarrow> Analyzer" where
  "raw_analyzer sql offset catalog type =
     (let all = tokenize sql (dialectFor type); span = statementAt all offset (length sql)
      in \<lparr>an_catalog = catalog, an_type = type, an_all = all,
          an_toks = statement_tokens all span, an_span = span, an_groups = [],
          an_groupOf = [], an_opens = [], an_ctes = [], an_refs = []\<rparr>)"

lemma new_analyzer_raw:
  "new_analyzer sql offset catalog type =
     (let a1 = buildGroups (raw_analyzer sql offset catalog type); a2 = a1\<lparr>an_ctes := collectCtes a1\<rparr>
      in a2\<lparr>an_refs := collectRefs a2\<rparr>)"
  by (simp add: new_analyzer_def raw_analyzer_def Let_def)

lemma buildGroups_keeps [simp]:
  "an_toks (buildGroups a) = an_toks a" "an_catalog (buildGroups a) = an_catalog a"
  "an_all (buildGroups a) = an_all a" "an_type (buildGroups a) = an_type a" "an_span (buildGroups a) = an_span a"
proof -
  have step: "an_toks (fst (buildGroups_step st n)) = an_toks (fst st)"
    "an_catalog (fst (buildGroups_step st n)) = an_catalog (fst st)"
    "an_all (fst (buildGroups_step st n)) = an_all (fst st)" "an_type (fst (buildGroups_step st n)) = an_type (fst st)"
    "an_span (fst (buildGroups_step st n)) = an_span (fst st)" for st n
    by (simp_all add: buildGroups_step_def Let_def)
  have "an_toks (fst (build_state a n)) = an_toks a \<and> an_catalog (fst (build_state a n)) = an_catalog a \<and>
      an_all (fst (build_state a n)) = an_all a \<and> an_type (fst (build_state a n)) = an_type a \<and>
      an_span (fst (build_state a n)) = an_span a" for n
    by (induction n) (simp_all add: build_state_simps buildGroups_start_def step)
  then show "an_toks (buildGroups a) = an_toks a" "an_catalog (buildGroups a) = an_catalog a"
    "an_all (buildGroups a) = an_all a" "an_type (buildGroups a) = an_type a" "an_span (buildGroups a) = an_span a"
    by (simp_all add: build_state_simps(3))
qed

lemma new_analyzer_sel [simp]:
  "an_catalog (new_analyzer sql offset catalog type) = catalog"
  "an_all (new_analyzer sql offset catalog type) = tokenize sql (dialectFor type)"
  "an_type (new_analyzer sql offset catalog type) = type"
  by (simp_all add: new_analyzer_raw raw_analyzer_def Let_def)

lemma new_analyzer_toks:
  "an_toks (new_analyzer sql offset catalog type) =
     statement_tokens (tokenize sql (dialectFor type))
       (statementAt (tokenize sql (dialectFor type)) offset (length sql))"
  by (simp add: new_analyzer_raw raw_analyzer_def Let_def)

lemma groupAt_new:
  fixes sql offset catalog type
  defines "a \<equiv> new_analyzer sql offset catalog type"
  assumes "0 \<le> k" "k \<le> an_size a" "0 < g" "g < int (length (an_groups a))"
  shows "isAncestorOrSelf a g (groupAt a k) \<longleftrightarrow> gr_open (group_at a g) < k \<and> k \<le> gr_close (group_at a g)"
  using groupAt_encloses [of "nat k" "raw_analyzer sql offset catalog type" g] assms(2-)
  by (simp add: a_def new_analyzer_raw Let_def an_size_def nat_le_iff)

section \<open>Lookups\<close>

interpretation ref_search: ranked_search
  "\<lambda>r :: RelationRef. ieq (rr_name r) name \<and> isAncestorOrSelf a (rr_group r) g" "\<lambda>r :: RelationRef. depthOf a (rr_group r)"
  for a :: Analyzer and name :: bytes and g :: int
  by unfold_locales (rule depthOf_nonneg)

lemma findRef_best: "findRef a name g = ref_search.best name a g (an_refs a)"
proof -
  have "findRef_step a name g = ref_search.keep_better name a g"
    by (auto simp: fun_eq_iff findRef_step_def ref_search.keep_better_def Let_def)
  then show ?thesis by (simp add: findRef_def ref_search.best_def)
qed

text \<open>The candidates of \<^verbatim>\<open>findRelation\<close>: tables, then views.\<close>

definition candidates :: "CompletionCatalog \<Rightarrow> (Table \<times> bool) list" where
  "candidates catalog = map (\<lambda>t. (t, False)) (cat_tables catalog) @ map (\<lambda>t. (t, True)) (cat_views catalog)"

definition relation_matches :: "bytes list \<Rightarrow> Table \<Rightarrow> bool" where
  "relation_matches path t \<longleftrightarrow> ieq (tbl_name t) (last path) \<and> qualifierMatches (tbl_schema t) (butlast path)"

interpretation relation_search: ranked_search
  "\<lambda>(t, v :: bool). relation_matches path t" "\<lambda>(t, v :: bool). relation_rank catalog (last path) t"
  for catalog :: CompletionCatalog and path :: "bytes list"
  by unfold_locales (auto simp: relation_rank_def)

definition as_relation :: "(Table \<times> bool) option \<Rightarrow> Relation" where
  "as_relation x = (case x of None \<Rightarrow> \<lparr>rel_table = None, rel_isView = False\<rparr>
     | Some (t, v) \<Rightarrow> \<lparr>rel_table = Some t, rel_isView = v\<rparr>)"

lemma consider_simulates:
  "foldl (consider_table catalog (last path) (butlast path) v) (as_relation x, r) ts =
     (let st = foldl (relation_search.keep_better path catalog) (x, r) (map (\<lambda>t. (t, v)) ts)
      in (as_relation (fst st), snd st))"
proof (induction ts arbitrary: x r)
  case (Cons t ts)
  have "consider_table catalog (last path) (butlast path) v (as_relation x, r) t =
      (let st = relation_search.keep_better path catalog (x, r) (t, v) in (as_relation (fst st), snd st))"
    unfolding relation_search.keep_better_def
    by (auto simp: consider_table_def relation_matches_def as_relation_def Let_def)
  with Cons.IH show ?case by (simp add: Let_def)
qed simp

lemma find_relation_best:
  assumes "path \<noteq> []"
  shows "find_relation catalog path = as_relation (relation_search.best path catalog (candidates catalog))"
proof -
  have none: "\<lparr>rel_table = None, rel_isView = False\<rparr> = as_relation None" by (simp add: as_relation_def)
  show ?thesis
    unfolding find_relation_def none relation_search.best_def candidates_def
    using assms by (simp add: consider_simulates Let_def)
qed

lemma depth_order: "strict_weak_order (\<lambda>x y. depthOf a (rr_group x) > depthOf a (rr_group y))"
  by unfold_locales auto

interpretation depth_sort: strict_weak_order "\<lambda>x y :: RelationRef. depthOf a (rr_group x) > depthOf a (rr_group y)"
  for a :: Analyzer
  by (rule depth_order)


section \<open>What the constructor collects\<close>

lemma opens_range:
  assumes "scopes_ok a" "isPunct a k (CHR ''('')"
  shows "0 < opens a k" "opens a k < int (length (an_groups a))" "gr_open (group_at a (opens a k)) = k"
proof -
  note b = isPunct_bounds [OF assms(2)]
  from b scopes_ok_index [OF assms(1), of k] assms(2)
  show "0 < opens a k" "opens a k < int (length (an_groups a))" "gr_open (group_at a (opens a k)) = k"
    by (auto simp: index_wf_def)
qed


definition ref_ok :: "Analyzer \<Rightarrow> RelationRef \<Rightarrow> bool" where
  "ref_ok a r \<longleftrightarrow>
     0 \<le> rr_group r \<and> rr_group r < int (length (an_groups a)) \<and>
     (rr_derived r = -1 \<or> 0 < rr_derived r \<and> rr_derived r < int (length (an_groups a)))"

lemma parse_relation_ok:
  assumes ok: "scopes_ok a" and p: "parse_relation a into g j = Some (r, j')"
    and g: "0 \<le> g" "g < int (length (an_groups a))"
  shows "ref_ok a r"
proof -
  from p obtain r1 j1 where 1: "relation_item a into g j = Some (r1, j1)"
    by (auto simp: parse_relation_def split: option.splits)
  then have "ref_ok a r1"
    using opens_range [OF ok] g
    by (auto simp: relation_item_def ref_ok_def empty_ref_def split: if_splits prod.splits)
  moreover have "ref_ok a (fst (relation_alias a into x k)) = ref_ok a x"
    "ref_ok a (fst (relation_columns a x k)) = ref_ok a x" "ref_ok a (relation_name x) = ref_ok a x" for x k
    by (simp_all add: relation_alias_def relation_columns_def relation_name_def ref_ok_def)
  ultimately show ?thesis
    using p 1 unfolding parse_relation_def by (auto split: prod.splits) (metis fst_conv)
qed

lemma relation_list_ok:
  assumes "scopes_ok a" "0 \<le> g" "g < int (length (an_groups a))"
  shows "r \<in> set (relation_list a is_list into g j) \<Longrightarrow> ref_ok a r \<and> rr_name r \<noteq> []"
proof (induction j rule: measure_induct_rule [of "\<lambda>j. nat (an_size a - j)"])
  case (less j)
  let ?p = "parse_relation a into g (skip_forward a relation_skip_words j)"
  show ?case
  proof (cases "j < an_size a \<and> groupOf a j = g \<and> ?p \<noteq> None")
    case True
    then obtain r1 j1 where p: "?p = Some (r1, j1)" by auto
    have "j < j1" using parse_relation_progress [OF p] skip_forward_ge [of j a relation_skip_words] by linarith
    then have "nat (an_size a - (j1 + 1)) < nat (an_size a - j)" using True by linarith
    from less.IH [OF this] less.prems True p parse_relation_ok [OF assms(1) p assms(2,3)] show ?thesis
      by (auto simp: relation_list.simps [of a is_list into g j] split: if_splits)
  next
    case False
    then have "relation_list a is_list into g j = []"
      by (subst relation_list.simps) (auto split: option.split)
    with less.prems show ?thesis by simp
  qed
qed

lemma collectRefs_ok:
  assumes ok: "scopes_ok a" and r: "r \<in> set (collectRefs a)"
  shows "ref_ok a r \<and> rr_name r \<noteq> []"
proof -
  from r obtain i where i: "i < length (an_toks a)" and "r \<in> set (parseRelationList a (int i))"
    by (auto simp: collectRefs_def split: if_splits)
  moreover have "0 \<le> groupOf a (int i)" "groupOf a (int i) < int (length (an_groups a))"
    using scopes_ok_index [OF ok, of "int i"] i by (simp_all add: index_wf_def an_size_def)
  ultimately show ?thesis
    using relation_list_ok [OF ok] unfolding parseRelationList_def by blast
qed

lemma cte_list_ok:
  "scopes_ok a \<Longrightarrow> c \<in> set (cte_list a j) \<Longrightarrow> 0 < cte_body c \<and> cte_body c < int (length (an_groups a))"
proof (induction a j rule: cte_list.induct)
  case (1 a j)
  have item: "0 < cte_body d \<and> cte_body d < int (length (an_groups a))" if "cte_item a j = Some (d, k)" for d k
    using that opens_range [OF "1.prems"(1)] by (auto simp: cte_item_def Let_def split: prod.splits if_splits)
  show ?case
  proof (cases "isIdent a j \<and> cte_item a j \<noteq> None")
    case True
    then obtain d k where dk: "cte_item a j = Some (d, k)" by auto
    with True "1.prems" "1.IH" [of _ d k] item [OF dk] show ?thesis
      by (auto simp: cte_list.simps [of a j] split: if_splits)
  next
    case False
    then have "cte_list a j = []" by (subst cte_list.simps) (auto split: option.split)
    with "1.prems" show ?thesis by simp
  qed
qed


lemma collectCtes_ok:
  "scopes_ok a \<Longrightarrow> c \<in> set (collectCtes a) \<Longrightarrow> 0 < cte_body c \<and> cte_body c < int (length (an_groups a))"
  by (auto simp: collectCtes_def dest: cte_list_ok split: if_splits)

lemma new_analyzer_collects:
  fixes sql offset catalog type
  defines "a \<equiv> new_analyzer sql offset catalog type"
  shows "\<And>r. r \<in> set (an_refs a) \<Longrightarrow> ref_ok a r \<and> rr_name r \<noteq> []"
    "\<And>c. c \<in> set (an_ctes a) \<Longrightarrow> 0 < cte_body c \<and> cte_body c < int (length (an_groups a))"
proof -
  define a1 where "a1 = buildGroups (raw_analyzer sql offset catalog type)"
  define a2 where "a2 = a1\<lparr>an_ctes := collectCtes a1\<rparr>"
  have a: "a = a2\<lparr>an_refs := collectRefs a2\<rparr>"
    by (simp add: a_def new_analyzer_raw Let_def a1_def a2_def)
  have ok1: "scopes_ok a1" unfolding a1_def by (rule buildGroups_ok)
  then have ok2: "scopes_ok a2" using scopes_ok_fields [of a2 a1] by (simp add: a2_def)
  have "ref_ok a = ref_ok a2" by (simp add: fun_eq_iff ref_ok_def a)
  then show "r \<in> set (an_refs a) \<Longrightarrow> ref_ok a r \<and> rr_name r \<noteq> []" for r
    using collectRefs_ok [OF ok2] by (simp add: a)
  show "c \<in> set (an_ctes a) \<Longrightarrow> 0 < cte_body c \<and> cte_body c < int (length (an_groups a))" for c
    using collectCtes_ok [OF ok1] by (simp add: a a2_def)
qed

text \<open>The root group is an ancestor of every group.\<close>

lemma root_ancestor:
  assumes "scopes_ok a"
  shows "0 \<le> g \<Longrightarrow> g < int (length (an_groups a)) \<Longrightarrow> isAncestorOrSelf a 0 g"
proof (induction g rule: measure_induct_rule [of nat])
  case (less g)
  show ?case
  proof (cases "g = 0")
    case False
    then have "group_wf (length (an_toks a)) a g" using scopes_ok_group [OF assms] less.prems by simp
    then have p: "0 \<le> gr_parent (group_at a g)" "gr_parent (group_at a g) < g" by (simp_all add: group_wf_def)
    have "isAncestorOrSelf a 0 (gr_parent (group_at a g))"
      by (rule less.IH) (use p less.prems in auto)
    with False less.prems p isAncestorOrSelf_parent [of g 0 a] show ?thesis by simp
  qed (simp add: isAncestorOrSelf_self)
qed

lemma groupAt_range:
  fixes sql offset catalog type
  defines "a \<equiv> new_analyzer sql offset catalog type"
  assumes "0 \<le> k" "k \<le> an_size a"
  shows "0 \<le> groupAt a k \<and> groupAt a k < int (length (an_groups a))"
proof -
  let ?r = "raw_analyzer sql offset catalog type"
  have k: "nat k \<le> length (an_toks ?r)"
    using assms by (simp add: a_def new_analyzer_raw Let_def an_size_def nat_le_iff)
  have "groupAt (buildGroups ?r) k = hd (snd (build_state ?r (nat k)))"
    using groupAt_stack [OF k] k assms(2) by (simp add: groupAt_def an_size_def min_def nat_le_iff)
  moreover have "build_inv (nat k) (fst (build_state ?r (nat k))) (snd (build_state ?r (nat k)))"
    using k by (rule build_state_inv)
  moreover have "group_grows (nat k) (fst (build_state ?r (nat k))) (buildGroups ?r)"
    unfolding build_state_simps(3) by (rule group_grows_later) (use k in auto)
  ultimately have "0 \<le> groupAt (buildGroups ?r) k" "groupAt (buildGroups ?r) k < int (length (an_groups (buildGroups ?r)))"
    using stack_ok_hd by (auto simp: build_inv_def group_grows_def, fastforce)
  then show ?thesis by (simp add: a_def new_analyzer_raw Let_def)
qed


section \<open>Columns come from the catalog\<close>

text \<open>
  A column that points to a catalog column has that column's type and, up to case, its name, and
  the column belongs to a table or view of the catalog.
\<close>

definition col_sound :: "CompletionCatalog \<Rightarrow> ColInfo \<Rightarrow> bool" where
  "col_sound catalog c \<longleftrightarrow>
     (\<forall>col. cl_column c = Some col \<longrightarrow>
        ieq (cl_name c) (col_name col) \<and> cl_type c = col_type col \<and>
        (\<exists>t\<in>set (cat_tables catalog) \<union> set (cat_views catalog). col \<in> set (tbl_columns t)))"

lemma named_column_sound [simp]: "col_sound catalog (named_column n)"
  by (simp add: col_sound_def named_column_def)

lemma named_column_name [simp]: "cl_name (named_column n) = n"
  by (simp add: named_column_def)

lemma applyAliases_sound: "list_all (col_sound cat) cols \<Longrightarrow> list_all (col_sound cat) (applyAliases cols als)"
proof (induction cols als rule: applyAliases.induct)
  case (3 c cols al als)
  then show ?case by (simp add: col_sound_def)
qed simp_all

lemma tableColumns_sound:
  "t \<in> set (cat_tables cat) \<union> set (cat_views cat) \<Longrightarrow> list_all (col_sound cat) (tableColumns t)"
  by (auto simp: tableColumns_def list_all_iff col_sound_def)

lemma find_relation_table:
  assumes "rel_table (find_relation catalog path) = Some t"
  shows "path \<noteq> []" "t \<in> set (cat_tables catalog) \<union> set (cat_views catalog)" "relation_matches path t"
    "rel_isView (find_relation catalog path) \<longrightarrow> t \<in> set (cat_views catalog)"
    "\<not> rel_isView (find_relation catalog path) \<longrightarrow> t \<in> set (cat_tables catalog)"
proof -
  show ne: "path \<noteq> []" using assms by (auto simp: find_relation_def)
  from assms obtain v where b: "relation_search.best path catalog (candidates catalog) = Some (t, v)"
    and v: "rel_isView (find_relation catalog path) = v"
    unfolding find_relation_best [OF ne] by (auto simp: as_relation_def split: option.splits)
  from relation_search.best_Some(1,2) [OF b] v
  show "t \<in> set (cat_tables catalog) \<union> set (cat_views catalog)" "relation_matches path t"
    "rel_isView (find_relation catalog path) \<longrightarrow> t \<in> set (cat_views catalog)"
    "\<not> rel_isView (find_relation catalog path) \<longrightarrow> t \<in> set (cat_tables catalog)"
    by (auto simp: candidates_def)
qed

lemma pick_column_sound:
  "col_sound cat info \<Longrightarrow> ieq (cl_name info) name \<Longrightarrow> list_all (list_all (col_sound cat)) colss \<Longrightarrow>
   col_sound cat (pick_column name info colss)"
proof (induction name info colss rule: pick_column.induct)
  case (2 name info cols rest)
  have found: "col_sound cat (info\<lparr>cl_type := cl_type c, cl_column := cl_column c\<rparr>)"
    if "List.find (\<lambda>c. ieq (cl_name c) name) cols = Some c" for c
  proof -
    from that "2.prems"(3) have c: "col_sound cat c" "ieq (cl_name c) name"
      by (auto simp: find_Some_iff list_all_iff)
    then have "ieq (cl_name info) (cl_name c)" using "2.prems"(2) by (simp add: ieq_lower)
    with c(1) show ?thesis by (auto simp: col_sound_def intro: ieq_trans)
  qed
  with "2.IH" "2.prems" show ?case by (auto simp: Let_def split: option.split)
qed simp

lemma deriveItem_sound:
  assumes "\<And>r. list_all (col_sound cat) (cols_of r)"
  shows "list_all (col_sound cat) (deriveItem a g cols_of item)"
proof -
  have "list_all (list_all (col_sound cat)) (map cols_of rs)" for rs using assms by (simp add: list_all_iff)
  then have "col_sound cat (pick_column n (named_column n) (map cols_of rs))" for n rs
    using pick_column_sound [of cat "named_column n" n] by simp
  moreover have "list_all (col_sound cat) (concat (map cols_of rs))" for rs using assms by (simp add: list_all_iff)
  ultimately show ?thesis
    using assms by (simp add: deriveItem_def Let_def split: option.split)
qed

lemma select_list_sound:
  "(\<And>r. list_all (col_sound cat) (cols_of r)) \<Longrightarrow> list_all (col_sound cat) (select_list a g cols_of)"
  using deriveItem_sound [of cat cols_of a g] by (simp add: select_list_def Let_def list_all_iff)

lemma columns_sound:
  "list_all (col_sound (an_catalog a)) (selectColumns a g d)"
  "list_all (col_sound (an_catalog a)) (cteColumns a c d)"
  "list_all (col_sound (an_catalog a)) (refColumns a r d)"
proof (induction a g d and a c d and a r d rule: selectColumns_cteColumns_refColumns.induct)
  case (1 a g d)
  then show ?case by (subst selectColumns.simps) (simp add: select_list_sound)
next
  case (2 a c d)
  then show ?case by (subst cteColumns.simps) (simp add: applyAliases_sound)
next
  case (3 a r d)
  have "list_all (col_sound (an_catalog a)) (tableColumns t)" if "rel_table (findRelation a (rr_path r)) = Some t" for t
    by (rule tableColumns_sound) (rule find_relation_table(2) [OF that [unfolded findRelation_def]])
  with 3 show ?case
    by (subst refColumns.simps) (auto intro!: applyAliases_sound split: option.split)
qed


section \<open>Groups are the matching parentheses\<close>

text \<open>
  Matching parentheses by counting, independent of the stack: the parentheses opened less those closed
  among the tokens from \<open>i\<close> up to, not including, \<open>j\<close>.
\<close>

definition paren_step :: "Analyzer \<Rightarrow> int \<Rightarrow> int" where
  "paren_step a k = (if isPunct a k (CHR ''('') then 1 else if isPunct a k (CHR '')'') then -1 else 0)"

definition balance :: "Analyzer \<Rightarrow> int \<Rightarrow> int \<Rightarrow> int" where
  "balance a i j = (\<Sum>k\<in>{i..<j}. paren_step a k)"

lemma balance_Suc: "i \<le> j \<Longrightarrow> balance a i (j + 1) = balance a i j + paren_step a j"
proof -
  assume "i \<le> j"
  then have "{i..<j + 1} = insert j {i..<j}" by auto
  then show ?thesis by (simp add: balance_def)
qed

lemma balance_cong: "(\<And>k c. isPunct b k c = isPunct a k c) \<Longrightarrow> balance b = balance a"
  unfolding balance_def paren_step_def by presburger

lemma balance_build [simp]:
  "balance (mark a n g) = balance a" "balance (open_group a n p) = balance a" "balance (close_group a n t) = balance a"
  by (rule balance_cong, simp)+

definition depth_ok :: "nat \<Rightarrow> Analyzer \<Rightarrow> int list \<Rightarrow> bool" where
  "depth_ok n a stack \<longleftrightarrow>
     (\<forall>p. Suc p < length stack \<longrightarrow> balance a (gr_open (group_at a (stack ! p))) (int n) = int p + 1)"

definition group_matched :: "nat \<Rightarrow> Analyzer \<Rightarrow> int \<Rightarrow> bool" where
  "group_matched n a g \<longleftrightarrow>
     (\<forall>j. gr_open (group_at a g) < j \<and> j \<le> gr_close (group_at a g) \<and> j \<le> int n \<longrightarrow> 0 < balance a (gr_open (group_at a g)) j) \<and>
     (gr_close (group_at a g) < int n \<longrightarrow> balance a (gr_open (group_at a g)) (gr_close (group_at a g) + 1) = 0)"

definition matched :: "nat \<Rightarrow> Analyzer \<Rightarrow> bool" where
  "matched n a \<longleftrightarrow> (\<forall>g. 0 < g \<and> g < int (length (an_groups a)) \<longrightarrow> group_matched n a g)"

lemma group_matched_mark [simp]: "group_matched n (mark a k h) g = group_matched n a g"
  by (simp add: group_matched_def)

lemma group_matched_Suc:
  assumes "group_matched n a g" "n < length (an_toks a)"
    and "gr_close (group_at a g) < int n \<or>
      gr_close (group_at a g) = an_size a \<and> 0 < balance a (gr_open (group_at a g)) (int n + 1)"
  shows "group_matched (Suc n) a g"
proof -
  have "0 < balance a (gr_open (group_at a g)) j"
    if j: "gr_open (group_at a g) < j" "j \<le> gr_close (group_at a g)" "j \<le> int (Suc n)" for j
  proof (cases "j = int n + 1")
    case True
    with assms(3) j show ?thesis by auto
  next
    case False
    with j have "j \<le> int n" by simp
    with assms(1) j show ?thesis by (simp add: group_matched_def)
  qed
  with assms show ?thesis by (auto simp: group_matched_def an_size_def)
qed

text \<open>The groups still open stand on the stack, each counted once more than the one above it.\<close>

lemma open_on_stack:
  assumes "groups_range n a" "stack_ok a stack" "0 < g" "g < int (length (an_groups a))"
  obtains (closed) "gr_close (group_at a g) < int n"
  | (stacked) p where "Suc p < length stack" "stack ! p = g" "gr_close (group_at a g) = an_size a"
proof (cases "g \<in> set stack")
  case True
  then obtain p where p: "p < length stack" "stack ! p = g" by (auto simp: in_set_conv_nth)
  have "stack ! (length stack - 1) = 0" using assms(2) by (auto simp: stack_ok_def last_conv_nth)
  with p assms(3) have "p \<noteq> length stack - 1" by auto
  with p have "Suc p < length stack" by simp
  moreover have "gr_close (group_at a g) = an_size a" using assms(2-4) True unfolding stack_ok_def by blast
  ultimately show ?thesis using p(2) stacked by blast
next
  case False
  with assms(2-4) have "gr_close (group_at a g) \<noteq> an_size a" by (simp add: stack_ok_def)
  with groups_rangeD(1) [OF assms(1,3,4)] closed show ?thesis by (auto simp: group_wf_def)
qed

lemma depth_stacked:
  assumes "groups_range n a" "stack_ok a stack" "depth_ok n a stack" "Suc p < length stack"
  shows "0 < stack ! p" "stack ! p < int (length (an_groups a))"
    "balance a (gr_open (group_at a (stack ! p))) (int n + 1) = int p + 1 + paren_step a (int n)"
proof -
  show g: "0 < stack ! p" "stack ! p < int (length (an_groups a))" using assms(2,4) by (auto simp: stack_ok_def)
  have "gr_open (group_at a (stack ! p)) \<le> int n" using groups_rangeD(1) [OF assms(1) g] by (simp add: group_wf_def)
  with assms(3,4) show "balance a (gr_open (group_at a (stack ! p))) (int n + 1) = int p + 1 + paren_step a (int n)"
    by (simp add: balance_Suc depth_ok_def)
qed

lemma matched_other:
  assumes inv: "build_inv n a stack" and n: "n < length (an_toks a)" and d: "depth_ok n a stack" and m: "matched n a"
    and other: "\<not> isPunct a (int n) (CHR ''('')" "isPunct a (int n) (CHR '')'') \<Longrightarrow> length stack \<le> 1"
  shows "depth_ok (Suc n) (mark a n h) stack \<and> matched (Suc n) (mark a n h)"
proof -
  from inv have rng: "groups_range n a" and ok: "stack_ok a stack" by (simp_all add: build_inv_def)
  have zero: "paren_step a (int n) = 0" if "Suc p < length stack" for p
    using other that by (auto simp: paren_step_def)
  have "group_matched (Suc n) a g" if g: "0 < g" "g < int (length (an_groups a))" for g
  proof (rule group_matched_Suc [OF _ n])
    show "group_matched n a g" using m g by (simp add: matched_def)
    show "gr_close (group_at a g) < int n \<or>
        gr_close (group_at a g) = an_size a \<and> 0 < balance a (gr_open (group_at a g)) (int n + 1)"
      using open_on_stack [OF rng ok g] depth_stacked(3) [OF rng ok d] zero by fastforce
  qed
  then have "matched (Suc n) (mark a n h)" by (simp add: matched_def)
  moreover have "depth_ok (Suc n) (mark a n h) stack"
    using depth_stacked(3) [OF rng ok d] zero by (simp add: depth_ok_def add.commute)
  ultimately show ?thesis by blast
qed

lemma matched_open:
  assumes inv: "build_inv n a stack" and n: "n < length (an_toks a)" and d: "depth_ok n a stack" and m: "matched n a"
    and opn: "isPunct a (int n) (CHR ''('')"
  shows "depth_ok (Suc n) (mark (open_group a n t) n h) (int (length (an_groups a)) # stack) \<and>
    matched (Suc n) (mark (open_group a n t) n h)"
proof -
  from inv have rng: "groups_range n a" and ok: "stack_ok a stack" by (simp_all add: build_inv_def)
  let ?m = "int (length (an_groups a))" and ?b = "open_group a n t"
  have one: "paren_step a (int n) = 1" using opn by (simp add: paren_step_def)
  have new: "balance a (int n) (int n + 1) = 1" using balance_Suc [of "int n" "int n" a] one by (simp add: balance_def)
  have gb: "group_at ?b g = (if g = ?m then \<lparr>gr_parent = t, gr_open = int n, gr_close = an_size a\<rparr> else group_at a g)"
    if "0 \<le> g" "g \<le> ?m" for g using that by (rule group_at_open_group)
  have "group_matched (Suc n) ?b g" if g: "0 < g" "g < int (length (an_groups ?b))" for g
  proof (cases "g = ?m")
    case True
    have "0 < balance a (int n) j" if "int n < j" "j \<le> int (Suc n)" for j
      using that new by (cases "j = int n + 1") simp_all
    with True gb [of g] n show ?thesis by (simp add: group_matched_def an_size_def)
  next
    case False
    with g have g': "0 < g" "g < ?m" by auto
    have "group_matched (Suc n) a g"
    proof (rule group_matched_Suc [OF _ n])
      show "group_matched n a g" using m g' by (simp add: matched_def)
      show "gr_close (group_at a g) < int n \<or>
          gr_close (group_at a g) = an_size a \<and> 0 < balance a (gr_open (group_at a g)) (int n + 1)"
        using open_on_stack [OF rng ok g'] depth_stacked(3) [OF rng ok d] one by fastforce
    qed
    with False gb [of g] g' show ?thesis by (simp add: group_matched_def)
  qed
  then have "matched (Suc n) (mark ?b n h)" by (simp add: matched_def)
  moreover have "balance a (gr_open (group_at ?b ((?m # stack) ! p))) (int n + 1) = int p + 1"
    if "Suc p < length (?m # stack)" for p
  proof (cases p)
    case 0
    with gb [of ?m] new show ?thesis by simp
  next
    case (Suc q)
    with that depth_stacked [OF rng ok d, of q] gb [of "stack ! q"] one show ?thesis by simp
  qed
  then have "depth_ok (Suc n) (mark ?b n h) (?m # stack)" by (simp add: depth_ok_def add.commute)
  ultimately show ?thesis by blast
qed

lemma matched_close:
  assumes inv: "build_inv n a stack" and n: "n < length (an_toks a)" and d: "depth_ok n a stack" and m: "matched n a"
    and cls: "isPunct a (int n) (CHR '')'')" and len: "length stack > 1"
  shows "depth_ok (Suc n) (mark (close_group a n (hd stack)) n h) (tl stack) \<and>
    matched (Suc n) (mark (close_group a n (hd stack)) n h)"
proof -
  from inv have rng: "groups_range n a" and ok: "stack_ok a stack" by (simp_all add: build_inv_def)
  let ?t = "hd stack" and ?b = "close_group a n (hd stack)"
  have t: "0 < ?t" "?t < int (length (an_groups a))" and hd: "stack ! 0 = ?t"
    using stack_ok_hd [OF ok] stack_pop(3) [OF ok len] by (auto simp: hd_conv_nth)
  have minus: "paren_step a (int n) = -1" using cls isPunct_both by (auto simp: paren_step_def)
  have gb: "group_at ?b g = (if g = ?t then (group_at a ?t)\<lparr>gr_close := int n\<rparr> else group_at a g)" if "0 \<le> g" for g
    using that t by (simp add: group_at_close_group)
  have top: "gr_close (group_at a ?t) = an_size a"
    using ok t stack_ok_hd(4) [OF ok] by (simp add: stack_ok_def)
  have "group_matched (Suc n) ?b g" if g: "0 < g" "g < int (length (an_groups a))" for g
  proof (cases "g = ?t")
    case True
    have "balance a (gr_open (group_at a ?t)) (int n + 1) = 0"
      using depth_stacked(3) [OF rng ok d, of 0] len hd minus by simp
    moreover have "group_matched n a ?t" using m t by (simp add: matched_def)
    ultimately show ?thesis using True gb [of g] g n top by (auto simp: group_matched_def an_size_def)
  next
    case False
    have "group_matched (Suc n) a g"
    proof (rule group_matched_Suc [OF _ n])
      show "group_matched n a g" using m g by (simp add: matched_def)
      show "gr_close (group_at a g) < int n \<or>
          gr_close (group_at a g) = an_size a \<and> 0 < balance a (gr_open (group_at a g)) (int n + 1)"
      proof (cases rule: open_on_stack [OF rng ok g])
        case (2 p)
        with False hd have "p \<noteq> 0" by (metis)
        with 2 depth_stacked(3) [OF rng ok d, of p] minus show ?thesis by simp
      qed simp
    qed
    with False gb [of g] g show ?thesis by (simp add: group_matched_def)
  qed
  then have "matched (Suc n) (mark ?b n h)" by (simp add: matched_def)
  moreover have "balance a (gr_open (group_at ?b (tl stack ! p))) (int n + 1) = int p + 1"
    if "Suc p < length (tl stack)" for p
  proof -
    have "tl stack ! p = stack ! Suc p" using that by (simp add: nth_tl)
    moreover have "Suc (Suc p) < length stack" using that by simp
    moreover have "gr_open (group_at ?b (stack ! Suc p)) = gr_open (group_at a (stack ! Suc p))"
      using gb [OF less_imp_le [OF depth_stacked(1) [OF rng ok d \<open>Suc (Suc p) < length stack\<close>]]] by simp
    ultimately show ?thesis using depth_stacked(3) [OF rng ok d, of "Suc p"] minus by simp
  qed
  then have "depth_ok (Suc n) (mark ?b n h) (tl stack)" by (simp add: depth_ok_def add.commute)
  ultimately show ?thesis by blast
qed

lemma build_state_matched:
  "n \<le> length (an_toks a) \<Longrightarrow>
   depth_ok n (fst (build_state a n)) (snd (build_state a n)) \<and> matched n (fst (build_state a n))"
proof (induction n)
  case 0
  then show ?case by (auto simp: build_state_simps buildGroups_start_def depth_ok_def matched_def)
next
  case (Suc n)
  obtain b st where st: "build_state a n = (b, st)" by (cases "build_state a n")
  have inv: "build_inv n b st" using build_state_inv [of n a] Suc.prems st by simp
  have n: "n < length (an_toks b)" using build_state_toks [of a n] Suc.prems st by simp
  from Suc st have d: "depth_ok n b st" "matched n b" by simp_all
  show ?case
    using matched_open [OF inv n d] matched_close [OF inv n d] matched_other [OF inv n d] st
    by (auto simp: build_state_simps buildGroups_step_eq not_less)
qed

definition all_matched :: "Analyzer \<Rightarrow> bool" where
  "all_matched a \<longleftrightarrow> matched (length (an_toks a)) a"

lemma all_matched_fields:
  assumes "an_toks b = an_toks a" "an_groups b = an_groups a"
  shows "all_matched b \<longleftrightarrow> all_matched a"
proof -
  have "isPunct b k x = isPunct a k x" "group_at b g = group_at a g" for k x g
    using assms by (simp_all add: isPunct_def tok_def an_size_def group_at_def)
  moreover from this(1) have "balance b = balance a" by (rule balance_cong)
  ultimately show ?thesis using assms by (simp add: all_matched_def matched_def group_matched_def)
qed

lemma buildGroups_matched: "all_matched (buildGroups a)"
  using build_state_matched [of "length (an_toks a)" a] by (simp add: build_state_simps(3) all_matched_def)

lemma new_analyzer_matched: "all_matched (new_analyzer sql offset catalog type)"
  unfolding new_analyzer_def Let_def
  by (rule iffD2 [OF all_matched_fields buildGroups_matched]) simp_all

lemma scopes_ok_opens:
  assumes "scopes_ok a" "isPunct a k (CHR ''('')"
  shows "0 < opens a k" "opens a k < int (length (an_groups a))" "gr_open (group_at a (opens a k)) = k"
  using scopes_ok_index [OF assms(1), of k] isPunct_bounds [OF assms(2)] assms(2) by (simp_all add: index_wf_def)


section \<open>Properties\<close>

text \<open>C9: the groups of every analyzer are its parentheses. Every opening parenthesis opens the group
  that begins at it, and every group but the first begins at its own parenthesis. A group ends at
  the matching parenthesis, the first one after which as many are closed as were opened since its
  beginning, or at the end when there is none. A token lies in a group or in one below it exactly
  when it stands between the group's parentheses.\<close>
theorem group_tree:
  "let a = new_analyzer sql offset catalog type in
   (\<forall>k. isPunct a k (CHR ''('') \<longrightarrow>
      0 < opens a k \<and> opens a k < int (length (an_groups a)) \<and> gr_open (group_at a (opens a k)) = k) \<and>
   (\<forall>g. 0 < g \<and> g < int (length (an_groups a)) \<longrightarrow>
     isPunct a (gr_open (group_at a g)) (CHR ''('') \<and> opens a (gr_open (group_at a g)) = g \<and>
     gr_open (group_at a g) < gr_close (group_at a g) \<and>
     (gr_close (group_at a g) = an_size a \<or> isPunct a (gr_close (group_at a g)) (CHR '')'')) \<and>
     (\<forall>j. gr_open (group_at a g) < j \<and> j \<le> gr_close (group_at a g) \<longrightarrow> 0 < balance a (gr_open (group_at a g)) j) \<and>
     (gr_close (group_at a g) < an_size a \<longrightarrow>
        balance a (gr_open (group_at a g)) (gr_close (group_at a g) + 1) = 0) \<and>
     (\<forall>i. 0 \<le> i \<and> i < an_size a \<longrightarrow>
        (isAncestorOrSelf a g (groupOf a i) \<longleftrightarrow>
         gr_open (group_at a g) < i \<and> i < gr_close (group_at a g))))"
proof -
  let ?a = "new_analyzer sql offset catalog type"
  have ok: "scopes_ok ?a" by (rule new_analyzer_ok)
  have group: "isPunct ?a (gr_open (group_at ?a g)) (CHR ''('')" "opens ?a (gr_open (group_at ?a g)) = g"
      "gr_open (group_at ?a g) < gr_close (group_at ?a g)"
      "gr_close (group_at ?a g) = an_size ?a \<or> isPunct ?a (gr_close (group_at ?a g)) (CHR '')'')"
      "gr_close (group_at ?a g) \<le> an_size ?a"
    if "0 < g" "g < int (length (an_groups ?a))" for g
    using scopes_ok_group [OF ok that] by (auto simp: group_wf_def an_size_def)
  have inside: "isAncestorOrSelf ?a g (groupOf ?a i) \<longleftrightarrow>
      gr_open (group_at ?a g) < i \<and> i < gr_close (group_at ?a g)"
    if "0 < g" "g < int (length (an_groups ?a))" "0 \<le> i \<and> i < an_size ?a" for g i
  proof -
    from that(3) obtain n where n: "i = int n" "n < length (an_toks ?a)"
      by (metis an_size_def of_nat_less_iff zero_le_imp_eq_int)
    from ok have "nested (length (an_toks ?a)) ?a" by (simp add: scopes_ok_def)
    with n that(1,2) show ?thesis unfolding nested_def by blast
  qed
  have count: "0 < balance ?a (gr_open (group_at ?a g)) j"
    if "0 < g" "g < int (length (an_groups ?a))" "gr_open (group_at ?a g) < j" "j \<le> gr_close (group_at ?a g)" for g j
    using new_analyzer_matched that group(5) [OF that(1,2)]
    by (force simp: all_matched_def matched_def group_matched_def an_size_def)
  have zero: "balance ?a (gr_open (group_at ?a g)) (gr_close (group_at ?a g) + 1) = 0"
    if "0 < g" "g < int (length (an_groups ?a))" "gr_close (group_at ?a g) < an_size ?a" for g
    using new_analyzer_matched that by (simp add: all_matched_def matched_def group_matched_def an_size_def)
  show ?thesis
    unfolding Let_def using scopes_ok_opens [OF ok] group(1-4) inside count zero by simp
qed

text \<open>C37: the relations visible at an insertion point are exactly those named in the statement itself
  or in a parenthesised scope that encloses the point; they come innermost scope first.\<close>
theorem visibleRefs_scope:
  assumes "a = new_analyzer sql offset catalog type" "0 \<le> k" "k \<le> an_size a"
  shows "(\<forall>r. r \<in> set (visibleRefs a (groupAt a k)) \<longleftrightarrow>
      r \<in> set (an_refs a) \<and>
      (rr_group r = 0 \<or>
       gr_open (group_at a (rr_group r)) < k \<and> k \<le> gr_close (group_at a (rr_group r)))) \<and>
    sorted_wrt (\<lambda>x y. depthOf a (rr_group x) \<ge> depthOf a (rr_group y)) (visibleRefs a (groupAt a k))"
proof -
  have ok: "scopes_ok a" unfolding assms(1) by (rule new_analyzer_ok)
  have at: "0 \<le> groupAt a k" "groupAt a k < int (length (an_groups a))"
    using groupAt_range [of k sql offset catalog type] assms by simp_all
  have "isAncestorOrSelf a (rr_group r) (groupAt a k) \<longleftrightarrow>
      rr_group r = 0 \<or> gr_open (group_at a (rr_group r)) < k \<and> k \<le> gr_close (group_at a (rr_group r))"
    if "r \<in> set (an_refs a)" for r
  proof (cases "rr_group r = 0")
    case True
    with root_ancestor [OF ok at] show ?thesis by simp
  next
    case False
    have "ref_ok a r" using new_analyzer_collects(1) that assms(1) by blast
    with False have "0 < rr_group r" "rr_group r < int (length (an_groups a))" by (auto simp: ref_ok_def)
    with False groupAt_new [of k sql offset catalog type "rr_group r"] assms show ?thesis by simp
  qed
  then have "r \<in> set (visibleRefs a (groupAt a k)) \<longleftrightarrow> r \<in> set (an_refs a) \<and>
      (rr_group r = 0 \<or> gr_open (group_at a (rr_group r)) < k \<and> k \<le> gr_close (group_at a (rr_group r)))" for r
    unfolding visibleRefs_def depth_sort.sort_set by auto
  moreover have "sorted_wrt (\<lambda>x y. depthOf a (rr_group x) \<ge> depthOf a (rr_group y)) (visibleRefs a (groupAt a k))"
    using depth_sort.sort_ordered [of a] unfolding visibleRefs_def depth_sort.ordered_def by (simp add: not_less)
  ultimately show ?thesis by blast
qed

text \<open>Looking a name up from a group finds a visible reference of that name in the deepest scope that
  has one, and nothing exactly when no visible reference has the name.\<close>
lemma findRef_nearest:
  "(findRef a name g = None \<longleftrightarrow>
      (\<forall>r\<in>set (an_refs a). \<not> (ieq (rr_name r) name \<and> isAncestorOrSelf a (rr_group r) g))) \<and>
   (\<forall>r. findRef a name g = Some r \<longrightarrow>
      r \<in> set (an_refs a) \<and> ieq (rr_name r) name \<and> isAncestorOrSelf a (rr_group r) g \<and>
      (\<forall>s\<in>set (an_refs a). ieq (rr_name s) name \<and> isAncestorOrSelf a (rr_group s) g \<longrightarrow>
         depthOf a (rr_group s) \<le> depthOf a (rr_group r)))"
  unfolding findRef_best using ref_search.best_None ref_search.best_Some(1-3) by blast

text \<open>C38: resolving a path in the catalog returns a table or view whose name and qualifier match and that no
  other match outranks (default schema, then no schema, then exact case), flagged as a view
  exactly when it comes from the views; it finds nothing only when nothing matches.\<close>
theorem find_relation_best_match:
  assumes "path \<noteq> []"
  shows "(rel_table (find_relation catalog path) = None \<longleftrightarrow>
      (\<forall>t\<in>set (cat_tables catalog) \<union> set (cat_views catalog). \<not> relation_matches path t)) \<and>
    (\<forall>t. rel_table (find_relation catalog path) = Some t \<longrightarrow>
      t \<in> (if rel_isView (find_relation catalog path) then set (cat_views catalog) else set (cat_tables catalog)) \<and>
      relation_matches path t \<and>
      (\<forall>s\<in>set (cat_tables catalog) \<union> set (cat_views catalog). relation_matches path s \<longrightarrow>
         relation_rank catalog (last path) s \<le> relation_rank catalog (last path) t))"
proof -
  let ?b = "relation_search.best path catalog (candidates catalog)"
  have cands: "(\<exists>v. (t, v) \<in> set (candidates catalog)) \<longleftrightarrow>
      t \<in> set (cat_tables catalog) \<union> set (cat_views catalog)" for t
    by (auto simp: candidates_def)
  have tab: "rel_table (find_relation catalog path) = map_option fst ?b"
    unfolding find_relation_best [OF assms] by (auto simp: as_relation_def split: option.split)
  have "?b = None \<longleftrightarrow> (\<forall>t\<in>set (cat_tables catalog) \<union> set (cat_views catalog). \<not> relation_matches path t)"
    unfolding relation_search.best_None using cands by (auto simp: candidates_def)
  moreover have "relation_rank catalog (last path) s \<le> relation_rank catalog (last path) t"
    if "rel_table (find_relation catalog path) = Some t" "s \<in> set (cat_tables catalog) \<union> set (cat_views catalog)"
      "relation_matches path s" for s t
  proof -
    from that(1) tab obtain v where b: "?b = Some (t, v)" by auto
    from that(2) cands obtain w where "(s, w) \<in> set (candidates catalog)" by blast
    with relation_search.best_Some(3) [OF b, of "(s, w)"] that(3) show ?thesis by simp
  qed
  moreover have "t \<in> (if rel_isView (find_relation catalog path) then set (cat_views catalog)
        else set (cat_tables catalog)) \<and> relation_matches path t"
    if "rel_table (find_relation catalog path) = Some t" for t
    using find_relation_table(3-5) [OF that] by simp
  moreover have "rel_table (find_relation catalog path) = None \<longleftrightarrow> ?b = None" using tab by simp
  ultimately show ?thesis by (intro conjI allI impI ballI) (simp_all del: Un_iff)
qed

text \<open>Every column a relation, CTE or subquery is said to have and that points into the catalog has the
  catalog column's type and name up to case, and the column belongs to a table or view of the
  catalog.\<close>
lemma refColumns_from_catalog:
  assumes "c \<in> set (refColumns a r depth)" "cl_column c = Some col"
  shows "ieq (cl_name c) (col_name col) \<and> cl_type c = col_type col \<and>
    (\<exists>t\<in>set (cat_tables (an_catalog a)) \<union> set (cat_views (an_catalog a)). col \<in> set (tbl_columns t))"
  using columns_sound(3) [of a r depth] assms by (auto simp: list_all_iff col_sound_def)

text \<open>The guards that make the index loops total never act: in every analyzer the constructor builds, an
  opening parenthesis is closed further right, the parent of a group has a smaller index, and
  every collected reference and CTE names groups that exist.\<close>
lemma analyzer_loops_progress:
  "let a = new_analyzer sql offset catalog type in
   (\<forall>k. isPunct a k (CHR ''('') \<longrightarrow> after_group a k = closeOf a k + 1 \<and> closeOf a k \<le> an_size a) \<and>
   (\<forall>g. 0 \<le> g \<and> g < int (length (an_groups a)) \<longrightarrow> gr_parent (group_at a g) < g) \<and>
   (\<forall>r\<in>set (an_refs a). rr_name r \<noteq> [] \<and> 0 \<le> rr_group r \<and> rr_group r < int (length (an_groups a)) \<and>
      rr_derived r < int (length (an_groups a))) \<and>
   (\<forall>c\<in>set (an_ctes a). 0 < cte_body c \<and> cte_body c < int (length (an_groups a)))"
proof -
  let ?a = "new_analyzer sql offset catalog type"
  have ok: "scopes_ok ?a" by (rule new_analyzer_ok)
  have "rr_name r \<noteq> [] \<and> 0 \<le> rr_group r \<and> rr_group r < int (length (an_groups ?a)) \<and>
      rr_derived r < int (length (an_groups ?a))" if "r \<in> set (an_refs ?a)" for r
    using new_analyzer_collects(1) [OF that] by (auto simp: ref_ok_def)
  then show ?thesis
    unfolding Let_def
    using after_group_closeOf [OF ok] closeOf_after(2) [OF ok] parent_smaller [OF ok] new_analyzer_collects(2)
    by blast
qed


text \<open>Tables, a catalog and small analyzers for the witnesses.\<close>

definition sample_table :: "bytes \<Rightarrow> Table" where
  "sample_table n = default_table\<lparr>tbl_name := n, tbl_columns := [default_column\<lparr>col_name := ''id'', col_type := ''int''\<rparr>]\<rparr>"

definition sample_catalog :: CompletionCatalog where
  "sample_catalog = \<lparr>cat_tables = [sample_table ''t'', sample_table ''u''], cat_views = [], cat_sequences = [],
     cat_routines = [], cat_schemas = [], cat_defaultSchema = []\<rparr>"

definition sample_analyzer :: Analyzer where
  "sample_analyzer = new_analyzer ''(t)'' 0 sample_catalog POSTGRESQL"

definition sample_ref :: "bytes \<Rightarrow> int \<Rightarrow> RelationRef" where
  "sample_ref n g = \<lparr>rr_name = n, rr_alias = n, rr_path = [''t''], rr_group = g, rr_derived = -1,
     rr_function = False, rr_columnAliases = []\<rparr>"

definition scoped_analyzer :: Analyzer where
  "scoped_analyzer = \<lparr>an_catalog = sample_catalog, an_type = POSTGRESQL, an_all = [], an_toks = [],
     an_span = \<lparr>sp_begin = 0, sp_end = 0, sp_firstTok = 0, sp_lastTok = 0\<rparr>,
     an_groups = [\<lparr>gr_parent = -1, gr_open = -1, gr_close = 9\<rparr>, \<lparr>gr_parent = 0, gr_open = 3, gr_close = 9\<rparr>],
     an_groupOf = [], an_opens = [], an_ctes = [], an_refs = [sample_ref ''x'' 0, sample_ref ''X'' 1]\<rparr>"

lemma sample_groups: "length (an_groups sample_analyzer) = 2 \<and> an_size sample_analyzer = 3"
  by code_simp

lemma sample_close: "gr_open (group_at sample_analyzer 1) = 0 \<and> gr_close (group_at sample_analyzer 1) = 2"
  by code_simp

theorem group_tree_witness:
  "isPunct sample_analyzer (gr_open (group_at sample_analyzer 1)) (CHR ''('') \<and>
   balance sample_analyzer (gr_open (group_at sample_analyzer 1)) (gr_close (group_at sample_analyzer 1) + 1) = 0 \<and>
   isAncestorOrSelf sample_analyzer 1 (groupOf sample_analyzer 1)"
proof -
  have "(0::int) < 1 \<and> 1 < int (length (an_groups sample_analyzer))" "(0::int) \<le> 1 \<and> 1 < an_size sample_analyzer"
    "gr_open (group_at sample_analyzer 1) < 1 \<and> 1 < gr_close (group_at sample_analyzer 1)"
    "gr_close (group_at sample_analyzer 1) < an_size sample_analyzer"
    using sample_groups sample_close by auto
  with group_tree [of "''(t)''" 0 sample_catalog POSTGRESQL] show ?thesis
    unfolding sample_analyzer_def [symmetric] Let_def by blast
qed

theorem visibleRefs_scope_witness:
  "sorted_wrt (\<lambda>x y. depthOf sample_analyzer (rr_group x) \<ge> depthOf sample_analyzer (rr_group y))
     (visibleRefs sample_analyzer (groupAt sample_analyzer 2))"
  using visibleRefs_scope [OF sample_analyzer_def, of 2] sample_groups by simp

lemma findRef_nearest_witness:
  "findRef scoped_analyzer ''x'' 1 = Some (sample_ref ''X'' 1) \<and>
   isAncestorOrSelf scoped_analyzer (rr_group (sample_ref ''X'' 1)) 1"
proof -
  have "findRef scoped_analyzer ''x'' 1 = Some (sample_ref ''X'' 1)" by code_simp
  from this findRef_nearest [of scoped_analyzer "''x''" 1] show ?thesis by blast
qed

theorem find_relation_best_match_witness:
  "rel_table (find_relation sample_catalog [''U'']) = Some (sample_table ''u'') \<and>
   relation_matches [''U''] (sample_table ''u'')"
proof -
  have "rel_table (find_relation sample_catalog [''U'']) = Some (sample_table ''u'')" by code_simp
  from this find_relation_best_match [of "[''U'']" sample_catalog] show ?thesis by simp
qed

lemma refColumns_from_catalog_witness:
  "map cl_name (refColumns scoped_analyzer (sample_ref ''x'' 0) 0) = [''id''] \<and>
   (\<exists>t\<in>set (cat_tables sample_catalog) \<union> set (cat_views sample_catalog).
      default_column\<lparr>col_name := ''id'', col_type := ''int''\<rparr> \<in> set (tbl_columns t))"
proof -
  let ?col = "default_column\<lparr>col_name := ''id'', col_type := ''int''\<rparr>"
  have cols: "refColumns scoped_analyzer (sample_ref ''x'' 0) 0 =
      [\<lparr>cl_name = ''id'', cl_type = ''int'', cl_column = Some ?col\<rparr>]" by code_simp
  have "an_catalog scoped_analyzer = sample_catalog" by (simp add: scoped_analyzer_def)
  with refColumns_from_catalog [of "\<lparr>cl_name = ''id'', cl_type = ''int'', cl_column = Some ?col\<rparr>"
      scoped_analyzer "sample_ref ''x'' 0" 0 ?col] cols
  show ?thesis by simp
qed

lemma analyzer_loops_progress_witness:
  "gr_parent (group_at sample_analyzer 1) < 1"
proof -
  have "(0::int) \<le> 1 \<and> 1 < int (length (an_groups sample_analyzer))" using sample_groups by simp
  with analyzer_loops_progress [of "''(t)''" 0 sample_catalog POSTGRESQL] show ?thesis
    unfolding sample_analyzer_def [symmetric] Let_def by blast
qed

end
