(* ===== verification/Sql_Completion.thy ===== *)
theory Sql_Completion
  imports Sql_Analyzer
begin

text \<open>
  The completion items and the two entry points of \<^verbatim>\<open>src/completion.cpp\<close>: the match tiers, the \<^verbatim>\<open>Emitter\<close>
  that filters, ranks and deduplicates, the functions that offer keywords, functions, relations,
  schemas and columns, \<^verbatim>\<open>complete\<close>, and \<^verbatim>\<open>resolveIdentifierAt\<close>. An emitter is passed through the
  calls that add to it. A lambda of the source that fills \<^verbatim>\<open>out\<close> and says whether it did is a
  function to \<open>option\<close>. \<^verbatim>\<open>std::ranges::sort(out, iless)\<close> leaves the order of names equal up to case open;
  the model takes the stable one.
\<close>

section \<open>Items\<close>

datatype CompletionKind = KKeyword | KFunction | KTable | KView | KColumn | KSchema | KSequence | KAlias

fun kind_index :: "CompletionKind \<Rightarrow> nat" where
  "kind_index KKeyword = 0"
| "kind_index KFunction = 1"
| "kind_index KTable = 2"
| "kind_index KView = 3"
| "kind_index KColumn = 4"
| "kind_index KSchema = 5"
| "kind_index KSequence = 6"
| "kind_index KAlias = 7"

lemma kind_index_inject: "kind_index k = kind_index l \<longleftrightarrow> k = l"
  by (cases k; cases l) simp_all

instantiation CompletionKind :: linorder
begin

definition less_eq_CompletionKind :: "CompletionKind \<Rightarrow> CompletionKind \<Rightarrow> bool" where
  "less_eq_CompletionKind k l \<longleftrightarrow> kind_index k \<le> kind_index l"

definition less_CompletionKind :: "CompletionKind \<Rightarrow> CompletionKind \<Rightarrow> bool" where
  "less_CompletionKind k l \<longleftrightarrow> kind_index k < kind_index l"

instance
  by standard (auto simp: less_eq_CompletionKind_def less_CompletionKind_def kind_index_inject)

end

record CompletionItem =
  it_label :: bytes
  it_kind :: CompletionKind
  it_detail :: bytes
  it_owner :: bytes
  it_insertText :: bytes
  it_score :: int

record CompletionResult =
  cr_items :: "CompletionItem list"
  cr_replaceStart :: nat
  cr_replaceEnd :: nat


section \<open>Matching\<close>

definition kTierPrefix :: int where "kTierPrefix = 4000"
definition kExactCaseBonus :: int where "kExactCaseBonus = 150"
definition kTierBoundary :: int where "kTierBoundary = 3000"
definition kTierSubstring :: int where "kTierSubstring = 2000"
definition kTierFuzzy :: int where "kTierFuzzy = 1000"
definition kTierEmpty :: int where "kTierEmpty = 4000"

definition at_boundary :: "bytes \<Rightarrow> nat \<Rightarrow> bool" where
  "at_boundary label pos =
     (let prev = label ! (pos - 1)
      in prev = CHR ''_'' \<or> prev = CHR ''.'' \<or> prev = CHR '' '' \<or>
         (isupper (label ! pos) \<and> islower prev))"

lemma ifind_from: "ifind s p a = Some k \<Longrightarrow> a \<le> k"
  by (auto simp: ifind_def split: if_splits dest: find_upt_Some(1))

text \<open>
  The loop over the occurrences of a non-empty prefix. An occurrence starts inside the label, so
  the test \<open>pos < length label\<close> never stops it early.
\<close>

function boundary_scan :: "bytes \<Rightarrow> bytes \<Rightarrow> nat option \<Rightarrow> bool" where
  "boundary_scan label pfx None = False"
| "boundary_scan label pfx (Some pos) =
     (if at_boundary label pos then True
      else if pos < length label then boundary_scan label pfx (ifind label pfx (pos + 1)) else False)"
  by pat_completeness auto
termination
proof (relation "measure (\<lambda>(label, pfx, p). case p of None \<Rightarrow> 0 | Some pos \<Rightarrow> Suc (length label - pos))", goal_cases)
  case (2 label pfx pos)
  then show ?case
    by (auto split: option.split dest!: ifind_from intro!: diff_less_mono2)
qed simp

definition matchTier :: "bytes \<Rightarrow> bytes \<Rightarrow> bool \<Rightarrow> int" where
  "matchTier label pfx fuzzy =
     (if pfx = [] then kTierEmpty
      else if starts_with label pfx then kTierPrefix + kExactCaseBonus
      else if istartsWith label pfx then kTierPrefix
      else if boundary_scan label pfx (ifind label pfx 0) then kTierBoundary
      else if \<not> fuzzy then -1
      else if length pfx \<ge> 2 \<and> ifind label pfx 0 \<noteq> None then kTierSubstring
      else if length pfx \<ge> 2 \<and> isSubsequence label pfx then kTierFuzzy
      else -1)"

fun common_segments :: "bytes list \<Rightarrow> bytes list \<Rightarrow> nat" where
  "common_segments (s # t # segs) (d # defs) =
     (if ieq s d then Suc (common_segments (t # segs) defs) else 0)"
| "common_segments _ _ = 0"

definition relativeSchema :: "bytes \<Rightarrow> bytes \<Rightarrow> bytes" where
  "relativeSchema schema def =
     (let segs = splitPath schema
      in join_nonempty ''.'' [] (drop (common_segments segs (splitPath def)) segs))"


section \<open>The emitter\<close>

record Emitter =
  em_prefix :: bytes
  em_quoted :: bool
  em_type :: DatabaseType
  em_items :: "CompletionItem list"

definition new_emitter :: "bytes \<Rightarrow> bool \<Rightarrow> DatabaseType \<Rightarrow> Emitter" where
  "new_emitter pfx quoted type = \<lparr>em_prefix = pfx, em_quoted = quoted, em_type = type, em_items = []\<rparr>"

fun keyword_case :: "bool \<Rightarrow> bytes \<Rightarrow> bytes \<Rightarrow> bytes" where
  "keyword_case alpha [] kw = (if alpha then lower kw else kw)"
| "keyword_case alpha (c # r) kw = (if isupper c then kw else keyword_case (alpha \<or> isalpha c) r kw)"

definition em_keyword :: "Emitter \<Rightarrow> bytes \<Rightarrow> bytes" where
  "em_keyword em kw = keyword_case False (em_prefix em) kw"

definition em_name :: "Emitter \<Rightarrow> bytes \<Rightarrow> bytes" where
  "em_name em n =
     (if em_quoted em then quoteIdentifier (builderFor (em_type em)) n
      else quoteIdentifierIfNeeded n (em_type em))"

definition em_path :: "Emitter \<Rightarrow> bytes \<Rightarrow> bytes \<Rightarrow> bytes" where
  "em_path em schema n =
     (if schema = [] then em_name em n
      else concat (map (\<lambda>seg. em_name em seg @ ''.'') (splitPath schema)) @ em_name em n)"

definition em_add ::
    "bytes \<Rightarrow> CompletionKind \<Rightarrow> bytes \<Rightarrow> bytes \<Rightarrow> bytes \<Rightarrow> int \<Rightarrow> bool \<Rightarrow> Emitter \<Rightarrow> Emitter" where
  "em_add label kind detail owner ins bonus fuzzy em =
     (if em_quoted em \<and> (kind = KKeyword \<or> kind = KFunction) then em
      else let tier = matchTier label (em_prefix em) fuzzy in
        if tier < 0 then em
        else if em_prefix em \<noteq> [] \<and> ieq label (em_prefix em) \<and> \<not> em_quoted em then em
        else em\<lparr>em_items := em_items em @
          [\<lparr>it_label = label, it_kind = kind, it_detail = detail, it_owner = owner,
            it_insertText = ins, it_score = tier + bonus\<rparr>]\<rparr>)"

definition item_less :: "CompletionItem \<Rightarrow> CompletionItem \<Rightarrow> bool" where
  "item_less x y =
     (if it_score x \<noteq> it_score y then it_score x > it_score y
      else if \<not> ieq (it_label x) (it_label y) then iless (it_label x) (it_label y)
      else if it_kind x \<noteq> it_kind y then it_kind x < it_kind y
      else iless (it_owner x) (it_owner y))"

definition item_key :: "CompletionItem \<Rightarrow> bytes" where
  "item_key it =
     to_string (int (kind_index (it_kind it))) @ [unit_separator] @ it_label it @ [unit_separator] @
     it_insertText it @ [unit_separator] @ it_owner it"

fun first_by_key :: "bytes list \<Rightarrow> CompletionItem list \<Rightarrow> CompletionItem list" where
  "first_by_key seen [] = []"
| "first_by_key seen (it # its) =
     (if item_key it \<in> set seen then first_by_key seen its
      else it # first_by_key (item_key it # seen) its)"

definition take_items :: "Emitter \<Rightarrow> CompletionItem list" where
  "take_items em = first_by_key [] (stable_sort_by item_less (em_items em))"


section \<open>What is offered\<close>

definition addKeywords :: "DatabaseType \<Rightarrow> bytes list option \<Rightarrow> int \<Rightarrow> int \<Rightarrow> Emitter \<Rightarrow> Emitter" where
  "addKeywords type boosted base boost em =
     foldl (\<lambda>em kw.
       let hit = (case boosted of None \<Rightarrow> False | Some ws \<Rightarrow> kw \<in> set ws)
       in em_add kw KKeyword [] [] (em_keyword em kw) (if hit then base + boost else base) False em)
       em (sqlKeywords type)"

definition routine_detail :: "Routine \<Rightarrow> bytes" where
  "routine_detail r =
     (if rt_signature r = [] then rt_name r else rt_signature r) @
     (if rt_returnType r \<noteq> [] then '' -> '' @ rt_returnType r else [])"

definition addFunctions :: "DatabaseType \<Rightarrow> CompletionCatalog \<Rightarrow> int \<Rightarrow> Emitter \<Rightarrow> Emitter" where
  "addFunctions type catalog base em =
     foldl (\<lambda>em r.
       if rt_kind r \<noteq> RFunction then em
       else em_add (rt_name r) KFunction (routine_detail r) [] (em_name em (rt_name r)) (base + 20) True em)
       (foldl (\<lambda>em fn. em_add fn KFunction ''function'' [] (em_keyword em fn) base False em)
          em (sqlFunctions type))
       (cat_routines catalog)"

definition add_relation_list ::
    "CompletionCatalog \<Rightarrow> CompletionKind \<Rightarrow> int \<Rightarrow> Table list \<Rightarrow> Emitter \<Rightarrow> Emitter" where
  "add_relation_list catalog kind bonus list em =
     foldl (\<lambda>em t.
       let local = (tbl_schema t = [] \<or> ieq (tbl_schema t) (cat_defaultSchema catalog));
           rel = (if local then [] else relativeSchema (tbl_schema t) (cat_defaultSchema catalog))
       in em_add (tbl_name t) kind (if kind = KView then ''view'' else ''table'') (tbl_schema t)
            (em_path em rel (tbl_name t)) (if local then bonus else bonus - 40) True em)
       em list"

definition addRelations :: "CompletionCatalog \<Rightarrow> int \<Rightarrow> int \<Rightarrow> Emitter \<Rightarrow> Emitter" where
  "addRelations catalog tableBonus viewBonus em =
     add_relation_list catalog KView viewBonus (cat_views catalog)
       (add_relation_list catalog KTable tableBonus (cat_tables catalog) em)"

text \<open>\<^verbatim>\<open>std::ranges::unique(out, ieq)\<close> keeps the first of a run of equivalent entries.\<close>

fun unique_by :: "('a \<Rightarrow> 'a \<Rightarrow> bool) \<Rightarrow> 'a list \<Rightarrow> 'a list" where
  "unique_by eq [] = []"
| "unique_by eq [x] = [x]"
| "unique_by eq (x # y # ys) =
     (if eq x y then unique_by eq (x # ys) else x # unique_by eq (y # ys))"

definition allSchemas :: "CompletionCatalog \<Rightarrow> bytes list" where
  "allSchemas catalog =
     unique_by ieq (stable_sort_by iless (filter (\<lambda>s. s \<noteq> [])
       (cat_schemas catalog @ map tbl_schema (cat_tables catalog) @ map tbl_schema (cat_views catalog) @
        map co_schema (cat_sequences catalog))))"

fun add_first_segments ::
    "CompletionCatalog \<Rightarrow> int \<Rightarrow> bytes list \<Rightarrow> bytes list \<Rightarrow> Emitter \<Rightarrow> Emitter" where
  "add_first_segments catalog bonus seen [] em = em"
| "add_first_segments catalog bonus seen (s # ss) em =
     (let segs = splitPath (relativeSchema s (cat_defaultSchema catalog)) in
      if segs = [] \<or> lower (segs ! 0) \<in> set seen then add_first_segments catalog bonus seen ss em
      else add_first_segments catalog bonus (lower (segs ! 0) # seen) ss
             (em_add (segs ! 0) KSchema ''schema'' [] (em_name em (segs ! 0)) bonus True em))"

definition addSchemas :: "CompletionCatalog \<Rightarrow> int \<Rightarrow> Emitter \<Rightarrow> Emitter" where
  "addSchemas catalog bonus em = add_first_segments catalog bonus [] (allSchemas catalog) em"

fun add_next_segments :: "bytes list \<Rightarrow> int \<Rightarrow> bytes list \<Rightarrow> bytes list \<Rightarrow> Emitter \<Rightarrow> Emitter" where
  "add_next_segments qualifier bonus seen [] em = em"
| "add_next_segments qualifier bonus seen (s # ss) em =
     (let segs = splitPath s in
      if length segs \<le> length qualifier then add_next_segments qualifier bonus seen ss em
      else let next = segs ! length qualifier in
        if list_all2 ieq (take (length qualifier) segs) qualifier \<and> lower next \<notin> set seen
        then add_next_segments qualifier bonus (lower next # seen) ss
               (em_add next KSchema ''schema'' s (em_name em next) (bonus - 20) True em)
        else add_next_segments qualifier bonus seen ss em)"

definition addSchemaMembers ::
    "CompletionCatalog \<Rightarrow> bytes list \<Rightarrow> int \<Rightarrow> bool \<Rightarrow> Emitter \<Rightarrow> Emitter" where
  "addSchemaMembers catalog qualifier bonus withSequences em =
     (let em1 = foldl (\<lambda>em t. if qualifierMatches (tbl_schema t) qualifier
            then em_add (tbl_name t) KTable ''table'' (tbl_schema t) (em_name em (tbl_name t)) bonus True em
            else em) em (cat_tables catalog);
          em2 = foldl (\<lambda>em t. if qualifierMatches (tbl_schema t) qualifier
            then em_add (tbl_name t) KView ''view'' (tbl_schema t) (em_name em (tbl_name t)) (bonus - 10) True em
            else em) em1 (cat_views catalog);
          em3 = (if withSequences then foldl (\<lambda>em s. if qualifierMatches (co_schema s) qualifier
            then em_add (co_name s) KSequence ''sequence'' (co_schema s) (em_name em (co_name s)) (bonus - 30) True em
            else em) em2 (cat_sequences catalog) else em2)
      in add_next_segments qualifier bonus [] (allSchemas catalog) em3)"

definition addColumns :: "ColInfo list \<Rightarrow> bytes \<Rightarrow> int \<Rightarrow> Emitter \<Rightarrow> Emitter" where
  "addColumns cols owner bonus em =
     foldl (\<lambda>em c. em_add (cl_name c) KColumn (cl_type c) owner (em_name em (cl_name c)) bonus True em) em cols"

definition refDetail :: "Analyzer \<Rightarrow> RelationRef \<Rightarrow> bytes" where
  "refDetail a r =
     (if rr_derived r \<ge> 0 then ''subquery''
      else if length (rr_path r) = 1 \<and> findCte a (rr_path r ! 0) \<noteq> None then ''cte''
      else join_nonempty ''.'' [] (rr_path r))"



section \<open>Completion\<close>

text \<open>Is the cursor inside a string, comment, number or parameter? The token loop with its breaks.\<close>

fun nothing_at :: "nat \<Rightarrow> Token list \<Rightarrow> bool" where
  "nothing_at cursor [] = False"
| "nothing_at cursor (t # ts) =
     (if cursor \<le> tk_begin t then False
      else if (case tk_kind t of
            TComment \<Rightarrow> (if tk_lineComment t then cursor \<le> tk_end t else cursor < tk_end t \<or> \<not> tk_closed t)
          | TString \<Rightarrow> cursor < tk_end t \<or> \<not> tk_closed t
          | TNumber \<Rightarrow> cursor \<le> tk_end t
          | TParam \<Rightarrow> cursor \<le> tk_end t
          | _ \<Rightarrow> False)
      then True
      else nothing_at cursor ts)"

text \<open>The identifier being typed: its token index, quotedness, typed part and replaced range.\<close>

record Typed =
  ty_cur :: int
  ty_quoted :: bool
  ty_prefix :: bytes
  ty_start :: nat
  ty_end :: nat

fun typed_at :: "bytes \<Rightarrow> nat \<Rightarrow> int \<Rightarrow> Token list \<Rightarrow> Typed" where
  "typed_at sql cursor i [] =
     \<lparr>ty_cur = i, ty_quoted = False, ty_prefix = [], ty_start = cursor, ty_end = cursor\<rparr>"
| "typed_at sql cursor i (t # ts) =
     (if cursor \<le> tk_begin t
      then \<lparr>ty_cur = i, ty_quoted = False, ty_prefix = [], ty_start = cursor, ty_end = cursor\<rparr>
      else if tk_kind t = TWord \<and> cursor \<le> tk_end t
      then \<lparr>ty_cur = i, ty_quoted = False,
            ty_prefix = substr sql (tk_begin t) (cursor - tk_begin t),
            ty_start = tk_begin t, ty_end = tk_end t\<rparr>
      else if tk_kind t = TQuotedIdent \<and> (cursor < tk_end t \<or> \<not> tk_closed t)
      then \<lparr>ty_cur = i, ty_quoted = True,
            ty_prefix = substr sql (tk_begin t + 1) (cursor - tk_begin t - 1),
            ty_start = tk_begin t, ty_end = tk_end t\<rparr>
      else typed_at sql cursor (i + 1) ts)"

definition member_columns :: "Analyzer \<Rightarrow> bytes list \<Rightarrow> int \<Rightarrow> ColInfo list" where
  "member_columns a qualifier grp =
     (let by_table = (case rel_table (findRelation a qualifier) of None \<Rightarrow> [] | Some t \<Rightarrow> tableColumns t)
      in if length qualifier = 1 then
           (case findRef a (qualifier ! 0) grp of
              Some r \<Rightarrow> refColumns a r 0
            | None \<Rightarrow> (case findCte a (qualifier ! 0) of
                  Some c \<Rightarrow> cteColumns a c 0
                | None \<Rightarrow> by_table))
         else by_table)"

definition offer_members :: "Analyzer \<Rightarrow> Context \<Rightarrow> bytes list \<Rightarrow> int \<Rightarrow> Emitter \<Rightarrow> Emitter" where
  "offer_members a ctx qualifier grp em =
     addSchemaMembers (an_catalog a) qualifier 700 (cx_kind ctx \<noteq> CtxRelation)
       (if cx_kind ctx \<noteq> CtxRelation \<and> cx_kind ctx \<noteq> CtxAfterRelation
        then addColumns (member_columns a qualifier grp) (last qualifier) 900 em
        else em)"

definition relationKeywords :: "bytes list" where
  "relationKeywords = [''LATERAL'', ''ONLY'', ''SELECT'', ''IF'', ''NOT'', ''EXISTS'', ''UNNEST'']"

definition offer_relations :: "Analyzer \<Rightarrow> DatabaseType \<Rightarrow> Emitter \<Rightarrow> Emitter" where
  "offer_relations a type em =
     (let em1 = foldl (\<lambda>em c. em_add (cte_name c) KTable ''cte'' [] (em_name em (cte_name c)) 950 True em)
                  em (an_ctes a);
          em2 = addSchemas (an_catalog a) 700 (addRelations (an_catalog a) 900 880 em1)
      in if em_prefix em \<noteq> []
         then foldl (\<lambda>em kw. if kw \<in> set relationKeywords
                then em_add kw KKeyword [] [] (em_keyword em kw) 300 False em else em)
                em2 (sqlKeywords type)
         else em2)"

definition target_columns :: "Analyzer \<Rightarrow> bytes list \<Rightarrow> ColInfo list" where
  "target_columns a target =
     (let cols = (if length target = 1
                  then (case findCte a (target ! 0) of Some c \<Rightarrow> cteColumns a c 0 | None \<Rightarrow> [])
                  else [])
      in if cols = []
         then (case rel_table (findRelation a target) of None \<Rightarrow> [] | Some t \<Rightarrow> tableColumns t)
         else cols)"

fun offer_refs :: "Analyzer \<Rightarrow> bytes list \<Rightarrow> RelationRef list \<Rightarrow> Emitter \<Rightarrow> Emitter" where
  "offer_refs a named [] em = em"
| "offer_refs a named (r # rs) em =
     (if lower (rr_name r) \<in> set named then offer_refs a named rs em
      else let em1 = addColumns (refColumns a r 0) (rr_name r) 900 em
           in offer_refs a (lower (rr_name r) # named) rs
                (em_add (rr_name r) KAlias (refDetail a r) [] (em_name em1 (rr_name r)) 750 True em1))"

definition offer_columns :: "Analyzer \<Rightarrow> DatabaseType \<Rightarrow> int \<Rightarrow> Emitter \<Rightarrow> Emitter" where
  "offer_columns a type grp em =
     (let refs = visibleRefs a grp;
          em1 = addKeywords type None 450 0 (addFunctions type (an_catalog a) 600 (offer_refs a [] refs em));
          em2 = (if refs = [] then addRelations (an_catalog a) 300 280 em1 else em1)
      in if type = ORACLE
         then foldl (\<lambda>em s. em_add (co_name s) KSequence ''sequence'' (co_schema s) (em_name em (co_name s)) 200 True em)
                em2 (cat_sequences (an_catalog a))
         else em2)"

definition offer_context :: "Analyzer \<Rightarrow> DatabaseType \<Rightarrow> Context \<Rightarrow> int \<Rightarrow> Emitter \<Rightarrow> Emitter" where
  "offer_context a type ctx grp em =
     (case cx_kind ctx of
        CtxNone \<Rightarrow> em
      | CtxStatementStart \<Rightarrow> addKeywords type (Some statementKeywords) 500 300 em
      | CtxKeyword \<Rightarrow> addKeywords type None 500 0 em
      | CtxAfterRelation \<Rightarrow> addKeywords type (Some clauseKeywords) 400 400 em
      | CtxRelation \<Rightarrow> offer_relations a type em
      | CtxTargetColumns \<Rightarrow> addColumns (target_columns a (cx_target ctx)) (last (cx_target ctx)) 900 em
      | CtxColumn \<Rightarrow> offer_columns a type grp em)"

definition complete :: "bytes \<Rightarrow> nat \<Rightarrow> CompletionCatalog \<Rightarrow> DatabaseType \<Rightarrow> CompletionResult" where
  "complete sql cursor0 catalog type =
     (let cursor = min cursor0 (length sql);
          nothing = \<lparr>cr_items = [], cr_replaceStart = cursor, cr_replaceEnd = cursor\<rparr>
      in if \<not> isSqlDialect type then nothing
         else
           let a = new_analyzer sql cursor catalog type in
           if nothing_at cursor (an_all a) then nothing
           else
             let t = typed_at sql cursor 0 (an_toks a);
                 qc = qualifierBefore a (ty_cur t);
                 grp = groupAt a (ty_cur t);
                 ctx = detectContext a (snd qc);
                 em = new_emitter (ty_prefix t) (ty_quoted t) type;
                 out = (if fst qc \<noteq> [] then offer_members a ctx (fst qc) grp em
                        else offer_context a type ctx grp em)
             in \<lparr>cr_items = take_items out, cr_replaceStart = ty_start t, cr_replaceEnd = ty_end t\<rparr>)"


section \<open>Identifier resolution\<close>








definition or_else :: "'a option \<Rightarrow> 'a option \<Rightarrow> 'a option" where
  "or_else x y = (case x of None \<Rightarrow> y | Some v \<Rightarrow> Some v)"













section \<open>Matching\<close>

lemma isSubsequence_empty [simp]: "isSubsequence s []"
  by (simp add: isSubsequence_subseq lower_def)

lemma starts_with_istartsWith: "starts_with s p \<Longrightarrow> istartsWith s p"
  by (auto simp: starts_with_append istartsWith_lower lower_def)

lemma istartsWith_isSubsequence: "istartsWith s p \<Longrightarrow> isSubsequence s p"
  by (auto simp: istartsWith_lower isSubsequence_subseq)

lemma boundary_scan_occurs:
  "boundary_scan label pfx p \<Longrightarrow> p = ifind label pfx a \<Longrightarrow> pfx \<noteq> [] \<Longrightarrow> isSubsequence label pfx"
  by (cases "ifind label pfx a") (auto dest: ifind_isSubsequence)

lemma matchTier_cases:
  "matchTier label pfx fuzzy \<in> {-1, kTierEmpty, kTierPrefix + kExactCaseBonus, kTierPrefix, kTierBoundary,
     kTierSubstring, kTierFuzzy}"
  by (simp add: matchTier_def)

lemma matchTier_subsequence:
  assumes "0 \<le> matchTier label pfx fuzzy"
  shows "isSubsequence label pfx"
proof (cases "pfx = []")
  case False
  with assms show ?thesis
    by (auto simp: matchTier_def dest: starts_with_istartsWith istartsWith_isSubsequence
        ifind_isSubsequence boundary_scan_occurs [OF _ refl] split: if_splits)
qed simp

text \<open>
  Every byte the boundary loop reads is inside the label: an occurrence is never at 0 once the
  prefix test has failed, and it ends inside the label.
\<close>

lemma occurrence_in_bounds:
  assumes "ifind label pfx a = Some pos" "pfx \<noteq> []" "\<not> istartsWith label pfx"
  shows "0 < pos \<and> pos < length label"
proof -
  note f = ifind_Some [OF assms(1,2)]
  have "pos \<noteq> 0"
  proof
    assume "pos = 0"
    with f(2,3) have "istartsWith label pfx" by (simp add: istartsWith_def)
    with assms(3) show False by simp
  qed
  with f(2) assms(2) show ?thesis by (cases pfx) auto
qed

section \<open>The emitter\<close>

text \<open>The comparison in terms of keys in linear orders.\<close>

definition fold_key :: "bytes \<Rightarrow> int list" where
  "fold_key s = map (\<lambda>c. signed_byte (lowerc c)) s"

lemma iless_fold_key: "iless a b \<longleftrightarrow> fold_key a < fold_key b"
  by (induction a b rule: iless.induct) (auto simp: fold_key_def)

lemma ieq_fold_key: "ieq a b \<longleftrightarrow> fold_key a = fold_key b"
proof -
  have "inj signed_byte" by (simp add: inj_on_def signed_byte_inject)
  moreover have "fold_key s = map signed_byte (lower s)" for s by (simp add: fold_key_def lower_def)
  ultimately show ?thesis by (simp add: ieq_lower inj_map_eq_map)
qed

lemma item_less_keys:
  "item_less x y \<longleftrightarrow>
     it_score y < it_score x \<or> it_score x = it_score y \<and>
       (fold_key (it_label x) < fold_key (it_label y) \<or> fold_key (it_label x) = fold_key (it_label y) \<and>
         (it_kind x < it_kind y \<or> it_kind x = it_kind y \<and> fold_key (it_owner x) < fold_key (it_owner y)))"
  by (auto simp: item_less_def iless_fold_key ieq_fold_key)

interpretation item_order: strict_weak_order item_less
proof
  show "item_less x y \<Longrightarrow> \<not> item_less y x" for x y unfolding item_less_keys by auto
  show "\<not> item_less x y \<Longrightarrow> \<not> item_less y z \<Longrightarrow> \<not> item_less x z" for x y z
    unfolding item_less_keys by (auto simp: not_less)
qed

lemma first_by_key_sub: "set (first_by_key seen its) \<subseteq> set its"
  by (induction seen its rule: first_by_key.induct) auto

lemma first_by_key_keys:
  "distinct (map item_key (first_by_key seen its)) \<and>
   item_key ` set (first_by_key seen its) = item_key ` set its - set seen"
  by (induction seen its rule: first_by_key.induct) auto

lemma first_by_key_sorted: "sorted_wrt P its \<Longrightarrow> sorted_wrt P (first_by_key seen its)"
proof (induction seen its rule: first_by_key.induct)
  case (2 seen it its)
  then show ?case using first_by_key_sub [of "item_key it # seen" its] by auto
qed simp

lemma take_items_facts:
  "sorted_wrt (\<lambda>x y. \<not> item_less y x) (take_items em)" "distinct (map item_key (take_items em))"
  "set (take_items em) \<subseteq> set (em_items em)" "item_key ` set (take_items em) = item_key ` set (em_items em)"
proof -
  show "sorted_wrt (\<lambda>x y. \<not> item_less y x) (take_items em)"
    using item_order.sort_ordered unfolding item_order.ordered_def take_items_def by (intro first_by_key_sorted)
  show "distinct (map item_key (take_items em))" "item_key ` set (take_items em) = item_key ` set (em_items em)"
    using first_by_key_keys [of "[]" "stable_sort_by item_less (em_items em)"]
    by (simp_all add: take_items_def item_order.sort_set)
  show "set (take_items em) \<subseteq> set (em_items em)"
    using first_by_key_sub [of "[]" "stable_sort_by item_less (em_items em)"]
    by (simp add: take_items_def item_order.sort_set)
qed


section \<open>What is inserted\<close>

text \<open>Reading lexemes as a dotted path of identifiers.\<close>

fun dotted_names :: "(Tok \<times> bytes) list \<Rightarrow> bytes list option" where
  "dotted_names [(k, n)] = (if k = TWord \<or> k = TQuotedIdent then Some [n] else None)"
| "dotted_names ((k, n) # (p, d) # ls) =
     (if (k = TWord \<or> k = TQuotedIdent) \<and> p = TPunct \<and> d = ''.''
      then map_option (Cons n) (dotted_names ls) else None)"
| "dotted_names [] = None"

fun dotted_frags :: "Frag list \<Rightarrow> Frag list" where
  "dotted_frags [] = []"
| "dotted_frags [f] = [f]"
| "dotted_frags (f # g # fs) = f # FSym (CHR ''.'') # dotted_frags (g # fs)"

fun name_frag :: "Frag \<Rightarrow> bytes \<Rightarrow> bool" where
  "name_frag (FWord w) n \<longleftrightarrow> w = n \<and> word_ok n"
| "name_frag (FIdent x) n \<longleftrightarrow> x = n"
| "name_frag _ n \<longleftrightarrow> False"

lemma name_frag_cases: "name_frag f n \<longleftrightarrow> f = FWord n \<and> word_ok n \<or> f = FIdent n"
  by (cases f) auto

lemma dotted_frags_read:
  "list_all2 name_frag fs ns \<Longrightarrow> ns \<noteq> [] \<Longrightarrow>
   frags_ok d (dotted_frags fs) \<and>
   dotted_names (List.map_filter frag_lexeme (dotted_frags fs)) = Some ns"
proof (induction fs arbitrary: ns rule: dotted_frags.induct)
  case (2 f)
  then obtain n where "ns = [n]" "name_frag f n" by (auto simp: list_all2_Cons1)
  then show ?case by (auto simp: name_frag_cases word_ok_def map_filter_simps)
next
  case (3 f g fs)
  then obtain n ms where ns: "ns = n # ms" "name_frag f n" "list_all2 name_frag (g # fs) ms"
    by (auto simp: list_all2_Cons1)
  moreover have "ms \<noteq> []" using ns(3) by auto
  ultimately have "frags_ok d (dotted_frags (g # fs))"
    "dotted_names (List.map_filter frag_lexeme (dotted_frags (g # fs))) = Some ms" using 3 by auto
  moreover have "apart (FSym (CHR ''.'')) (hd (dotted_frags (g # fs)))"
    using ns(3) by (cases fs) (auto simp: list_all2_Cons1 name_frag_cases)
  ultimately show ?case
    using ns(1,2) by (auto simp: name_frag_cases word_ok_def map_filter_simps sym_ok_def is_punct_char_def)
qed simp

lemma render_dotted: "fs \<noteq> [] \<Longrightarrow> render q (dotted_frags fs) = concat (map (\<lambda>f. frag_bytes q f @ ''.'') (butlast fs)) @ frag_bytes q (last fs)"
  by (induction fs rule: dotted_frags.induct) auto

lemma lexemes_render:
  assumes "frags_ok (dialectFor ty) fs"
  shows "lexemes ty (render (quoteIdentifier (createSQLBuilder ty)) fs) = List.map_filter frag_lexeme fs"
  using iq.tokenize_render [OF assms] by (simp add: lexemes_def lexemes_frags)

text \<open>The name an emitter inserts is a piece that reads back as the name.\<close>

definition em_frag :: "Emitter \<Rightarrow> bytes \<Rightarrow> Frag" where
  "em_frag em n =
     (if em_quoted em \<or> identifierNeedsQuoting n (em_type em) then FIdent n else FWord n)"

lemma em_frag_name: "name_frag (em_frag em n) n"
  using unquoted_name [of n "em_type em"] by (auto simp: em_frag_def)

lemma em_name_frag: "em_name em n = frag_bytes (quoteIdentifier (createSQLBuilder (em_type em))) (em_frag em n)"
  by (simp add: em_name_def em_frag_def quoteIdentifierIfNeeded_def quoteIdentifier_builderFor)

lemma em_path_reads:
  "\<exists>path. dotted_names (lexemes (em_type em) (em_path em schema n)) = Some (path @ [n])"
proof -
  let ?q = "quoteIdentifier (createSQLBuilder (em_type em))"
  define names where "names = (if schema = [] then [] else splitPath schema) @ [n]"
  have "em_path em schema n = render ?q (dotted_frags (map (em_frag em) names))"
    unfolding names_def by (subst render_dotted) (simp_all add: em_path_def em_name_frag comp_def)
  moreover have "list_all2 name_frag (map (em_frag em) names) names"
    by (simp add: list_all2_conv_all_nth em_frag_name)
  note dotted_frags_read [OF this]
  ultimately have "dotted_names (lexemes (em_type em) (em_path em schema n)) = Some names"
    by (simp add: lexemes_render names_def)
  then show ?thesis by (auto simp: names_def)
qed

lemma em_name_path: "em_path em [] n = em_name em n"
  by (simp add: em_path_def)

lemma em_keyword_cases: "em_keyword em kw = kw \<or> em_keyword em kw = lower kw"
proof -
  have "keyword_case al p kw = kw \<or> keyword_case al p kw = lower kw" for al p
    by (induction al p kw rule: keyword_case.induct) auto
  then show ?thesis by (simp add: em_keyword_def)
qed

lemma word_ok_lower: "word_ok w \<Longrightarrow> word_ok (lower w)"
proof -
  have "isIdentStartByte (lowerc c) = isIdentStartByte c" "isIdentByte (lowerc c) = isIdentByte c" for c
    using byte_less_256 [of c]
    by (auto simp: lowerc_def isIdentStartByte_def isIdentByte_def isalnum_def isalpha_def isupper_def
        islower_def isdigit_def simp flip: byte_inject)
  then show "word_ok w \<Longrightarrow> word_ok (lower w)"
    by (cases w) (auto simp: word_ok_def lower_def list_all_iff)
qed

lemma em_keyword_reads:
  assumes "word_ok kw"
  shows "\<exists>n. dotted_names (lexemes ty (em_keyword em kw)) = Some [n] \<and> ieq n kw"
proof -
  have "dotted_names (lexemes ty w) = Some [w]" if "word_ok w" for w
  proof -
    have "frags_ok (dialectFor ty) [FWord w]" using that by (simp add: word_ok_def)
    from lexemes_render [OF this] show ?thesis by (simp add: map_filter_simps)
  qed
  moreover have "ieq (lower kw) kw" by (simp add: ieq_lower lower_def lowerc_tolower)
  ultimately show ?thesis
    using em_keyword_cases [of em kw] word_ok_lower [OF assms] assms by fastforce
qed


section \<open>Every item fits what was typed\<close>

definition inserts_label :: "DatabaseType \<Rightarrow> bytes \<Rightarrow> CompletionKind \<Rightarrow> bytes \<Rightarrow> bool" where
  "inserts_label ty label kind ins \<longleftrightarrow>
     (\<exists>path n. dotted_names (lexemes ty ins) = Some (path @ [n]) \<and> ieq n label \<and>
        (kind \<noteq> KKeyword \<and> kind \<noteq> KFunction \<longrightarrow> n = label))"

definition item_fits :: "bytes \<Rightarrow> bool \<Rightarrow> DatabaseType \<Rightarrow> CompletionItem \<Rightarrow> bool" where
  "item_fits pfx quoted ty it \<longleftrightarrow>
     isSubsequence (it_label it) pfx \<and>
     (pfx \<noteq> [] \<and> \<not> quoted \<longrightarrow> \<not> ieq (it_label it) pfx) \<and>
     (quoted \<longrightarrow> it_kind it \<noteq> KKeyword \<and> it_kind it \<noteq> KFunction) \<and>
     inserts_label ty (it_label it) (it_kind it) (it_insertText it)"

definition emitter_fits :: "bytes \<Rightarrow> bool \<Rightarrow> DatabaseType \<Rightarrow> Emitter \<Rightarrow> bool" where
  "emitter_fits pfx quoted ty em \<longleftrightarrow>
     em_prefix em = pfx \<and> em_quoted em = quoted \<and> em_type em = ty \<and> list_all (item_fits pfx quoted ty) (em_items em)"

lemma em_add_fits:
  assumes "emitter_fits pfx quoted ty em" "inserts_label ty label kind ins"
  shows "emitter_fits pfx quoted ty (em_add label kind detail owner ins bonus fuzzy em)"
  using assms matchTier_subsequence [of label pfx fuzzy]
  by (auto simp: em_add_def Let_def emitter_fits_def item_fits_def not_less)

lemma inserts_path: "emitter_fits pfx quoted ty em \<Longrightarrow> inserts_label ty n kind (em_path em schema n)"
  using em_path_reads [of em schema n] by (auto simp: inserts_label_def emitter_fits_def)

lemma inserts_name: "emitter_fits pfx quoted ty em \<Longrightarrow> inserts_label ty n kind (em_name em n)"
  using inserts_path [of pfx quoted ty em n kind "[]"] by (simp add: em_name_path)

lemma inserts_keyword: "word_ok kw \<Longrightarrow> kind = KKeyword \<or> kind = KFunction \<Longrightarrow> inserts_label ty kw kind (em_keyword em kw)"
  using em_keyword_reads [of kw ty em] by (fastforce simp: inserts_label_def)

lemma foldl_fits:
  assumes "emitter_fits pfx quoted ty em"
    and "\<And>em x. x \<in> set xs \<Longrightarrow> emitter_fits pfx quoted ty em \<Longrightarrow> emitter_fits pfx quoted ty (f em x)"
  shows "emitter_fits pfx quoted ty (foldl f em xs)"
  using assms by (induction xs arbitrary: em) auto

lemma sqlKeywords_word: "kw \<in> set (sqlKeywords type) \<Longrightarrow> word_ok kw"
  using buildKeywords_ok(3) by (auto simp: sqlKeywords_def per_type_eq list_all_iff table_word_lexes)

lemma sqlFunctions_word: "fn \<in> set (sqlFunctions type) \<Longrightarrow> word_ok fn"
  using buildFunctions_ok(3) by (auto simp: sqlFunctions_def per_type_eq list_all_iff table_word_lexes)

lemmas add_fits = em_add_fits inserts_path inserts_name inserts_keyword sqlKeywords_word sqlFunctions_word

lemma addKeywords_fits: "emitter_fits p q ty em \<Longrightarrow> emitter_fits p q ty (addKeywords type bs base boost em)"
  unfolding addKeywords_def Let_def by (erule foldl_fits) (simp add: add_fits)

lemma addFunctions_fits: "emitter_fits p q ty em \<Longrightarrow> emitter_fits p q ty (addFunctions type cat base em)"
  unfolding addFunctions_def by (intro foldl_fits) (simp_all add: add_fits)

lemma addRelations_fits: "emitter_fits p q ty em \<Longrightarrow> emitter_fits p q ty (addRelations cat tb vb em)"
  unfolding addRelations_def add_relation_list_def Let_def by (intro foldl_fits) (simp_all add: add_fits)

lemma add_first_segments_fits:
  "emitter_fits p q ty em \<Longrightarrow> emitter_fits p q ty (add_first_segments cat bonus seen ss em)"
  by (induction ss arbitrary: seen em) (simp_all add: Let_def add_fits)

lemma addSchemas_fits: "emitter_fits p q ty em \<Longrightarrow> emitter_fits p q ty (addSchemas cat bonus em)"
  by (simp add: addSchemas_def add_first_segments_fits)

lemma add_next_segments_fits:
  "emitter_fits p q ty em \<Longrightarrow> emitter_fits p q ty (add_next_segments qs bonus seen ss em)"
  by (induction ss arbitrary: seen em) (simp_all add: Let_def add_fits)

lemma addSchemaMembers_fits:
  "emitter_fits p q ty em \<Longrightarrow> emitter_fits p q ty (addSchemaMembers cat qs bonus withSeq em)"
  unfolding addSchemaMembers_def Let_def
  by (intro add_next_segments_fits) (auto intro!: foldl_fits simp: add_fits)

lemma addColumns_fits: "emitter_fits p q ty em \<Longrightarrow> emitter_fits p q ty (addColumns cols owner bonus em)"
  unfolding addColumns_def by (erule foldl_fits) (simp add: add_fits)

lemma offer_refs_fits: "emitter_fits p q ty em \<Longrightarrow> emitter_fits p q ty (offer_refs a named rs em)"
proof (induction rs arbitrary: named em)
  case (Cons r rs)
  have "emitter_fits p q ty (addColumns (refColumns a r 0) (rr_name r) 900 em)"
    using Cons.prems by (rule addColumns_fits)
  note em_add_fits [OF this inserts_name [OF this]]
  with Cons show ?case by (simp add: Let_def)
qed simp

lemma offer_columns_fits: "emitter_fits p q ty em \<Longrightarrow> emitter_fits p q ty (offer_columns a type grp em)"
  unfolding offer_columns_def Let_def
  by (auto intro!: foldl_fits addKeywords_fits addFunctions_fits offer_refs_fits addRelations_fits simp: add_fits)

lemma offer_relations_fits: "emitter_fits p q ty em \<Longrightarrow> emitter_fits p q ty (offer_relations a type em)"
  unfolding offer_relations_def Let_def
  by (auto intro!: foldl_fits addSchemas_fits addRelations_fits simp: add_fits)

lemma offer_context_fits: "emitter_fits p q ty em \<Longrightarrow> emitter_fits p q ty (offer_context a type ctx grp em)"
  by (auto simp: offer_context_def addKeywords_fits offer_relations_fits addColumns_fits offer_columns_fits
      split: Ctx.split)

lemma offer_members_fits: "emitter_fits p q ty em \<Longrightarrow> emitter_fits p q ty (offer_members a ctx qs grp em)"
  by (simp add: offer_members_def addSchemaMembers_fits addColumns_fits)

lemma new_emitter_fits: "emitter_fits p q ty (new_emitter p q ty)"
  by (simp add: emitter_fits_def new_emitter_def)


section \<open>The identifier being typed\<close>

lemma scanQuoted_unclosed: "scanQuoted close bs r = (t, False, n) \<Longrightarrow> n = length r"
proof (induction "length r" arbitrary: r t n rule: less_induct)
  case less
  show ?case
  proof (cases r)
    case (Cons ch r1)
    show ?thesis
    proof (cases r1)
      case Nil
      with Cons less.prems show ?thesis by (auto split: if_splits)
    next
      case (Cons e r2)
      with \<open>r = ch # r1\<close> less.prems less.hyps [of r1] less.hyps [of r2] show ?thesis
        by (auto simp: scanQuoted.simps(2) [of close bs ch "e # r2"] simp del: scanQuoted.simps(2)
            split: if_splits prod.splits)
    qed
  qed (use less.prems in simp)
qed

lemma unclosed_quoted_end:
  assumes "i < length s" "tk_kind (lex_token d s i) = TQuotedIdent" "\<not> tk_closed (lex_token d s i)"
  shows "tk_end (lex_token d s i) = length s"
proof -
  have "tk_kind (lex_token d s i) = TQuotedIdent \<and> \<not> tk_closed (lex_token d s i) \<longrightarrow>
      tk_end (lex_token d s i) = length s"
  proof (induction rule: lex_token_branches)
    case (quoted k close bs)
    show ?case using assms(1)
      by (auto simp: quoted_token_def dest!: scanQuoted_unclosed split: prod.split)
  next
    case dollar
    show ?case using dollar_token_sel(2) [of s i] by auto
  qed simp_all
  with assms show ?thesis by blast
qed

lemma statement_tokens_sub:
  assumes "t \<in> set (statement_tokens all (statementAt all offset n))"
  shows "t \<in> set all"
proof -
  have "sp_lastTok (statement_scan offset span i ts) \<le> max (sp_lastTok span) (i + length ts)" for span i ts
    by (induction offset span i ts rule: statement_scan.induct) auto
  from this [of "\<lparr>sp_begin = 0, sp_end = n, sp_firstTok = 0, sp_lastTok = length all\<rparr>" 0 all]
  have "sp_lastTok (statementAt all offset n) \<le> length all" by (simp add: statementAt_def)
  with assms show ?thesis by (auto simp: statement_tokens_def)
qed

lemma analyzer_token:
  assumes "t \<in> set (an_toks (new_analyzer sql offset catalog type))"
  shows "\<exists>i<length sql. t = lex_token (dialectFor type) sql i"
  using statement_tokens_sub [of t "tokenize sql (dialectFor type)"] assms
    tokenize_from_visible [of t "dialectFor type" sql 0]
  by (auto simp: new_analyzer_toks tokenize_def)

definition typed_ok :: "bytes \<Rightarrow> nat \<Rightarrow> Typed \<Rightarrow> bool" where
  "typed_ok sql cursor t \<longleftrightarrow>
     ty_start t \<le> cursor \<and> cursor \<le> ty_end t \<and> ty_end t \<le> length sql \<and>
     (if ty_quoted t then ty_start t < cursor \<and> ty_prefix t = substr sql (ty_start t + 1) (cursor - ty_start t - 1)
      else ty_prefix t = substr sql (ty_start t) (cursor - ty_start t))"

lemma typed_at_ok:
  assumes "cursor \<le> length sql" "\<forall>t\<in>set ts. \<exists>i<length sql. t = lex_token d sql i"
  shows "typed_ok sql cursor (typed_at sql cursor i ts) \<and> i \<le> ty_cur (typed_at sql cursor i ts) \<and>
    ty_cur (typed_at sql cursor i ts) \<le> i + int (length ts)"
  using assms
proof (induction ts arbitrary: i)
  case Nil
  then show ?case by (simp add: typed_ok_def substr_def)
next
  case (Cons t ts)
  then obtain k where k: "k < length sql" "t = lex_token d sql k" by auto
  have e: "tk_end t \<le> length sql" using lex_token_end [OF k(1)] k(2) by simp
  have q: "tk_kind t = TQuotedIdent \<Longrightarrow> \<not> tk_closed t \<Longrightarrow> tk_end t = length sql"
    using unclosed_quoted_end [OF k(1)] k(2) by simp
  have "typed_ok sql cursor (typed_at sql cursor (i + 1) ts)" "i + 1 \<le> ty_cur (typed_at sql cursor (i + 1) ts)"
    "ty_cur (typed_at sql cursor (i + 1) ts) \<le> i + 1 + int (length ts)"
    using Cons by auto
  with e q Cons.prems(1) show ?case by (auto simp: typed_ok_def substr_def)
qed

text \<open>Where nothing is offered, for tokens in order.\<close>

definition blocks :: "nat \<Rightarrow> Token \<Rightarrow> bool" where
  "blocks cursor t \<longleftrightarrow> tk_begin t < cursor \<and>
     (case tk_kind t of
        TComment \<Rightarrow> (if tk_lineComment t then cursor \<le> tk_end t else cursor < tk_end t \<or> \<not> tk_closed t)
      | TString \<Rightarrow> cursor < tk_end t \<or> \<not> tk_closed t
      | TNumber \<Rightarrow> cursor \<le> tk_end t
      | TParam \<Rightarrow> cursor \<le> tk_end t
      | _ \<Rightarrow> False)"

lemma nothing_at_blocks:
  "sorted_wrt (\<lambda>t u. tk_begin t < tk_begin u) ts \<Longrightarrow> nothing_at cursor ts \<longleftrightarrow> (\<exists>t\<in>set ts. blocks cursor t)"
proof (induction ts)
  case (Cons t ts)
  show ?case
  proof (cases "cursor \<le> tk_begin t")
    case True
    with Cons.prems have "\<not> blocks cursor u" if "u \<in> set (t # ts)" for u
      using that by (auto simp: blocks_def)
    with True show ?thesis by auto
  next
    case False
    with Cons show ?thesis by (simp add: blocks_def [of cursor t] not_le)
  qed
qed simp

lemma tokenize_begins: "sorted_wrt (\<lambda>t u. tk_begin t < tk_begin u) (tokenize s d)"
proof -
  have "sorted_wrt (\<lambda>t u. tk_end t \<le> tk_begin u) (tokenize s d)" "\<forall>t\<in>set (tokenize s d). tk_begin t < tk_end t"
    using tokenize_from_ordered tokenize_from_bounds by (auto simp: tokenize_def token_ok_def)
  then show ?thesis by (auto intro: sorted_wrt_mono_rel [rotated] elim!: order.strict_trans2)
qed


lemma complete_unfold:
  fixes sql cursor0 catalog type
  defines "cursor \<equiv> min cursor0 (length sql)"
  assumes "isSqlDialect type" "\<not> nothing_at cursor (tokenize sql (dialectFor type))"
  obtains t em where "typed_ok sql cursor t" "emitter_fits (ty_prefix t) (ty_quoted t) type em"
    "complete sql cursor0 catalog type =
      \<lparr>cr_items = take_items em, cr_replaceStart = ty_start t, cr_replaceEnd = ty_end t\<rparr>"
proof -
  let ?a = "new_analyzer sql cursor catalog type"
  let ?t = "typed_at sql cursor 0 (an_toks ?a)"
  let ?qc = "qualifierBefore ?a (ty_cur ?t)"
  let ?g = "groupAt ?a (ty_cur ?t)" and ?c = "detectContext ?a (snd ?qc)"
  let ?e = "new_emitter (ty_prefix ?t) (ty_quoted ?t) type"
  let ?em = "if fst ?qc \<noteq> [] then offer_members ?a ?c (fst ?qc) ?g ?e else offer_context ?a type ?c ?g ?e"
  show thesis
  proof (rule that)
    show "typed_ok sql cursor ?t"
      using typed_at_ok [of cursor sql "an_toks ?a" "dialectFor type" 0] analyzer_token
      by (auto simp: cursor_def)
    show "emitter_fits (ty_prefix ?t) (ty_quoted ?t) type ?em"
      by (simp add: offer_members_fits offer_context_fits new_emitter_fits)
    show "complete sql cursor0 catalog type =
      \<lparr>cr_items = take_items ?em, cr_replaceStart = ty_start ?t, cr_replaceEnd = ty_end ?t\<rparr>"
      using assms(2,3) unfolding complete_def cursor_def [symmetric] Let_def by simp
  qed
qed

lemma complete_nothing:
  "\<not> isSqlDialect type \<or> nothing_at (min cursor (length sql)) (tokenize sql (dialectFor type)) \<Longrightarrow>
   complete sql cursor catalog type =
     \<lparr>cr_items = [], cr_replaceStart = min cursor (length sql), cr_replaceEnd = min cursor (length sql)\<rparr>"
  by (auto simp: complete_def Let_def)

section \<open>Resolution\<close>




lemma or_else_sound:
  "(\<And>r. x = Some r \<Longrightarrow> P r) \<Longrightarrow> (\<And>r. y = Some r \<Longrightarrow> P r) \<Longrightarrow> or_else x y = Some r \<Longrightarrow> P r"
  by (auto simp: or_else_def split: option.splits)















section \<open>Properties\<close>

text \<open>
  C7: what \<^verbatim>\<open>complete\<close> returns, for every text, cursor, catalog and server. The replaced range lies in
  the text and holds the cursor. The items are sorted by the documented comparison and no two have
  the same key. Every item fits what was typed between the range's start and the cursor: the typed
  text is a subsequence of its label up to case, it is not the word already typed, no keyword or
  function is offered inside quotes, and its insert text tokenizes to a dotted path of identifiers
  that ends in the label. Inside quotes the typed text starts after the quote.
\<close>

theorem complete_items:
  fixes sql cursor0 catalog type
  defines "r \<equiv> complete sql cursor0 catalog type" and "cursor \<equiv> min cursor0 (length sql)"
  shows "cr_replaceStart r \<le> cursor \<and> cursor \<le> cr_replaceEnd r \<and> cr_replaceEnd r \<le> length sql \<and>
    sorted_wrt (\<lambda>x y. \<not> item_less y x) (cr_items r) \<and> distinct (map item_key (cr_items r)) \<and>
    (\<exists>quoted. list_all
       (item_fits (substr sql (cr_replaceStart r + of_bool quoted) (cursor - cr_replaceStart r - of_bool quoted)) quoted type)
       (cr_items r))"
proof (cases "\<not> isSqlDialect type \<or> nothing_at cursor (tokenize sql (dialectFor type))")
  case True
  note complete_nothing [OF True [unfolded cursor_def], of catalog]
  then show ?thesis by (auto simp: r_def cursor_def)
next
  case False
  then obtain t em where t: "typed_ok sql cursor t" and em: "emitter_fits (ty_prefix t) (ty_quoted t) type em"
    and r: "r = \<lparr>cr_items = take_items em, cr_replaceStart = ty_start t, cr_replaceEnd = ty_end t\<rparr>"
    unfolding r_def cursor_def using complete_unfold [of type cursor0 sql catalog] by blast
  have fits: "list_all (item_fits (ty_prefix t) (ty_quoted t) type) (take_items em)"
    using em take_items_facts(3) [of em] by (auto simp: emitter_fits_def list_all_iff)
  have "ty_prefix t = substr sql (ty_start t + of_bool (ty_quoted t)) (cursor - ty_start t - of_bool (ty_quoted t))"
    using t by (auto simp: typed_ok_def split: if_splits)
  with fits have "\<exists>quoted. list_all
       (item_fits (substr sql (ty_start t + of_bool quoted) (cursor - ty_start t - of_bool quoted)) quoted type) (take_items em)"
    by metis
  with t take_items_facts(1,2) [of em] show ?thesis by (simp add: r typed_ok_def)
qed

text \<open>
  \<^verbatim>\<open>complete\<close> offers nothing, and replaces nothing, on a server without SQL and wherever the
  cursor is inside a comment, a string, a number or a parameter of the text: after the token begins
  and before it ends, or at the end of an unclosed one, of a line comment, of a number or of a
  parameter.
\<close>

lemma complete_silent:
  assumes "type \<in> {REDIS, MONGODB} \<or>
    (\<exists>t \<in> set (tokenize sql (dialectFor type)). blocks (min cursor (length sql)) t)"
  shows "complete sql cursor catalog type =
    \<lparr>cr_items = [], cr_replaceStart = min cursor (length sql), cr_replaceEnd = min cursor (length sql)\<rparr>"
  using assms nothing_at_blocks [OF tokenize_begins] by (intro complete_nothing) (auto simp: isSqlDialect_def)

lemma complete_silent_witness:
  "complete ''SELECT 'ab'' 9 sample_catalog MYSQL = \<lparr>cr_items = [], cr_replaceStart = 9, cr_replaceEnd = 9\<rparr>"
proof -
  have "\<exists>t\<in>set (tokenize ''SELECT 'ab'' (dialectFor MYSQL)). blocks 9 t" by code_simp
  moreover have "min 9 (length ''SELECT 'ab'') = 9" by simp
  ultimately show ?thesis using complete_silent [of MYSQL "''SELECT 'ab''" 9 sample_catalog] by metis
qed




end
