(* ===== verification/Double_Numbers.thy ===== *)
theory Double_Numbers
  imports Dearsql_Prelude Complex_Main
begin

text \<open>
  The C++ \<^verbatim>\<open>double\<close> as the sources use it: IEEE 754 binary64 with round to nearest, ties to even. A
  finite value is a sign and an exact rational magnitude, so zero has a sign; overflow gives an
  infinity. The theory also models \<^verbatim>\<open>std::stod\<close> and the default formatting of \<^verbatim>\<open>std::ostream\<close>. The
  lemmas are the ones clients need: rounding is monotone and comparison is total off NaN.
\<close>


section \<open>Values\<close>

datatype Double = Fin (negative: bool) (magnitude: rat) | Infinite (negative: bool) | NaN

text \<open>
  The number of digits of a positive integer, and the exponent of the leading digit of a positive
  rational, from the lengths of numerator and denominator.
\<close>

function places :: "int \<Rightarrow> int \<Rightarrow> int" where
  "places b n = (if b \<le> 1 \<or> n \<le> 0 then 0 else 1 + places b (n div b))"
  by pat_completeness auto
termination
proof (relation "measure (\<lambda>(b, n). nat n)")
  fix b n :: int
  assume "\<not> (b \<le> 1 \<or> n \<le> 0)"
  then have "n div b < n" "0 < n" by (auto intro: int_div_less_self)
  then show "((b, n div b), (b, n)) \<in> measure (\<lambda>(b, n). nat n)" by simp
qed simp

declare places.simps [simp del]

definition bin_exp :: "rat \<Rightarrow> int" where
  "bin_exp x =
     (let (n, d) = quotient_of x;
          e = places 2 n - places 2 d
      in if 2 powi e \<le> x then e else e - 1)"

definition round_even :: "rat \<Rightarrow> int" where
  "round_even x =
     (let f = \<lfloor>x\<rfloor>; r = x - of_int f
      in if r < 1 / 2 then f else if 1 / 2 < r then f + 1 else if even f then f else f + 1)"

text \<open>
  Rounding a magnitude: 53 significant bits, no bit below \<open>2 powi -1074\<close>. \<open>None\<close> is overflow.
\<close>

definition last_bit :: "rat \<Rightarrow> int" where
  "last_bit x = max (bin_exp x - 52) (- 1074)"

definition nearest :: "rat \<Rightarrow> rat" where
  "nearest x = (if x \<le> 0 then 0 else of_int (round_even (x / 2 powi last_bit x)) * 2 powi last_bit x)"

definition double_limit :: rat where
  "double_limit = 2 powi 1024"

definition to_double :: "bool \<Rightarrow> rat \<Rightarrow> Double" where
  "to_double s x = (if nearest x < double_limit then Fin s (nearest x) else Infinite s)"

definition is_double :: "Double \<Rightarrow> bool" where
  "is_double d = (case d of Fin s m \<Rightarrow> 0 \<le> m \<and> nearest m = m \<and> m < double_limit | _ \<Rightarrow> True)"


section \<open>Arithmetic\<close>

definition signed :: "bool \<Rightarrow> rat \<Rightarrow> rat" where
  "signed s m = (if s then - m else m)"

definition double_of_rat :: "rat \<Rightarrow> Double" where
  "double_of_rat x = to_double (x < 0) \<bar>x\<bar>"

fun dplus :: "Double \<Rightarrow> Double \<Rightarrow> Double" where
  "dplus NaN _ = NaN"
| "dplus _ NaN = NaN"
| "dplus (Infinite s) (Infinite t) = (if s = t then Infinite s else NaN)"
| "dplus (Infinite s) (Fin _ _) = Infinite s"
| "dplus (Fin _ _) (Infinite t) = Infinite t"
| "dplus (Fin s m) (Fin t n) =
     (let v = signed s m + signed t n
      in if v = 0 then Fin (s \<and> t \<and> m = 0) 0 else double_of_rat v)"

fun dneg :: "Double \<Rightarrow> Double" where
  "dneg (Fin s m) = Fin (\<not> s) m"
| "dneg (Infinite s) = Infinite (\<not> s)"
| "dneg NaN = NaN"

definition dminus :: "Double \<Rightarrow> Double \<Rightarrow> Double" where
  "dminus x y = dplus x (dneg y)"

fun dtimes :: "Double \<Rightarrow> Double \<Rightarrow> Double" where
  "dtimes NaN _ = NaN"
| "dtimes _ NaN = NaN"
| "dtimes (Infinite s) (Infinite t) = Infinite (s \<noteq> t)"
| "dtimes (Infinite s) (Fin t n) = (if n = 0 then NaN else Infinite (s \<noteq> t))"
| "dtimes (Fin s m) (Infinite t) = (if m = 0 then NaN else Infinite (s \<noteq> t))"
| "dtimes (Fin s m) (Fin t n) = to_double (s \<noteq> t) (m * n)"

fun dless :: "Double \<Rightarrow> Double \<Rightarrow> bool" where
  "dless NaN _ = False"
| "dless _ NaN = False"
| "dless (Infinite s) (Infinite t) = (s \<and> \<not> t)"
| "dless (Infinite s) (Fin _ _) = s"
| "dless (Fin _ _) (Infinite t) = (\<not> t)"
| "dless (Fin s m) (Fin t n) = (signed s m < signed t n)"

text \<open>\<^verbatim>\<open>std::max(a, b)\<close> is \<^verbatim>\<open>a < b ? b : a\<close>, so a NaN on the right is dropped.\<close>

definition dmax :: "Double \<Rightarrow> Double \<Rightarrow> Double" where
  "dmax a b = (if dless a b then b else a)"

definition dzero :: Double where "dzero = Fin False 0"
definition double_one :: Double where "double_one = Fin False 1"


section \<open>Numbers as text\<close>

text \<open>
  \<^verbatim>\<open>std::stod\<close> on text without the letters of hexadecimal numbers, infinities and NaNs: white space, a
  sign, digits with at most one point, an exponent if digits follow it; what comes after is
  ignored. \<open>Inl\<close> is the exception: no digits, or \<^verbatim>\<open>ERANGE\<close> for overflow and inexact underflow.
\<close>

datatype Number_Error = Invalid_Argument | Out_Of_Range

definition split_sign :: "bytes \<Rightarrow> bool \<times> bytes" where
  "split_sign s =
     (if s \<noteq> [] \<and> hd s = CHR ''-'' then (True, tl s)
      else if s \<noteq> [] \<and> hd s = CHR ''+'' then (False, tl s) else (False, s))"

definition split_point :: "bytes \<Rightarrow> bytes \<times> bytes" where
  "split_point s =
     (if s \<noteq> [] \<and> hd s = CHR ''.'' then (takeWhile isdigit (tl s), dropWhile isdigit (tl s)) else ([], s))"

definition read_exponent :: "bytes \<Rightarrow> int" where
  "read_exponent s =
     (if s \<noteq> [] \<and> (hd s = CHR ''e'' \<or> hd s = CHR ''E'')
      then let (neg, r) = split_sign (tl s); e = int (nat_of_digits (takeWhile isdigit r))
           in if neg then - e else e
      else 0)"

definition stod :: "bytes \<Rightarrow> Number_Error + Double" where
  "stod s =
     (let (neg, r) = split_sign (dropWhile isspace s);
          ds = takeWhile isdigit r;
          (fs, r') = split_point (dropWhile isdigit r)
      in if ds @ fs = [] then Inl Invalid_Argument
         else let x = of_nat (nat_of_digits (ds @ fs)) * 10 powi (read_exponent r' - int (length fs));
                  d = to_double neg x
              in if d = Infinite neg \<or> magnitude d < 2 powi (- 1022) \<and> magnitude d \<noteq> x
                 then Inl Out_Of_Range else Inr d)"

text \<open>
  \<^verbatim>\<open>std::ostream << double\<close> with the default precision, as \<^verbatim>\<open>%g\<close>: six significant digits, trailing zeros
  dropped, an exponent below \<open>-4\<close> or from \<open>6\<close> on.
\<close>

definition dec_exp :: "rat \<Rightarrow> int" where
  "dec_exp x =
     (let (n, d) = quotient_of x;
          e = places 10 n - places 10 d
      in if 10 powi e \<le> x then e else e - 1)"

definition six_digits :: "rat \<Rightarrow> nat \<times> int" where
  "six_digits x =
     (let e = dec_exp x; m = nat (round_even (x / 10 powi (e - 5)))
      in if m = 1000000 then (100000, e + 1) else (m, e))"

definition strip_zeros :: "bytes \<Rightarrow> bytes" where
  "strip_zeros s = rev (dropWhile (\<lambda>c. c = CHR ''0'') (rev s))"

definition with_fraction :: "bytes \<Rightarrow> bytes \<Rightarrow> bytes" where
  "with_fraction a b = (let f = strip_zeros b in if f = [] then a else a @ ''.'' @ f)"

definition exponent_text :: "int \<Rightarrow> bytes" where
  "exponent_text e =
     (let ds = nat_to_string (nat \<bar>e\<bar>)
      in [CHR ''e'', if e < 0 then CHR ''-'' else CHR ''+''] @ (if length ds < 2 then CHR ''0'' # ds else ds))"

definition format_magnitude :: "rat \<Rightarrow> bytes" where
  "format_magnitude x =
     (if x \<le> 0 then ''0''
      else let (m, e) = six_digits x; ds = nat_to_string m
           in if e < - 4 \<or> 6 \<le> e then with_fraction (take 1 ds) (drop 1 ds) @ exponent_text e
              else if e < 0 then with_fraction ''0'' (replicate (nat (- e - 1)) CHR ''0'' @ ds)
              else with_fraction (take (nat e + 1) ds) (drop (nat e + 1) ds))"

fun format_double :: "Double \<Rightarrow> bytes" where
  "format_double (Fin s m) = (if s then ''-'' else []) @ format_magnitude m"
| "format_double (Infinite s) = (if s then ''-'' else []) @ ''inf''"
| "format_double NaN = ''nan''"


section \<open>Rounding is monotone\<close>

lemma places_nonneg: "0 \<le> places b n"
  by (induction b n rule: places.induct) (subst places.simps, auto)

lemma places_bounds:
  assumes "0 < n"
  shows "(2::rat) powi (places 2 n - 1) \<le> of_int n \<and> of_int n < (2::rat) powi places 2 n"
  using assms
proof (induction "2::int" n rule: places.induct)
  case (1 n)
  show ?case
  proof (cases "n = 1")
    case True
    then show ?thesis by (simp add: places.simps)
  next
    case False
    define k where "k = places 2 (n div 2)"
    from False 1 have h: "2 powi (k - 1) \<le> (of_int (n div 2) :: rat)" "of_int (n div 2) < (2::rat) powi k"
      by (auto simp: k_def)
    have b: "places 2 n = 1 + k" using 1(2) by (subst places.simps) (simp add: k_def)
    have "(2::rat) powi k = of_int (2 ^ nat k)" if "0 \<le> k" using that by (simp add: power_int_def)
    moreover have k0: "0 < k"
      using places_nonneg [of 2 "n div 2 div 2"] False 1(2) unfolding k_def by (subst places.simps) auto
    ultimately have "n div 2 < 2 ^ nat k" using h(2) by (metis less_imp_le of_int_less_iff)
    then have "n < 2 * 2 ^ nat k" by simp
    then have "(of_int n :: rat) < of_int (2 * 2 ^ nat k)" by (simp only: of_int_less_iff)
    then have "of_int n < 2 * (2::rat) powi k" using k0 by (simp add: power_int_def)
    moreover have "2 * 2 powi (k - 1) \<le> (of_int n :: rat)"
    proof -
      have "2 * (of_int (n div 2) :: rat) \<le> of_int n" 
      proof -
        have "2 * (n div 2) \<le> n" by simp
        then have "(of_int (2 * (n div 2)) :: rat) \<le> of_int n" by (simp only: of_int_le_iff)
        then show ?thesis by simp
      qed
      with h(1) show ?thesis by linarith
    qed
    moreover have "2 * (2::rat) powi (k - 1) = 2 powi k" "2 powi (1 + k) = 2 * (2::rat) powi k"
      by (simp_all add: power_int_diff power_int_add)
    ultimately show ?thesis using b by simp
  qed
qed

lemma bin_exp_bounds:
  assumes "0 < x"
  shows "2 powi bin_exp x \<le> x" "x < 2 powi (bin_exp x + 1)"
proof -
  obtain n d where q: "quotient_of x = (n, d)" by fastforce
  have d: "0 < d" and x: "x = of_int n / of_int d" using q quotient_of_denom_pos quotient_of_div by auto
  with assms have n: "0 < n" by (simp add: zero_less_divide_iff)
  define a b where "a = places 2 n" and "b = places 2 d"
  have rn: "2 powi (a - 1) \<le> (of_int n :: rat)" "(of_int n :: rat) < 2 powi a"
    and rd: "2 powi (b - 1) \<le> (of_int d :: rat)" "(of_int d :: rat) < 2 powi b"
    using places_bounds [OF n] places_bounds [OF d] by (simp_all add: a_def b_def)
  have pd: "(2::rat) powi (i - j) = 2 powi i / 2 powi j" for i j by (simp add: power_int_diff)
  have lo: "2 powi (a - b - 1) \<le> x"
  proof -
    have "(2::rat) powi (a - b - 1) = 2 powi (a - 1) / 2 powi b"
      using pd [of "a - 1" b] by (simp add: algebra_simps)
    also have "\<dots> \<le> of_int n / of_int d"
      using rn(1) rd(2) d n by (intro frac_le) auto
    finally show ?thesis by (simp add: x)
  qed
  have hi: "x < 2 powi (a - b + 1)"
  proof -
    have "of_int n / of_int d < (2::rat) powi a / 2 powi (b - 1)"
      using rn(2) rd(1) d n by (intro frac_less) auto
    also have "\<dots> = (2::rat) powi (a - b + 1)"
      using pd [of a "b - 1"] by (simp add: algebra_simps)
    finally show ?thesis by (simp add: x)
  qed
  show "2 powi bin_exp x \<le> x" "x < 2 powi (bin_exp x + 1)"
    using lo hi by (auto simp: bin_exp_def q Let_def a_def b_def)
qed

lemma powi_mono: "i \<le> j \<Longrightarrow> (2::rat) powi i \<le> 2 powi j"
  by (rule power_int_increasing) auto

lemma bin_exp_mono: "0 < x \<Longrightarrow> x \<le> y \<Longrightarrow> bin_exp x \<le> bin_exp y"
proof (rule ccontr)
  assume xy: "0 < x" "x \<le> y" "\<not> bin_exp x \<le> bin_exp y"
  then have "(2::rat) powi (bin_exp y + 1) \<le> 2 powi bin_exp x" by (intro powi_mono) simp
  with bin_exp_bounds(1) [of x] bin_exp_bounds(2) [of y] xy show False by simp
qed

lemma round_even_of_int [simp]: "round_even (of_int k) = k"
  by (simp add: round_even_def)

lemma round_even_mono:
  assumes "x \<le> y"
  shows "round_even x \<le> round_even y"
proof (rule ccontr)
  assume lt: "\<not> round_even x \<le> round_even y"
  have f: "\<lfloor>x\<rfloor> \<le> \<lfloor>y\<rfloor>" using assms by (rule floor_mono)
  have r: "\<lfloor>z\<rfloor> \<le> round_even z \<and> round_even z \<le> \<lfloor>z\<rfloor> + 1" for z by (simp add: round_even_def Let_def)
  from lt f r [of x] r [of y] have "\<lfloor>x\<rfloor> = \<lfloor>y\<rfloor>" "round_even x = \<lfloor>y\<rfloor> + 1" "round_even y = \<lfloor>y\<rfloor>" by linarith+
  with assms show False by (auto simp: round_even_def Let_def split: if_splits)
qed

lemma nearest_nonneg: "0 \<le> nearest x"
proof (cases "x \<le> 0")
  case False
  then have "round_even 0 \<le> round_even (x / 2 powi last_bit x)" by (intro round_even_mono) auto
  then show ?thesis using False round_even_of_int [of 0] by (simp add: nearest_def)
qed (simp add: nearest_def)

lemma nearest_same_bit:
  assumes "0 < x" "x \<le> y" "last_bit x = last_bit y"
  shows "nearest x \<le> nearest y"
proof -
  have "round_even (x / 2 powi last_bit y) \<le> round_even (y / 2 powi last_bit y)"
    using assms by (intro round_even_mono divide_right_mono) auto
  with assms show ?thesis by (simp add: nearest_def)
qed

lemma round_even_powi: "0 \<le> k \<Longrightarrow> of_int (round_even (2 powi k)) = (2::rat) powi k"
  using round_even_of_int [of "2 ^ nat k"] by (simp add: power_int_def)

lemma nearest_mono:
  assumes "x \<le> y"
  shows "nearest x \<le> nearest y"
proof (cases "x \<le> 0")
  case True
  then show ?thesis using nearest_nonneg by (simp add: nearest_def [of x])
next
  case False
  then have x: "0 < x" and y: "0 < y" using assms by auto
  have e: "bin_exp x \<le> bin_exp y" using x assms by (rule bin_exp_mono)
  show ?thesis
  proof (cases "last_bit x = last_bit y")
    case True
    with x assms show ?thesis by (rule nearest_same_bit)
  next
    case False
    with e have q: "last_bit x < last_bit y" "last_bit y = bin_exp y - 52" by (auto simp: last_bit_def)
    then have ex: "bin_exp x < bin_exp y" by (simp add: last_bit_def)
    let ?B = "(2::rat) powi bin_exp y"
    have "x < 2 powi (bin_exp x + 1)" using x by (rule bin_exp_bounds)
    also have "\<dots> \<le> ?B" using ex by (intro powi_mono) simp
    finally have xB: "x \<le> ?B" by simp
    have "x / 2 powi last_bit x \<le> ?B / 2 powi last_bit x" using xB by (intro divide_right_mono) auto
    also have "\<dots> = 2 powi (bin_exp y - last_bit x)" by (simp add: power_int_diff)
    finally have "round_even (x / 2 powi last_bit x) \<le> round_even (2 powi (bin_exp y - last_bit x))"
      by (rule round_even_mono)
    then have "(of_int (round_even (x / 2 powi last_bit x)) :: rat) \<le> of_int (round_even (2 powi (bin_exp y - last_bit x)))"
      by simp
    also have "\<dots> = 2 powi (bin_exp y - last_bit x)" using q by (intro round_even_powi) simp
    finally have "nearest x \<le> 2 powi (bin_exp y - last_bit x) * 2 powi last_bit x"
      using x by (simp add: nearest_def)
    then have l: "nearest x \<le> ?B" by (simp add: power_int_diff)
    have "(2::rat) powi 52 = ?B / 2 powi last_bit y" using q(2) by (simp add: power_int_diff)
    also have "\<dots> \<le> y / 2 powi last_bit y" using bin_exp_bounds(1) [OF y] by (intro divide_right_mono) auto
    finally have "round_even (2 powi 52) \<le> round_even (y / 2 powi last_bit y)" by (rule round_even_mono)
    then have "(of_int (round_even (2 powi 52)) :: rat) \<le> of_int (round_even (y / 2 powi last_bit y))" by simp
    then have "2 powi 52 * 2 powi last_bit y \<le> nearest y"
      using y round_even_powi [of 52] by (simp add: nearest_def)
    moreover have "?B = 2 powi 52 * 2 powi last_bit y" using q(2) power_int_add [of "2::rat" 52 "last_bit y"] by simp
    ultimately show ?thesis using l by simp
  qed
qed


lemma nearest_int:
  assumes "0 \<le> k" "k < 2 ^ 53"
  shows "nearest (of_int k) = of_int k"
proof (cases "k = 0")
  case False
  let ?x = "of_int k :: rat"
  have x: "0 < ?x" using False assms by simp
  have "bin_exp ?x \<le> 52"
  proof (rule ccontr)
    assume "\<not> bin_exp ?x \<le> 52"
    then have "(2::rat) powi 53 \<le> 2 powi bin_exp ?x" by (intro powi_mono) simp
    with bin_exp_bounds(1) [OF x] have "(of_int (2 ^ 53) :: rat) \<le> of_int k" by (simp add: power_int_def)
    then show False using assms(2) by (simp only: of_int_le_iff)
  qed
  then have l: "last_bit ?x \<le> 0" by (simp add: last_bit_def)
  have "?x / 2 powi last_bit ?x = ?x * 2 powi (- last_bit ?x)" by (simp add: power_int_minus divide_inverse)
  also have "\<dots> = of_int (k * 2 ^ nat (- last_bit ?x))" using l by (simp add: power_int_def)
  finally have "of_int (round_even (?x / 2 powi last_bit ?x)) = ?x / 2 powi last_bit ?x"
    by (metis round_even_of_int)
  then show ?thesis using x by (simp add: nearest_def)
qed (simp add: nearest_def)

lemma less_double_limit: "k < 2 ^ 53 \<Longrightarrow> of_int k < double_limit"
proof -
  assume k: "k < 2 ^ 53"
  have "(of_int k :: rat) < of_int (2 ^ 53)" using k by (simp only: of_int_less_iff)
  also have "\<dots> = (2::rat) powi 53" by simp
  also have "\<dots> \<le> double_limit" unfolding double_limit_def by (rule powi_mono) simp
  finally show ?thesis .
qed

lemma to_double_int: "0 \<le> k \<Longrightarrow> k < 2 ^ 53 \<Longrightarrow> to_double s (of_int k) = Fin s (of_int k)"
  by (simp add: to_double_def nearest_int less_double_limit)

text \<open>What \<^verbatim>\<open>std::max(0.0, x - y)\<close> promises: between zero and \<open>x\<close>, when \<open>x\<close> and \<open>y\<close> are not negative.\<close>

lemma dmax_zero: "\<not> dless (dmax dzero z) dzero" "dmax dzero z \<noteq> NaN"
  by (cases z; auto simp: dmax_def dzero_def signed_def)+

lemma dless_infinite: "\<not> dless (Infinite False) z"
  by (cases z) auto

lemma dmax_minus_le:
  assumes "is_double x" "\<not> dless x dzero" "\<not> dless y dzero"
  shows "\<not> dless x (dmax dzero (dminus x y))"
proof (cases x)
  case (Fin s m)
  then have m: "0 \<le> m" "nearest m = m" "m < double_limit" "0 \<le> signed s m"
    using assms by (auto simp: is_double_def dzero_def signed_def)
  show ?thesis
  proof (cases y)
    case (Fin t n)
    define v where "v = signed s m - signed t n"
    have "0 \<le> signed t n" using Fin assms by (simp add: dzero_def signed_def)
    then have v: "v \<le> signed s m" by (simp add: v_def)
    have d: "dminus x y = (if v = 0 then Fin (s \<and> \<not> t \<and> m = 0) 0 else double_of_rat v)"
      using \<open>x = Fin s m\<close> Fin by (auto simp: dminus_def v_def signed_def Let_def)
    consider "v = 0" | "v < 0" | "0 < v" by linarith
    then show ?thesis
    proof cases
      case 3
      then have "signed s m = m" using v m by (auto simp: signed_def split: if_splits)
      then have "nearest v \<le> m" using v nearest_mono [of v m] m by simp
      then have "dminus x y = Fin False (nearest v)" "nearest v \<le> signed s m"
        using d 3 m \<open>signed s m = m\<close> by (auto simp: double_of_rat_def to_double_def)
      then show ?thesis using \<open>x = Fin s m\<close> m(4) by (auto simp: dmax_def dzero_def signed_def [of False])
    qed (use d m \<open>x = Fin s m\<close> nearest_nonneg [of "\<bar>v\<bar>"] in
        \<open>auto simp: dmax_def dzero_def double_of_rat_def to_double_def signed_def split: if_splits\<close>)
  qed (use \<open>x = Fin s m\<close> m assms in \<open>auto simp: dminus_def dmax_def dzero_def signed_def\<close>)
qed (use assms in \<open>auto simp: dzero_def dless_infinite\<close>)

end
