(* ===== verification/Query_Plan.thy ===== *)
theory Query_Plan
  imports Catalog_Types Connection_Info Double_Numbers
begin

text \<open>
  \<^verbatim>\<open>include/dearsql/explain.hpp\<close> and \<^verbatim>\<open>src/explain.cpp\<close>: the EXPLAIN statement of a dialect and the three
  readers that turn an engine's answer into one tree of plan nodes. JSON comes from a library that
  is not part of the repository: its values are a datatype, its parser and printer a parameter.
  \<open>Query_Plan_Proofs\<close> shows what the readers promise.
\<close>


section \<open>Data\<close>

record PlanInfo =
  pn_operation :: bytes
  pn_detail :: bytes
  pn_estimatedRows :: "Double option"
  pn_cost :: "Double option"
  pn_actualRows :: "Double option"
  pn_loops :: "Double option"
  pn_totalTimeMs :: "Double option"
  pn_selfTimeMs :: "Double option"
  pn_properties :: "(bytes \<times> bytes) list"

datatype PlanNode = PlanNode (pn_info: PlanInfo) (pn_children: "PlanNode list")

record Plan =
  pl_root :: PlanNode
  pl_analyzed :: bool
  pl_planningTimeMs :: "Double option"
  pl_executionTimeMs :: "Double option"
  pl_raw :: bytes

definition plain_info :: "bytes \<Rightarrow> PlanInfo" where
  "plain_info op = \<lparr>pn_operation = op, pn_detail = [], pn_estimatedRows = None, pn_cost = None,
     pn_actualRows = None, pn_loops = None, pn_totalTimeMs = None, pn_selfTimeMs = None,
     pn_properties = []\<rparr>"

datatype PlanError = Json_Type_Error | Number_Error Number_Error


section \<open>Text and times\<close>

definition statement_end :: "char \<Rightarrow> bool" where
  "statement_end c \<longleftrightarrow> isspace c \<or> c = CHR '';''"

definition trimStatement :: "bytes \<Rightarrow> bytes" where
  "trimStatement sql = rev (dropWhile statement_end (rev (dropWhile isspace sql)))"

definition firstColumn :: "StatementResult \<Rightarrow> bytes" where
  "firstColumn r =
     foldl (\<lambda>out row. if row = [] then out else (if out = [] then [] else out @ [newline]) @ hd row)
       [] (sr_tableData r)"

text \<open>A node's children first; then its own time, if it has a total.\<close>

definition value_or :: "'a option \<Rightarrow> 'a \<Rightarrow> 'a" where
  "value_or x d = (case x of None \<Rightarrow> d | Some v \<Rightarrow> v)"

definition child_total :: "PlanNode list \<Rightarrow> Double" where
  "child_total cs = foldl (\<lambda>t c. dplus t (value_or (pn_totalTimeMs (pn_info c)) dzero)) dzero cs"

fun fillSelfTimes :: "PlanNode \<Rightarrow> PlanNode" where
  "fillSelfTimes (PlanNode i cs) =
     (let cs' = map fillSelfTimes cs
      in PlanNode (case pn_totalTimeMs i of
           None \<Rightarrow> i | Some t \<Rightarrow> i\<lparr>pn_selfTimeMs := Some (dmax dzero (dminus t (child_total cs')))\<rparr>) cs')"


section \<open>PostgreSQL\<close>

text \<open>
  The values of the JSON library. An object is an association list in the library's order of
  iteration; a text that does not parse is \<open>JDiscarded\<close>. \<open>json_value\<close> is \<^verbatim>\<open>j.value(key, default)\<close>: it
  throws on anything but an object, and when the member has another type than the default.
\<close>

datatype Json = JNull | JBool bool | JInt int | JFloat Double | JString bytes | JArray "Json list"
  | JObject "(bytes \<times> Json) list" | JDiscarded

record JsonLib =
  js_parse :: "bytes \<Rightarrow> Json"
  js_dump :: "int \<Rightarrow> Json \<Rightarrow> bytes"

fun json_find :: "Json \<Rightarrow> bytes \<Rightarrow> Json option" where
  "json_find (JObject kvs) key = map_of kvs key"
| "json_find _ key = None"

fun is_object :: "Json \<Rightarrow> bool" where
  "is_object (JObject _) = True"
| "is_object _ = False"

definition json_value :: "(Json \<Rightarrow> 'a option) \<Rightarrow> Json \<Rightarrow> bytes \<Rightarrow> 'a \<Rightarrow> PlanError + 'a" where
  "json_value get j key dflt =
     (if \<not> is_object j then Inl Json_Type_Error
      else case json_find j key of
        None \<Rightarrow> Inr dflt
      | Some v \<Rightarrow> (case get v of None \<Rightarrow> Inl Json_Type_Error | Some x \<Rightarrow> Inr x))"

fun get_string :: "Json \<Rightarrow> bytes option" where
  "get_string (JString s) = Some s"
| "get_string _ = None"

fun get_bool :: "Json \<Rightarrow> bool option" where
  "get_bool (JBool b) = Some b"
| "get_bool _ = None"

fun get_number :: "Json \<Rightarrow> Double option" where
  "get_number (JInt i) = Some (double_of_rat (of_int i))"
| "get_number (JFloat d) = Some d"
| "get_number _ = None"

fun scalarText :: "JsonLib \<Rightarrow> Json \<Rightarrow> bytes" where
  "scalarText lib (JString s) = s"
| "scalarText lib (JArray vs) = join_nonempty '', '' [] (map (scalarText lib) vs)"
| "scalarText lib (JFloat d) = format_double d"
| "scalarText lib v = js_dump lib (- 1) v"

definition number :: "Json \<Rightarrow> bytes \<Rightarrow> Double option" where
  "number node key = (case json_find node key of None \<Rightarrow> None | Some v \<Rightarrow> get_number v)"

definition join_operation :: "bytes \<Rightarrow> bytes \<Rightarrow> bytes" where
  "join_operation op joinType =
     (if joinType = [] \<or> joinType = ''Inner'' then op
      else case str_find '' Join'' op 0 of
        None \<Rightarrow> op @ '' '' @ joinType @ '' Join''
      | Some pos \<Rightarrow> substr op 0 pos @ '' '' @ joinType @ drop pos op)"

definition aggregate_operation :: "bytes \<Rightarrow> bytes \<Rightarrow> bytes" where
  "aggregate_operation op strategy =
     (if strategy = ''Hashed'' then ''HashAggregate''
      else if strategy = ''Sorted'' then ''GroupAggregate'' else op)"

definition node_operation :: "Json \<Rightarrow> PlanError + bytes" where
  "node_operation j =
     on_result (json_value get_string j ''Node Type'' ''?'') (\<lambda>op.
     on_result (json_value get_string j ''Join Type'' []) (\<lambda>joinType.
     let op = join_operation op joinType in
     on_result (if op = ''Aggregate''
                then on_result (json_value get_string j ''Strategy'' []) (\<lambda>s. Inr (aggregate_operation op s))
                else Inr op) (\<lambda>op.
     on_result (json_value get_bool j ''Parallel Aware'' False) (\<lambda>aware.
     Inr (if aware then ''Parallel '' @ op else op)))))"

definition node_detail :: "Json \<Rightarrow> PlanError + bytes" where
  "node_detail j =
     on_result
       (on_result (json_value get_string j ''Relation Name'' []) (\<lambda>rel.
        if rel \<noteq> [] then
          on_result (json_value get_string j ''Alias'' []) (\<lambda>alias.
          Inr (''on '' @ rel @ (if alias \<noteq> [] \<and> alias \<noteq> rel then '' '' @ alias else [])))
        else on_result (json_value get_string j ''CTE Name'' []) (\<lambda>cte.
        if cte \<noteq> [] then Inr (''on '' @ cte)
        else on_result (json_value get_string j ''Function Name'' []) (\<lambda>fn.
        Inr (if fn \<noteq> [] then ''on '' @ fn @ ''()'' else [])))))
     (\<lambda>detail. on_result (json_value get_string j ''Index Name'' []) (\<lambda>index.
        Inr (if index \<noteq> [] then detail @ (if detail = [] then ''using '' else '' using '') @ index else detail)))"

definition shown :: "bytes list" where
  "shown = [''Node Type'', ''Join Type'', ''Strategy'', ''Parallel Aware'',
     ''Relation Name'', ''Alias'', ''CTE Name'', ''Function Name'',
     ''Index Name'', ''Plan Rows'', ''Total Cost'', ''Actual Rows'',
     ''Actual Total Time'', ''Actual Loops'', ''Plans'', ''Startup Cost'',
     ''Actual Startup Time'', ''Async Capable'']"

fun json_items :: "Json \<Rightarrow> (bytes \<times> Json) list" where
  "json_items (JObject kvs) = kvs"
| "json_items _ = []"

fun json_elements :: "Json option \<Rightarrow> Json list" where
  "json_elements (Some (JArray vs)) = vs"
| "json_elements _ = []"

definition node_properties :: "JsonLib \<Rightarrow> Json \<Rightarrow> (bytes \<times> bytes) list" where
  "node_properties lib j =
     map (\<lambda>(k, v). (k, scalarText lib v)) (filter (\<lambda>(k, v). k \<notin> set shown) (json_items j))"

definition node_info :: "JsonLib \<Rightarrow> Json \<Rightarrow> bool \<Rightarrow> PlanError + PlanInfo" where
  "node_info lib j worker =
     on_result (node_operation j) (\<lambda>op. on_result (node_detail j) (\<lambda>detail.
     let loops = number j ''Actual Loops'' in
     Inr \<lparr>pn_operation = op, pn_detail = detail,
       pn_estimatedRows = number j ''Plan Rows'', pn_cost = number j ''Total Cost'',
       pn_actualRows = number j ''Actual Rows'', pn_loops = loops,
       pn_totalTimeMs = (case number j ''Actual Total Time'' of
           None \<Rightarrow> None
         | Some perLoop \<Rightarrow> Some (if worker then perLoop else dtimes perLoop (value_or loops double_one))),
       pn_selfTimeMs = None, pn_properties = node_properties lib j\<rparr>))"

lemma json_elements_size:
  "v \<in> set (json_elements (json_find j key)) \<Longrightarrow> size v < size j"
proof -
  assume v: "v \<in> set (json_elements (json_find j key))"
  then obtain kvs vs where j: "j = JObject kvs" "map_of kvs key = Some (JArray vs)" "v \<in> set vs"
    by (cases "json_find j key" rule: json_elements.cases; cases j) auto
  have "size v < Suc (size_list size vs)" using j(3) size_list_estimation' [of v vs "size v" size] by simp
  moreover have "(key, JArray vs) \<in> set kvs" using j(2) by (rule map_of_SomeD)
  then have "size (JArray vs) \<le> size_list (size_prod (\<lambda>x. 0) size) kvs"
    by (rule size_list_estimation') simp
  ultimately show ?thesis using j(1) by simp
qed

function postgresNode :: "JsonLib \<Rightarrow> Json \<Rightarrow> bool \<Rightarrow> PlanError + PlanNode" where
  "postgresNode lib j worker =
     on_result (node_info lib j worker) (\<lambda>info.
     on_result (map_result
         (\<lambda>child. on_result (json_value get_string j ''Node Type'' []) (\<lambda>ty.
            postgresNode lib child (worker \<or> starts_with ty ''Gather'')))
         (json_elements (json_find j ''Plans''))) (\<lambda>children.
     Inr (PlanNode info children)))"
  by pat_completeness auto
termination
  by (relation "measure (\<lambda>(lib, j, worker). size j)") (auto simp: json_elements_size)

declare postgresNode.simps [simp del]

definition plan_top :: "Json \<Rightarrow> Json option" where
  "plan_top doc = (case doc of
       JArray (x # xs) \<Rightarrow> if is_object x then Some x else None
     | JObject kvs \<Rightarrow> Some doc
     | _ \<Rightarrow> None)"

definition parsePostgres :: "JsonLib \<Rightarrow> StatementResult \<Rightarrow> bool \<Rightarrow> PlanError + Plan option" where
  "parsePostgres lib r analyzed =
     (let doc = js_parse lib (firstColumn r) in
      case plan_top doc of
        None \<Rightarrow> Inr None
      | Some tp \<Rightarrow> (case json_find tp ''Plan'' of
          None \<Rightarrow> Inr None
        | Some p \<Rightarrow> on_result (postgresNode lib p False) (\<lambda>rt.
            Inr (Some \<lparr>pl_root = rt, pl_analyzed = analyzed,
              pl_planningTimeMs = number tp ''Planning Time'',
              pl_executionTimeMs = number tp ''Execution Time'', pl_raw = js_dump lib 2 doc\<rparr>))))"



section \<open>MySQL\<close>

text \<open>
  The three regular expressions of the reader: literal text, the class \<^verbatim>\<open>[0-9.e+-]+\<close> as a group, and an
  optional part. Matching is that of ECMAScript: a group takes the longest run first and gives
  characters back until the rest matches, an optional part is tried before it is skipped.
\<close>

datatype Rx = Rx_Lit bytes | Rx_Num | Rx_Opt "Rx list"

definition num_char :: "char \<Rightarrow> bool" where
  "num_char c \<longleftrightarrow> isdigit c \<or> c \<in> set ''.e+-''"

fun rx_groups :: "Rx \<Rightarrow> nat" where
  "rx_groups (Rx_Lit l) = 0"
| "rx_groups Rx_Num = 1"
| "rx_groups (Rx_Opt rs) = sum_list (map rx_groups rs)"

fun first_match :: "('a \<Rightarrow> 'b option) \<Rightarrow> 'a list \<Rightarrow> 'b option" where
  "first_match f [] = None"
| "first_match f (x # xs) = (case f x of None \<Rightarrow> first_match f xs | Some y \<Rightarrow> Some y)"

lemma first_match_cong [fundef_cong]:
  "xs = ys \<Longrightarrow> (\<And>x. x \<in> set ys \<Longrightarrow> f x = g x) \<Longrightarrow> first_match f xs = first_match g ys"
  by (induction ys arbitrary: xs) (auto split: option.split)

function rx_match :: "Rx list \<Rightarrow> bytes \<Rightarrow> (bytes option list \<times> bytes) option" where
  "rx_match [] s = Some ([], s)"
| "rx_match (Rx_Lit l # rs) s = (if starts_with s l then rx_match rs (drop (length l) s) else None)"
| "rx_match (Rx_Num # rs) s =
     first_match (\<lambda>n. case rx_match rs (drop n s) of
         None \<Rightarrow> None | Some (gs, rest) \<Rightarrow> Some (Some (take n s) # gs, rest))
       (rev [1..<Suc (length (takeWhile num_char s))])"
| "rx_match (Rx_Opt os # rs) s =
     (case rx_match (os @ rs) s of
        Some m \<Rightarrow> Some m
      | None \<Rightarrow> (case rx_match rs s of
          None \<Rightarrow> None | Some (gs, rest) \<Rightarrow> Some (replicate (rx_groups (Rx_Opt os)) None @ gs, rest)))"
  by pat_completeness auto
termination
  by (relation "measure (\<lambda>(rs, s). size_list size rs)") auto

fun rx_search :: "Rx list \<Rightarrow> bytes \<Rightarrow> bytes option list option" where
  "rx_search rs [] = map_option fst (rx_match rs [])"
| "rx_search rs (c # s) =
     (case rx_match rs (c # s) of Some (gs, rest) \<Rightarrow> Some gs | None \<Rightarrow> rx_search rs s)"

text \<open>\<^verbatim>\<open>std::regex_replace(text, re, "")\<close>; the expressions here never match the empty string.\<close>

function rx_remove :: "Rx list \<Rightarrow> bytes \<Rightarrow> bytes" where
  "rx_remove rs s =
     (case s of [] \<Rightarrow> []
      | c # s' \<Rightarrow> (case rx_match rs s of
          None \<Rightarrow> c # rx_remove rs s'
        | Some (gs, rest) \<Rightarrow> if length rest < length s then rx_remove rs rest else c # rx_remove rs s'))"
  by pat_completeness auto
termination
  by (relation "measure (\<lambda>(rs, s). length s)") auto

declare rx_remove.simps [simp del]

definition costRe :: "Rx list" where
  "costRe = [Rx_Lit ''(cost='', Rx_Num, Rx_Opt [Rx_Lit ''..'', Rx_Num], Rx_Lit '' rows='', Rx_Num, Rx_Lit '')'']"

definition actualRe :: "Rx list" where
  "actualRe = [Rx_Lit ''(actual time='', Rx_Num, Rx_Lit ''..'', Rx_Num, Rx_Lit '' rows='', Rx_Num,
     Rx_Lit '' loops='', Rx_Num, Rx_Lit '')'']"

definition neverRe :: "Rx list" where
  "neverRe = [Rx_Lit ''(never executed)'']"

text \<open>\<^verbatim>\<open>m[i].str()\<close> of a group that did not take part is empty.\<close>

definition group_text :: "bytes option list \<Rightarrow> nat \<Rightarrow> bytes" where
  "group_text gs i = value_or (gs ! (i - 1)) []"

definition group_number :: "bytes option list \<Rightarrow> nat \<Rightarrow> PlanError + Double" where
  "group_number gs i = (case stod (group_text gs i) of Inl e \<Rightarrow> Inl (Number_Error e) | Inr d \<Rightarrow> Inr d)"

definition read_costs :: "bytes \<Rightarrow> PlanInfo \<Rightarrow> PlanError + PlanInfo" where
  "read_costs tx node =
     (case rx_search costRe tx of
        None \<Rightarrow> Inr node
      | Some m \<Rightarrow>
          on_result (group_number m (if m ! 1 \<noteq> None then 2 else 1)) (\<lambda>cost.
          on_result (group_number m 3) (\<lambda>rows.
          Inr (node\<lparr>pn_cost := Some cost, pn_estimatedRows := Some rows\<rparr>))))"

definition read_actual :: "bytes \<Rightarrow> PlanInfo \<Rightarrow> PlanError + PlanInfo" where
  "read_actual tx node =
     (case rx_search actualRe tx of
        Some m \<Rightarrow>
          on_result (group_number m 3) (\<lambda>rows. on_result (group_number m 4) (\<lambda>loops.
          on_result (group_number m 2) (\<lambda>time.
          Inr (node\<lparr>pn_actualRows := Some rows, pn_loops := Some loops,
                 pn_totalTimeMs := Some (dtimes time loops)\<rparr>))))
      | None \<Rightarrow>
          if rx_search neverRe tx \<noteq> None
          then Inr (node\<lparr>pn_actualRows := Some dzero, pn_loops := Some dzero, pn_totalTimeMs := Some dzero\<rparr>)
          else Inr node)"

definition mysql_node :: "bytes \<Rightarrow> PlanError + PlanInfo" where
  "mysql_node tx =
     on_result (read_costs tx (plain_info [])) (\<lambda>node.
     on_result (read_actual tx node) (\<lambda>node.
     Inr (node\<lparr>pn_operation :=
       trim_right_spaces (rx_remove neverRe (rx_remove actualRe (rx_remove costRe tx)))\<rparr>)))"

text \<open>\<^verbatim>\<open>std::getline\<close> over the text: a newline ends a line, the last line may have none.\<close>

fun split_lines :: "bytes \<Rightarrow> bytes \<Rightarrow> bytes list" where
  "split_lines cur [] = (if cur = [] then [] else [cur])"
| "split_lines cur (c # s) =
     (if c = newline then cur # split_lines [] s else split_lines (cur @ [c]) s)"

type_synonym FlatPlan = "(nat \<times> PlanInfo) list"

definition append_operation :: "bytes \<Rightarrow> FlatPlan \<Rightarrow> FlatPlan" where
  "append_operation rest flat =
     (if flat = [] then flat
      else butlast flat @ [(fst (last flat),
        (snd (last flat))\<lparr>pn_operation := pn_operation (snd (last flat)) @ '' '' @ rest\<rparr>)])"

definition mysql_line :: "bytes \<Rightarrow> FlatPlan \<Rightarrow> PlanError + FlatPlan" where
  "mysql_line line flat =
     (case str_find ''-> '' line 0 of
        None \<Rightarrow>
          (let rest = dropWhile (\<lambda>c. c = CHR '' '') line
           in Inr (if rest = [] then flat else append_operation rest flat))
      | Some arrow \<Rightarrow>
          on_result (mysql_node (drop (arrow + 3) line)) (\<lambda>node. Inr (flat @ [(arrow, node)])))"

fun mysql_lines :: "bytes list \<Rightarrow> FlatPlan \<Rightarrow> PlanError + FlatPlan" where
  "mysql_lines [] flat = Inr flat"
| "mysql_lines (line # ls) flat = on_result (mysql_line line flat) (mysql_lines ls)"

text \<open>
  Building the tree. A \<^verbatim>\<open>PlanNode*\<close> into the tree is the path of child indexes from the root; the stack
  holds depths and pointers, its top first. Depths are \<open>int\<close>, the root's is \<open>-1\<close>.
\<close>

fun modify_at :: "nat list \<Rightarrow> (PlanNode \<Rightarrow> PlanNode) \<Rightarrow> PlanNode \<Rightarrow> PlanNode" where
  "modify_at [] f t = f t"
| "modify_at (i # p) f (PlanNode info cs) =
     PlanNode info (if i < length cs then cs[i := modify_at p f (cs ! i)] else cs)"

fun node_at :: "nat list \<Rightarrow> PlanNode \<Rightarrow> PlanNode option" where
  "node_at [] t = Some t"
| "node_at (i # p) (PlanNode info cs) = (if i < length cs then node_at p (cs ! i) else None)"

definition push_child :: "PlanNode \<Rightarrow> PlanNode \<Rightarrow> PlanNode" where
  "push_child c t = PlanNode (pn_info t) (pn_children t @ [c])"

definition child_count :: "nat list \<Rightarrow> PlanNode \<Rightarrow> nat" where
  "child_count p t = (case node_at p t of None \<Rightarrow> 0 | Some n \<Rightarrow> length (pn_children n))"

type_synonym TreeState = "PlanNode \<times> (int \<times> nat list) list"

definition attach :: "TreeState \<Rightarrow> nat \<times> PlanInfo \<Rightarrow> TreeState" where
  "attach st dn =
     (case (st, dn) of ((rt, stack), (depth, info)) \<Rightarrow>
        let stack' = dropWhile (\<lambda>e. fst e \<ge> int depth) stack;
            parent = snd (hd stack');
            k = child_count parent rt
        in (modify_at parent (push_child (PlanNode info [])) rt, (int depth, parent @ [k]) # stack'))"

definition build_tree :: "FlatPlan \<Rightarrow> PlanNode" where
  "build_tree flat = fst (foldl attach (PlanNode (plain_info ''Query'') [], [(- 1, [])]) flat)"

definition single_root :: "PlanNode \<Rightarrow> PlanNode" where
  "single_root rt = (case pn_children rt of [only] \<Rightarrow> only | _ \<Rightarrow> rt)"

definition parseMysqlTree :: "StatementResult \<Rightarrow> bool \<Rightarrow> PlanError + Plan option" where
  "parseMysqlTree r analyzed =
     (let raw = firstColumn r in
      on_result (mysql_lines (split_lines [] raw) []) (\<lambda>flat.
      Inr (if flat = [] then None
           else Some \<lparr>pl_root = single_root (build_tree flat), pl_analyzed = analyzed,
             pl_planningTimeMs = None, pl_executionTimeMs = None, pl_raw = raw\<rparr>)))"


section \<open>SQLite\<close>

record QpRow =
  qp_id :: int
  qp_parent :: int
  qp_detail :: bytes

definition sqlite_row :: "bytes list \<Rightarrow> QpRow option" where
  "sqlite_row row =
     (case (stol (row ! 0), stol (row ! 1)) of
        (Some i, Some p) \<Rightarrow> Some \<lparr>qp_id = i, qp_parent = p, qp_detail = row ! 3\<rparr>
      | _ \<Rightarrow> None)"

fun sqlite_rows :: "bytes list list \<Rightarrow> QpRow list option" where
  "sqlite_rows [] = Some []"
| "sqlite_rows (row # rows) =
     (if length row < 4 then sqlite_rows rows
      else case sqlite_row row of
        None \<Rightarrow> None
      | Some r \<Rightarrow> (case sqlite_rows rows of None \<Rightarrow> None | Some rs \<Rightarrow> Some (r # rs)))"

text \<open>
  The recursion of the lambda \<^verbatim>\<open>build\<close> over all rows, the loop at one level over \<open>rest\<close>. It writes the raw
  text as it goes. The recursion need not end: \<open>None\<close>.
\<close>

partial_function (option) sqlite_build ::
  "QpRow list \<Rightarrow> QpRow list \<Rightarrow> int \<Rightarrow> nat \<Rightarrow> bytes \<Rightarrow> (bytes \<times> PlanNode list) option" where
  "sqlite_build rows rest parent depth raw =
     (case rest of
        [] \<Rightarrow> Some (raw, [])
      | row # rest' \<Rightarrow>
          if qp_parent row = parent \<and> qp_id row \<noteq> parent
          then Option.bind
            (sqlite_build rows rows (qp_id row) (depth + 1)
               (raw @ replicate (depth * 2) CHR '' '' @ qp_detail row @ [newline]))
            (\<lambda>below. Option.bind (sqlite_build rows rest' parent depth (fst below))
            (\<lambda>after. Some (fst after, PlanNode (plain_info (qp_detail row)) (snd below) # snd after)))
          else sqlite_build rows rest' parent depth raw)"

declare sqlite_build.simps [code]

definition parseSqlite :: "StatementResult \<Rightarrow> Plan option option" where
  "parseSqlite r =
     (if length (sr_columnNames r) < 4 then Some None
      else case sqlite_rows (sr_tableData r) of
        None \<Rightarrow> Some None
      | Some rows \<Rightarrow>
          if rows = [] then Some None
          else case sqlite_build rows rows 0 0 [] of
            None \<Rightarrow> None
          | Some (raw, tops) \<Rightarrow>
              if tops = [] then Some None
              else Some (Some \<lparr>
                pl_root = (case tops of [only] \<Rightarrow> only | _ \<Rightarrow> PlanNode (plain_info ''QUERY PLAN'') tops),
                pl_analyzed = False, pl_planningTimeMs = None, pl_executionTimeMs = None, pl_raw = raw\<rparr>))"


section \<open>The interface\<close>

definition explainSql :: "DatabaseType \<Rightarrow> bytes \<Rightarrow> bool \<Rightarrow> bytes option" where
  "explainSql ty statement analyze =
     (let stmt = trimStatement statement in
      if stmt = [] then None
      else case ty of
        POSTGRESQL \<Rightarrow> Some ((if analyze then ''EXPLAIN (ANALYZE, BUFFERS, FORMAT JSON) ''
                                    else ''EXPLAIN (FORMAT JSON) '') @ stmt)
      | MYSQL \<Rightarrow> Some ((if analyze then ''EXPLAIN ANALYZE '' else ''EXPLAIN FORMAT=TREE '') @ stmt)
      | SQLITE \<Rightarrow> if analyze then None else Some (''EXPLAIN QUERY PLAN '' @ stmt)
      | _ \<Rightarrow> None)"

definition supportsExplainAnalyze :: "DatabaseType \<Rightarrow> bool" where
  "supportsExplainAnalyze ty \<longleftrightarrow> ty = POSTGRESQL \<or> ty = MYSQL"

definition with_self_times :: "Plan option \<Rightarrow> Plan option" where
  "with_self_times p = map_option (\<lambda>p. p\<lparr>pl_root := fillSelfTimes (pl_root p)\<rparr>) p"

text \<open>The outer option is \<open>None\<close> where the call never returns, the sum holds an uncaught exception.\<close>

definition parsePlan ::
  "JsonLib \<Rightarrow> DatabaseType \<Rightarrow> StatementResult \<Rightarrow> bool \<Rightarrow> (PlanError + Plan option) option" where
  "parsePlan lib ty result analyzed =
     (if \<not> sr_success result \<or> sr_tableData result = [] then Some (Inr None)
      else case ty of
        POSTGRESQL \<Rightarrow> Some (on_result (parsePostgres lib result analyzed) (\<lambda>p. Inr (with_self_times p)))
      | MYSQL \<Rightarrow> Some (on_result (parseMysqlTree result analyzed) (\<lambda>p. Inr (with_self_times p)))
      | SQLITE \<Rightarrow> map_option (\<lambda>p. Inr (with_self_times p)) (parseSqlite result)
      | _ \<Rightarrow> Some (Inr None))"

end
