(* ===== verification/Query_Plan_Proofs.thy ===== *)
theory Query_Plan_Proofs
  imports Query_Plan "HOL-Library.Sublist"
begin

text \<open>
  Proofs about the plan readers of \<^verbatim>\<open>src/explain.cpp\<close>: the tree MySQL prints is the tree that is read,
  line by line and as a whole; the SQLite reader returns exactly when the rows form a finite forest
  below the root; self times are bounded by the totals; a well-typed PostgreSQL plan is read
  completely; and the deviations from what the interface says.
\<close>


section \<open>The tree of indented lines\<close>

lemma node_at_append: "node_at (p @ q) t = Option.bind (node_at p t) (node_at q)"
  by (induction p t rule: node_at.induct) auto

lemma modify_at_append: "modify_at (p @ q) f t = modify_at p (modify_at q f) t"
  by (induction p "modify_at q f" t rule: modify_at.induct) auto

lemma modify_at_compose: "modify_at p g (modify_at p f t) = modify_at p (\<lambda>n. g (f n)) t"
  by (induction p f t rule: modify_at.induct) auto

lemma modify_at_cong: "node_at p t = Some n \<Longrightarrow> f n = g n \<Longrightarrow> modify_at p f t = modify_at p g t"
  by (induction p t rule: node_at.induct) (auto split: if_splits)

lemma node_at_modify: "node_at p t = Some n \<Longrightarrow> node_at p (modify_at p f t) = Some (f n)"
  by (induction p f t rule: modify_at.induct) (auto split: if_splits)

definition push_all :: "PlanNode list \<Rightarrow> PlanNode \<Rightarrow> PlanNode" where
  "push_all cs t = PlanNode (pn_info t) (pn_children t @ cs)"

lemma push_all_Nil [simp]: "push_all [] t = t"
  by (simp add: push_all_def)

lemma modify_at_id: "modify_at p (push_all []) t = t"
  by (induction p "push_all []" t rule: modify_at.induct) (auto simp: list_update_id)

text \<open>Filling a node just pushed is pushing it filled.\<close>

lemma modify_pushed:
  assumes "node_at p t = Some n"
  shows "modify_at (p @ [length (pn_children n)]) g (modify_at p (push_child c) t) = modify_at p (push_child (g c)) t"
proof -
  have "modify_at [length (pn_children n)] g (push_child c n) = push_child (g c) n"
    by (cases n) (simp add: push_child_def)
  then show ?thesis
    using assms by (auto simp: modify_at_append modify_at_compose intro: modify_at_cong)
qed

text \<open>The lines of a forest, top down: every child is indented deeper than its parent.\<close>

fun flat_tree :: "nat \<Rightarrow> nat \<Rightarrow> PlanNode \<Rightarrow> FlatPlan" where
  "flat_tree step d (PlanNode info cs) = (d, info) # concat (map (flat_tree step (d + step)) cs)"

definition flat_forest :: "nat \<Rightarrow> nat \<Rightarrow> PlanNode list \<Rightarrow> FlatPlan" where
  "flat_forest step d ts = concat (map (flat_tree step d) ts)"

definition deeper :: "nat \<Rightarrow> (int \<times> nat list) list \<Rightarrow> bool" where
  "deeper d stack \<longleftrightarrow> (\<forall>e \<in> set stack. int d \<le> fst e)"

lemma attach_pops:
  assumes "deeper d ext" "e < int d" "node_at p t = Some n"
  shows "attach (t, ext @ (e, p) # stack) (d, info) =
    (modify_at p (push_child (PlanNode info [])) t,
     (int d, p @ [length (pn_children n)]) # (e, p) # stack)"
proof -
  have "dropWhile (\<lambda>e. int d \<le> fst e) (ext @ (e, p) # stack) = (e, p) # stack"
    using assms(1,2) unfolding deeper_def by (subst dropWhile_append2) auto
  then show ?thesis using assms(3) by (simp add: attach_def Let_def child_count_def)
qed

lemma attach_forest:
  assumes "0 < step" "deeper d ext" "e < int d" "node_at p t = Some n"
  shows "\<exists>ext'. deeper d ext' \<and>
    foldl attach (t, ext @ (e, p) # stack) (flat_forest step d ts) =
      (modify_at p (push_all ts) t, ext' @ (e, p) # stack)"
  using assms(2-)
proof (induction "size_list size ts" arbitrary: ts d ext e p t n stack rule: less_induct)
  case less
  show ?case
  proof (cases ts)
    case Nil
    then show ?thesis using less.prems by (auto simp: flat_forest_def modify_at_id)
  next
    case (Cons u us)
    obtain info cs where u: "u = PlanNode info cs" by (cases u)
    let ?t1 = "modify_at p (push_child (PlanNode info [])) t" and ?q = "p @ [length (pn_children n)]"
    have n1: "node_at ?q ?t1 = Some (PlanNode info [])"
      using node_at_modify [OF less.prems(3)] by (simp add: node_at_append push_child_def)
    have "deeper (d + step) []" by (simp add: deeper_def)
    then obtain e1 where e1: "deeper (d + step) e1"
      "foldl attach (?t1, (int d, ?q) # (e, p) # stack) (flat_forest step (d + step) cs) =
        (modify_at ?q (push_all cs) ?t1, e1 @ (int d, ?q) # (e, p) # stack)"
      using less.hyps [of cs "d + step" "[]" "int d" ?q ?t1 _ "(e, p) # stack"] n1 assms(1) Cons u
      by (auto simp: deeper_def)
    have t2: "modify_at ?q (push_all cs) ?t1 = modify_at p (push_child u) t"
      using modify_pushed [OF less.prems(3)] u by (simp add: push_all_def)
    have "deeper d (e1 @ [(int d, ?q)])" using e1(1) by (auto simp: deeper_def)
    then obtain e2 where e2: "deeper d e2"
      "foldl attach (modify_at p (push_child u) t, (e1 @ [(int d, ?q)]) @ (e, p) # stack) (flat_forest step d us) =
        (modify_at p (push_all us) (modify_at p (push_child u) t), e2 @ (e, p) # stack)"
      using less.hyps [of us d "e1 @ [(int d, ?q)]" e p "modify_at p (push_child u) t" "push_child u n" stack]
        less.prems Cons node_at_modify [OF less.prems(3)] by auto
    have "modify_at p (push_all us) (modify_at p (push_child u) t) = modify_at p (push_all ts) t"
      unfolding modify_at_compose by (rule modify_at_cong [OF less.prems(3)]) (simp add: push_all_def push_child_def Cons)
    moreover have "flat_forest step d ts = (d, info) # flat_forest step (d + step) cs @ flat_forest step d us"
      by (simp add: flat_forest_def Cons u)
    ultimately show ?thesis
      using attach_pops [OF less.prems, of stack info] e1(2) e2 t2 by (intro exI [of _ e2]) simp
  qed
qed

lemma build_tree_flat_forest:
  assumes "0 < step"
  shows "build_tree (flat_forest step d ts) = PlanNode (plain_info ''Query'') ts"
proof -
  have "\<exists>ext'. deeper d ext' \<and> foldl attach (PlanNode (plain_info ''Query'') [], [] @ (- 1, []) # []) (flat_forest step d ts) =
      (modify_at [] (push_all ts) (PlanNode (plain_info ''Query'') []), ext' @ (- 1, []) # [])"
    by (rule attach_forest [OF assms]) (auto simp: deeper_def)
  then show ?thesis by (auto simp: build_tree_def push_all_def)
qed


section \<open>Reading printed MySQL trees\<close>

text \<open>The tree as MySQL prints it: a line per node, four more spaces for each level.\<close>

datatype LineTree = LineTree (line_text: bytes) (line_children: "LineTree list")

fun tree_lines :: "nat \<Rightarrow> LineTree \<Rightarrow> bytes list" where
  "tree_lines d (LineTree tx cs) =
     (replicate d CHR '' '' @ ''-> '' @ tx) # concat (map (tree_lines (d + 4)) cs)"

fun line_texts :: "LineTree \<Rightarrow> bytes list" where
  "line_texts (LineTree tx cs) = tx # concat (map line_texts cs)"

definition line_info :: "bytes \<Rightarrow> PlanInfo" where
  "line_info tx = (case mysql_node tx of Inl e \<Rightarrow> plain_info [] | Inr i \<Rightarrow> i)"

fun node_of_lines :: "LineTree \<Rightarrow> PlanNode" where
  "node_of_lines (LineTree tx cs) = PlanNode (line_info tx) (map node_of_lines cs)"

definition unlines :: "bytes list \<Rightarrow> bytes" where
  "unlines ls = concat (map (\<lambda>l. l @ [newline]) ls)"

definition readable_line :: "bytes \<Rightarrow> bool" where
  "readable_line tx \<longleftrightarrow> newline \<notin> set tx \<and> (\<exists>i. mysql_node tx = Inr i)"

lemma split_lines_line:
  "newline \<notin> set l \<Longrightarrow> split_lines cur (l @ newline # s) = (cur @ l) # split_lines [] s"
  by (induction l arbitrary: cur) auto

lemma split_unlines: "\<forall>l\<in>set ls. newline \<notin> set l \<Longrightarrow> split_lines [] (unlines ls) = ls"
  by (induction ls) (simp_all add: unlines_def split_lines_line)

lemma str_find_indented: "str_find ''-> '' (replicate d CHR '' '' @ ''-> '' @ tx) 0 = Some d"
  unfolding str_find_def
proof (rule find_uptI)
  let ?s = "replicate d CHR '' '' @ ''-> '' @ tx"
  show "substr ?s d (length ''-> '') = ''-> ''" by (simp add: substr_def)
  fix j assume "j < d"
  then have "?s ! j = CHR '' ''" by (simp add: nth_append)
  moreover have "substr s j (Suc k) ! 0 = s ! j" if "j < length s" for s k
    using that by (simp add: substr_def)
  from this [of ?s 2] have "substr ?s j (length ''-> '') ! 0 = ?s ! j"
    using \<open>j < d\<close> by (simp add: numeral_3_eq_3 del: append.simps)
  ultimately show "substr ?s j (length ''-> '') \<noteq> ''-> ''" by auto
qed auto

lemma mysql_lines_append:
  "mysql_lines (as @ bs) flat = on_result (mysql_lines as flat) (mysql_lines bs)"
proof (induction as arbitrary: flat)
  case (Cons a as)
  then show ?case by (cases "mysql_line a flat") auto
qed simp

lemma mysql_line_node:
  "mysql_node tx = Inr i \<Longrightarrow>
   mysql_line (replicate d CHR '' '' @ ''-> '' @ tx) flat = Inr (flat @ [(d, i)])"
  using str_find_indented [of d tx] by (simp add: mysql_line_def)

lemma mysql_lines_tree:
  assumes "\<forall>tx\<in>set (line_texts t). readable_line tx"
  shows "mysql_lines (tree_lines d t) flat = Inr (flat @ flat_tree 4 d (node_of_lines t))"
  using assms
proof (induction t arbitrary: d flat)
  case (LineTree tx cs)
  obtain i where i: "mysql_node tx = Inr i" using LineTree.prems by (auto simp: readable_line_def)
  have "mysql_lines (concat (map (tree_lines (d + 4)) us)) flat' =
      Inr (flat' @ concat (map (flat_tree 4 (d + 4)) (map node_of_lines us)))" if "set us \<subseteq> set cs" for us flat'
    using that
  proof (induction us arbitrary: flat')
    case (Cons u us)
    have "mysql_lines (tree_lines (d + 4) u) flat' = Inr (flat' @ flat_tree 4 (d + 4) (node_of_lines u))"
      using LineTree.prems Cons.prems by (intro LineTree.IH) auto
    with Cons show ?case by (simp add: mysql_lines_append)
  qed simp
  from this [of cs "flat @ [(d, i)]"] show ?case
    using i mysql_line_node [OF i, of d flat] by (simp add: line_info_def)
qed

lemma tree_lines_no_newline:
  "\<forall>tx\<in>set (line_texts t). readable_line tx \<Longrightarrow> \<forall>l\<in>set (tree_lines d t). newline \<notin> set l"
  by (induction t arbitrary: d) (auto simp: readable_line_def)

lemma mysql_tree_read:
  assumes "\<forall>tx\<in>set (line_texts t). readable_line tx"
    and "sr_tableData r = [[unlines (tree_lines 0 t)]]"
  shows "parseMysqlTree r analyzed = Inr (Some \<lparr>pl_root = node_of_lines t, pl_analyzed = analyzed,
    pl_planningTimeMs = None, pl_executionTimeMs = None, pl_raw = unlines (tree_lines 0 t)\<rparr>)"
proof -
  have raw: "firstColumn r = unlines (tree_lines 0 t)" using assms(2) by (simp add: firstColumn_def)
  have "mysql_lines (split_lines [] (firstColumn r)) [] = Inr (flat_forest 4 0 [node_of_lines t])"
    using mysql_lines_tree [OF assms(1), of 0 "[]"] split_unlines [OF tree_lines_no_newline [OF assms(1)]]
    by (simp add: raw flat_forest_def)
  moreover have "flat_forest 4 0 [node_of_lines t] \<noteq> []"
    by (cases t) (simp add: flat_forest_def)
  ultimately show ?thesis
    using build_tree_flat_forest [of 4 0 "[node_of_lines t]"]
    by (simp add: parseMysqlTree_def Let_def raw single_root_def)
qed


section \<open>Reading one MySQL line\<close>

lemma starts_with_append_iff [simp]: "starts_with (l @ s) l"
  by (simp add: starts_with_append)

lemma rx_match_Lit: "rx_match (Rx_Lit l # rs) (l @ s) = rx_match rs s"
  by simp

lemma first_match_Some: "f x = Some y \<Longrightarrow> first_match f (x # xs) = Some y"
  by simp

lemma rx_match_Num_longest:
  assumes "ds \<noteq> []" "\<forall>c\<in>set ds. num_char c" "s = [] \<or> \<not> num_char (hd s)" "rx_match rs s = Some (gs, rest)"
  shows "rx_match (Rx_Num # rs) (ds @ s) = Some (Some ds # gs, rest)"
proof -
  have "takeWhile num_char (ds @ s) = ds" using assms(2,3) by (cases s) (auto simp: takeWhile_append)
  moreover have "rev [1..<Suc (length ds)] = length ds # rev [1..<length ds]"
    using assms(1) by (cases ds) auto
  ultimately show ?thesis using assms(4) by (simp del: upt_Suc)
qed

lemma rx_match_first_char:
  "c \<noteq> b \<Longrightarrow> rx_match (Rx_Lit (b # l) # rs) (c # s) = None"
  by (simp add: starts_with_def)

lemma rx_search_skip:
  "b \<notin> set op \<Longrightarrow> rx_search (Rx_Lit (b # l) # rs) (op @ s) = rx_search (Rx_Lit (b # l) # rs) s"
  by (induction op) (auto simp: starts_with_def)

lemma rx_search_none:
  "b \<notin> set op \<Longrightarrow> rx_search (Rx_Lit (b # l) # rs) op = None"
  by (induction op) (auto simp: starts_with_def)

lemma rx_search_match: "rx_match rs s = Some (gs, rest) \<Longrightarrow> rx_search rs s = Some gs"
  by (cases s) auto

lemma rx_remove_skip:
  "b \<notin> set op \<Longrightarrow> rx_remove (Rx_Lit (b # l) # rs) (op @ s) = op @ rx_remove (Rx_Lit (b # l) # rs) s"
  by (induction op) (auto simp: starts_with_def rx_remove.simps [of _ "_ # _"])

lemma rx_remove_none:
  "b \<notin> set op \<Longrightarrow> rx_remove (Rx_Lit (b # l) # rs) op = op"
  using rx_remove_skip [of b op l rs "[]"] by (simp add: rx_remove.simps)

lemma rx_remove_match:
  "rx_match rs s = Some (gs, rest) \<Longrightarrow> length rest < length s \<Longrightarrow> rx_remove rs s = rx_remove rs rest"
  by (subst rx_remove.simps) (cases s, auto)

lemma starts_with_lit_cong: "starts_with s l \<Longrightarrow> s = l @ drop (length l) s"
  by (metis starts_with_def append_take_drop_id)


definition num_text :: "bytes \<Rightarrow> bool" where
  "num_text s \<longleftrightarrow> s \<noteq> [] \<and> (\<forall>c\<in>set s. num_char c)"

definition cost_part :: "bytes \<Rightarrow> bytes \<Rightarrow> bytes" where
  "cost_part c r = ''(cost='' @ c @ '' rows='' @ r @ '')''"

definition actual_part :: "bytes \<Rightarrow> bytes \<Rightarrow> bytes \<Rightarrow> bytes \<Rightarrow> bytes" where
  "actual_part a b n l = ''(actual time='' @ a @ ''..'' @ b @ '' rows='' @ n @ '' loops='' @ l @ '')''"

lemma num_char_simps [simp]: "\<not> num_char CHR '' ''" "\<not> num_char CHR '')''" "num_char CHR ''.''" "\<not> num_char CHR ''(''"
  by (simp_all add: num_char_def isdigit_def byte_def)

lemma num_text_no_paren: "num_text s \<Longrightarrow> CHR ''('' \<notin> set s"
  by (auto simp: num_text_def)

lemma cost_match:
  assumes "num_text c" "num_text r"
  shows "rx_match costRe (cost_part c r @ s) = Some ([Some c, None, Some r], s)"
proof -
  have "rx_match [Rx_Num, Rx_Lit '')''] (r @ '')'' @ s) = Some ([Some r], s)"
    using assms(2) unfolding num_text_def
    by (intro rx_match_Num_longest) (auto simp: starts_with_def)
  then have "rx_match [Rx_Opt [Rx_Lit ''..'', Rx_Num], Rx_Lit '' rows='', Rx_Num, Rx_Lit '')'']
      ('' rows='' @ r @ '')'' @ s) = Some ([None, Some r], s)"
    by (simp add: starts_with_def)
  then have "rx_match [Rx_Num, Rx_Opt [Rx_Lit ''..'', Rx_Num], Rx_Lit '' rows='', Rx_Num, Rx_Lit '')'']
      (c @ '' rows='' @ r @ '')'' @ s) = Some ([Some c, None, Some r], s)"
    using assms(1) unfolding num_text_def by (intro rx_match_Num_longest) auto
  then show ?thesis
    by (simp add: costRe_def cost_part_def starts_with_def del: rx_match.simps(3,4))
qed

lemma first_match_rev_upt:
  "1 \<le> n \<Longrightarrow> n \<le> N \<Longrightarrow> f n = Some y \<Longrightarrow> (\<And>k. n < k \<Longrightarrow> k \<le> N \<Longrightarrow> f k = None) \<Longrightarrow>
   first_match f (rev [1..<Suc N]) = Some y"
proof (induction N)
  case (Suc N)
  show ?case
  proof (cases "n = Suc N")
    case True
    with Suc.prems show ?thesis by simp
  next
    case False
    with Suc.prems have "f (Suc N) = None" "n \<le> N" by auto
    with Suc show ?thesis by simp
  qed
qed simp

lemma no_dots_later:
  assumes "\<not> sublist ''..'' w" "j \<le> length w"
  shows "\<not> starts_with (drop j (w @ CHR '' '' # z)) ''..''"
proof
  assume sw: "starts_with (drop j (w @ CHR '' '' # z)) ''..''"
  define v where "v = drop j w"
  with sw assms have v: "starts_with (v @ CHR '' '' # z) ''..''" by simp
  have "v = [] \<or> (\<exists>x. v = [x]) \<or> (\<exists>x y u. v = x # y # u)" by (metis list.exhaust)
  with v have "\<exists>u. v = ''..'' @ u" by (auto simp: starts_with_def)
  then have "sublist ''..'' v" by auto
  moreover have "sublist v w" unfolding v_def by simp
  ultimately show False using assms sublist_order.order_trans by blast
qed

lemma rx_match_range:
  assumes "num_text a" "\<forall>c\<in>set b. num_char c" "\<not> sublist ''..'' (CHR ''.'' # b)"
    and "rx_match rs (b @ CHR '' '' # z) = Some (gs, rest)"
  shows "rx_match (Rx_Num # Rx_Lit ''..'' # rs) (a @ ''..'' @ b @ CHR '' '' # z) = Some (Some a # gs, rest)"
proof -
  let ?w = "CHR ''.'' # b"
  let ?s = "a @ ''..'' @ b @ CHR '' '' # z"
  have run: "takeWhile num_char ?s = a @ CHR ''.'' # ?w"
    using assms(1,2) by (simp add: num_text_def takeWhile_append)
  define f where "f n = (case rx_match (Rx_Lit ''..'' # rs) (drop n ?s) of
      None \<Rightarrow> None | Some (gs, rest) \<Rightarrow> Some (Some (take n ?s) # gs, rest))" for n
  have "first_match f (rev [1..<Suc (length (a @ CHR ''.'' # ?w))]) = Some (Some a # gs, rest)"
  proof (rule first_match_rev_upt [where n = "length a"])
    show "1 \<le> length a" using assms(1) by (cases a) (auto simp: num_text_def)
    show "f (length a) = Some (Some a # gs, rest)"
      using assms(4) by (simp add: f_def starts_with_def)
    fix k assume k: "length a < k" "k \<le> length (a @ CHR ''.'' # ?w)"
    define j where "j = k - Suc (length a)"
    have j: "k = Suc (length a) + j" "j \<le> length ?w" using k by (auto simp: j_def)
    have "drop k ?s = drop j (?w @ CHR '' '' # z)" using j(1) by simp
    with no_dots_later [OF assms(3) j(2), of z] show "f k = None"
      by (simp add: f_def)
  qed simp
  then show ?thesis unfolding rx_match.simps(3) run f_def .
qed

lemma actual_match:
  assumes "num_text a" "num_text b" "num_text n" "num_text l" "\<not> sublist ''..'' (CHR ''.'' # b)"
  shows "rx_match actualRe (actual_part a b n l @ s) = Some ([Some a, Some b, Some n, Some l], s)"
proof -
  have "rx_match [Rx_Num, Rx_Lit '')''] (l @ '')'' @ s) = Some ([Some l], s)"
    using assms(4) unfolding num_text_def by (intro rx_match_Num_longest) (auto simp: starts_with_def)
  then have "rx_match [Rx_Lit '' loops='', Rx_Num, Rx_Lit '')''] ('' loops='' @ l @ '')'' @ s) = Some ([Some l], s)"
    by (simp add: starts_with_def del: rx_match.simps(3))
  then have "rx_match [Rx_Num, Rx_Lit '' loops='', Rx_Num, Rx_Lit '')'']
      (n @ '' loops='' @ l @ '')'' @ s) = Some ([Some n, Some l], s)"
    using assms(3) unfolding num_text_def by (intro rx_match_Num_longest) auto
  then have "rx_match [Rx_Lit '' rows='', Rx_Num, Rx_Lit '' loops='', Rx_Num, Rx_Lit '')'']
      ('' rows='' @ n @ '' loops='' @ l @ '')'' @ s) = Some ([Some n, Some l], s)"
    by (simp add: starts_with_def del: rx_match.simps(3))
  then have "rx_match [Rx_Num, Rx_Lit '' rows='', Rx_Num, Rx_Lit '' loops='', Rx_Num, Rx_Lit '')'']
      (b @ '' rows='' @ n @ '' loops='' @ l @ '')'' @ s) = Some ([Some b, Some n, Some l], s)"
    using assms(2) unfolding num_text_def by (intro rx_match_Num_longest) auto
  then have "rx_match [Rx_Num, Rx_Lit ''..'', Rx_Num, Rx_Lit '' rows='', Rx_Num, Rx_Lit '' loops='', Rx_Num, Rx_Lit '')'']
      (a @ ''..'' @ b @ '' rows='' @ n @ '' loops='' @ l @ '')'' @ s) = Some ([Some a, Some b, Some n, Some l], s)"
    using rx_match_range [OF assms(1) _ assms(5)] assms(2) unfolding num_text_def by auto
  then show ?thesis
    by (simp add: actualRe_def actual_part_def starts_with_def del: rx_match.simps(3))
qed

lemma cost_not_actual:
  assumes "num_text c" "num_text r"
  shows "rx_search actualRe (cost_part c r @ s) = rx_search actualRe s"
    "rx_search neverRe (cost_part c r @ s) = rx_search neverRe s"
proof -
  have "CHR ''('' \<notin> set (''cost='' @ c @ '' rows='' @ r @ '')'')" using assms num_text_no_paren by auto
  then have "rx_search (Rx_Lit (CHR ''('' # x) # rs) (cost_part c r @ s) = rx_search (Rx_Lit (CHR ''('' # x) # rs) s"
    if "rx_match (Rx_Lit (CHR ''('' # x) # rs) (cost_part c r @ s) = None" for x rs
    using that rx_search_skip [of "CHR ''(''" "''cost='' @ c @ '' rows='' @ r @ '')''" x rs s]
    by (simp add: cost_part_def)
  then show "rx_search actualRe (cost_part c r @ s) = rx_search actualRe s"
    "rx_search neverRe (cost_part c r @ s) = rx_search neverRe s"
    unfolding actualRe_def neverRe_def by (simp_all add: cost_part_def starts_with_def)
qed


text \<open>All three expressions start with a parenthesis, so they are found only where one stands.\<close>

definition at_paren :: "Rx list \<Rightarrow> bool" where
  "at_paren rs \<longleftrightarrow> (\<exists>l rs'. rs = Rx_Lit (CHR ''('' # l) # rs')"

lemma at_paren_expressions [simp]: "at_paren costRe" "at_paren actualRe" "at_paren neverRe"
  by (simp_all add: at_paren_def costRe_def actualRe_def neverRe_def)

lemma search_skips: "at_paren rs \<Longrightarrow> CHR ''('' \<notin> set op \<Longrightarrow> rx_search rs (op @ s) = rx_search rs s"
  unfolding at_paren_def by (metis rx_search_skip)

lemma remove_skips: "at_paren rs \<Longrightarrow> CHR ''('' \<notin> set op \<Longrightarrow> rx_remove rs (op @ s) = op @ rx_remove rs s"
  unfolding at_paren_def by (metis rx_remove_skip)

lemma search_nothing: "at_paren rs \<Longrightarrow> CHR ''('' \<notin> set op \<Longrightarrow> rx_search rs op = None"
  unfolding at_paren_def by (metis rx_search_none)

lemma remove_nothing: "at_paren rs \<Longrightarrow> CHR ''('' \<notin> set op \<Longrightarrow> rx_remove rs op = op"
  unfolding at_paren_def by (metis rx_remove_none)

text \<open>A part is text from one parenthesis to the next.\<close>

definition paren_part :: "bytes \<Rightarrow> bool" where
  "paren_part part \<longleftrightarrow> (\<exists>s. part = CHR ''('' # s \<and> CHR ''('' \<notin> set s)"

lemma paren_part_other:
  assumes "at_paren rs" "paren_part part" "rx_match rs (part @ s) = None"
  shows "rx_search rs (part @ s) = rx_search rs s" "rx_remove rs (part @ s) = part @ rx_remove rs s"
proof -
  from assms(2) obtain t where t: "part = CHR ''('' # t" "CHR ''('' \<notin> set t" by (auto simp: paren_part_def)
  then show "rx_search rs (part @ s) = rx_search rs s" "rx_remove rs (part @ s) = part @ rx_remove rs s"
    using assms(3) search_skips [OF assms(1) t(2)] remove_skips [OF assms(1) t(2)]
    by (simp_all add: rx_remove.simps [of rs "CHR ''('' # _"])
qed

lemma paren_part_match:
  assumes "paren_part part" "rx_match rs (part @ s) = Some (gs, s)"
  shows "rx_search rs (part @ s) = Some gs" "rx_remove rs (part @ s) = rx_remove rs s"
  using assms rx_search_match rx_remove_match by (fastforce simp: paren_part_def)+

definition never_part :: bytes where "never_part = ''(never executed)''"

lemma never_match: "rx_match neverRe (never_part @ s) = Some ([], s)"
  by (simp add: neverRe_def never_part_def starts_with_def)

lemma paren_parts:
  "num_text c \<Longrightarrow> num_text r \<Longrightarrow> paren_part (cost_part c r)"
  "num_text a \<Longrightarrow> num_text b \<Longrightarrow> num_text n \<Longrightarrow> num_text l \<Longrightarrow> paren_part (actual_part a b n l)"
  "paren_part never_part"
  using num_text_no_paren by (auto simp: paren_part_def cost_part_def actual_part_def never_part_def)

lemma other_matches:
  "rx_match costRe (actual_part a b n l @ s) = None" "rx_match costRe (never_part @ s) = None"
  "rx_match actualRe (cost_part c r @ s) = None" "rx_match actualRe (never_part @ s) = None"
  "rx_match neverRe (cost_part c r @ s) = None" "rx_match neverRe (actual_part a b n l @ s) = None"
  by (simp_all add: costRe_def actualRe_def neverRe_def cost_part_def actual_part_def never_part_def
      starts_with_def)

lemma trim_right_spaces_append:
  assumes "op = [] \<or> last op \<noteq> CHR '' ''"
  shows "trim_right_spaces (op @ replicate k CHR '' '') = op"
proof -
  have "dropWhile (\<lambda>c. c = CHR '' '') (rev op) = rev op"
    using assms by (cases op rule: rev_cases) auto
  then show ?thesis by (simp add: trim_right_spaces_def dropWhile_append)
qed

text \<open>A line of a plan: the operation, then up to two parts.\<close>

datatype Measured = Estimate_Only | Measured bytes bytes bytes bytes | Never_Executed

fun measured_text :: "Measured \<Rightarrow> bytes" where
  "measured_text Estimate_Only = []"
| "measured_text (Measured a b n l) = '' '' @ actual_part a b n l"
| "measured_text Never_Executed = '' '' @ never_part"

definition plan_line :: "bytes \<Rightarrow> bytes \<Rightarrow> bytes \<Rightarrow> Measured \<Rightarrow> bytes" where
  "plan_line op c r m = op @ ''  '' @ cost_part c r @ measured_text m"

fun measured_ok :: "Measured \<Rightarrow> bool" where
  "measured_ok (Measured a b n l) \<longleftrightarrow> num_text a \<and> num_text b \<and> num_text n \<and> num_text l \<and>
     \<not> sublist ''..'' (CHR ''.'' # b)"
| "measured_ok _ \<longleftrightarrow> True"

definition line_ok :: "bytes \<Rightarrow> bytes \<Rightarrow> bytes \<Rightarrow> Measured \<Rightarrow> bool" where
  "line_ok op c r m \<longleftrightarrow> CHR ''('' \<notin> set op \<and> (op = [] \<or> last op \<noteq> CHR '' '') \<and>
     num_text c \<and> num_text r \<and> measured_ok m"

lemma measured_searches:
  assumes "measured_ok m"
  shows "rx_search actualRe (measured_text m) =
      (case m of Measured a b n l \<Rightarrow> Some [Some a, Some b, Some n, Some l] | _ \<Rightarrow> None)"
    "rx_search neverRe (measured_text m) = (if m = Never_Executed then Some [] else None)"
    "rx_remove costRe (measured_text m) = measured_text m"
    "rx_remove actualRe (measured_text m) = (case m of Measured a b n l \<Rightarrow> '' '' | _ \<Rightarrow> measured_text m)"
    "rx_remove neverRe (case m of Measured a b n l \<Rightarrow> '' '' | _ \<Rightarrow> measured_text m) =
      (if m = Estimate_Only then [] else '' '')"
proof -
  have sp: "CHR ''('' \<notin> set '' ''" "CHR ''('' \<notin> set ([] :: bytes)" by auto
  note none = search_nothing [OF _ sp(2)] remove_nothing [OF _ sp(2)] search_skips [OF _ sp(1)] remove_skips [OF _ sp(1)]
    search_nothing [OF _ sp(1)] remove_nothing [OF _ sp(1)]
  note never = paren_part_match [OF paren_parts(3) never_match, of "[]", simplified]
    paren_part_other [OF _ paren_parts(3), of _ "[]", simplified]
  have actual: "rx_search actualRe (actual_part a b n l) = Some [Some a, Some b, Some n, Some l]"
    "rx_remove actualRe (actual_part a b n l) = []" "rx_search neverRe (actual_part a b n l) = None"
    "rx_remove costRe (actual_part a b n l) = actual_part a b n l"
    if "measured_ok (Measured a b n l)" for a b n l
    using that paren_parts(2) [of a b n l] actual_match [of a b n l "[]"]
      paren_part_match [of "actual_part a b n l" actualRe "[]"]
      paren_part_other [of neverRe "actual_part a b n l" "[]"] paren_part_other [of costRe "actual_part a b n l" "[]"]
      other_matches(1) [of a b n l "[]"] other_matches(6) [of a b n l "[]"] none(1,2) by auto
  have nil: "rx_match rs [] = None" if "at_paren rs" for rs using that by (auto simp: at_paren_def starts_with_def)
  note other = nil option.map other_matches(2) [of "[]", simplified] other_matches(4) [of "[]", simplified]
  show "rx_search actualRe (measured_text m) =
      (case m of Measured a b n l \<Rightarrow> Some [Some a, Some b, Some n, Some l] | _ \<Rightarrow> None)"
    using assms by (cases m) (simp_all only: measured_text.simps none at_paren_expressions actual never other Measured.case)
  show "rx_search neverRe (measured_text m) = (if m = Never_Executed then Some [] else None)"
    using assms by (cases m) (simp_all only: measured_text.simps none at_paren_expressions actual never other Measured.distinct simp_thms if_True if_False)
  show "rx_remove costRe (measured_text m) = measured_text m"
    using assms by (cases m) (simp_all only: measured_text.simps none at_paren_expressions actual never other append_Nil2)
  show "rx_remove actualRe (measured_text m) = (case m of Measured a b n l \<Rightarrow> '' '' | _ \<Rightarrow> measured_text m)"
    using assms by (cases m) (simp_all only: measured_text.simps none at_paren_expressions actual never other append_Nil2 Measured.case)
  show "rx_remove neverRe (case m of Measured a b n l \<Rightarrow> '' '' | _ \<Rightarrow> measured_text m) =
      (if m = Estimate_Only then [] else '' '')"
    using assms by (cases m) (simp_all only: measured_text.simps none at_paren_expressions actual never other append_Nil2 Measured.case Measured.distinct simp_thms if_True if_False)
qed

lemma plan_line_searches:
  assumes "line_ok op c r m"
  shows "rx_search costRe (plan_line op c r m) = Some [Some c, None, Some r]"
    and "rx_search actualRe (plan_line op c r m) =
      (case m of Measured a b n l \<Rightarrow> Some [Some a, Some b, Some n, Some l] | _ \<Rightarrow> None)"
    and "rx_search neverRe (plan_line op c r m) = (if m = Never_Executed then Some [] else None)"
    and "rx_remove neverRe (rx_remove actualRe (rx_remove costRe (plan_line op c r m))) =
      op @ replicate (if m = Estimate_Only then 2 else 3) CHR '' ''"
proof -
  from assms have op: "CHR ''('' \<notin> set op" and cr: "num_text c" "num_text r" and m: "measured_ok m"
    by (auto simp: line_ok_def)
  have front: "CHR ''('' \<notin> set (op @ ''  '')" "CHR ''('' \<notin> set '' ''" "CHR ''('' \<notin> set (op @ ''   '')" using op by auto
  note cost = cost_match [OF cr] paren_parts(1) [OF cr]
  note skip = search_skips [OF _ front(1)] search_skips [OF _ front(2)] 
  have line: "plan_line op c r m = (op @ ''  '') @ cost_part c r @ measured_text m" by (simp add: plan_line_def)
  show "rx_search costRe (plan_line op c r m) = Some [Some c, None, Some r]"
    unfolding line by (simp only: skip at_paren_expressions paren_part_match(1) [OF cost(2) cost(1)])
  have rest: "rx_search rs (plan_line op c r m) = rx_search rs (measured_text m)"
    "rx_remove rs (plan_line op c r m) = (op @ ''  '') @ cost_part c r @ rx_remove rs (measured_text m)"
    if "at_paren rs" "\<And>s. rx_match rs (cost_part c r @ s) = None" for rs
    unfolding line using that search_skips [OF that(1) front(1)] remove_skips [OF that(1) front(1)]
    by (simp_all only: paren_part_other [OF that(1) cost(2) that(2)])
  show "rx_search actualRe (plan_line op c r m) =
      (case m of Measured a b n l \<Rightarrow> Some [Some a, Some b, Some n, Some l] | _ \<Rightarrow> None)"
    "rx_search neverRe (plan_line op c r m) = (if m = Never_Executed then Some [] else None)"
    by (simp_all only: rest(1) at_paren_expressions other_matches measured_searches [OF m])
  have "rx_remove costRe (plan_line op c r m) = (op @ ''  '') @ measured_text m"
    unfolding line by (simp only: remove_skips [OF _ front(1)] at_paren_expressions
        paren_part_match(2) [OF cost(2) cost(1)] measured_searches [OF m])
  then show "rx_remove neverRe (rx_remove actualRe (rx_remove costRe (plan_line op c r m))) =
      op @ replicate (if m = Estimate_Only then 2 else 3) CHR '' ''"
    by (simp only: remove_skips [OF _ front(1)] at_paren_expressions measured_searches [OF m])
      (simp add: numeral_eq_Suc)
qed

definition measured_info :: "Measured \<Rightarrow> PlanInfo \<Rightarrow> Number_Error + PlanInfo" where
  "measured_info m i =
     (case m of
        Estimate_Only \<Rightarrow> Inr i
      | Never_Executed \<Rightarrow> Inr (i\<lparr>pn_actualRows := Some dzero, pn_loops := Some dzero, pn_totalTimeMs := Some dzero\<rparr>)
      | Measured a b n l \<Rightarrow>
          on_result (stod n) (\<lambda>rows. on_result (stod l) (\<lambda>loops. on_result (stod b) (\<lambda>time.
          Inr (i\<lparr>pn_actualRows := Some rows, pn_loops := Some loops,
            pn_totalTimeMs := Some (dtimes time loops)\<rparr>)))))"

lemma mysql_node_line:
  assumes "line_ok op c r m" "stod c = Inr cost" "stod r = Inr rows"
    and "measured_info m ((plain_info op)\<lparr>pn_cost := Some cost, pn_estimatedRows := Some rows\<rparr>) = Inr i"
  shows "mysql_node (plan_line op c r m) = Inr i"
proof -
  note s = plan_line_searches [OF assms(1)]
  have trim: "trim_right_spaces (op @ replicate k CHR '' '') = op" for k
    using assms(1) by (intro trim_right_spaces_append) (simp add: line_ok_def)
  let ?node = "(plain_info [])\<lparr>pn_cost := Some cost, pn_estimatedRows := Some rows\<rparr>"
  have costs: "read_costs (plan_line op c r m) (plain_info []) = Inr ?node"
    using assms(2,3) by (simp add: read_costs_def s group_number_def group_text_def value_or_def)
  have "(plain_info op)\<lparr>pn_cost := Some cost, pn_estimatedRows := Some rows\<rparr> = ?node\<lparr>pn_operation := op\<rparr>"
    by (simp add: plain_info_def)
  then obtain i' where i': "measured_info m ?node = Inr i'" "i = i'\<lparr>pn_operation := op\<rparr>"
    using assms(4) by (cases m) (auto simp: measured_info_def on_result_Inr)
  have "read_actual (plan_line op c r m) ?node = Inr i'"
    using i'(1) unfolding read_actual_def s by (cases m) (auto simp: measured_info_def group_number_def group_text_def
        value_or_def on_result_Inr)
  then show ?thesis unfolding mysql_node_def costs s(4) by (simp add: trim i'(2))
qed


section \<open>The SQLite rows as a forest\<close>

text \<open>
  A forest of rows is complete below a parent when its roots are the rows with that parent, in their
  order, and likewise below every row of it.
\<close>

datatype RowTree = RowTree (tree_row: QpRow) (row_children: "RowTree list")

definition rows_below :: "QpRow list \<Rightarrow> int \<Rightarrow> QpRow list" where
  "rows_below rows p = filter (\<lambda>r. qp_parent r = p \<and> qp_id r \<noteq> p) rows"

fun complete_tree :: "QpRow list \<Rightarrow> RowTree \<Rightarrow> bool" where
  "complete_tree rows (RowTree r cs) \<longleftrightarrow>
     map tree_row cs = rows_below rows (qp_id r) \<and> list_all (complete_tree rows) cs"

definition complete_forest :: "QpRow list \<Rightarrow> int \<Rightarrow> RowTree list \<Rightarrow> bool" where
  "complete_forest rows p ts \<longleftrightarrow> map tree_row ts = rows_below rows p \<and> list_all (complete_tree rows) ts"

fun plan_of_row :: "RowTree \<Rightarrow> PlanNode" where
  "plan_of_row (RowTree r cs) = PlanNode (plain_info (qp_detail r)) (map plan_of_row cs)"

fun row_text :: "nat \<Rightarrow> RowTree \<Rightarrow> bytes" where
  "row_text d (RowTree r cs) =
     replicate (d * 2) CHR '' '' @ qp_detail r @ [newline] @ concat (map (row_text (d + 1)) cs)"

lemma complete_forest_tree:
  "complete_tree rows (RowTree r cs) \<longleftrightarrow> complete_forest rows (qp_id r) cs"
  by (simp add: complete_forest_def)

lemma sqlite_build_forest:
  assumes "map tree_row ts = rows_below rest p" "list_all (complete_tree rows) ts"
  shows "sqlite_build rows rest p d raw =
    Some (raw @ concat (map (row_text d) ts), map plan_of_row ts)"
  using assms
proof (induction "size_list size ts" arbitrary: ts rest p d raw rule: less_induct)
  case less
  note smaller = less.hyps
  show ?case using less.prems
  proof (induction rest)
    case Nil
    then show ?case by (simp add: rows_below_def sqlite_build.simps)
  next
    case (Cons row rest')
    show ?case
    proof (cases "qp_parent row = p \<and> qp_id row \<noteq> p")
      case True
      then obtain u us where "ts = u # us" "tree_row u = row" "map tree_row us = rows_below rest' p"
        using Cons.prems(1) by (cases ts) (auto simp: rows_below_def)
      then obtain cs where ts: "ts = RowTree row cs # us" "map tree_row us = rows_below rest' p" by (cases u) auto
      have "sqlite_build rows rows (qp_id row) (d + 1) (raw @ replicate (d * 2) CHR '' '' @ qp_detail row @ [newline]) =
        Some ((raw @ replicate (d * 2) CHR '' '' @ qp_detail row @ [newline]) @ concat (map (row_text (d + 1)) cs),
          map plan_of_row cs)"
        using Cons.prems(2) ts(1) by (intro smaller) auto
      moreover have "sqlite_build rows rest' p d raw' =
        Some (raw' @ concat (map (row_text d) us), map plan_of_row us)" for raw'
        using Cons.prems(2) ts by (intro smaller) auto
      ultimately show ?thesis
        using True ts(1) by (subst sqlite_build.simps) simp
    next
      case False
      have "sqlite_build rows rest' p d raw = Some (raw @ concat (map (row_text d) ts), map plan_of_row ts)"
        using Cons.prems False by (intro Cons.IH) (auto simp: rows_below_def)
      moreover have "sqlite_build rows (row # rest') p d raw = sqlite_build rows rest' p d raw"
        using False by (subst sqlite_build.simps) auto
      ultimately show ?thesis by simp
    qed
  qed
qed

lemma sqlite_build_returns:
  assumes "sqlite_build rows rest p d raw = Some res"
  shows "\<exists>ts. map tree_row ts = rows_below rest p \<and> list_all (complete_tree rows) ts"
proof (rule sqlite_build.raw_induct [where P = "\<lambda>rows rest p d raw res.
    \<exists>ts. map tree_row ts = rows_below rest p \<and> list_all (complete_tree rows) ts", OF _ assms])
  fix build rows rest p d raw res
  assume IH: "\<And>rows rest p d raw res. build rows rest p d raw = Some res \<Longrightarrow>
      \<exists>ts. map tree_row ts = rows_below rest p \<and> list_all (complete_tree rows) ts"
    and body: "(case rest of [] \<Rightarrow> Some (raw, [])
      | row # rest' \<Rightarrow>
          if qp_parent row = p \<and> qp_id row \<noteq> p
          then Option.bind (build rows rows (qp_id row) (d + 1)
                  (raw @ replicate (d * 2) CHR '' '' @ qp_detail row @ [newline]))
                (\<lambda>below. Option.bind (build rows rest' p d (fst below))
                     (\<lambda>after. Some (fst after, PlanNode (plain_info (qp_detail row)) (snd below) # snd after)))
          else build rows rest' p d raw) = Some res"
  show "\<exists>ts. map tree_row ts = rows_below rest p \<and> list_all (complete_tree rows) ts"
  proof (cases rest)
    case Nil
    then show ?thesis by (simp add: rows_below_def)
  next
    case (Cons row rest')
    show ?thesis
    proof (cases "qp_parent row = p \<and> qp_id row \<noteq> p")
      case True
      with body Cons obtain below after where
        "build rows rows (qp_id row) (d + 1) (raw @ replicate (d * 2) CHR '' '' @ qp_detail row @ [newline]) = Some below"
        "build rows rest' p d (fst below) = Some after"
        by (auto simp: bind_eq_Some_conv)
      from IH [OF this(1)] IH [OF this(2)] obtain cs us where
        "map tree_row cs = rows_below rows (qp_id row)" "list_all (complete_tree rows) cs"
        "map tree_row us = rows_below rest' p" "list_all (complete_tree rows) us" by blast
      then show ?thesis using True Cons
        by (intro exI [of _ "RowTree row cs # us"]) (simp add: rows_below_def)
    next
      case False
      with body Cons have "build rows rest' p d raw = Some res" by simp
      moreover have "rows_below rest p = rows_below rest' p" using False Cons by (auto simp: rows_below_def)
      ultimately show ?thesis using IH by simp
    qed
  qed
qed

text \<open>The reader returns exactly when there is such a forest, and then it reads this forest.\<close>

lemma sqlite_build_iff:
  "sqlite_build rows rows 0 0 [] \<noteq> None \<longleftrightarrow> (\<exists>ts. complete_forest rows 0 ts)"
  using sqlite_build_forest sqlite_build_returns unfolding complete_forest_def by fastforce

text \<open>A row among its own descendants is below no finite forest.\<close>

lemma complete_tree_child:
  assumes "complete_tree rows t" "r \<in> set (rows_below rows (qp_id (tree_row t)))"
  obtains c where "complete_tree rows c" "tree_row c = r" "size c < size t"
proof (cases t)
  case (RowTree r' cs)
  with assms have "r \<in> set (map tree_row cs)" "list_all (complete_tree rows) cs" by auto
  then obtain c where c: "c \<in> set cs" "tree_row c = r" "complete_tree rows c" by (auto simp: list_all_iff)
  have "size c \<le> size_list size cs" using c(1) by (rule size_list_estimation') simp
  with c RowTree show ?thesis by (intro that) auto
qed

lemma two_cycle_not_complete:
  assumes "a \<in> set (rows_below rows (qp_id b))" "b \<in> set (rows_below rows (qp_id a))"
  shows "complete_tree rows t \<Longrightarrow> tree_row t \<noteq> a"
proof (induction "size t" arbitrary: t rule: less_induct)
  case less
  show ?case
  proof
    assume ta: "tree_row t = a"
    with less.prems assms(2) obtain u where u: "complete_tree rows u" "tree_row u = b" "size u < size t"
      by (auto elim: complete_tree_child)
    with assms(1) obtain v where "complete_tree rows v" "tree_row v = a" "size v < size u"
      by (auto elim: complete_tree_child)
    with less.hyps [of v] u(3) show False by simp
  qed
qed

definition cyclic_rows :: "QpRow list" where
  "cyclic_rows = [\<lparr>qp_id = 1, qp_parent = 0, qp_detail = ''a''\<rparr>,
     \<lparr>qp_id = 2, qp_parent = 1, qp_detail = ''b''\<rparr>, \<lparr>qp_id = 1, qp_parent = 2, qp_detail = ''c''\<rparr>]"

lemma cyclic_rows_diverge: "sqlite_build cyclic_rows cyclic_rows 0 0 [] = None"
proof (rule ccontr)
  let ?a = "\<lparr>qp_id = 1, qp_parent = 0, qp_detail = ''a''\<rparr>"
  let ?b = "\<lparr>qp_id = 2, qp_parent = 1, qp_detail = ''b''\<rparr>"
  let ?c = "\<lparr>qp_id = 1, qp_parent = 2, qp_detail = ''c''\<rparr>"
  have below: "rows_below cyclic_rows 0 = [?a]" "rows_below cyclic_rows 1 = [?b]" "rows_below cyclic_rows 2 = [?c]"
    by (simp_all add: cyclic_rows_def rows_below_def)
  assume "sqlite_build cyclic_rows cyclic_rows 0 0 [] \<noteq> None"
  then obtain ts where "complete_forest cyclic_rows 0 ts" using sqlite_build_iff by blast
  then obtain t where t: "complete_tree cyclic_rows t" "tree_row t = ?a"
    by (cases ts) (auto simp: complete_forest_def below)
  then obtain u where u: "complete_tree cyclic_rows u" "tree_row u = ?b"
    using below(2) by (auto elim: complete_tree_child [of cyclic_rows t ?b])
  then show False using two_cycle_not_complete [of ?b cyclic_rows ?c u] below by simp
qed


section \<open>Self times\<close>

fun plan_infos :: "PlanNode \<Rightarrow> PlanInfo list" where
  "plan_infos (PlanNode i cs) = i # concat (map plan_infos cs)"

definition no_self_time :: "PlanInfo \<Rightarrow> PlanInfo" where
  "no_self_time i = i\<lparr>pn_selfTimeMs := None\<rparr>"

text \<open>What a self time promises: never negative or NaN, and never above the total.\<close>

definition self_time_ok :: "PlanInfo \<Rightarrow> bool" where
  "self_time_ok i \<longleftrightarrow>
     (case pn_totalTimeMs i of None \<Rightarrow> True | Some t \<Rightarrow>
       (case pn_selfTimeMs i of None \<Rightarrow> False | Some s \<Rightarrow> \<not> dless s dzero \<and> s \<noteq> NaN \<and> \<not> dless t s))"

definition total_time_ok :: "PlanInfo \<Rightarrow> bool" where
  "total_time_ok i \<longleftrightarrow>
     (case pn_totalTimeMs i of None \<Rightarrow> True | Some t \<Rightarrow> is_double t \<and> \<not> dless t dzero)"

lemma nearest_not_negative [simp]: "\<not> nearest x < 0"
  using nearest_nonneg [of x] by simp

lemma dplus_nonneg:
  assumes "\<not> dless x dzero" "\<not> dless y dzero"
  shows "\<not> dless (dplus x y) dzero"
  using assms
  by (cases x; cases y) (auto simp: dzero_def Let_def double_of_rat_def to_double_def signed_def split: if_splits)


lemma foldl_dplus_nonneg:
  assumes "\<forall>c\<in>set cs. \<not> dless (f c) dzero"
  shows "\<not> dless z dzero \<Longrightarrow> \<not> dless (foldl (\<lambda>t c. dplus t (f c)) z cs) dzero"
  using assms by (induction cs arbitrary: z) (auto simp: dplus_nonneg)

lemma fill_keeps_total: "pn_totalTimeMs (pn_info (fillSelfTimes t)) = pn_totalTimeMs (pn_info t)"
  by (cases t) (simp add: Let_def split: option.split)

lemma child_total_nonneg:
  assumes "\<forall>c\<in>set cs. total_time_ok (pn_info c)"
  shows "\<not> dless (child_total (map fillSelfTimes cs)) dzero"
  unfolding child_total_def
proof (rule foldl_dplus_nonneg)
  show "\<forall>c\<in>set (map fillSelfTimes cs). \<not> dless (value_or (pn_totalTimeMs (pn_info c)) dzero) dzero"
    using assms by (auto simp: fill_keeps_total total_time_ok_def value_or_def dzero_def split: option.splits)
qed (simp add: dzero_def)

lemma pn_info_in_infos: "pn_info t \<in> set (plan_infos t)"
  by (cases t) simp

lemma fillSelfTimes_infos_Cons:
  "plan_infos (fillSelfTimes (PlanNode i cs)) =
    pn_info (fillSelfTimes (PlanNode i cs)) # concat (map plan_infos (map fillSelfTimes cs))"
  by (simp add: Let_def)

lemma fillSelfTimes_infos:
  "map no_self_time (plan_infos (fillSelfTimes t)) = map no_self_time (plan_infos t)"
proof (induction t)
  case (PlanNode i cs)
  then have "map no_self_time (concat (map plan_infos (map fillSelfTimes cs))) = map no_self_time (concat (map plan_infos cs))"
    by (induction cs) auto
  moreover have "no_self_time (pn_info (fillSelfTimes (PlanNode i cs))) = no_self_time i"
    by (simp add: Let_def no_self_time_def split: option.split)
  ultimately show ?case by (simp add: fillSelfTimes_infos_Cons del: fillSelfTimes.simps)
qed

lemma fillSelfTimes_ok:
  "\<forall>i\<in>set (plan_infos t). total_time_ok i \<Longrightarrow> \<forall>i\<in>set (plan_infos (fillSelfTimes t)). self_time_ok i"
proof (induction t)
  case (PlanNode i cs)
  have children: "\<forall>j\<in>set (plan_infos (fillSelfTimes c)). self_time_ok j" if "c \<in> set cs" for c
    using PlanNode that by auto
  have "\<forall>c\<in>set cs. total_time_ok (pn_info c)" using PlanNode.prems pn_info_in_infos by fastforce
  then have "\<not> dless (child_total (map fillSelfTimes cs)) dzero" by (rule child_total_nonneg)
  moreover have "total_time_ok i" using PlanNode.prems by simp
  ultimately have "self_time_ok (pn_info (fillSelfTimes (PlanNode i cs)))"
    using dmax_zero dmax_minus_le by (auto simp: Let_def self_time_ok_def total_time_ok_def split: option.splits)
  then show ?case using children by (auto simp: fillSelfTimes_infos_Cons simp del: fillSelfTimes.simps)
qed


section \<open>What is read of a PostgreSQL plan\<close>

definition text_members :: "bytes list" where
  "text_members = [''Node Type'', ''Join Type'', ''Strategy'', ''Relation Name'', ''Alias'',
     ''CTE Name'', ''Function Name'', ''Index Name'']"

definition member_ok :: "(Json \<Rightarrow> 'a option) \<Rightarrow> Json \<Rightarrow> bytes \<Rightarrow> bool" where
  "member_ok get j key \<longleftrightarrow> (case json_find j key of None \<Rightarrow> True | Some v \<Rightarrow> get v \<noteq> None)"

definition node_ok :: "Json \<Rightarrow> bool" where
  "node_ok j \<longleftrightarrow> is_object j \<and> list_all (member_ok get_string j) text_members \<and>
     member_ok get_bool j ''Parallel Aware''"

abbreviation sub_plans :: "Json \<Rightarrow> Json list" where
  "sub_plans j \<equiv> json_elements (json_find j ''Plans'')"

function plan_ok :: "Json \<Rightarrow> bool" where
  "plan_ok j \<longleftrightarrow> node_ok j \<and> (\<forall>c\<in>set (sub_plans j). plan_ok c)"
  by pat_completeness auto
termination by (relation "measure size") (auto simp: json_elements_size)

declare plan_ok.simps [simp del]

definition is_gather :: "Json \<Rightarrow> bool" where
  "is_gather j \<longleftrightarrow>
     (case json_find j ''Node Type'' of Some (JString s) \<Rightarrow> starts_with s ''Gather'' | _ \<Rightarrow> False)"

text \<open>The plan objects in the order of the tree, each with whether workers run it.\<close>

function plan_objects :: "bool \<Rightarrow> Json \<Rightarrow> (Json \<times> bool) list" where
  "plan_objects worker j = (j, worker) # concat (map (plan_objects (worker \<or> is_gather j)) (sub_plans j))"
  by pat_completeness auto
termination by (relation "measure (\<lambda>(w, j). size j)") (auto simp: json_elements_size)

declare plan_objects.simps [simp del]

definition node_reads :: "Json \<times> bool \<Rightarrow> PlanInfo \<Rightarrow> bool" where
  "node_reads jw i \<longleftrightarrow> (case jw of (j, worker) \<Rightarrow>
     node_operation j = Inr (pn_operation i) \<and> node_detail j = Inr (pn_detail i) \<and>
     pn_estimatedRows i = number j ''Plan Rows'' \<and> pn_cost i = number j ''Total Cost'' \<and>
     pn_actualRows i = number j ''Actual Rows'' \<and> pn_loops i = number j ''Actual Loops'' \<and>
     pn_totalTimeMs i = map_option (\<lambda>t. if worker then t
         else dtimes t (case number j ''Actual Loops'' of None \<Rightarrow> Fin False 1 | Some l \<Rightarrow> l))
       (number j ''Actual Total Time'') \<and>
     map fst (pn_properties i) = filter (\<lambda>k. k \<notin> set shown) (map fst (json_items j)))"

lemma json_value_ok:
  "is_object j \<Longrightarrow> member_ok get j key \<Longrightarrow> \<exists>x. json_value get j key d = Inr x"
  by (auto simp: json_value_def member_ok_def split: option.split)

lemma node_ok_string:
  assumes "node_ok j" "key \<in> set text_members"
  shows "\<exists>s. json_value get_string j key d = Inr s"
  using assms by (intro json_value_ok) (auto simp: node_ok_def list_all_iff)

lemma on_result_returns:
  "\<exists>x. r = Inr x \<Longrightarrow> (\<And>x. \<exists>y. f x = Inr y) \<Longrightarrow> \<exists>y. on_result r f = Inr y"
  by auto

lemma node_operation_ok: "node_ok j \<Longrightarrow> \<exists>op. node_operation j = Inr op"
proof -
  assume ok: "node_ok j"
  note members = node_ok_string [OF ok]
  obtain a where a: "json_value get_string j ''Node Type'' ''?'' = Inr a"
    using members [of "''Node Type''" "''?''"] by (auto simp: text_members_def)
  obtain b where b: "json_value get_string j ''Join Type'' [] = Inr b"
    using members [of "''Join Type''" "[]"] by (auto simp: text_members_def)
  obtain c where c: "json_value get_string j ''Strategy'' [] = Inr c"
    using members [of "''Strategy''" "[]"] by (auto simp: text_members_def)
  obtain w where w: "json_value get_bool j ''Parallel Aware'' False = Inr w"
    using json_value_ok [of j get_bool "''Parallel Aware''" False] ok by (auto simp: node_ok_def)
  show ?thesis unfolding node_operation_def Let_def a b on_result.simps
  proof (intro on_result_returns)
    show "\<exists>y. (if join_operation a b = ''Aggregate''
        then on_result (json_value get_string j ''Strategy'' []) (\<lambda>s. Inr (aggregate_operation (join_operation a b) s))
        else Inr (join_operation a b)) = Inr y"
      unfolding c on_result.simps by (cases "join_operation a b = ''Aggregate''") simp_all
  qed (use w in auto)
qed

lemma node_detail_ok: "node_ok j \<Longrightarrow> \<exists>d. node_detail j = Inr d"
proof -
  assume ok: "node_ok j"
  note members = node_ok_string [OF ok]
  obtain a where a: "json_value get_string j ''Relation Name'' [] = Inr a"
    using members [of "''Relation Name''" "[]"] by (auto simp: text_members_def)
  obtain b where b: "json_value get_string j ''Alias'' [] = Inr b"
    using members [of "''Alias''" "[]"] by (auto simp: text_members_def)
  obtain c where c: "json_value get_string j ''CTE Name'' [] = Inr c"
    using members [of "''CTE Name''" "[]"] by (auto simp: text_members_def)
  obtain d where d: "json_value get_string j ''Function Name'' [] = Inr d"
    using members [of "''Function Name''" "[]"] by (auto simp: text_members_def)
  obtain e where e: "json_value get_string j ''Index Name'' [] = Inr e"
    using members [of "''Index Name''" "[]"] by (auto simp: text_members_def)
  show ?thesis using a b c d e by (simp add: node_detail_def)
qed

lemma map_fst_properties:
  "map fst (node_properties lib j) = filter (\<lambda>k. k \<notin> set shown) (map fst (json_items j))"
  by (auto simp: node_properties_def filter_map comp_def split_beta intro!: arg_cong [where f = "map _"] filter_cong)

lemma node_info_ok:
  assumes "node_ok j"
  shows "\<exists>i. node_info lib j worker = Inr i \<and> node_reads (j, worker) i"
  using node_operation_ok [OF assms] node_detail_ok [OF assms]
  by (auto simp: node_info_def node_reads_def Let_def map_fst_properties value_or_def double_one_def
      split: option.splits)


lemma gather_node_type:
  "node_ok j \<Longrightarrow> json_value get_string j ''Node Type'' [] = Inr ty \<Longrightarrow> starts_with ty ''Gather'' = is_gather j"
  by (auto simp: json_value_def is_gather_def starts_with_def split: option.splits if_splits Json.splits
      elim!: get_string.elims)

lemma postgresNode_ok:
  "plan_ok j \<Longrightarrow> \<exists>t. postgresNode lib j worker = Inr t \<and> list_all2 node_reads (plan_objects worker j) (plan_infos t)"
proof (induction j arbitrary: worker rule: plan_ok.induct)
  case (1 j)
  then have ok: "node_ok j" and kids: "\<forall>c\<in>set (sub_plans j). plan_ok c" using plan_ok.simps by blast+
  obtain ty where ty: "json_value get_string j ''Node Type'' [] = Inr ty"
    using node_ok_string [OF ok, of "''Node Type''"] by (auto simp: text_members_def)
  note gather = gather_node_type [OF ok ty]
  obtain i where i: "node_info lib j worker = Inr i" "node_reads (j, worker) i" using node_info_ok [OF ok] by blast
  let ?w = "worker \<or> is_gather j"
  have "\<exists>ts. map_result (\<lambda>c. postgresNode lib c ?w) cs = Inr ts \<and>
      list_all2 node_reads (concat (map (plan_objects ?w) cs)) (concat (map plan_infos ts))"
    if "set cs \<subseteq> set (sub_plans j)" for cs
    using that
  proof (induction cs)
    case (Cons c cs)
    then have c: "c \<in> set (sub_plans j)" by simp
    with kids obtain t where t: "postgresNode lib c ?w = Inr t" "list_all2 node_reads (plan_objects ?w c) (plan_infos t)"
      using "1.IH" [OF c, of ?w] by blast
    obtain ts where "map_result (\<lambda>c. postgresNode lib c ?w) cs = Inr ts"
      "list_all2 node_reads (concat (map (plan_objects ?w) cs)) (concat (map plan_infos ts))"
      using Cons.IH Cons.prems by auto
    with t show ?case by (simp add: list_all2_appendI)
  qed simp
  then obtain ts where ts: "map_result (\<lambda>c. postgresNode lib c ?w) (sub_plans j) = Inr ts"
    "list_all2 node_reads (concat (map (plan_objects ?w) (sub_plans j))) (concat (map plan_infos ts))" by blast
  have "postgresNode lib j worker = Inr (PlanNode i ts)"
    using i ts ty gather by (subst postgresNode.simps) simp
  then show ?case using i(2) ts(2) by (subst plan_objects.simps) simp
qed


section \<open>Facts for concrete plans\<close>

lemma stod_nat_to_string:
  assumes "int n < 2 ^ 53"
  shows "stod (nat_to_string n) = Inr (Fin False (of_nat n))"
proof -
  let ?s = "nat_to_string n"
  obtain c r where cr: "?s = c # r" using nat_to_string_nonempty by (metis neq_Nil_conv)
  have digits: "\<forall>x\<in>set ?s. isdigit x" using nat_to_string_digits [of n] by (simp add: list_all_iff)
  have ds: "takeWhile isdigit ?s = ?s" "dropWhile isdigit ?s = []" using digits by simp_all
  have "isdigit c" using digits cr by simp
  then have start: "split_sign (dropWhile isspace ?s) = (False, ?s)"
    using isdigit_not_isspace isdigit_not_sign by (simp add: cr split_sign_def)
  have exact: "to_double False (of_nat n) = Fin False (of_nat n)"
    using to_double_int [of "int n" False] assms by simp
  have rest: "split_point [] = ([], [])" "read_exponent [] = 0"
    by (simp_all add: split_point_def read_exponent_def)
  have scale: "of_nat (nat_of_digits (?s @ [])) * 10 powi (0 - int (length ([] :: bytes))) = (of_nat n :: rat)"
    by simp
  show ?thesis
    unfolding stod_def Let_def start prod.case ds rest scale exact
    by (simp only: append_Nil2 nat_to_string_nonempty if_False Double.distinct Double.sel simp_thms)
qed

lemma stod_evaluate [simp]:
  "stod ''1'' = Inr (Fin False 1)" "stod ''2'' = Inr (Fin False 2)" "stod ''3'' = Inr (Fin False 3)"
  "stod ''4'' = Inr (Fin False 4)" "stod ''5'' = Inr (Fin False 5)"
  using stod_nat_to_string [of 1] stod_nat_to_string [of 2] stod_nat_to_string [of 3]
    stod_nat_to_string [of 4] stod_nat_to_string [of 5]
  by (simp_all add: nat_to_string.simps digit_char_eval)

lemma mysql_node_plain:
  assumes "CHR ''('' \<notin> set tx" "tx = [] \<or> last tx \<noteq> CHR '' ''"
  shows "mysql_node tx = Inr (plain_info tx)"
proof -
  have "trim_right_spaces tx = tx" using trim_right_spaces_append [OF assms(2), of 0] by simp
  then show ?thesis
    by (simp add: mysql_node_def read_costs_def read_actual_def search_nothing remove_nothing assms(1))
      (simp add: plain_info_def)
qed

text \<open>A JSON library for concrete runs: it reads every text as one ill-typed plan.\<close>

definition odd_json :: JsonLib where
  "odd_json = \<lparr>js_parse = \<lambda>s. JObject [(''Plan'', JObject [(''Node Type'', JInt 1)])], js_dump = \<lambda>i v. []\<rparr>"

definition sample_tree :: LineTree where
  "sample_tree = LineTree ''Sort: t.a'' [LineTree ''Filter'' [LineTree ''Scan on t'' []], LineTree ''Scan on u'' []]"

definition sample_node :: PlanNode where
  "sample_node = PlanNode (plain_info ''Sort: t.a'')
     [PlanNode (plain_info ''Filter'') [PlanNode (plain_info ''Scan on t'') []], PlanNode (plain_info ''Scan on u'') []]"


section \<open>Properties\<close>

text \<open>C11: a plan tree printed the way MySQL prints it is read back as the same tree, each node with
  what its own line says, and self times filled in; of a line the operation, the numbers of the
  estimate and those of the execution are read, the total time as the time to the last row times the
  loops, zeros when the node was never executed.\<close>
theorem mysql_tree_roundtrip:
  "((\<forall>tx\<in>set (line_texts t). readable_line tx) \<and> sr_success r \<and> sr_tableData r = [[unlines (tree_lines 0 t)]] \<longrightarrow>
      parsePlan lib MYSQL r analyzed = Some (Inr (Some
        \<lparr>pl_root = fillSelfTimes (node_of_lines t), pl_analyzed = analyzed, pl_planningTimeMs = None,
         pl_executionTimeMs = None, pl_raw = unlines (tree_lines 0 t)\<rparr>))) \<and>
   (line_ok op c rw m \<and> stod c = Inr cost \<and> stod rw = Inr rows \<and>
      measured_info m ((plain_info op)\<lparr>pn_cost := Some cost, pn_estimatedRows := Some rows\<rparr>) = Inr i \<longrightarrow>
      mysql_node (plan_line op c rw m) = Inr i)"
proof (intro conjI impI)
  assume "(\<forall>tx\<in>set (line_texts t). readable_line tx) \<and> sr_success r \<and> sr_tableData r = [[unlines (tree_lines 0 t)]]"
  then show "parsePlan lib MYSQL r analyzed = Some (Inr (Some
        \<lparr>pl_root = fillSelfTimes (node_of_lines t), pl_analyzed = analyzed, pl_planningTimeMs = None,
         pl_executionTimeMs = None, pl_raw = unlines (tree_lines 0 t)\<rparr>))"
    using mysql_tree_read [of t r] by (simp add: parsePlan_def with_self_times_def)
qed (use mysql_node_line in blast)

theorem mysql_tree_roundtrip_witness:
  "mysql_node ''Scan on t  (cost=4 rows=5) (never executed)'' =
     Inr ((plain_info ''Scan on t'')\<lparr>pn_cost := Some (Fin False 4), pn_estimatedRows := Some (Fin False 5),
       pn_actualRows := Some dzero, pn_loops := Some dzero, pn_totalTimeMs := Some dzero\<rparr>) \<and>
   parsePlan odd_json MYSQL (default_statement\<lparr>sr_tableData := [[unlines (tree_lines 0 sample_tree)]]\<rparr>) True =
    Some (Inr (Some \<lparr>pl_root = sample_node, pl_analyzed = True, pl_planningTimeMs = None,
      pl_executionTimeMs = None, pl_raw = unlines (tree_lines 0 sample_tree)\<rparr>))"
proof -
  have nodes: "mysql_node ''Sort: t.a'' = Inr (plain_info ''Sort: t.a'')"
    "mysql_node ''Filter'' = Inr (plain_info ''Filter'')"
    "mysql_node ''Scan on t'' = Inr (plain_info ''Scan on t'')"
    "mysql_node ''Scan on u'' = Inr (plain_info ''Scan on u'')"
    by (simp_all add: mysql_node_plain)
  have readable: "\<forall>tx\<in>set (line_texts sample_tree). readable_line tx"
    using nodes by (simp add: sample_tree_def readable_line_def)
  have "fillSelfTimes (node_of_lines sample_tree) = sample_node"
    using nodes by (simp add: sample_tree_def sample_node_def line_info_def) (simp add: plain_info_def)
  moreover have "line_ok ''Scan on t'' ''4'' ''5'' Never_Executed"
    by (simp add: line_ok_def num_text_def num_char_def isdigit_def byte_def)
  ultimately show ?thesis
    using readable mysql_tree_roundtrip [of sample_tree
        "default_statement\<lparr>sr_tableData := [[unlines (tree_lines 0 sample_tree)]]\<rparr>" odd_json True
        "''Scan on t''" "''4''" "''5''" Never_Executed "Fin False 4" "Fin False 5"]
    by (simp add: default_statement_def measured_info_def plan_line_def cost_part_def never_part_def)
qed

text \<open>C12: reading an SQLite plan returns exactly when the rows below the root form a finite forest, and
  then the plan is this forest and the raw text its indented listing; rows in a cycle recurse for
  ever.\<close>
theorem sqlite_plan_forest:
  assumes "sr_success r" "4 \<le> length (sr_columnNames r)" "sr_tableData r \<noteq> []"
    and "sqlite_rows (sr_tableData r) = Some rows" "rows \<noteq> []"
  shows "(parsePlan lib SQLITE r analyzed \<noteq> None \<longleftrightarrow> (\<exists>ts. complete_forest rows 0 ts)) \<and>
    (\<forall>ts. complete_forest rows 0 ts \<longrightarrow> parsePlan lib SQLITE r analyzed = Some (Inr
      (if ts = [] then None
       else Some \<lparr>pl_root = fillSelfTimes (case map plan_of_row ts of [t] \<Rightarrow> t
              | _ \<Rightarrow> PlanNode (plain_info ''QUERY PLAN'') (map plan_of_row ts)),
            pl_analyzed = False, pl_planningTimeMs = None, pl_executionTimeMs = None,
            pl_raw = concat (map (row_text 0) ts)\<rparr>)))"
proof -
  have returns: "parsePlan lib SQLITE r analyzed \<noteq> None \<longleftrightarrow> sqlite_build rows rows 0 0 [] \<noteq> None"
    using assms by (auto simp: parsePlan_def parseSqlite_def split: option.splits)
  have result: "sqlite_build rows rows 0 0 [] = Some (concat (map (row_text 0) ts), map plan_of_row ts)"
    if "complete_forest rows 0 ts" for ts
    using that sqlite_build_forest [of ts rows 0 rows 0 "[]"] by (simp add: complete_forest_def)
  show ?thesis
    using returns sqlite_build_iff [of rows] assms
    by (auto simp: parsePlan_def parseSqlite_def with_self_times_def result)
qed

definition sample_rows :: "QpRow list" where
  "sample_rows = [\<lparr>qp_id = 3, qp_parent = 0, qp_detail = ''a''\<rparr>, \<lparr>qp_id = 5, qp_parent = 3, qp_detail = ''b''\<rparr>]"

definition sample_forest :: "RowTree list" where
  "sample_forest = [RowTree (sample_rows ! 0) [RowTree (sample_rows ! 1) []]]"

theorem sqlite_plan_forest_witness:
  "parsePlan odd_json SQLITE (default_statement\<lparr>sr_columnNames := [''id'', ''parent'', ''notused'', ''detail''],
      sr_tableData := [[''3'', ''0'', ''0'', ''a''], [''5'', ''3'', ''0'', ''b'']]\<rparr>) False =
    Some (Inr (Some \<lparr>pl_root = PlanNode (plain_info ''a'') [PlanNode (plain_info ''b'') []],
      pl_analyzed = False, pl_planningTimeMs = None, pl_executionTimeMs = None,
      pl_raw = ''a'' @ [newline] @ ''  b'' @ [newline]\<rparr>))"
proof -
  let ?r = "default_statement\<lparr>sr_columnNames := [''id'', ''parent'', ''notused'', ''detail''],
      sr_tableData := [[''3'', ''0'', ''0'', ''a''], [''5'', ''3'', ''0'', ''b'']]\<rparr>"
  have "stol ''0'' = Some 0" "stol ''3'' = Some 3" "stol ''5'' = Some 5" by code_simp+
  then have rows: "sqlite_rows (sr_tableData ?r) = Some sample_rows"
    by (simp add: sqlite_row_def sample_rows_def)
  have forest: "complete_forest sample_rows 0 sample_forest"
    by (simp add: complete_forest_def sample_forest_def sample_rows_def rows_below_def)
  have "fillSelfTimes (PlanNode (plain_info ''a'') [PlanNode (plain_info ''b'') []]) =
      PlanNode (plain_info ''a'') [PlanNode (plain_info ''b'') []]"
    by (simp add: plain_info_def)
  then show ?thesis
    using sqlite_plan_forest [OF _ _ _ rows, of odd_json False] forest
    by (simp add: default_statement_def sample_rows_def sample_forest_def numeral_2_eq_2)
qed

text \<open>C14: filling in self times changes nothing else in the tree; if no total time is negative, every node with
  a total gets a self time that is a number, not negative and not above the total, whatever the
  rounding of the sums.\<close>
theorem fillSelfTimes_bounds:
  assumes "\<forall>i\<in>set (plan_infos t). \<forall>x. pn_totalTimeMs i = Some x \<longrightarrow> is_double x \<and> \<not> dless x dzero"
  shows "map no_self_time (plan_infos (fillSelfTimes t)) = map no_self_time (plan_infos t) \<and>
    (\<forall>i\<in>set (plan_infos (fillSelfTimes t)). \<forall>x. pn_totalTimeMs i = Some x \<longrightarrow>
      (\<exists>s. pn_selfTimeMs i = Some s \<and> s \<noteq> NaN \<and> \<not> dless s dzero \<and> \<not> dless x s))"
proof -
  have "\<forall>i\<in>set (plan_infos t). total_time_ok i"
    using assms by (simp add: total_time_ok_def split: option.split)
  from fillSelfTimes_ok [OF this] fillSelfTimes_infos [of t] show ?thesis
    by (fastforce simp: self_time_ok_def split: option.splits)
qed

theorem fillSelfTimes_bounds_witness:
  "\<exists>s. pn_selfTimeMs (pn_info (fillSelfTimes
      (PlanNode ((plain_info ''a'')\<lparr>pn_totalTimeMs := Some (Fin False 3)\<rparr>) []))) = Some s \<and>
    \<not> dless s dzero \<and> \<not> dless (Fin False 3) s"
proof -
  let ?t = "PlanNode ((plain_info ''a'')\<lparr>pn_totalTimeMs := Some (Fin False 3)\<rparr>) []"
  have "is_double (Fin False 3)"
    using nearest_int [of 3] less_double_limit [of 3] by (simp add: is_double_def)
  then show ?thesis
    using fillSelfTimes_bounds [of ?t] by (simp add: dzero_def signed_def Let_def)
qed

text \<open>C13: a PostgreSQL plan whose members have the right types is read completely: the nodes of the tree,
  in order, are the plan objects, each with its numbers, its total time (per loop times loops, but
  wall time below a Gather) and every member that has no field of its own; a value that is not an
  object throws.\<close>
theorem postgres_plan_reads:
  "(plan_ok j \<longrightarrow> (\<exists>t. postgresNode lib j worker = Inr t \<and>
      list_all2 node_reads (plan_objects worker j) (plan_infos t))) \<and>
   (\<not> is_object j \<longrightarrow> postgresNode lib j worker = Inl Json_Type_Error)"
proof -
  have "postgresNode lib j worker = Inl Json_Type_Error" if "\<not> is_object j"
    using that by (subst postgresNode.simps) (simp add: node_info_def node_operation_def json_value_def)
  with postgresNode_ok show ?thesis by blast
qed

definition sample_json :: Json where
  "sample_json = JObject [(''Node Type'', JString ''Hash Join''), (''Join Type'', JString ''Left''),
     (''Hash Cond'', JString ''x''), (''Plan Rows'', JInt 5)]"

theorem postgres_plan_reads_witness:
  "\<exists>t. postgresNode odd_json sample_json False = Inr t \<and> pn_operation (pn_info t) = ''Hash Left Join'' \<and>
     map fst (pn_properties (pn_info t)) = [''Hash Cond'']"
proof -
  have "plan_ok sample_json"
    by (subst plan_ok.simps) (simp add: node_ok_def sample_json_def member_ok_def text_members_def)
  then obtain t where t: "postgresNode odd_json sample_json False = Inr t"
    "list_all2 node_reads (plan_objects False sample_json) (plan_infos t)"
    using postgres_plan_reads [of sample_json odd_json False] by blast
  have op: "node_operation sample_json = Inr ''Hash Left Join''" by code_simp
  obtain i cs where tt: "t = PlanNode i cs" by (cases t)
  have "node_reads (sample_json, False) i" using t(2) tt by (simp add: plan_objects.simps [of False sample_json])
  then have "pn_operation i = ''Hash Left Join''" "map fst (pn_properties i) = [''Hash Cond'']"
    using op by (simp_all add: node_reads_def) (simp add: sample_json_def shown_def)
  with t(1) tt show ?thesis by simp
qed

text \<open>Three deviations from what the interface says of plans. A cost range in a MySQL line is read as
  its first number, the cost of the first row, since the first group takes the whole range; a plan whose
  members have the wrong type throws instead of giving no plan; rows in a cycle never return.\<close>
lemma plan_deviations:
  "(\<exists>i. mysql_node ''Sort  (cost=2..5 rows=3)'' = Inr i \<and> pn_cost i = Some (Fin False 2)) \<and>
   parsePlan odd_json POSTGRESQL (default_statement\<lparr>sr_tableData := [[''x'']]\<rparr>) False = Some (Inl Json_Type_Error) \<and>
   parsePlan odd_json SQLITE (default_statement\<lparr>sr_columnNames := [''id'', ''parent'', ''notused'', ''detail''],
     sr_tableData := [[''1'', ''0'', ''0'', ''a''], [''2'', ''1'', ''0'', ''b''], [''1'', ''2'', ''0'', ''c'']]\<rparr>) False = None"
proof (intro conjI)
  have range: "stod ''2..5'' = Inr (Fin False 2)"
  proof -
    have "to_double False 2 = Fin False 2" using to_double_int [of 2 False] by simp
    moreover have "split_sign (dropWhile isspace ''2..5'') = (False, ''2..5'')" "takeWhile isdigit ''2..5'' = ''2''"
      "split_point (dropWhile isdigit ''2..5'') = ([], ''.5'')" "read_exponent ''.5'' = 0" "nat_of_digits (''2'' @ []) = 2"
      by code_simp+
    ultimately show ?thesis by (simp add: stod_def Let_def)
  qed
  have "num_text ''2..5'' \<and> num_text ''3''" by (simp add: num_text_def num_char_def isdigit_def byte_def)
  then show "\<exists>i. mysql_node ''Sort  (cost=2..5 rows=3)'' = Inr i \<and> pn_cost i = Some (Fin False 2)"
    using mysql_node_line [of "''Sort''" "''2..5''" "''3''" Estimate_Only "Fin False 2" "Fin False 3"] range
    by (simp add: line_ok_def plan_line_def cost_part_def measured_info_def)
next
  show "parsePlan odd_json POSTGRESQL (default_statement\<lparr>sr_tableData := [[''x'']]\<rparr>) False = Some (Inl Json_Type_Error)"
    by (simp add: odd_json_def parsePlan_def default_statement_def parsePostgres_def firstColumn_def plan_top_def
        postgresNode.simps [of _ "JObject _"] node_info_def node_operation_def json_value_def)
next
  let ?data = "[[''1'', ''0'', ''0'', ''a''], [''2'', ''1'', ''0'', ''b''], [''1'', ''2'', ''0'', ''c'']]"
  have "stol ''0'' = Some 0" "stol ''1'' = Some 1" "stol ''2'' = Some 2" by code_simp+
  then have "sqlite_rows ?data = Some cyclic_rows" by (simp add: sqlite_row_def cyclic_rows_def)
  then show "parsePlan odd_json SQLITE (default_statement\<lparr>sr_columnNames := [''id'', ''parent'', ''notused'', ''detail''],
     sr_tableData := ?data\<rparr>) False = None"
    using cyclic_rows_diverge
    by (simp add: parsePlan_def default_statement_def parseSqlite_def) (simp add: cyclic_rows_def)
qed

end
