(* ===== verification/Syntax_Check.thy ===== *)
theory Syntax_Check
  imports Sql_Lexer
begin

text \<open>
  \<^verbatim>\<open>include/dearsql/syntax.hpp\<close> and \<^verbatim>\<open>src/syntax.cpp\<close>: syntax checking with the engines' own parsers.
  The parsers (libpg_query, sqlite3, DuckDB) are third-party code and a parameter: each maps a text
  to the error it reports, if any. What is modelled is what the source does with them: which text
  each one gets, how an error's position becomes a byte offset, which SQLite errors count, and that
  SQLite is asked statement by statement. The lemmas say where offsets point and what is reported.
\<close>


section \<open>Engines and results\<close>

record SyntaxError =
  se_message :: bytes
  se_offset :: nat

text \<open>
  PostgreSQL: a message (or null) and a 1-based character position. SQLite: a handle that may not
  open; a prepared text's error with a byte offset, negative when there is none; preparing reads the
  empty in-memory database only. DuckDB: a message and the text of its position, in a build that has
  it.
\<close>

record Engines =
  pg_query_parse :: "bytes \<Rightarrow> (bytes option \<times> int) option"
  sqlite3_open :: bool
  sqlite3_prepare :: "bytes \<Rightarrow> (bytes \<times> int) option"
  has_duckdb :: bool
  duckdb_parse :: "bytes \<Rightarrow> (bytes \<times> bytes option) option"

definition char_width :: "char \<Rightarrow> nat" where
  "char_width c = (if byte c < 128 then 1 else if byte c < 224 then 2 else if byte c < 240 then 3 else 4)"

fun skip_chars :: "bytes \<Rightarrow> nat \<Rightarrow> nat \<Rightarrow> nat" where
  "skip_chars s i 0 = i"
| "skip_chars s i (Suc chars) =
     (if i < length s then skip_chars s (i + char_width (s ! i)) chars else i)"

definition byteOffset :: "bytes \<Rightarrow> nat \<Rightarrow> nat" where
  "byteOffset s chars = min (skip_chars s 0 chars) (length s)"

definition checkPostgres :: "Engines \<Rightarrow> bytes \<Rightarrow> SyntaxError option" where
  "checkPostgres eng sql =
     (case pg_query_parse eng (c_str sql) of
        None \<Rightarrow> None
      | Some (message, pos) \<Rightarrow> Some
          \<lparr>se_message = (case message of None \<Rightarrow> ''syntax error'' | Some m \<Rightarrow> m),
           se_offset = (if pos > 0 then byteOffset sql (nat (pos - 1)) else 0)\<rparr>)"

definition isSqliteSyntaxError :: "bytes \<Rightarrow> bool" where
  "isSqliteSyntaxError msg \<longleftrightarrow>
     ends_with msg ''syntax error'' \<or> msg = ''incomplete input'' \<or> starts_with msg ''unrecognized token''"

fun check_statements :: "Engines \<Rightarrow> bytes \<Rightarrow> (nat \<times> nat) list \<Rightarrow> SyntaxError option" where
  "check_statements eng sql [] = None"
| "check_statements eng sql ((b, e) # rs) =
     (case sqlite3_prepare eng (substr sql b (e - b)) of
        None \<Rightarrow> check_statements eng sql rs
      | Some (msg, at) \<Rightarrow>
          if isSqliteSyntaxError msg
          then Some \<lparr>se_message = msg, se_offset = b + (if at \<ge> 0 then nat at else 0)\<rparr>
          else check_statements eng sql rs)"

definition checkSqlite :: "Engines \<Rightarrow> bytes \<Rightarrow> SyntaxError option" where
  "checkSqlite eng sql =
     (if \<not> sqlite3_open eng then None
      else check_statements eng sql (statementRanges sql SQLITE))"

text \<open>
  \<^verbatim>\<open>std::stoull\<close>: as \<^verbatim>\<open>stoll\<close>, a negative number taken modulo \<open>2 ^ 64\<close>. Its exception leaves
  \<^verbatim>\<open>checkDuckdb\<close>, since it is thrown in a handler: \<open>Inl\<close>.
\<close>

definition stoull :: "bytes \<Rightarrow> nat option" where
  "stoull s = map_option (\<lambda>v. nat (v mod 2 ^ 64)) (read_integer (\<lambda>v. \<bar>v\<bar> < 2 ^ 64) s)"

definition checkDuckdb :: "Engines \<Rightarrow> bytes \<Rightarrow> unit + SyntaxError option" where
  "checkDuckdb eng sql =
     (case duckdb_parse eng sql of
        None \<Rightarrow> Inr None
      | Some (message, position) \<Rightarrow>
          (case position of
             None \<Rightarrow> Inr (Some \<lparr>se_message = message, se_offset = 0\<rparr>)
           | Some p \<Rightarrow> (case stoull p of
               None \<Rightarrow> Inl ()
             | Some v \<Rightarrow> Inr (Some \<lparr>se_message = message, se_offset = min v (length sql)\<rparr>))))"

definition hasSyntaxCheck :: "Engines \<Rightarrow> DatabaseType \<Rightarrow> bool" where
  "hasSyntaxCheck eng ty =
     (case ty of POSTGRESQL \<Rightarrow> True | SQLITE \<Rightarrow> True | DUCKDB \<Rightarrow> has_duckdb eng | _ \<Rightarrow> False)"

definition checkSyntax :: "Engines \<Rightarrow> bytes \<Rightarrow> DatabaseType \<Rightarrow> unit + SyntaxError option" where
  "checkSyntax eng sql ty =
     (case ty of
        POSTGRESQL \<Rightarrow> Inr (checkPostgres eng sql)
      | SQLITE \<Rightarrow> Inr (checkSqlite eng sql)
      | DUCKDB \<Rightarrow> if has_duckdb eng then checkDuckdb eng sql else Inr None
      | _ \<Rightarrow> Inr None)"


section \<open>Byte offsets\<close>

text \<open>A character of UTF-8 text: a lead byte and as many bytes as it announces.\<close>

definition utf8_char :: "bytes \<Rightarrow> bool" where
  "utf8_char u \<longleftrightarrow> u \<noteq> [] \<and> length u = char_width (hd u)"

lemma skip_chars_utf8:
  "list_all utf8_char us \<Longrightarrow>
   skip_chars (pre @ concat us) (length pre) k = length pre + length (concat (take k us))"
proof (induction us arbitrary: pre k)
  case Nil
  then show ?case by (cases k) auto
next
  case (Cons u us)
  then have u: "u \<noteq> []" "char_width (hd u) = length u" by (auto simp: utf8_char_def)
  have at: "(pre @ concat (u # us)) ! length pre = hd u"
    using u(1) by (cases u) auto
  show ?case
  proof (cases k)
    case (Suc m)
    have "skip_chars (pre @ concat (u # us)) (length pre) k = skip_chars ((pre @ u) @ concat us) (length (pre @ u)) m"
      using u Suc by (simp only: Suc skip_chars.simps at) simp
    also have "\<dots> = length (pre @ u) + length (concat (take m us))"
      using Cons by (intro Cons.IH) simp
    finally show ?thesis using Suc by simp
  qed simp
qed

lemma byteOffset_utf8:
  assumes "list_all utf8_char us"
  shows "byteOffset (concat us) k = length (concat (take k us))"
proof -
  have "concat us = concat (take k us) @ concat (drop k us)" by (metis append_take_drop_id concat_append)
  then have "length (concat (take k us)) \<le> length (concat us)" by (metis length_append le_add1)
  then show ?thesis using skip_chars_utf8 [OF assms, of "[]" k] by (simp add: byteOffset_def)
qed


section \<open>What SQLite reports\<close>

definition syntax_error_at :: "Engines \<Rightarrow> bytes \<Rightarrow> nat \<times> nat \<Rightarrow> bool" where
  "syntax_error_at eng sql r \<longleftrightarrow>
     (\<exists>msg at. sqlite3_prepare eng (substr sql (fst r) (snd r - fst r)) = Some (msg, at) \<and> isSqliteSyntaxError msg)"

lemma check_statements_None:
  "check_statements eng sql rs = None \<longleftrightarrow> (\<forall>r\<in>set rs. \<not> syntax_error_at eng sql r)"
  by (induction rs) (auto simp: syntax_error_at_def split: option.splits if_splits)

lemma check_statements_Some:
  "check_statements eng sql rs = Some err \<Longrightarrow>
   \<exists>pre b e post msg at. rs = pre @ (b, e) # post \<and> (\<forall>r\<in>set pre. \<not> syntax_error_at eng sql r) \<and>
     sqlite3_prepare eng (substr sql b (e - b)) = Some (msg, at) \<and> isSqliteSyntaxError msg \<and>
     err = \<lparr>se_message = msg, se_offset = b + (if at \<ge> 0 then nat at else 0)\<rparr>"
proof (induction rs)
  case (Cons r rs)
  obtain b e where r: "r = (b, e)" by (cases r)
  show ?case
  proof (cases "syntax_error_at eng sql r")
    case True
    then obtain msg at where "sqlite3_prepare eng (substr sql b (e - b)) = Some (msg, at)" "isSqliteSyntaxError msg"
      by (auto simp: syntax_error_at_def r)
    with Cons.prems r show ?thesis
      by (intro exI [of _ "[]"] exI [of _ b] exI [of _ e] exI [of _ rs] exI [of _ msg] exI [of _ at]) auto
  next
    case False
    then have "check_statements eng sql rs = Some err"
      using Cons.prems by (auto simp: syntax_error_at_def r split: option.splits if_splits)
    with Cons.IH obtain pre b' e' post msg at where "rs = pre @ (b', e') # post" "\<forall>r\<in>set pre. \<not> syntax_error_at eng sql r"
      "sqlite3_prepare eng (substr sql b' (e' - b')) = Some (msg, at)" "isSqliteSyntaxError msg"
      "err = \<lparr>se_message = msg, se_offset = b' + (if at \<ge> 0 then nat at else 0)\<rparr>" by blast
    with False show ?thesis
      by (intro exI [of _ "r # pre"] exI [of _ b'] exI [of _ e'] exI [of _ post] exI [of _ msg] exI [of _ at]) auto
  qed
qed simp


lemma statementRanges_in_text:
  "(b, e) \<in> set (statementRanges sql ty) \<Longrightarrow> b < e \<and> e \<le> length sql"
  using ranges_scan_bounds [OF scan_inv_tokenize] unfolding statementRanges_def by blast

text \<open>What \<^verbatim>\<open>sqlite3_error_offset\<close> promises: a byte of the text or its end, or a negative number.\<close>

definition offsets_in_statement :: "Engines \<Rightarrow> bool" where
  "offsets_in_statement eng \<longleftrightarrow>
     (\<forall>stmt msg at. sqlite3_prepare eng stmt = Some (msg, at) \<longrightarrow> at \<le> int (length stmt))"

lemma checkSqlite_Some:
  assumes "offsets_in_statement eng" "checkSqlite eng sql = Some err"
  shows "\<exists>pre b e post. statementRanges sql SQLITE = pre @ (b, e) # post \<and>
    (\<forall>r\<in>set pre. \<not> syntax_error_at eng sql r) \<and> syntax_error_at eng sql (b, e) \<and>
    isSqliteSyntaxError (se_message err) \<and> b \<le> se_offset err \<and> se_offset err \<le> e \<and> e \<le> length sql"
proof -
  have "check_statements eng sql (statementRanges sql SQLITE) = Some err"
    using assms(2) by (simp add: checkSqlite_def split: if_splits)
  then obtain pre b e post msg at where r: "statementRanges sql SQLITE = pre @ (b, e) # post"
    "\<forall>r\<in>set pre. \<not> syntax_error_at eng sql r"
    "sqlite3_prepare eng (substr sql b (e - b)) = Some (msg, at)" "isSqliteSyntaxError msg"
    "err = \<lparr>se_message = msg, se_offset = b + (if at \<ge> 0 then nat at else 0)\<rparr>"
    using check_statements_Some by blast
  have be: "b < e" "e \<le> length sql" using statementRanges_in_text [of b e sql SQLITE] r(1) by auto
  moreover have "at \<le> int (length (substr sql b (e - b)))"
    using assms(1) r(3) by (simp add: offsets_in_statement_def)
  moreover have "length (substr sql b (e - b)) = e - b" using be by (simp add: substr_def)
  ultimately have off: "b \<le> se_offset err" "se_offset err \<le> e" using r(5) by auto
  have "syntax_error_at eng sql (b, e)" "isSqliteSyntaxError (se_message err)"
    using r(3-5) by (auto simp: syntax_error_at_def)
  then have "statementRanges sql SQLITE = pre @ (b, e) # post \<and>
    (\<forall>r\<in>set pre. \<not> syntax_error_at eng sql r) \<and> syntax_error_at eng sql (b, e) \<and>
    isSqliteSyntaxError (se_message err) \<and> b \<le> se_offset err \<and> se_offset err \<le> e \<and> e \<le> length sql"
    using r(1,2) off be(2) by simp
  then show ?thesis by blast
qed


section \<open>Properties\<close>

definition sample_engines :: "(bytes \<Rightarrow> (bytes option \<times> int) option) \<Rightarrow> (bytes \<Rightarrow> (bytes \<times> int) option) \<Rightarrow> Engines" where
  "sample_engines pg lite = \<lparr>pg_query_parse = pg, sqlite3_open = True, sqlite3_prepare = lite,
     has_duckdb = False, duckdb_parse = \<lambda>s. None\<rparr>"

text \<open>C15: SQLite text is reported exactly when one of its statements fails with a syntax error, by the
  first such statement, at an offset within it; errors of meaning are passed over. In UTF-8 text
  PostgreSQL's character position becomes the offset of the first byte of that character. Every
  reported offset of any engine lies in the text.\<close>
theorem checkSyntax_reports:
  assumes "offsets_in_statement eng" "sqlite3_open eng"
  shows "(checkSyntax eng sql SQLITE = Inr None \<longleftrightarrow>
      (\<forall>r\<in>set (statementRanges sql SQLITE). \<not> syntax_error_at eng sql r)) \<and>
    (\<forall>err. checkSyntax eng sql SQLITE = Inr (Some err) \<longrightarrow>
      (\<exists>pre b e post. statementRanges sql SQLITE = pre @ (b, e) # post \<and>
        (\<forall>r\<in>set pre. \<not> syntax_error_at eng sql r) \<and> syntax_error_at eng sql (b, e) \<and>
        isSqliteSyntaxError (se_message err) \<and> b \<le> se_offset err \<and> se_offset err \<le> e)) \<and>
    (\<forall>us message pos. sql = concat us \<and> list_all utf8_char us \<and> pg_query_parse eng (c_str sql) = Some (message, pos) \<longrightarrow>
      (\<exists>err. checkSyntax eng sql POSTGRESQL = Inr (Some err) \<and>
        se_offset err = (if pos > 0 then length (concat (take (nat (pos - 1)) us)) else 0))) \<and>
    (\<forall>ty err. checkSyntax eng sql ty = Inr (Some err) \<longrightarrow> hasSyntaxCheck eng ty \<and> se_offset err \<le> length sql)"
proof (intro conjI allI impI)
  show "checkSyntax eng sql SQLITE = Inr None \<longleftrightarrow>
      (\<forall>r\<in>set (statementRanges sql SQLITE). \<not> syntax_error_at eng sql r)"
    using assms(2) check_statements_None by (simp add: checkSyntax_def checkSqlite_def)
next
  fix err assume "checkSyntax eng sql SQLITE = Inr (Some err)"
  then have "checkSqlite eng sql = Some err" by (simp add: checkSyntax_def)
  from checkSqlite_Some [OF assms(1) this]
  show "\<exists>pre b e post. statementRanges sql SQLITE = pre @ (b, e) # post \<and>
      (\<forall>r\<in>set pre. \<not> syntax_error_at eng sql r) \<and> syntax_error_at eng sql (b, e) \<and>
      isSqliteSyntaxError (se_message err) \<and> b \<le> se_offset err \<and> se_offset err \<le> e" by blast
next
  fix us message pos
  assume "sql = concat us \<and> list_all utf8_char us \<and> pg_query_parse eng (c_str sql) = Some (message, pos)"
  then have u: "pg_query_parse eng (c_str sql) = Some (message, pos)"
    and off: "byteOffset sql k = length (concat (take k us))" for k using byteOffset_utf8 by blast+
  show "\<exists>err. checkSyntax eng sql POSTGRESQL = Inr (Some err) \<and>
      se_offset err = (if pos > 0 then length (concat (take (nat (pos - 1)) us)) else 0)"
    by (simp add: checkSyntax_def checkPostgres_def u off)
next
  fix ty err assume r: "checkSyntax eng sql ty = Inr (Some err)"
  then show "hasSyntaxCheck eng ty"
    by (cases ty) (auto simp: checkSyntax_def hasSyntaxCheck_def split: if_splits)
  have "se_offset err \<le> length sql" if "checkSqlite eng sql = Some err"
    using checkSqlite_Some [OF assms(1) that] by force
  moreover have "se_offset err \<le> length sql" if "checkPostgres eng sql = Some err"
    using that by (auto simp: checkPostgres_def byteOffset_def split: option.splits)
  moreover have "se_offset err \<le> length sql" if "checkDuckdb eng sql = Inr (Some err)"
    using that by (auto simp: checkDuckdb_def split: option.splits)
  ultimately show "se_offset err \<le> length sql"
    using r by (cases ty) (auto simp: checkSyntax_def split: if_splits)
qed

theorem checkSyntax_reports_witness:
  "checkSyntax (sample_engines (\<lambda>s. Some (None, 3)) (\<lambda>s. None)) ''SELECT 1'' SQLITE = Inr None \<and>
   (\<exists>err. checkSyntax (sample_engines (\<lambda>s. Some (None, 3)) (\<lambda>s. None)) [CHR 0xC3, CHR 0xA9, CHR ''a'', CHR ''b'']
      POSTGRESQL = Inr (Some err) \<and> se_offset err = 3)"
proof -
  let ?eng = "sample_engines (\<lambda>s. Some (None, 3)) (\<lambda>s. None)"
  let ?us = "[[CHR 0xC3, CHR 0xA9], ''a'', ''b'']"
  have eng: "offsets_in_statement ?eng" "sqlite3_open ?eng"
    by (simp_all add: sample_engines_def offsets_in_statement_def)
  have "list_all utf8_char ?us" by (simp add: utf8_char_def char_width_def byte_def)
  moreover have "concat ?us = [CHR 0xC3, CHR 0xA9, CHR ''a'', CHR ''b'']" by simp
  moreover have "length (concat (take (nat (3 - 1)) ?us)) = 3" by (simp add: eval_nat_numeral)
  moreover have "pg_query_parse ?eng s = Some (None, 3)" for s by (simp add: sample_engines_def)
  ultimately have "\<exists>err. checkSyntax ?eng [CHR 0xC3, CHR 0xA9, CHR ''a'', CHR ''b''] POSTGRESQL = Inr (Some err) \<and> se_offset err = 3"
    using checkSyntax_reports [OF eng, of "concat ?us"] by (metis zero_less_numeral)
  moreover have "checkSyntax ?eng ''SELECT 1'' SQLITE = Inr None"
    using checkSyntax_reports [OF eng, of "''SELECT 1''"] by (simp add: sample_engines_def syntax_error_at_def)
  ultimately show ?thesis by blast
qed

text \<open>A CREATE TRIGGER statement is not checked as one statement: its body is cut at the semicolons,
  so whatever SQLite says of the whole, the incomplete first piece is reported.\<close>
lemma sqlite_trigger_flagged:
  assumes "sqlite3_open eng"
    and "sqlite3_prepare eng ''CREATE TRIGGER r AFTER INSERT ON t BEGIN DELETE FROM u'' = Some (''incomplete input'', - 1)"
  shows "checkSyntax eng ''CREATE TRIGGER r AFTER INSERT ON t BEGIN DELETE FROM u; END'' SQLITE =
    Inr (Some \<lparr>se_message = ''incomplete input'', se_offset = 0\<rparr>)"
proof -
  let ?sql = "''CREATE TRIGGER r AFTER INSERT ON t BEGIN DELETE FROM u; END''"
  have ranges: "statementRanges ?sql SQLITE = [(0, 54), (56, 59)]" by code_simp
  have piece: "substr ?sql 0 54 = ''CREATE TRIGGER r AFTER INSERT ON t BEGIN DELETE FROM u''" by code_simp
  show ?thesis
    using assms piece by (simp add: checkSyntax_def checkSqlite_def ranges isSqliteSyntaxError_def)
qed

lemma sqlite_trigger_flagged_witness:
  "\<exists>eng. checkSyntax eng ''CREATE TRIGGER r AFTER INSERT ON t BEGIN DELETE FROM u; END'' SQLITE =
     Inr (Some \<lparr>se_message = ''incomplete input'', se_offset = 0\<rparr>) \<and>
   sqlite3_prepare eng ''CREATE TRIGGER r AFTER INSERT ON t BEGIN DELETE FROM u; END'' = None"
proof -
  let ?eng = "sample_engines (\<lambda>s. None)
    (\<lambda>s. if s = ''CREATE TRIGGER r AFTER INSERT ON t BEGIN DELETE FROM u'' then Some (''incomplete input'', - 1) else None)"
  have "checkSyntax ?eng ''CREATE TRIGGER r AFTER INSERT ON t BEGIN DELETE FROM u; END'' SQLITE =
      Inr (Some \<lparr>se_message = ''incomplete input'', se_offset = 0\<rparr>)"
    by (rule sqlite_trigger_flagged) (simp_all add: sample_engines_def)
  then show ?thesis by (intro exI [of _ ?eng]) (simp add: sample_engines_def)
qed

end
