(* ===== verification/Redis_Protocol.thy ===== *)
theory Redis_Protocol
  imports Catalog_Types Connection_Info "HOL-Library.AList"
begin

text \<open>
  The parts of \<^verbatim>\<open>src/redis_connection.cpp\<close> that handle text: splitting a command line into
  arguments, showing replies and previews of values, and reading the answer of INFO keyspace. A
  reply is hiredis' \<^verbatim>\<open>redisReply\<close> as a tree; \<^verbatim>\<open>str\<close> is null exactly for arrays, integers and nil. A
  \<^verbatim>\<open>const char*\<close> read as a C string ends at its first zero byte, which is what \<open>c_str\<close> cuts off.
\<close>

section \<open>The C library\<close>

text \<open>\<^verbatim>\<open>while (std::getline(stream, piece, sep))\<close>: a separator at the end leaves no empty piece.\<close>

function getlines :: "char \<Rightarrow> bytes \<Rightarrow> bytes list" where
  "getlines sep s =
     (if s = [] then []
      else takeWhile (\<lambda>c. c \<noteq> sep) s # getlines sep (drop 1 (dropWhile (\<lambda>c. c \<noteq> sep) s)))"
  by pat_completeness auto
termination
proof (relation "measure (\<lambda>(sep, s). length s)", goal_cases)
  case (2 sep s)
  have "length (dropWhile (\<lambda>c. c \<noteq> sep) s) \<le> length s" by (rule length_dropWhile_le)
  moreover have "0 < length s" using 2 by simp
  ultimately show ?case by (simp only: in_measure case_prod_conv length_drop)
qed simp

declare getlines.simps [simp del]


section \<open>Command lines\<close>

text \<open>The loop of \<^verbatim>\<open>parseRedisCommand\<close>: \<open>quote\<close> is \<open>None\<close> outside quotes.\<close>

fun parse_command :: "char option \<Rightarrow> bytes \<Rightarrow> bytes list \<Rightarrow> bytes \<Rightarrow> bytes list" where
  "parse_command quote current parts [] = (if current \<noteq> [] then parts @ [current] else parts)"
| "parse_command None current parts (c # s) =
     (if c = dquote \<or> c = squote then parse_command (Some c) current parts s
      else if isspace c
      then (if current \<noteq> [] then parse_command None [] (parts @ [current]) s
            else parse_command None current parts s)
      else parse_command None (current @ [c]) parts s)"
| "parse_command (Some q) current parts (c # s) =
     (if c = q then parse_command None current parts s
      else parse_command (Some q) (current @ [c]) parts s)"

definition parseRedisCommand :: "bytes \<Rightarrow> bytes list" where
  "parseRedisCommand command = parse_command None [] [] command"


section \<open>Replies\<close>

datatype Reply =
    RString bytes
  | RArray "Reply list"
  | RInteger int
  | RNil
  | RStatus bytes
  | RError bytes
  | RVerb bytes
  | ROther "bytes option"

fun reply_str :: "Reply \<Rightarrow> bytes option" where
  "reply_str (RString s) = Some s"
| "reply_str (RStatus s) = Some s"
| "reply_str (RError s) = Some s"
| "reply_str (RVerb s) = Some s"
| "reply_str (ROther s) = s"
| "reply_str _ = None"

fun reply_elements :: "Reply \<Rightarrow> Reply list" where
  "reply_elements (RArray rs) = rs"
| "reply_elements _ = []"

fun is_error :: "Reply \<Rightarrow> bool" where
  "is_error (RError s) = True"
| "is_error _ = False"

fun is_array :: "Reply \<Rightarrow> bool" where
  "is_array (RArray rs) = True"
| "is_array _ = False"

text \<open>\<^verbatim>\<open>(r->str ? r->str : "")\<close> put into a stream.\<close>

definition reply_text :: "Reply \<Rightarrow> bytes" where
  "reply_text r = (case reply_str r of None \<Rightarrow> [] | Some s \<Rightarrow> c_str s)"

fun format_reply :: "Reply \<Rightarrow> bytes" where
  "format_reply (RString s) = s"
| "format_reply (RArray rs) = ''['' @ join_with '', '' (map format_reply rs) @ '']''"
| "format_reply (RInteger i) = to_string i"
| "format_reply RNil = NULL_SENTINEL"
| "format_reply (RStatus s) = s"
| "format_reply (RError s) = ''ERROR: '' @ s"
| "format_reply (RVerb s) = ''UNKNOWN''"
| "format_reply (ROther s) = ''UNKNOWN''"

definition formatRedisReply :: "Reply option \<Rightarrow> bytes" where
  "formatRedisReply reply = (case reply of None \<Rightarrow> NULL_SENTINEL | Some r \<Rightarrow> format_reply r)"

definition quoted_text :: "Reply \<Rightarrow> bytes" where
  "quoted_text r = [dquote] @ reply_text r @ [dquote]"

text \<open>The members of an SSCAN or HSCAN page, or of a plain array.\<close>

definition scan_members :: "Reply \<Rightarrow> Reply" where
  "scan_members r = (case r of RArray [cursor, RArray ms] \<Rightarrow> RArray ms | _ \<Rightarrow> r)"

fun pair_up :: "'a list \<Rightarrow> ('a \<times> 'a) list" where
  "pair_up (x # y # zs) = (x, y) # pair_up zs"
| "pair_up _ = []"

definition preview_list :: "bytes \<Rightarrow> bytes \<Rightarrow> Reply list \<Rightarrow> bytes" where
  "preview_list left right rs =
     left @ join_with '', '' (map quoted_text (take 5 rs)) @ (if 5 < length rs then '', ...'' else []) @ right"

definition preview_pairs :: "bytes \<Rightarrow> bytes \<Rightarrow> (Reply \<times> Reply \<Rightarrow> bytes) \<Rightarrow> Reply list \<Rightarrow> bytes" where
  "preview_pairs left right show rs =
     left @ join_with '', '' (map show (take 5 (pair_up rs))) @ (if 10 < length rs then '', ...'' else []) @ right"

definition formatRedisPreview :: "Reply option \<Rightarrow> bytes \<Rightarrow> bytes" where
  "formatRedisPreview reply type =
     (case reply of
        None \<Rightarrow> ''[error]''
      | Some r \<Rightarrow>
          if type = ''string'' then (case r of RString s \<Rightarrow> s | _ \<Rightarrow> ''[nil]'')
          else if type = ''list'' then (case r of RArray rs \<Rightarrow> preview_list ''['' '']'' rs | _ \<Rightarrow> ''[nil]'')
          else if type = ''set''
          then (case scan_members r of RArray rs \<Rightarrow> preview_list ''{'' ''}'' rs | _ \<Rightarrow> ''[nil]'')
          else if type = ''hash''
          then (case scan_members r of
                  RArray rs \<Rightarrow> preview_pairs ''{'' ''}'' (\<lambda>(k, v). quoted_text k @ '': '' @ quoted_text v) rs
                | _ \<Rightarrow> ''[nil]'')
          else if type = ''zset''
          then (case r of
                  RArray rs \<Rightarrow> preview_pairs ''['' '']'' (\<lambda>(m, s). quoted_text m @ '':'' @ reply_text s) rs
                | _ \<Rightarrow> ''[nil]'')
          else [])"


section \<open>INFO keyspace\<close>

record RedisDbInfo =
  ki_index :: int
  ki_keys :: int
  ki_expires :: int
  ki_avgTtl :: int
  ki_hasKeys :: bool

definition empty_db_info :: "int \<Rightarrow> RedisDbInfo" where
  "empty_db_info i = \<lparr>ki_index = i, ki_keys = 0, ki_expires = 0, ki_avgTtl = 0, ki_hasKeys = False\<rparr>"

definition read_field :: "RedisDbInfo \<Rightarrow> bytes \<Rightarrow> RedisDbInfo" where
  "read_field info kv =
     (case str_find_char (CHR ''='') kv 0 of
        None \<Rightarrow> info
      | Some eq \<Rightarrow>
          let key = take eq kv; val = atoll (c_str (drop (eq + 1) kv))
          in if key = ''keys'' then info\<lparr>ki_keys := val\<rparr>
             else if key = ''expires'' then info\<lparr>ki_expires := val\<rparr>
             else if key = ''avg_ttl'' then info\<lparr>ki_avgTtl := val\<rparr>
             else info)"

text \<open>One line, such as \<^verbatim>\<open>db0:keys=1,expires=0,avg_ttl=0\<close>.\<close>

definition read_db_line :: "bytes \<Rightarrow> RedisDbInfo option" where
  "read_db_line line0 =
     (let line = (if line0 \<noteq> [] \<and> last line0 = carriage then butlast line0 else line0) in
      case str_find_char (CHR '':'') line 0 of
        None \<Rightarrow> None
      | Some colon \<Rightarrow>
          if \<not> starts_with line ''db'' then None
          else case stoi (substr line 2 (colon - 2)) of
              None \<Rightarrow> None
            | Some i \<Rightarrow> Some (foldl read_field ((empty_db_info i)\<lparr>ki_hasKeys := True\<rparr>)
                              (getlines (CHR '','') (drop (colon + 1) line))))"

text \<open>\<^verbatim>\<open>found[info.index] = info\<close>: a later line replaces an earlier one.\<close>

definition read_keyspace :: "bytes \<Rightarrow> (int \<times> RedisDbInfo) list" where
  "read_keyspace text =
     foldl (\<lambda>m i. AList.update (ki_index i) i m) [] (List.map_filter read_db_line (getlines newline text))"

definition info_count :: "bool \<Rightarrow> int \<Rightarrow> int \<Rightarrow> (int \<times> RedisDbInfo) list \<Rightarrow> int" where
  "info_count known numDatabases selectedDb found =
     (if known then numDatabases else foldl (\<lambda>n (i, _). max n (i + 1)) (selectedDb + 1) found)"

definition database_infos :: "int \<Rightarrow> (int \<times> RedisDbInfo) list \<Rightarrow> RedisDbInfo list" where
  "database_infos num found =
     map (\<lambda>i. case map_of found (int i) of Some d \<Rightarrow> d | None \<Rightarrow> empty_db_info (int i)) [0..<nat num]"


section \<open>Reading a command line back\<close>

text \<open>An argument in quotes of a kind it does not have itself.\<close>

definition quote_argument :: "bytes \<Rightarrow> bytes" where
  "quote_argument a = (let q = (if dquote \<in> set a then squote else dquote) in [q] @ a @ [q])"

lemma parse_quoted:
  "q \<notin> set a \<Longrightarrow> parse_command (Some q) current parts (a @ q # rest) = parse_command None (current @ a) parts rest"
  by (induction a arbitrary: current) auto

lemma parse_argument:
  assumes "\<not> (dquote \<in> set a \<and> squote \<in> set a)"
  shows "parse_command None [] parts (quote_argument a @ rest) = parse_command None a parts rest"
  using assms parse_quoted [of squote a "[]" parts rest] parse_quoted [of dquote a "[]" parts rest]
  by (auto simp: quote_argument_def Let_def)

lemma parse_arguments:
  "list_all (\<lambda>a. a \<noteq> [] \<and> \<not> (dquote \<in> set a \<and> squote \<in> set a)) args \<Longrightarrow>
   parse_command None [] parts (join_with '' '' (map quote_argument args)) = parts @ args"
proof (induction args arbitrary: parts rule: induct_list012)
  case (2 a)
  then show ?case using parse_argument [of a parts "[]"] by simp
next
  case (3 a b args)
  have sp: "isspace (CHR '' '')" by code_simp
  from 3 show ?case
    using parse_argument [of a parts "'' '' @ join_with '' '' (map quote_argument (b # args))"] by (simp add: sp)
qed simp

section \<open>What INFO keyspace yields\<close>

lemma read_field_keeps [simp]: "ki_index (read_field d kv) = ki_index d" "ki_hasKeys (read_field d kv) = ki_hasKeys d"
  by (auto simp: read_field_def Let_def split: option.split)

lemma foldl_read_field [simp]:
  "ki_index (foldl read_field d kvs) = ki_index d" "ki_hasKeys (foldl read_field d kvs) = ki_hasKeys d"
  by (induction kvs arbitrary: d) simp_all

lemma read_db_line_keys: "read_db_line l = Some d \<Longrightarrow> ki_hasKeys d"
  by (auto simp: read_db_line_def Let_def split: option.splits if_splits)

lemma read_keyspace_entry:
  assumes "map_of (read_keyspace text) i = Some d"
  shows "ki_index d = i \<and> ki_hasKeys d"
proof -
  let ?upd = "\<lambda>m d. AList.update (ki_index d) d m"
  have "\<forall>d\<in>set ds. ki_hasKeys d \<Longrightarrow> (\<And>i d. map_of m i = Some d \<Longrightarrow> ki_index d = i \<and> ki_hasKeys d) \<Longrightarrow>
      map_of (foldl ?upd m ds) i = Some d \<Longrightarrow> ki_index d = i \<and> ki_hasKeys d" for ds m
  proof (induction ds arbitrary: m)
    case (Cons x ds)
    have "ki_index d = i \<and> ki_hasKeys d" if "map_of (?upd m x) i = Some d" for i d
      using that Cons.prems(1,2) by (auto simp: update_conv split: if_splits)
    from Cons.IH [OF _ this] Cons.prems(1,3) show ?case by simp
  qed simp
  from this [of "List.map_filter read_db_line (getlines newline text)" "[]"] assms read_db_line_keys show ?thesis
    by (auto simp: read_keyspace_def List.map_filter_def)
qed

lemma info_count_bound:
  "\<not> known \<Longrightarrow> (i, d) \<in> set found \<Longrightarrow> i < info_count known num sel found"
proof -
  have "n \<le> foldl (\<lambda>n (i, _). max n (i + 1)) n found" for n :: int and found :: "(int \<times> RedisDbInfo) list"
  proof (induction found arbitrary: n)
    case (Cons p found)
    show ?case using Cons [of "max n (fst p + 1)"] by (simp add: split_beta)
  qed simp
  note grows = this
  have "(i, d) \<in> set found \<Longrightarrow> i + 1 \<le> foldl (\<lambda>n (i, _). max n (i + 1)) n found" for n
  proof (induction found arbitrary: n)
    case (Cons p found)
    then show ?case using grows [of "max n (i + 1)" found] by (cases p) auto
  qed simp
  from this [of "sel + 1"] show "\<not> known \<Longrightarrow> (i, d) \<in> set found \<Longrightarrow> i < info_count known num sel found"
    by (simp add: info_count_def)
qed

lemma database_infos_nth:
  assumes "i < nat num"
  shows "ki_index (database_infos num (read_keyspace text) ! i) = int i \<and>
    (ki_hasKeys (database_infos num (read_keyspace text) ! i) \<longleftrightarrow> int i \<in> fst ` set (read_keyspace text))"
proof (cases "map_of (read_keyspace text) (int i)")
  case None
  then have "int i \<notin> fst ` set (read_keyspace text)" by (simp add: map_of_eq_None_iff)
  moreover have "database_infos num (read_keyspace text) ! i = empty_db_info (int i)"
    using None assms by (simp add: database_infos_def del: map_of_eq_None_iff)
  ultimately show ?thesis by (simp add: empty_db_info_def)
next
  case (Some d)
  have "int i \<in> fst ` set (read_keyspace text)" using map_of_SomeD [OF Some] by force
  with assms Some read_keyspace_entry [OF Some] show ?thesis by (simp add: database_infos_def)
qed


section \<open>Properties\<close>

text \<open>
  The arguments of a command line are read back as given when each is put in quotes of a kind it
  does not contain itself and none is empty.
\<close>

lemma parseRedisCommand_quoted:
  assumes "list_all (\<lambda>a. a \<noteq> [] \<and> \<not> (dquote \<in> set a \<and> squote \<in> set a)) args"
  shows "parseRedisCommand (join_with '' '' (map quote_argument args)) = args"
  using parse_arguments [OF assms, of "[]"] by (simp add: parseRedisCommand_def)

lemma parseRedisCommand_quoted_witness:
  "parseRedisCommand (join_with '' '' (map quote_argument [''SET'', ''a b'', [dquote, CHR '' '']])) =
     [''SET'', ''a b'', [dquote, CHR '' '']]"
  using parseRedisCommand_quoted [of "[''SET'', ''a b'', [dquote, CHR '' '']]"] by simp

end
