(* ===== verification/Database_Api.thy ===== *)
theory Database_Api
  imports Sql_Quoting
begin

text \<open>
  The defaults of \<^verbatim>\<open>IDatabase\<close> (\<^verbatim>\<open>src/database.cpp\<close> and \<^verbatim>\<open>include/dearsql/database.hpp\<close>): data access,
  table DDL and the statements that change a database, all built by the dialect's SQL builder and
  sent through \<^verbatim>\<open>execute\<close>. A backend is a record of the virtual functions the defaults call; its
  session is a state \<open>'s\<close> that \<^verbatim>\<open>execute\<close> and \<^verbatim>\<open>describeTable\<close> pass on. A call that may throw \<^verbatim>\<open>Error\<close>
  returns \<open>Inl\<close> the message.
\<close>

section \<open>Calls\<close>

type_synonym ('s, 'a) call = "'s \<Rightarrow> (bytes + 'a) \<times> 's"
type_synonym Status = "bool \<times> bytes"

definition return_ok :: "'a \<Rightarrow> ('s, 'a) call" where
  "return_ok x s = (Inr x, s)"

definition throw :: "bytes \<Rightarrow> ('s, 'a) call" where
  "throw msg s = (Inl msg, s)"

definition and_then :: "('s, 'a) call \<Rightarrow> ('a \<Rightarrow> ('s, 'b) call) \<Rightarrow> ('s, 'b) call" where
  "and_then c f s = (case c s of (Inl e, s') \<Rightarrow> (Inl e, s') | (Inr x, s') \<Rightarrow> f x s')"

record 's Db =
  db_type :: DatabaseType
  db_schemaName :: bytes
  db_execute :: "bytes \<Rightarrow> int \<Rightarrow> 's \<Rightarrow> QueryResult \<times> 's"
  db_describeTable :: "bytes \<Rightarrow> ('s, Table) call"

abbreviation db_builder :: "'s Db \<Rightarrow> Builder" where
  "db_builder db \<equiv> createSQLBuilder (db_type db)"

record CreateDatabaseOptions =
  opt_name :: bytes
  opt_comment :: bytes
  opt_owner :: bytes
  opt_templateDb :: bytes
  opt_encoding :: bytes
  opt_tablespace :: bytes
  opt_charset :: bytes
  opt_collation :: bytes

definition toStatus :: "QueryResult \<Rightarrow> Status" where
  "toStatus r = (if qr_success r then (True, []) else (False, qr_errorMessage r))"

definition firstOrThrow :: "QueryResult \<Rightarrow> bytes + StatementResult" where
  "firstOrThrow r =
     (if \<not> qr_success r
      then Inl (if qr_errorMessage r = [] then ''query failed'' else qr_errorMessage r)
      else Inr (hd (qr_statements r)))"

text \<open>\<^verbatim>\<open>firstOrThrow(execute(sql, limit)).tableData\<close>.\<close>

definition rows :: "'s Db \<Rightarrow> int \<Rightarrow> bytes \<Rightarrow> ('s, bytes list list) call" where
  "rows db limit sql s =
     (case db_execute db sql limit s of (r, s') \<Rightarrow> (map_sum id sr_tableData (firstOrThrow r), s'))"


section \<open>Data access\<close>

definition getTableData :: "'s Db \<Rightarrow> Table \<Rightarrow> int \<Rightarrow> int \<Rightarrow> bytes \<Rightarrow> bytes \<Rightarrow> ('s, bytes list list) call" where
  "getTableData db table limit offset whereClause orderByClause =
     rows db 0 (selectAll (db_builder db) table whereClause orderByClause limit offset)"

definition getColumnNames :: "'s Db \<Rightarrow> Table \<Rightarrow> ('s, bytes list) call" where
  "getColumnNames db table =
     and_then (rows db 0 (columnNames (db_builder db) table))
       (\<lambda>data. return_ok (map hd (filter (\<lambda>row. row \<noteq> []) data)))"

definition getRowCount :: "'s Db \<Rightarrow> Table \<Rightarrow> bytes \<Rightarrow> ('s, int) call" where
  "getRowCount db table whereClause =
     and_then (rows db 1 (countRows (db_builder db) table whereClause))
       (\<lambda>data. return_ok
          (if data = [] \<or> hd data = [] then 0
           else case stoi (hd (hd data)) of None \<Rightarrow> 0 | Some n \<Rightarrow> n))"


section \<open>The DDL of a table\<close>

definition is_trim_char :: "char \<Rightarrow> bool" where
  "is_trim_char c \<longleftrightarrow> c = CHR '' '' \<or> c = tabulator \<or> c = carriage \<or> c = newline"

text \<open>One row's contribution to \<^verbatim>\<open>joined\<close>: its cell, trimmed; short rows, nulls and blank cells have none.\<close>

definition joined_cell :: "nat \<Rightarrow> bytes list \<Rightarrow> bytes option" where
  "joined_cell col r =
     (if length r \<le> col \<or> isNullSentinel (r ! col) then None
      else let t = rev (dropWhile is_trim_char (rev (dropWhile is_trim_char (r ! col))))
           in if t = [] then None else Some t)"

definition joined :: "bytes list list \<Rightarrow> nat \<Rightarrow> bytes \<Rightarrow> bytes" where
  "joined data col sep = join_nonempty sep [] (List.map_filter (joined_cell col) data)"

text \<open>The regular expression \<^verbatim>\<open>^nextval\('[^']+'::regclass\)$\<close> on a whole text.\<close>

definition is_serial_default :: "bytes \<Rightarrow> bool" where
  "is_serial_default s =
     (let pre = ''nextval('' @ [squote]; post = [squote] @ ''::regclass)''
      in starts_with s pre \<and> ends_with s post \<and> length pre + length post < length s \<and>
         squote \<notin> set (substr s (length pre) (length s - length pre - length post)))"

definition pg_head_query :: "bytes \<Rightarrow> bytes" where
  "pg_head_query rel =
     ''SELECT quote_ident(n.nspname) || '.' || quote_ident(c.relname), c.relpersistence, COALESCE(pg_get_partkeydef(c.oid), '' @
     [squote, squote] @ ''), COALESCE(obj_description(c.oid, 'pg_class'), '' @ [squote, squote] @
     '') FROM pg_class c JOIN pg_namespace n ON n.oid = c.relnamespace WHERE c.oid = '' @
     rel"

definition pg_column_query :: "bytes \<Rightarrow> bytes" where
  "pg_column_query rel =
     ''SELECT quote_ident(a.attname), format_type(a.atttypid, a.atttypmod), a.attnotnull::text, COALESCE(pg_get_expr(d.adbin, '' @
     ''d.adrelid), '' @ [squote, squote] @ ''), COALESCE(to_jsonb(a)->>'attidentity', '' @
     [squote, squote] @ ''), COALESCE(to_jsonb(a)->>'attgenerated', '' @ [squote, squote] @
     ''), COALESCE(col_description(a.attrelid, a.attnum), '' @ [squote, squote] @
     '') FROM pg_attribute a LEFT JOIN pg_attrdef d   ON d.adrelid = a.attrelid AND d.adnum = a.attnum '' @
     ''WHERE a.attrelid = '' @
     rel @
     '' AND a.attnum > 0 AND NOT a.attisdropped ORDER BY a.attnum''"

definition pg_constraint_query :: "bytes \<Rightarrow> bytes" where
  "pg_constraint_query rel =
     ''SELECT quote_ident(conname), pg_get_constraintdef(oid, true) FROM pg_constraint WHERE conrelid '' @
     ''= '' @
     rel @
     '' AND contype IN ('p', 'u', 'c', 'x', 'f') ORDER BY CASE contype WHEN 'p' THEN 0 WHEN 'u' THEN '' @
     ''1 WHEN 'c' THEN 2 WHEN 'x' THEN 3 ELSE 4 END, conname''"

definition pg_index_query :: "bytes \<Rightarrow> bytes" where
  "pg_index_query rel =
     ''SELECT pg_get_indexdef(i.indexrelid) || ';' FROM pg_index i WHERE i.indrelid = '' @
     rel @
     '' AND NOT EXISTS (SELECT 1 FROM pg_constraint c   WHERE c.conindid = i.indexrelid AND c.conrelid '' @
     ''= i.indrelid) ORDER BY 1''"

text \<open>The type and the clause after it of one column row, and the column's line.\<close>

definition pg_type_extra :: "bytes list \<Rightarrow> bytes \<times> bytes" where
  "pg_type_extra c =
     (let ty = c ! 1 in
      if c ! 5 = ''s'' \<or> c ! 5 = ''v''
      then (ty, '' GENERATED ALWAYS AS ('' @ c ! 3 @ '') '' @ (if c ! 5 = ''s'' then ''STORED'' else ''VIRTUAL''))
      else if c ! 4 = ''a'' \<or> c ! 4 = ''d''
      then (ty, if c ! 4 = ''a'' then '' GENERATED ALWAYS AS IDENTITY'' else '' GENERATED BY DEFAULT AS IDENTITY'')
      else if is_serial_default (c ! 3) \<and> (ty = ''integer'' \<or> ty = ''bigint'' \<or> ty = ''smallint'')
      then (if ty = ''integer'' then ''serial'' else if ty = ''bigint'' then ''bigserial'' else ''smallserial'', [])
      else if c ! 3 \<noteq> [] then (ty, '' DEFAULT '' @ c ! 3)
      else (ty, []))"

definition pg_column_line :: "bytes list \<Rightarrow> bytes" where
  "pg_column_line c =
     (case pg_type_extra c of (ty, extra) \<Rightarrow>
        c ! 0 @ '' '' @ ty @ extra @ (if c ! 2 = ''true'' then '' NOT NULL'' else []))"

definition pg_column_comment :: "bytes \<Rightarrow> bytes list \<Rightarrow> bytes option" where
  "pg_column_comment name c =
     (if c ! 6 = [] then None
      else Some (''COMMENT ON COLUMN '' @ name @ ''.'' @ c ! 0 @ '' IS '' @ sql_literal (c ! 6) @ '';''))"

text \<open>The statement once the catalog rows are there: \<open>h\<close> is \<^verbatim>\<open>head[0]\<close>.\<close>

definition pg_create_text :: "bytes list \<Rightarrow> bytes list \<Rightarrow> bytes" where
  "pg_create_text h lines =
     ''CREATE '' @ (if h ! 1 = ''u'' then ''UNLOGGED '' else []) @ ''TABLE '' @ h ! 0 @ '' ('' @ [newline] @
     concat (map (\<lambda>i. ''    '' @ lines ! i @ (if i + 1 < length lines then '','' else []) @ [newline]) [0..<length lines]) @
     '')'' @ (if h ! 2 \<noteq> [] then '' PARTITION BY '' @ h ! 2 else []) @ '';''"

definition pg_ddl_text :: "bytes list \<Rightarrow> bytes list list \<Rightarrow> bytes list list \<Rightarrow> bytes list list \<Rightarrow> bytes" where
  "pg_ddl_text h cols cons idx =
     (let full = filter (\<lambda>c. 7 \<le> length c) cols;
          lines = map pg_column_line full @
            map (\<lambda>c. ''CONSTRAINT '' @ c ! 0 @ '' '' @ c ! 1) (filter (\<lambda>c. 2 \<le> length c) cons);
          comments = List.map_filter (pg_column_comment (h ! 0)) full;
          indexes = joined idx 0 [newline]
      in pg_create_text h lines @ (if indexes \<noteq> [] then newline # indexes else []) @
         (if h ! 3 \<noteq> [] then newline # ''COMMENT ON TABLE '' @ h ! 0 @ '' IS '' @ sql_literal (h ! 3) @ '';'' else []) @
         concat (map (Cons newline) comments))"

definition postgresTableDdl :: "bytes \<Rightarrow> (bytes \<Rightarrow> ('s, bytes list list) call) \<Rightarrow> ('s, bytes) call" where
  "postgresTableDdl qualified ask =
     (let rel = sql_literal qualified @ ''::regclass'' in
      and_then (ask (pg_head_query rel)) (\<lambda>head.
        if head = [] \<or> length (hd head) < 4 then throw (''table not found: '' @ qualified)
        else and_then (ask (pg_column_query rel)) (\<lambda>cols.
          and_then (ask (pg_constraint_query rel)) (\<lambda>cons.
          and_then (ask (pg_index_query rel)) (\<lambda>idx.
            return_ok (pg_ddl_text (hd head) cols cons idx))))))"

definition non_empty :: "bytes \<Rightarrow> bytes \<Rightarrow> ('s, bytes) call" where
  "non_empty tableName ddl = (if ddl = [] then throw (''table not found: '' @ tableName) else return_ok ddl)"

definition with_indexes :: "bytes \<Rightarrow> bytes \<Rightarrow> bytes" where
  "with_indexes ddl indexes = (if indexes = [] then ddl else ddl @ [newline] @ indexes)"

definition sqlite_ddl_query :: "bytes \<Rightarrow> bytes" where
  "sqlite_ddl_query tableName =
     ''SELECT sql || ';' FROM sqlite_master WHERE tbl_name = '' @
     sql_literal tableName @
     '' AND sql IS NOT NULL AND type IN ('table', 'index') ORDER BY type = 'index', name''"

definition duckdb_where :: "bytes \<Rightarrow> bytes \<Rightarrow> bytes" where
  "duckdb_where schema tableName =
     ''database_name = current_database() AND schema_name = '' @
     (if schema = [] then ''current_schema()'' else sql_literal schema) @ '' AND table_name = '' @ sql_literal tableName"

definition oracle_setup :: bytes where
  "oracle_setup =
     ''BEGIN DBMS_METADATA.SET_TRANSFORM_PARAM(DBMS_METADATA.SESSION_TRANSFORM, 'SEGMENT_ATTRIBUTES', '' @
     ''FALSE); DBMS_METADATA.SET_TRANSFORM_PARAM(DBMS_METADATA.SESSION_TRANSFORM, 'SQLTERMINATOR', '' @
     ''TRUE); END;''"

definition oracle_index_query :: "bytes \<Rightarrow> bytes \<Rightarrow> bytes" where
  "oracle_index_query tableName owner =
     ''SELECT DBMS_METADATA.GET_DDL('INDEX', i.index_name, i.owner) FROM all_indexes i WHERE i.table_name '' @
     ''= '' @
     sql_literal tableName @ '' AND i.table_owner = '' @ owner @
     '' AND i.index_type <> 'LOB' AND NOT EXISTS (SELECT 1 FROM all_constraints c WHERE c.owner = i.table_owner '' @
     ''AND c.index_name = i.index_name) ORDER BY i.index_name''"

definition execute_ignored :: "'s Db \<Rightarrow> bytes \<Rightarrow> ('s, unit) call" where
  "execute_ignored db sql s = (case db_execute db sql 0 s of (r, s') \<Rightarrow> (Inr (), s'))"

definition db_tableDdl :: "'s Db \<Rightarrow> bytes \<Rightarrow> ('s, bytes) call" where
  "db_tableDdl db tableName =
     (let schema = db_schemaName db; ty = db_type db;
          qualified = qualifiedRef (db_builder db) schema tableName
      in if ty = POSTGRESQL then postgresTableDdl qualified (rows db 0)
         else if ty = REDSHIFT
         then and_then (rows db 0 (''SHOW TABLE '' @ qualified)) (\<lambda>r. non_empty tableName (joined r 0 [newline]))
         else if ty = MYSQL \<or> ty = MARIADB \<or> ty = TIDB \<or> ty = COCKROACHDB
         then and_then (rows db 0 (''SHOW CREATE TABLE '' @ qualified)) (\<lambda>r.
                and_then (non_empty tableName (joined r 1 [])) (\<lambda>ddl.
                  return_ok (if ends_with ddl '';'' then ddl else ddl @ '';'')))
         else if ty = SQLITE
         then and_then (rows db 0 (sqlite_ddl_query tableName)) (\<lambda>r. non_empty tableName (joined r 0 [newline]))
         else if ty = DUCKDB
         then and_then (rows db 0 (''SELECT sql FROM duckdb_tables() WHERE '' @ duckdb_where schema tableName)) (\<lambda>r.
                and_then (non_empty tableName (joined r 0 [])) (\<lambda>ddl.
                and_then (rows db 0 (''SELECT sql FROM duckdb_indexes() WHERE sql IS NOT NULL AND '' @
                    duckdb_where schema tableName)) (\<lambda>i.
                  return_ok (with_indexes ddl (joined i 0 [newline])))))
         else if ty = ORACLE
         then let owner = (if schema = [] then ''USER'' else sql_literal schema) in
              and_then (execute_ignored db oracle_setup) (\<lambda>_.
              and_then (rows db 0 (''SELECT DBMS_METADATA.GET_DDL('' @ sql_literal ''TABLE'' @ '', '' @
                  sql_literal tableName @ '', '' @ owner @ '') FROM dual'')) (\<lambda>r.
              and_then (non_empty tableName (joined r 0 [])) (\<lambda>ddl.
              and_then (rows db 0 (oracle_index_query tableName owner)) (\<lambda>i.
                return_ok (with_indexes ddl (joined i 0 [newline]))))))
         else if ty = MONGODB \<or> ty = REDIS then throw ''no table DDL for this database type''
         else and_then (db_describeTable db tableName) (\<lambda>table.
                if tbl_columns table = [] then throw (''table not found: '' @ tableName)
                else return_ok (tableDdl (db_builder db) table schema)))"


section \<open>Changes\<close>

definition run_statement :: "'s Db \<Rightarrow> bytes \<Rightarrow> 's \<Rightarrow> Status \<times> 's" where
  "run_statement db sql s = (case db_execute db sql 0 s of (r, s') \<Rightarrow> (toStatus r, s'))"

definition db_createTable :: "'s Db \<Rightarrow> Table \<Rightarrow> 's \<Rightarrow> Status \<times> 's" where
  "db_createTable db table =
     (let schema = (if tbl_schema table = [] then db_schemaName db else tbl_schema table)
      in run_statement db (createTable (db_builder db) table schema))"

definition db_renameTable :: "'s Db \<Rightarrow> bytes \<Rightarrow> bytes \<Rightarrow> 's \<Rightarrow> Status \<times> 's" where
  "db_renameTable db oldName newName =
     run_statement db (renameTable (db_builder db) (db_schemaName db) oldName newName)"

definition db_dropTable :: "'s Db \<Rightarrow> bytes \<Rightarrow> 's \<Rightarrow> Status \<times> 's" where
  "db_dropTable db tableName = run_statement db (dropTable (db_builder db) (db_schemaName db) tableName)"

definition db_truncateTable :: "'s Db \<Rightarrow> bytes \<Rightarrow> 's \<Rightarrow> Status \<times> 's" where
  "db_truncateTable db tableName = run_statement db (truncateTable (db_builder db) (db_schemaName db) tableName)"

definition db_dropColumn :: "'s Db \<Rightarrow> bytes \<Rightarrow> bytes \<Rightarrow> 's \<Rightarrow> Status \<times> 's" where
  "db_dropColumn db tableName columnName =
     (let t = default_table\<lparr>tbl_name := tableName, tbl_schema := db_schemaName db\<rparr>
      in run_statement db (dropColumn (db_builder db) (qualifiedName (db_builder db) t) columnName))"

definition db_dropView :: "'s Db \<Rightarrow> bytes \<Rightarrow> bool \<Rightarrow> 's \<Rightarrow> Status \<times> 's" where
  "db_dropView db viewName isMaterialized =
     (let t = default_table\<lparr>tbl_name := viewName, tbl_schema := db_schemaName db\<rparr>
      in run_statement db ((if isMaterialized then ''DROP MATERIALIZED VIEW '' else ''DROP VIEW '') @
           qualifiedName (db_builder db) t))"

definition no_sql :: "'s Db \<Rightarrow> bool" where
  "no_sql db \<longleftrightarrow> db_type db = MONGODB \<or> db_type db = REDIS"

definition refuse :: "bytes \<Rightarrow> 's \<Rightarrow> Status \<times> 's" where
  "refuse what s = ((False, what), s)"

definition run_supported :: "'s Db \<Rightarrow> bytes \<Rightarrow> bytes \<Rightarrow> 's \<Rightarrow> Status \<times> 's" where
  "run_supported db what sql =
     (if sql = [] then refuse (what @ '' not supported for this database'') else run_statement db sql)"

definition db_addColumn :: "'s Db \<Rightarrow> Table \<Rightarrow> Column \<Rightarrow> 's \<Rightarrow> Status \<times> 's" where
  "db_addColumn db table column =
     (if no_sql db then refuse ''addColumn not supported for this database''
      else run_supported db ''addColumn'' (addColumn (db_builder db) (qualifiedName (db_builder db) table) column))"

definition db_renameColumn :: "'s Db \<Rightarrow> Table \<Rightarrow> bytes \<Rightarrow> bytes \<Rightarrow> 's \<Rightarrow> Status \<times> 's" where
  "db_renameColumn db table oldColumnName newColumnName =
     (if no_sql db then refuse ''renameColumn not supported for this database''
      else run_supported db ''renameColumn''
        (renameColumn (db_builder db) (qualifiedName (db_builder db) table) oldColumnName newColumnName))"

definition db_alterColumn :: "'s Db \<Rightarrow> Table \<Rightarrow> bytes \<Rightarrow> Column \<Rightarrow> 's \<Rightarrow> Status \<times> 's" where
  "db_alterColumn db table oldColumnName newColumn =
     (if no_sql db then refuse ''alterColumn not supported for this database''
      else run_supported db ''alterColumn''
        (alterColumn (db_builder db) (qualifiedName (db_builder db) table) oldColumnName newColumn))"

definition db_insertRow :: "'s Db \<Rightarrow> Table \<Rightarrow> bytes list \<Rightarrow> bytes list \<Rightarrow> 's \<Rightarrow> Status \<times> 's" where
  "db_insertRow db table names valueLiterals =
     (if no_sql db then refuse ''insertRow not supported for this database''
      else run_statement db (insertRow (db_builder db) (qualifiedName (db_builder db) table) names valueLiterals))"

definition db_updateRow :: "'s Db \<Rightarrow> Table \<Rightarrow> (bytes \<times> bytes) list \<Rightarrow> bytes \<Rightarrow> 's \<Rightarrow> Status \<times> 's" where
  "db_updateRow db table assignments whereExpr =
     (if no_sql db then refuse ''updateRow not supported for this database''
      else if whereExpr = [] then refuse ''updateRow requires a WHERE expression''
      else run_statement db (updateRow (db_builder db) (qualifiedName (db_builder db) table) assignments whereExpr))"

definition db_deleteRow :: "'s Db \<Rightarrow> Table \<Rightarrow> bytes \<Rightarrow> 's \<Rightarrow> Status \<times> 's" where
  "db_deleteRow db table whereExpr =
     (if no_sql db then refuse ''deleteRow not supported for this database''
      else if whereExpr = [] then refuse ''deleteRow requires a WHERE expression''
      else run_statement db (deleteRow (db_builder db) (qualifiedName (db_builder db) table) whereExpr))"

text \<open>What a backend that overrides none of them answers.\<close>

definition db_renameSchema :: "'s Db \<Rightarrow> bytes \<Rightarrow> 's \<Rightarrow> Status \<times> 's" where
  "db_renameSchema db newName = refuse ''renameSchema not supported for this database''"

definition db_dropSchema :: "'s Db \<Rightarrow> 's \<Rightarrow> Status \<times> 's" where
  "db_dropSchema db = refuse ''dropSchema not supported for this database''"


section \<open>The changes as data\<close>

datatype Change =
    CreateTable Table
  | RenameTable bytes bytes
  | DropTable bytes
  | TruncateTable bytes
  | DropColumn bytes bytes
  | DropView bytes bool
  | AddColumn Table Column
  | RenameColumn Table bytes bytes
  | AlterColumn Table bytes Column
  | InsertRow Table "bytes list" "bytes list"
  | UpdateRow Table "(bytes \<times> bytes) list" bytes
  | DeleteRow Table bytes

fun perform :: "'s Db \<Rightarrow> Change \<Rightarrow> 's \<Rightarrow> Status \<times> 's" where
  "perform db (CreateTable t) = db_createTable db t"
| "perform db (RenameTable a b) = db_renameTable db a b"
| "perform db (DropTable n) = db_dropTable db n"
| "perform db (TruncateTable n) = db_truncateTable db n"
| "perform db (DropColumn n c) = db_dropColumn db n c"
| "perform db (DropView n m) = db_dropView db n m"
| "perform db (AddColumn t c) = db_addColumn db t c"
| "perform db (RenameColumn t a b) = db_renameColumn db t a b"
| "perform db (AlterColumn t a c) = db_alterColumn db t a c"
| "perform db (InsertRow t cs vs) = db_insertRow db t cs vs"
| "perform db (UpdateRow t ss w) = db_updateRow db t ss w"
| "perform db (DeleteRow t w) = db_deleteRow db t w"

fun run_changes :: "'s Db \<Rightarrow> Change list \<Rightarrow> 's \<Rightarrow> Status list \<times> 's" where
  "run_changes db [] s = ([], s)"
| "run_changes db (c # cs) s =
     (case perform db c s of (st, s1) \<Rightarrow> (case run_changes db cs s1 of (sts, s2) \<Rightarrow> (st # sts, s2)))"

text \<open>
  What a change promises to send: nothing when the kind of database has no SQL, when a row change
  has no condition or when the dialect has no statement for it, else one statement.
\<close>

definition unless_empty :: "bytes \<Rightarrow> bytes option" where
  "unless_empty sql = (if sql = [] then None else Some sql)"

fun sql_only :: "Change \<Rightarrow> bool" where
  "sql_only (AddColumn t c) = True"
| "sql_only (RenameColumn t a b) = True"
| "sql_only (AlterColumn t a c) = True"
| "sql_only (InsertRow t cs vs) = True"
| "sql_only (UpdateRow t ss w) = True"
| "sql_only (DeleteRow t w) = True"
| "sql_only c = False"

fun dialect_statement :: "Builder \<Rightarrow> bytes \<Rightarrow> Change \<Rightarrow> bytes option" where
  "dialect_statement b sch (CreateTable t) =
     Some (createTable b t (if tbl_schema t = [] then sch else tbl_schema t))"
| "dialect_statement b sch (RenameTable x y) = Some (renameTable b sch x y)"
| "dialect_statement b sch (DropTable n) = Some (dropTable b sch n)"
| "dialect_statement b sch (TruncateTable n) = Some (truncateTable b sch n)"
| "dialect_statement b sch (DropColumn n c) = Some (dropColumn b (qualifiedRef b sch n) c)"
| "dialect_statement b sch (DropView n m) =
     Some ((if m then ''DROP MATERIALIZED VIEW '' else ''DROP VIEW '') @ qualifiedRef b sch n)"
| "dialect_statement b sch (AddColumn t c) = unless_empty (addColumn b (qualifiedName b t) c)"
| "dialect_statement b sch (RenameColumn t x y) = unless_empty (renameColumn b (qualifiedName b t) x y)"
| "dialect_statement b sch (AlterColumn t x c) = unless_empty (alterColumn b (qualifiedName b t) x c)"
| "dialect_statement b sch (InsertRow t cs vs) = Some (insertRow b (qualifiedName b t) cs vs)"
| "dialect_statement b sch (UpdateRow t ss w) =
     (if w = [] then None else Some (updateRow b (qualifiedName b t) ss w))"
| "dialect_statement b sch (DeleteRow t w) =
     (if w = [] then None else Some (deleteRow b (qualifiedName b t) w))"

definition change_statement :: "DatabaseType \<Rightarrow> bytes \<Rightarrow> Change \<Rightarrow> bytes option" where
  "change_statement ty sch c =
     (if sql_only c \<and> (ty = MONGODB \<or> ty = REDIS) then None
      else dialect_statement (createSQLBuilder ty) sch c)"

lemmas change_defs = db_createTable_def db_renameTable_def db_dropTable_def db_truncateTable_def
  db_dropColumn_def db_dropView_def db_addColumn_def db_renameColumn_def db_alterColumn_def
  db_insertRow_def db_updateRow_def db_deleteRow_def no_sql_def run_supported_def

lemma qualifiedName_ref: "qualifiedName b (t\<lparr>tbl_name := n, tbl_schema := sch\<rparr>) = qualifiedRef b sch n"
  by (simp add: qualifiedName_def qualifiedRef_def)

text \<open>Every change is the statement it promises, or a refusal that leaves the session alone.\<close>

lemma perform_statement:
  "case change_statement (db_type db) (db_schemaName db) c of
     None \<Rightarrow> \<exists>msg. msg \<noteq> [] \<and> perform db c s = ((False, msg), s)
   | Some sql \<Rightarrow> perform db c s = run_statement db sql s"
  by (cases c) (auto simp: change_statement_def change_defs refuse_def unless_empty_def qualifiedName_ref Let_def)


section \<open>Sessions that remember what was sent\<close>

locale session_log =
  fixes db :: "'s Db" and log :: "'s \<Rightarrow> bytes list"
  assumes execute_logs: "log (snd (db_execute db sql limit s)) = log s @ [sql]"
begin

lemma run_statement_log: "log (snd (run_statement db sql s)) = log s @ [sql]"
  using execute_logs [of sql 0 s] by (auto simp: run_statement_def split: prod.splits)

lemma perform_log:
  "log (snd (perform db c s)) =
     log s @ (case change_statement (db_type db) (db_schemaName db) c of None \<Rightarrow> [] | Some sql \<Rightarrow> [sql])"
  using perform_statement [of db c s] run_statement_log by (auto split: option.splits)

lemma perform_success:
  "fst (fst (perform db c s)) \<Longrightarrow> \<exists>sql. change_statement (db_type db) (db_schemaName db) c = Some sql \<and>
     qr_success (fst (db_execute db sql 0 s))"
  using perform_statement [of db c s]
  by (auto simp: run_statement_def toStatus_def split: option.splits prod.splits if_splits)

lemma run_changes_log:
  "log (snd (run_changes db cs s)) =
     log s @ List.map_filter (change_statement (db_type db) (db_schemaName db)) cs"
proof (induction cs arbitrary: s)
  case (Cons c cs)
  show ?case
    using Cons [of "snd (perform db c s)"] perform_log [of c s]
    by (auto simp: map_filter_simps split: prod.splits option.splits)
qed (simp add: map_filter_simps)

lemma run_changes_statuses:
  "length (fst (run_changes db cs s)) = length cs \<and>
   (\<forall>i<length cs. fst (fst (run_changes db cs s) ! i) \<longrightarrow>
      change_statement (db_type db) (db_schemaName db) (cs ! i) \<noteq> None)"
proof (induction cs arbitrary: s)
  case (Cons c cs)
  obtain st s1 where p: "perform db c s = (st, s1)" by fastforce
  obtain sts s2 where r: "run_changes db cs s1 = (sts, s2)" by fastforce
  have "fst st \<Longrightarrow> change_statement (db_type db) (db_schemaName db) c \<noteq> None"
    using perform_success [of c s] p by auto
  then show ?case using Cons [of s1] p r by (auto simp: nth_Cons split: nat.split)
qed simp

end

text \<open>Any backend, with the statements its session is sent written down beside the session.\<close>

definition recorded :: "'s Db \<Rightarrow> ('s \<times> bytes list) Db" where
  "recorded db =
     \<lparr>db_type = db_type db, db_schemaName = db_schemaName db,
      db_execute = (\<lambda>sql limit (s, sent). case db_execute db sql limit s of (r, s') \<Rightarrow> (r, (s', sent @ [sql]))),
      db_describeTable = (\<lambda>n (s, sent). case db_describeTable db n s of (r, s') \<Rightarrow> (r, (s', sent)))\<rparr>"

interpretation rec_log: session_log "recorded db" snd for db :: "'s Db"
  by unfold_locales (simp add: recorded_def split: prod.splits)

lemma recorded_sel [simp]: "db_type (recorded db) = db_type db" "db_schemaName (recorded db) = db_schemaName db"
  by (simp_all add: recorded_def)

section \<open>Properties\<close>

lemma statement_where:
  "change_statement ty sch (UpdateRow t ss w) = Some sql \<Longrightarrow> w \<noteq> [] \<and> ends_with sql ('' WHERE '' @ w)"
  "change_statement ty sch (DeleteRow t w) = Some sql \<Longrightarrow> w \<noteq> [] \<and> ends_with sql ('' WHERE '' @ w)"
proof -
  have tail: "ends_with (pre @ '' WHERE '' @ w) ('' WHERE '' @ w)" for pre
    unfolding ends_with_append by blast
  show "change_statement ty sch (UpdateRow t ss w) = Some sql \<Longrightarrow> w \<noteq> [] \<and> ends_with sql ('' WHERE '' @ w)"
    using tail [of "''UPDATE '' @ qualifiedName (createSQLBuilder ty) t @ '' SET '' @
        join_with '', '' (map (\<lambda>(c, v). quoteIdentifier (createSQLBuilder ty) c @ '' = '' @ v) ss)"]
    by (auto simp: change_statement_def updateRow_def split: if_splits)
  show "change_statement ty sch (DeleteRow t w) = Some sql \<Longrightarrow> w \<noteq> [] \<and> ends_with sql ('' WHERE '' @ w)"
    using tail [of "''DELETE FROM '' @ qualifiedName (createSQLBuilder ty) t"]
    by (auto simp: change_statement_def deleteRow_def split: if_splits)
qed

text \<open>
  C10: whatever sequence of changes is made through the default implementations, on any backend and
  from any session, the server is sent exactly the statements the changes promise: one for each
  change that is not refused, in order, and none for a refused one. A change is reported as done
  only if it sent a statement; and an UPDATE or DELETE is never sent without a condition.
\<close>

theorem changes_send_their_statements:
  "case run_changes (recorded db) cs (s, []) of (statuses, s', sent) \<Rightarrow>
     sent = List.map_filter (change_statement (db_type db) (db_schemaName db)) cs \<and>
     length statuses = length cs \<and>
     (\<forall>i<length cs. fst (statuses ! i) \<longrightarrow>
        (\<exists>sql. change_statement (db_type db) (db_schemaName db) (cs ! i) = Some sql \<and>
           (\<forall>t ss w. cs ! i = UpdateRow t ss w \<or> cs ! i = DeleteRow t w \<longrightarrow>
              w \<noteq> [] \<and> ends_with sql ('' WHERE '' @ w))))"
proof -
  obtain sts s' sent where r: "run_changes (recorded db) cs (s, []) = (sts, s', sent)"
    by (metis prod.exhaust)
  have "sent = List.map_filter (change_statement (db_type db) (db_schemaName db)) cs"
    using rec_log.run_changes_log [of db cs "(s, [])"] r by simp
  moreover have "length sts = length cs"
    "\<And>i. i < length cs \<Longrightarrow> fst (sts ! i) \<Longrightarrow> change_statement (db_type db) (db_schemaName db) (cs ! i) \<noteq> None"
    using rec_log.run_changes_statuses [of db cs "(s, [])"] r by auto
  ultimately show ?thesis using r statement_where by fastforce
qed


definition accepting :: "DatabaseType \<Rightarrow> bytes \<Rightarrow> bytes list list \<Rightarrow> unit Db" where
  "accepting ty sch data =
     \<lparr>db_type = ty, db_schemaName = sch,
      db_execute = (\<lambda>sql limit s. (\<lparr>qr_statements = [default_statement\<lparr>sr_tableData := data\<rparr>], qr_messages = []\<rparr>, s)),
      db_describeTable = (\<lambda>n s. (Inr (default_table\<lparr>tbl_name := n\<rparr>), s))\<rparr>"

theorem changes_send_their_statements_witness:
  "fst (run_changes (recorded (accepting SQLITE [] [])) [DropTable ''t'', DeleteRow default_table []] ((), [])) ! 0 = (True, []) \<and>
   (\<exists>sql. change_statement SQLITE [] (DropTable ''t'') = Some sql)"
proof -
  let ?r = "run_changes (recorded (accepting SQLITE [] [])) [DropTable ''t'', DeleteRow default_table []] ((), [])"
  have first: "fst ?r ! 0 = (True, [])" by code_simp
  obtain sts s' sent where r: "?r = (sts, s', sent)" by (metis prod.exhaust)
  have "fst (sts ! 0)" using first r by simp
  with changes_send_their_statements [of "accepting SQLITE [] []" "[DropTable ''t'', DeleteRow default_table []]" "()"] r
  have "\<exists>sql. change_statement SQLITE [] (DropTable ''t'') = Some sql"
    by (fastforce simp: accepting_def)
  with first show ?thesis by blast
qed

text \<open>Changes made of names only, and the names in the order their statements mention them.\<close>

fun named_only :: "DatabaseType \<Rightarrow> Change \<Rightarrow> bool" where
  "named_only ty (RenameTable x y) = (ty \<noteq> MSSQL)"
| "named_only ty (RenameColumn t x y) = (ty \<noteq> MSSQL)"
| "named_only ty (DropTable n) = True"
| "named_only ty (TruncateTable n) = True"
| "named_only ty (DropColumn n c) = True"
| "named_only ty (DropView n m) = True"
| "named_only ty c = False"

definition path_names :: "bytes \<Rightarrow> bytes \<Rightarrow> bytes list" where
  "path_names sch n = (if sch = [] then [n] else [sch, n])"

fun change_names :: "bytes \<Rightarrow> Change \<Rightarrow> bytes list" where
  "change_names sch (RenameTable x y) = path_names sch x @ [y]"
| "change_names sch (RenameColumn t x y) = path_names (tbl_schema t) (tbl_name t) @ [x, y]"
| "change_names sch (DropTable n) = path_names sch n"
| "change_names sch (TruncateTable n) = path_names sch n"
| "change_names sch (DropColumn n c) = path_names sch n @ [c]"
| "change_names sch (DropView n m) = path_names sch n"
| "change_names sch c = []"

definition quoted_names :: "(Tok \<times> bytes) list \<Rightarrow> bytes list" where
  "quoted_names ls = map snd (filter (\<lambda>l. fst l = TQuotedIdent) ls)"

definition plain_lexemes :: "(Tok \<times> bytes) list \<Rightarrow> bool" where
  "plain_lexemes ls \<longleftrightarrow> list_all (\<lambda>l. fst l = TQuotedIdent \<or> fst l = TWord \<or> l = (TPunct, ''.'')) ls"

lemma lexeme_shape [simp]:
  "quoted_names [] = []" "quoted_names (ls @ ms) = quoted_names ls @ quoted_names ms"
  "quoted_names ((TQuotedIdent, n) # ls) = n # quoted_names ls"
  "quoted_names (keyword_lexemes ws) = []" "quoted_names (name_lexemes sch n) = path_names sch n"
  "plain_lexemes []" "plain_lexemes (ls @ ms) \<longleftrightarrow> plain_lexemes ls \<and> plain_lexemes ms"
  "plain_lexemes ((TQuotedIdent, n) # ls) \<longleftrightarrow> plain_lexemes ls"
  "plain_lexemes (keyword_lexemes ws)" "plain_lexemes (name_lexemes sch n)"
  by (auto simp: quoted_names_def plain_lexemes_def keyword_lexemes_def name_lexemes_def path_names_def
      list_all_iff filter_map comp_def)

lemma dropView_reads:
  "reads_as ty ((if m then ''DROP MATERIALIZED VIEW '' else ''DROP VIEW '') @ qualifiedRef (createSQLBuilder ty) sch n)
     (keyword_lexemes (if m then [''DROP'', ''MATERIALIZED'', ''VIEW''] else [''DROP'', ''VIEW'']) @ name_lexemes sch n)"
proof -
  have w: "word_ok ''MATERIALIZED''" "word_ok ''VIEW''" by code_simp+
  show ?thesis
    by (rule statement_reads_as [where gs = "map (\<lambda>w. [FWord w])
        (if m then [''DROP'', ''MATERIALIZED'', ''VIEW''] else [''DROP'', ''VIEW'']) @ [name_frags sch n]"])
      (use words_ok w in \<open>simp_all add: statement_simps\<close>)
qed

lemma named_statement_reads:
  assumes "change_statement ty sch c = Some sql" "named_only ty c"
  obtains ls where "reads_as ty sql ls" "quoted_names ls = change_names sch c" "plain_lexemes ls"
proof -
  let ?b = "createSQLBuilder ty"
  have "\<exists>ls. reads_as ty sql ls \<and> quoted_names ls = change_names sch c \<and> plain_lexemes ls"
  proof (cases c)
    case (RenameTable x y)
    then show ?thesis using assms renameTable_reads [of ty sch x y]
      by (intro exI conjI) (auto simp: change_statement_def)
  next
    case (DropTable n)
    then show ?thesis using assms dropTable_reads [of ty sch n]
      by (intro exI conjI) (auto simp: change_statement_def)
  next
    case (TruncateTable n)
    then show ?thesis using assms truncateTable_reads [of ty sch n]
      by (intro exI conjI) (auto simp: change_statement_def)
  next
    case (DropColumn n col)
    then show ?thesis using assms dropColumn_reads [of ty sch n col]
      by (intro exI conjI) (auto simp: change_statement_def)
  next
    case (DropView n m)
    then show ?thesis using assms dropView_reads [of ty m sch n]
      by (intro exI conjI) (auto simp: change_statement_def)
  next
    case (RenameColumn t x y)
    have "qualifiedName ?b t = qualifiedRef ?b (tbl_schema t) (tbl_name t)"
      by (simp add: qualifiedName_def qualifiedRef_def)
    with RenameColumn show ?thesis using assms renameColumn_reads [of ty "tbl_schema t" "tbl_name t" x y]
      by (intro exI conjI) (auto simp: change_statement_def unless_empty_def split: if_splits)
  qed (use assms in auto)
  with that show thesis by blast
qed


text \<open>
  A call that sent one statement, the whole text of which is one statement of the dialect, whose
  quoted identifiers are exactly \<open>names\<close> in order, and which holds nothing else but words and dots.
\<close>

definition sends_one :: "DatabaseType \<Rightarrow> bytes list \<Rightarrow> Status \<times> 's \<times> bytes list \<Rightarrow> bool" where
  "sends_one ty names r \<longleftrightarrow>
     (case snd (snd r) of
        [sql] \<Rightarrow> statementRanges sql ty = [(0, length sql)] \<and> quoted_names (lexemes ty sql) = names \<and>
          plain_lexemes (lexemes ty sql)
      | _ \<Rightarrow> False)"

lemma perform_sends_one:
  assumes "change_statement (db_type db) (db_schemaName db) c = Some sql" "named_only (db_type db) c"
  shows "sends_one (db_type db) (change_names (db_schemaName db) c) (perform (recorded db) c (s, []))"
proof -
  obtain ls where "reads_as (db_type db) sql ls" "quoted_names ls = change_names (db_schemaName db) c" "plain_lexemes ls"
    using named_statement_reads [OF assms] .
  moreover have "snd (snd (perform (recorded db) c (s, []))) = [sql]"
    using rec_log.perform_log [of db c "(s, [])"] assms(1) by simp
  ultimately show ?thesis by (simp add: sends_one_def reads_as_def)
qed

text \<open>
  C16: dropping or truncating a table, dropping a column and dropping a view send one statement each,
  whatever the names hold: the text is one statement end to end, the quoted identifiers the
  dialect's lexer finds in it are the given names in order, and everything else is keywords and
  dots. So do renaming a table on every type but SQL Server, and renaming a column on every type
  that has SQL but SQL Server. (On SQL Server the names of a rename are not quoted this way.)
\<close>

theorem named_changes_read_back:
  "sends_one (db_type db) (path_names (db_schemaName db) n) (db_dropTable (recorded db) n (s, [])) \<and>
   sends_one (db_type db) (path_names (db_schemaName db) n) (db_truncateTable (recorded db) n (s, [])) \<and>
   sends_one (db_type db) (path_names (db_schemaName db) n @ [c]) (db_dropColumn (recorded db) n c (s, [])) \<and>
   sends_one (db_type db) (path_names (db_schemaName db) n) (db_dropView (recorded db) n m (s, [])) \<and>
   (db_type db \<noteq> MSSQL \<longrightarrow>
      sends_one (db_type db) (path_names (db_schemaName db) n @ [new]) (db_renameTable (recorded db) n new (s, []))) \<and>
   (db_type db \<notin> {MSSQL, MONGODB, REDIS} \<longrightarrow>
      sends_one (db_type db) (path_names (tbl_schema t) (tbl_name t) @ [c, new])
        (db_renameColumn (recorded db) t c new (s, [])))"
proof -
  have "renameColumn b q c new \<noteq> []" for b q
    by (cases b) (simp_all add: base_renameColumn_def mssql_renameColumn_def)
  then show ?thesis
    using perform_sends_one [of db "DropTable n" _ s] perform_sends_one [of db "TruncateTable n" _ s]
      perform_sends_one [of db "DropColumn n c" _ s] perform_sends_one [of db "DropView n m" _ s]
      perform_sends_one [of db "RenameTable n new" _ s] perform_sends_one [of db "RenameColumn t c new" _ s]
    by (simp add: change_statement_def unless_empty_def)
qed

theorem named_changes_read_back_witness:
  "sends_one POSTGRESQL [''s'', [dquote] @ ''; DROP TABLE x'', ''y'']
     (db_renameTable (recorded (accepting POSTGRESQL ''s'' [])) ([dquote] @ ''; DROP TABLE x'') ''y'' ((), []))"
  using named_changes_read_back [where db = "accepting POSTGRESQL ''s'' []" and n = "[dquote] @ ''; DROP TABLE x''"
      and new = "''y''" and s = "()"]
  by (simp add: accepting_def path_names_def)


section \<open>Table DDL\<close>

lemma and_then_Inr:
  "and_then c f s = (Inr y, s2) \<longleftrightarrow> (\<exists>x s1. c s = (Inr x, s1) \<and> f x s1 = (Inr y, s2))"
  by (auto simp: and_then_def split: prod.splits sum.splits)

lemma call_Inr [simp]:
  "return_ok x s = (Inr y, s2) \<longleftrightarrow> x = y \<and> s2 = s" "\<not> throw m s = (Inr y, s2)"
  "non_empty n d s = (Inr y, s2) \<longleftrightarrow> d \<noteq> [] \<and> y = d \<and> s2 = s"
  by (auto simp: return_ok_def throw_def non_empty_def)

lemma joined_nonempty_cells: "list_all (\<lambda>x. x \<noteq> []) (List.map_filter (joined_cell col) data)"
  by (induction data) (auto simp: map_filter_simps joined_cell_def Let_def split: option.split if_splits)

lemma joined_join: "joined data col sep = join_with sep (List.map_filter (joined_cell col) data)"
  by (simp add: joined_def join_nonempty_eq_join_with joined_nonempty_cells)

lemma pg_ddl_starts: "\<exists>r. pg_ddl_text h cols cons idx = ''CREATE '' @ r"
  by (simp add: pg_ddl_text_def pg_create_text_def Let_def)

lemma tableDdl_nonempty: "tableDdl b t sch \<noteq> []"
  by (simp add: tableDdl_def Let_def)

lemma tableDdl_ok:
  assumes "db_tableDdl db n s = (Inr ddl, s')"
  shows "ddl \<noteq> [] \<and> db_type db \<noteq> MONGODB \<and> db_type db \<noteq> REDIS \<and>
    (db_type db = POSTGRESQL \<longrightarrow> starts_with ddl ''CREATE '') \<and>
    (db_type db \<in> {MYSQL, MARIADB, TIDB, COCKROACHDB} \<longrightarrow> ends_with ddl '';'')"
proof -
  note defs = db_tableDdl_def postgresTableDdl_def Let_def
  show ?thesis
  proof (cases "db_type db = POSTGRESQL")
    case True
    with assms obtain h cols cons idx where "ddl = pg_ddl_text h cols cons idx"
      by (auto simp: defs and_then_Inr split: if_splits)
    with pg_ddl_starts [of h cols cons idx] True show ?thesis
      by (auto simp: starts_with_append)
  next
    case False
    have semi: "ends_with (d @ '';'') '';''" for d by (auto simp: ends_with_append)
    from assms False show ?thesis
      by (auto simp: defs and_then_Inr with_indexes_def tableDdl_nonempty semi split: if_splits)
  qed
qed

text \<open>
  \<^verbatim>\<open>tableDdl\<close> either throws or returns a real statement: never an empty text, never one for a
  database without tables' DDL (MongoDB, Redis), on PostgreSQL a text that starts with CREATE, and
  on the MySQL family and CockroachDB a text that ends the statement.
\<close>

lemma tableDdl_returns_a_statement:
  assumes "db_tableDdl db n s = (Inr ddl, s')"
  shows "ddl \<noteq> [] \<and> db_type db \<noteq> MONGODB \<and> db_type db \<noteq> REDIS \<and>
    (db_type db = POSTGRESQL \<longrightarrow> starts_with ddl ''CREATE '') \<and>
    (db_type db \<in> {MYSQL, MARIADB, TIDB, COCKROACHDB} \<longrightarrow> ends_with ddl '';'')"
  by (rule tableDdl_ok [OF assms])


lemma tableDdl_returns_a_statement_witness:
  "db_tableDdl (accepting MYSQL [] [[''t'', '' CREATE TABLE t (a int) '']]) ''t'' () =
     (Inr ''CREATE TABLE t (a int);'', ()) \<and> ends_with ''CREATE TABLE t (a int);'' '';''"
proof -
  let ?db = "accepting MYSQL [] [[''t'', '' CREATE TABLE t (a int) '']]"
  have d: "db_tableDdl ?db ''t'' () = (Inr ''CREATE TABLE t (a int);'', ())" by code_simp
  have "db_type ?db = MYSQL" by (simp add: accepting_def)
  with tableDdl_returns_a_statement [OF d] d show ?thesis by simp
qed

end
