(* ===== verification/Redis_Connection.thy ===== *)
theory Redis_Connection
  imports Redis_Protocol Database_Api
begin

text \<open>
  \<^verbatim>\<open>RedisState\<close>, \<^verbatim>\<open>RedisDatabase\<close> and \<^verbatim>\<open>RedisConnection\<close> of \<^verbatim>\<open>src/redis_connection.cpp\<close>. hiredis is a
  parameter, a record of the functions the code calls on a context \<open>'s\<close>: \<open>hi_send\<close> sends one command
  and waits for its reply (\<open>None\<close> is a null reply), and a pipeline of appended commands is answered
  in order, one reply per command. A formatted command \<^verbatim>\<open>"TTL %s"\<close> has one argument per word of the
  format. The state that a connection and its database handles share through a
  \<^verbatim>\<open>shared_ptr<RedisState>\<close> is passed through the calls; each call holds the mutex while it runs, so
  calls do not interleave. A scan asks for pages until the server says it is done, which it may never
  do: it is \<open>None\<close> when it does not end. The times \<^verbatim>\<open>execute\<close> measures are left out.
\<close>

section \<open>State\<close>

record 's Hiredis =
  hi_connect :: "bytes \<Rightarrow> int \<Rightarrow> 's option"
  hi_err :: "'s \<Rightarrow> bool"
  hi_errstr :: "'s \<Rightarrow> bytes"
  hi_hasSsl :: bool
  hi_sslContext :: "bytes option \<Rightarrow> bytes option"
  hi_startTls :: "'s \<Rightarrow> bool \<times> 's"
  hi_send :: "'s \<Rightarrow> bytes list \<Rightarrow> Reply option \<times> 's"

record 's RedisState =
  rs_ctx :: "'s option"
  rs_ssl :: bool
  rs_selectedDb :: int
  rs_numDatabases :: int
  rs_dbCountKnown :: bool

record RedisKey =
  rk_name :: bytes
  rk_type :: bytes
  rk_value :: bytes
  rk_ttl :: int
  rk_size :: int

record RedisDatabase =
  rd_index :: int
  rd_connName :: bytes

record 's RedisConnection =
  rc_info :: ConnectionInfo
  rc_selectedDb :: int
  rc_state :: "'s RedisState"
  rc_dbCache :: "int \<rightharpoonup> RedisDatabase"

definition new_redis_state :: "'s RedisState" where
  "new_redis_state = \<lparr>rs_ctx = None, rs_ssl = False, rs_selectedDb = 0, rs_numDatabases = 16, rs_dbCountKnown = False\<rparr>"

definition new_redis_connection :: "ConnectionInfo \<Rightarrow> 's RedisConnection" where
  "new_redis_connection info =
     \<lparr>rc_info = info, rc_selectedDb = 0, rc_state = new_redis_state, rc_dbCache = Map.empty\<rparr>"

definition cleanup :: "'s RedisState \<Rightarrow> 's RedisState" where
  "cleanup st = st\<lparr>rs_ctx := None, rs_ssl := False\<rparr>"

text \<open>One command on the shared context; every caller has checked that there is one.\<close>

definition command :: "'s Hiredis \<Rightarrow> bytes list \<Rightarrow> 's RedisState \<Rightarrow> Reply option \<times> 's RedisState" where
  "command hi args st =
     (case rs_ctx st of
        None \<Rightarrow> (None, st)
      | Some c \<Rightarrow> (case hi_send hi c args of (r, c') \<Rightarrow> (r, st\<lparr>rs_ctx := Some c'\<rparr>)))"

fun pipeline :: "'s Hiredis \<Rightarrow> bytes list list \<Rightarrow> 's RedisState \<Rightarrow> Reply option list \<times> 's RedisState" where
  "pipeline hi [] st = ([], st)"
| "pipeline hi (args # cmds) st =
     (case command hi args st of (r, st1) \<Rightarrow>
      (case pipeline hi cmds st1 of (rs, st2) \<Rightarrow> (r # rs, st2)))"

definition refused :: "Reply option \<Rightarrow> bool" where
  "refused r = (case r of None \<Rightarrow> True | Some x \<Rightarrow> is_error x)"

definition refusal_text :: "bytes \<Rightarrow> Reply option \<Rightarrow> bytes" where
  "refusal_text what r = (case r of Some x \<Rightarrow> (case reply_str x of Some s \<Rightarrow> s | None \<Rightarrow> []) | None \<Rightarrow> what)"


section \<open>A logical database\<close>

definition select_args :: "int \<Rightarrow> bytes list" where
  "select_args i = [''SELECT'', to_string i]"

definition ensureSelectedLocked :: "'s Hiredis \<Rightarrow> int \<Rightarrow> 's RedisState \<Rightarrow> bool \<times> 's RedisState" where
  "ensureSelectedLocked hi index st =
     (if rs_ctx st = None then (False, st)
      else if rs_selectedDb st = index then (True, st)
      else case command hi (select_args index) st of (r, st1) \<Rightarrow>
        if refused r then (False, st1) else (True, st1\<lparr>rs_selectedDb := index\<rparr>))"

definition scan_args :: "nat \<Rightarrow> bytes \<Rightarrow> bytes list" where
  "scan_args cursor pattern =
     [''SCAN'', nat_to_string cursor, ''MATCH'', c_str pattern, ''COUNT'', ''200'']"

text \<open>
  A well-formed page: the next cursor and the elements of the second array. SCAN answers with a text as
  its first element; another kind of element has no text, and the code would read through a null pointer.
\<close>

definition scan_page :: "Reply option \<Rightarrow> (nat \<times> Reply list) option" where
  "scan_page r =
     (case r of Some (RArray [a, b]) \<Rightarrow> Some (strtoull (reply_text a), reply_elements b) | _ \<Rightarrow> None)"

text \<open>The keys of a page, until there are \<open>limit\<close> of them; the flag says that the limit was met.\<close>

fun take_keys :: "int \<Rightarrow> Reply list \<Rightarrow> bytes list \<Rightarrow> bytes list \<times> bool" where
  "take_keys limit [] keys = (keys, False)"
| "take_keys limit (r # rs) keys =
     (case r of
        RString k \<Rightarrow> (if limit \<le> int (length keys) + 1 then (keys @ [k], True)
                      else take_keys limit rs (keys @ [k]))
      | _ \<Rightarrow> take_keys limit rs keys)"

partial_function (option) scan_loop ::
    "'s Hiredis \<Rightarrow> bytes \<Rightarrow> int \<Rightarrow> nat \<Rightarrow> bytes list \<Rightarrow> 's RedisState \<Rightarrow> (bytes list \<times> 's RedisState) option" where
  "scan_loop hi pattern limit cursor keys st =
     (case command hi (scan_args cursor pattern) st of (r, st1) \<Rightarrow>
      (case scan_page r of
         None \<Rightarrow> Some (keys, st1)
       | Some (next, els) \<Rightarrow>
          (case take_keys limit els keys of (keys1, full) \<Rightarrow>
             if full \<or> next = 0 then Some (keys1, st1)
             else scan_loop hi pattern limit next keys1 st1)))"

definition scanKeysLocked ::
    "'s Hiredis \<Rightarrow> bytes \<Rightarrow> int \<Rightarrow> 's RedisState \<Rightarrow> (bytes list \<times> 's RedisState) option" where
  "scanKeysLocked hi pattern limit st =
     (if rs_ctx st = None then Some ([], st) else scan_loop hi pattern limit 0 [] st)"

definition rd_name :: "RedisDatabase \<Rightarrow> bytes" where
  "rd_name db = to_string (rd_index db)"

definition rd_fullName :: "RedisDatabase \<Rightarrow> bytes \<Rightarrow> bytes" where
  "rd_fullName db n = rd_connName db @ ''.db'' @ to_string (rd_index db) @ ''.'' @ n"

definition key_prefix :: "bytes \<Rightarrow> bytes" where
  "key_prefix k = takeWhile (\<lambda>c. c \<noteq> CHR '':'') k"

definition rd_tables ::
    "'s Hiredis \<Rightarrow> RedisDatabase \<Rightarrow> 's RedisState \<Rightarrow> (Table list \<times> 's RedisState) option" where
  "rd_tables hi db st =
     (if rs_ctx st = None then Some ([], st)
      else case ensureSelectedLocked hi (rd_index db) st of (ok, st1) \<Rightarrow>
        if \<not> ok then Some ([], st1)
        else case scanKeysLocked hi ''*'' 10000 st1 of
            None \<Rightarrow> None
          | Some (keys, st2) \<Rightarrow>
              Some (map (\<lambda>n. default_table\<lparr>tbl_name := n, tbl_fullName := rd_fullName db n\<rparr>)
                (''*'' # map (\<lambda>p. p @ '':*'') (sort (remdups (map key_prefix keys)))), st2))"

definition rd_describeTable :: "RedisDatabase \<Rightarrow> bytes \<Rightarrow> Table" where
  "rd_describeTable db tableName =
     default_table\<lparr>tbl_name := tableName, tbl_fullName := rd_fullName db tableName,
       tbl_columns :=
         default_column\<lparr>col_name := ''Key'', col_type := ''string'', col_isPrimaryKey := True, col_isNotNull := True\<rparr> #
         map (\<lambda>n. default_column\<lparr>col_name := n, col_type := ''string''\<rparr>) [''Type'', ''Value'', ''TTL'', ''Size'']\<rparr>"

definition one_result :: "StatementResult \<Rightarrow> QueryResult" where
  "one_result s = \<lparr>qr_statements = [s], qr_messages = []\<rparr>"

definition failed_result :: "bytes \<Rightarrow> QueryResult" where
  "failed_result msg = one_result (default_statement\<lparr>sr_success := False, sr_errorMessage := msg\<rparr>)"

definition ctx_error :: "'s Hiredis \<Rightarrow> 's RedisState \<Rightarrow> bytes" where
  "ctx_error hi st = (case rs_ctx st of None \<Rightarrow> [] | Some c \<Rightarrow> hi_errstr hi c)"

definition rd_execute :: "'s Hiredis \<Rightarrow> RedisDatabase \<Rightarrow> bytes \<Rightarrow> 's RedisState \<Rightarrow> QueryResult \<times> 's RedisState" where
  "rd_execute hi db cmd st =
     (let parts = parseRedisCommand cmd in
      if parts = [] then (failed_result ''Empty command'', st)
      else if rs_ctx st = None then (failed_result ''Not connected to Redis server'', st)
      else case ensureSelectedLocked hi (rd_index db) st of (ok, st1) \<Rightarrow>
        if \<not> ok then (failed_result (''Failed to switch to Redis database db'' @ to_string (rd_index db)), st1)
        else case command hi parts st1 of (r, st2) \<Rightarrow>
          (case r of
             None \<Rightarrow> (failed_result (if ctx_error hi st2 \<noteq> [] then ctx_error hi st2 else ''Failed to execute command''), st2)
           | Some (RError e) \<Rightarrow> (failed_result e, st2)
           | Some x \<Rightarrow> (one_result (default_statement\<lparr>sr_columnNames := [''result''], sr_tableData := [[format_reply x]]\<rparr>), st2)))"

definition empty_key :: RedisKey where
  "empty_key = \<lparr>rk_name = [], rk_type = [], rk_value = [], rk_ttl = -1, rk_size = -1\<rparr>"

definition detail_commands :: "bytes \<Rightarrow> bytes list list" where
  "detail_commands n = [[''TYPE'', c_str n], [''TTL'', c_str n], [''MEMORY'', ''USAGE'', c_str n]]"

definition key_type_of :: "Reply option \<Rightarrow> bytes" where
  "key_type_of r = (case r of Some (RStatus s) \<Rightarrow> c_str s | _ \<Rightarrow> ''unknown'')"

definition integer_or :: "int \<Rightarrow> Reply option \<Rightarrow> int" where
  "integer_or d r = (case r of Some (RInteger i) \<Rightarrow> i | _ \<Rightarrow> d)"

fun read_details :: "bytes list \<Rightarrow> Reply option list \<Rightarrow> RedisKey list" where
  "read_details (n # ns) (t # l # m # rs) =
     \<lparr>rk_name = n, rk_type = key_type_of t, rk_value = [], rk_ttl = integer_or (-1) l, rk_size = integer_or (-1) m\<rparr> #
     read_details ns rs"
| "read_details _ _ = []"

definition preview_command :: "RedisKey \<Rightarrow> bytes list" where
  "preview_command k =
     (let n = c_str (rk_name k) in
      if rk_type k = ''string'' then [''GET'', n]
      else if rk_type k = ''list'' then [''LRANGE'', n, ''0'', ''4'']
      else if rk_type k = ''set'' then [''SSCAN'', n, ''0'', ''COUNT'', ''5'']
      else if rk_type k = ''zset'' then [''ZRANGE'', n, ''0'', ''4'', ''WITHSCORES'']
      else if rk_type k = ''hash'' then [''HSCAN'', n, ''0'', ''COUNT'', ''5'']
      else [''TYPE'', n])"

definition fill_value :: "RedisKey \<Rightarrow> Reply option \<Rightarrow> RedisKey" where
  "fill_value k r = k\<lparr>rk_value := formatRedisPreview r (rk_type k)\<rparr>"

text \<open>The two pipelines shared by \<^verbatim>\<open>fetchKeyDetails\<close> and \<^verbatim>\<open>getKeys\<close>.\<close>

definition key_details :: "'s Hiredis \<Rightarrow> bytes list \<Rightarrow> 's RedisState \<Rightarrow> RedisKey list \<times> 's RedisState" where
  "key_details hi keyNames st =
     (case pipeline hi (concat (map detail_commands keyNames)) st of (rs, st1) \<Rightarrow>
      let keys = read_details keyNames rs in
      case pipeline hi (map preview_command keys) st1 of (vs, st2) \<Rightarrow> (map2 fill_value keys vs, st2))"

definition fetchKeyDetails :: "'s Hiredis \<Rightarrow> RedisDatabase \<Rightarrow> bytes list \<Rightarrow> 's RedisState \<Rightarrow> RedisKey list \<times> 's RedisState" where
  "fetchKeyDetails hi db keyNames st =
     (let blank = replicate (length keyNames) empty_key in
      if rs_ctx st = None then (blank, st)
      else case ensureSelectedLocked hi (rd_index db) st of (ok, st1) \<Rightarrow>
        if \<not> ok then (blank, st1) else key_details hi keyNames st1)"

definition size_text :: "int \<Rightarrow> bytes" where
  "size_text n =
     (if n < 0 then ''-''
      else if n < 1024 then to_string n @ '' B''
      else if n < 1024 * 1024 then fixed1 (double_of (nat n)) 1024 @ '' KB''
      else fixed1 (double_of (nat n)) (1024 * 1024) @ '' MB'')"

definition key_row :: "RedisKey \<Rightarrow> bytes list" where
  "key_row k = [rk_name k, rk_type k, rk_value k, to_string (rk_ttl k), size_text (rk_size k)]"

definition key_pattern :: "Table \<Rightarrow> bytes" where
  "key_pattern table = (if tbl_name table = [] then ''*'' else tbl_name table)"

text \<open>\<open>limit\<close> and \<open>offset\<close> are what a pager passes: not negative, and their sum is an \<^verbatim>\<open>int\<close>.\<close>

definition rd_getTableData ::
    "'s Hiredis \<Rightarrow> RedisDatabase \<Rightarrow> Table \<Rightarrow> int \<Rightarrow> int \<Rightarrow> 's RedisState \<Rightarrow> (bytes list list \<times> 's RedisState) option" where
  "rd_getTableData hi db table limit offset st =
     (if rs_ctx st = None then Some ([], st)
      else case ensureSelectedLocked hi (rd_index db) st of (ok, st1) \<Rightarrow>
        if \<not> ok then Some ([], st1)
        else case scanKeysLocked hi (key_pattern table) (limit + offset) st1 of
            None \<Rightarrow> None
          | Some (keyNames, st2) \<Rightarrow>
              if int (length keyNames) \<le> offset then Some ([], st2)
              else case fetchKeyDetails hi db (sort keyNames) st2 of (keys, st3) \<Rightarrow>
                Some (map key_row (drop (nat offset) (take (nat (min (offset + limit) (int (length keys)))) keys)), st3))"

definition rd_getColumnNames :: "bytes list" where
  "rd_getColumnNames = [''Key'', ''Type'', ''Value'', ''TTL'', ''Size'']"

definition rd_getRowCount ::
    "'s Hiredis \<Rightarrow> RedisDatabase \<Rightarrow> Table \<Rightarrow> 's RedisState \<Rightarrow> (int \<times> 's RedisState) option" where
  "rd_getRowCount hi db table st =
     (if rs_ctx st = None then Some (0, st)
      else case ensureSelectedLocked hi (rd_index db) st of (ok, st1) \<Rightarrow>
        if \<not> ok then Some (0, st1)
        else map_option (\<lambda>(keys, st2). (int (length keys), st2)) (scanKeysLocked hi (key_pattern table) 10000 st1))"


section \<open>The connection\<close>

definition wants_tls :: "SslMode \<Rightarrow> bool" where
  "wants_tls m \<longleftrightarrow> m = Require \<or> m = VerifyCA \<or> m = VerifyFull"

definition open_tls :: "'s Hiredis \<Rightarrow> ConnectionInfo \<Rightarrow> 's \<Rightarrow> bytes + 's \<times> bool" where
  "open_tls hi info c =
     (if \<not> hi_hasSsl hi \<or> \<not> wants_tls (ci_sslmode info) then Inr (c, False)
      else case hi_sslContext hi (if ci_sslCACertPath info \<noteq> [] then Some (c_str (ci_sslCACertPath info)) else None) of
          Some e \<Rightarrow> Inl (''Redis SSL context failed: '' @ e)
        | None \<Rightarrow> (case hi_startTls hi c of (ok, c1) \<Rightarrow>
            if ok then Inr (c1, True)
            else Inl (if hi_errstr hi c1 \<noteq> [] then hi_errstr hi c1 else ''Redis TLS handshake failed'')))"

definition auth_args :: "ConnectionInfo \<Rightarrow> bytes list" where
  "auth_args info =
     (if ci_username info \<noteq> [] then [''AUTH'', c_str (ci_username info), c_str (ci_password info)]
      else [''AUTH'', c_str (ci_password info)])"

definition open_auth :: "'s Hiredis \<Rightarrow> ConnectionInfo \<Rightarrow> 's \<Rightarrow> bytes + 's" where
  "open_auth hi info c =
     (if ci_password info = [] then Inr c
      else case hi_send hi c (auth_args info) of (r, c1) \<Rightarrow>
        if refused r then Inl (refusal_text ''Authentication failed'' r) else Inr c1)"

definition open_ping :: "'s Hiredis \<Rightarrow> 's \<Rightarrow> bytes + 's" where
  "open_ping hi c =
     (case hi_send hi c [''PING''] of (r, c1) \<Rightarrow>
        if refused r then Inl (refusal_text ''Connection test failed'' r) else Inr c1)"

definition open_count :: "'s Hiredis \<Rightarrow> 's \<Rightarrow> (int \<times> bool) \<times> 's" where
  "open_count hi c =
     (case hi_send hi c [''CONFIG'', ''GET'', ''databases''] of (r, c1) \<Rightarrow>
        (case r of
           Some (RArray [_, RString s]) \<Rightarrow> (let n = atoi (c_str s) in if n > 0 then (n, True) else (16, False))
         | _ \<Rightarrow> (16, False), c1))"

definition open_select :: "'s Hiredis \<Rightarrow> ConnectionInfo \<Rightarrow> int \<Rightarrow> 's \<Rightarrow> int \<times> 's" where
  "open_select hi info num c =
     (if ci_database info = [] then (0, c)
      else case stoi (ci_database info) of
          None \<Rightarrow> (0, c)
        | Some i \<Rightarrow>
            if 0 \<le> i \<and> i < num
            then (case hi_send hi c (select_args i) of (r, c1) \<Rightarrow> if refused r then (0, c1) else (i, c1))
            else (0, c))"

text \<open>Connect, TLS, AUTH and PING: a context ready for use and whether it is encrypted, or an error.\<close>

definition open_context :: "'s Hiredis \<Rightarrow> ConnectionInfo \<Rightarrow> bytes + 's \<times> bool" where
  "open_context hi info =
     (case hi_connect hi (c_str (ci_host info)) (ci_port info) of
        None \<Rightarrow> Inl ''Failed to allocate redis context''
      | Some c \<Rightarrow>
          if hi_err hi c then Inl (hi_errstr hi c)
          else case open_tls hi info c of
              Inl e \<Rightarrow> Inl e
            | Inr (c1, tls) \<Rightarrow>
                (case open_auth hi info c1 of
                   Inl e \<Rightarrow> Inl e
                 | Inr c2 \<Rightarrow> (case open_ping hi c2 of Inl e \<Rightarrow> Inl e | Inr c3 \<Rightarrow> Inr (c3, tls))))"

definition redis_open :: "'s Hiredis \<Rightarrow> 's RedisConnection \<Rightarrow> Status \<times> 's RedisConnection" where
  "redis_open hi conn =
     (if rs_ctx (rc_state conn) \<noteq> None then ((True, []), conn)
      else case open_context hi (rc_info conn) of
          Inl e \<Rightarrow> ((False, e), conn\<lparr>rc_state := cleanup (rc_state conn)\<rparr>)
        | Inr (c, tls) \<Rightarrow>
            (case open_count hi c of ((num, known), c1) \<Rightarrow>
             (case open_select hi (rc_info conn) num c1 of (sel, c2) \<Rightarrow>
               ((True, []),
                conn\<lparr>rc_selectedDb := sel,
                  rc_state := \<lparr>rs_ctx = Some c2, rs_ssl = tls, rs_selectedDb = sel, rs_numDatabases = num,
                               rs_dbCountKnown = known\<rparr>\<rparr>))))"

definition redis_close :: "'s RedisConnection \<Rightarrow> 's RedisConnection" where
  "redis_close conn =
     conn\<lparr>rc_dbCache := Map.empty, rc_state := (cleanup (rc_state conn))\<lparr>rs_selectedDb := 0\<rparr>\<rparr>"

definition redis_isOpen :: "'s RedisConnection \<Rightarrow> bool" where
  "redis_isOpen conn \<longleftrightarrow> rs_ctx (rc_state conn) \<noteq> None"

definition redis_database :: "bytes \<Rightarrow> 's RedisConnection \<Rightarrow> RedisDatabase option \<times> 's RedisConnection" where
  "redis_database name conn =
     (case (if name = [] then Some (rc_selectedDb conn) else stoi name) of
        None \<Rightarrow> (None, conn)
      | Some idx \<Rightarrow>
          (case rc_dbCache conn idx of
             Some db \<Rightarrow> (Some db, conn)
           | None \<Rightarrow>
              let db = \<lparr>rd_index = idx, rd_connName = ci_name (rc_info conn)\<rparr>
              in (Some db, conn\<lparr>rc_dbCache := (rc_dbCache conn)(idx \<mapsto> db)\<rparr>)))"

fun redis_handles :: "nat list \<Rightarrow> 's RedisConnection \<Rightarrow> RedisDatabase option list \<times> 's RedisConnection" where
  "redis_handles [] conn = ([], conn)"
| "redis_handles (i # is) conn =
     (case redis_database (nat_to_string i) conn of (db, conn1) \<Rightarrow>
      (case redis_handles is conn1 of (dbs, conn2) \<Rightarrow> (db # dbs, conn2)))"

definition redis_databases :: "'s RedisConnection \<Rightarrow> RedisDatabase option list \<times> 's RedisConnection" where
  "redis_databases conn =
     (if rs_ctx (rc_state conn) = None then ([], conn)
      else redis_handles [0..<nat (rs_numDatabases (rc_state conn))] conn)"

text \<open>The calls of the connection itself work on whatever database the context has selected.\<close>

definition getKeys :: "'s Hiredis \<Rightarrow> bytes \<Rightarrow> int \<Rightarrow> 's RedisState \<Rightarrow> (RedisKey list \<times> 's RedisState) option" where
  "getKeys hi pattern limit st =
     (if rs_ctx st = None then Some ([], st)
      else map_option (\<lambda>(names, st1). key_details hi (sort names) st1) (scan_loop hi pattern limit 0 [] st))"

definition getKeyType :: "'s Hiredis \<Rightarrow> bytes \<Rightarrow> 's RedisState \<Rightarrow> bytes \<times> 's RedisState" where
  "getKeyType hi key st =
     (if rs_ctx st = None then (''unknown'', st)
      else case command hi [''TYPE'', c_str key] st of (r, st1) \<Rightarrow> (key_type_of r, st1))"

definition getKeyTTL :: "'s Hiredis \<Rightarrow> bytes \<Rightarrow> 's RedisState \<Rightarrow> int \<times> 's RedisState" where
  "getKeyTTL hi key st =
     (if rs_ctx st = None then (-1, st)
      else case command hi [''TTL'', c_str key] st of (r, st1) \<Rightarrow> (integer_or (-1) r, st1))"

definition value_args :: "bytes \<Rightarrow> bytes \<Rightarrow> bytes list option" where
  "value_args type key =
     (if type = ''string'' then Some [''GET'', c_str key]
      else if type = ''list'' then Some [''LRANGE'', c_str key, ''0'', ''4'']
      else if type = ''set'' then Some [''SMEMBERS'', c_str key]
      else if type = ''hash'' then Some [''HGETALL'', c_str key]
      else if type = ''zset'' then Some [''ZRANGE'', c_str key, ''0'', ''4'', ''WITHSCORES'']
      else None)"

definition getKeyValue :: "'s Hiredis \<Rightarrow> bytes \<Rightarrow> bytes \<Rightarrow> 's RedisState \<Rightarrow> bytes \<times> 's RedisState" where
  "getKeyValue hi key knownType st0 =
     (case (if knownType = [] then getKeyType hi key st0 else (knownType, st0)) of (type, st) \<Rightarrow>
      if rs_ctx st = None then (''[Unable to retrieve value]'', st)
      else case value_args type key of
          None \<Rightarrow> (''[Unable to retrieve value]'', st)
        | Some args \<Rightarrow>
            (case command hi args st of (r, st1) \<Rightarrow>
               (if r \<noteq> None \<and> formatRedisPreview r type \<noteq> [] then formatRedisPreview r type
                else ''[Unable to retrieve value]'', st1)))"

definition selectDatabase :: "'s Hiredis \<Rightarrow> int \<Rightarrow> 's RedisConnection \<Rightarrow> bool \<times> 's RedisConnection" where
  "selectDatabase hi dbIndex conn =
     (let st = rc_state conn in
      if rs_ctx st = None then (False, conn)
      else if dbIndex < 0 \<or> rs_numDatabases st \<le> dbIndex then (False, conn)
      else case command hi (select_args dbIndex) st of (r, st1) \<Rightarrow>
        if refused r then (False, conn\<lparr>rc_state := st1\<rparr>)
        else (True, conn\<lparr>rc_state := st1\<lparr>rs_selectedDb := dbIndex\<rparr>, rc_selectedDb := dbIndex\<rparr>))"

definition info_text :: "Reply option \<Rightarrow> bytes" where
  "info_text r = (case r of Some (RString s) \<Rightarrow> s | Some (RVerb s) \<Rightarrow> s | _ \<Rightarrow> [])"

definition databaseInfo :: "'s Hiredis \<Rightarrow> 's RedisConnection \<Rightarrow> (bytes + RedisDbInfo list) \<times> 's RedisConnection" where
  "databaseInfo hi conn =
     (let st = rc_state conn in
      if rs_ctx st = None then (Inl ''Not connected'', conn)
      else case command hi [''INFO'', ''keyspace''] st of (r, st1) \<Rightarrow>
        if refused r then (Inl (refusal_text (ctx_error hi st1) r), conn\<lparr>rc_state := st1\<rparr>)
        else let found = read_keyspace (info_text r);
                 num = info_count (rs_dbCountKnown st1) (rs_numDatabases st1) (rc_selectedDb conn) found
             in (Inr (database_infos num found), conn\<lparr>rc_state := st1\<rparr>))"


declare scan_loop.simps [code]

section \<open>Which database a command runs on\<close>

text \<open>
  What Redis documents about the database a connection has selected: a new connection has selected
  0, SELECT changes it exactly when it is not refused, and none of the other commands the library
  itself sends changes it. \<open>sel\<close> reads the selection off the context.
\<close>

definition library_commands :: "bytes list" where
  "library_commands = [''AUTH'', ''PING'', ''CONFIG'', ''SCAN'', ''TYPE'', ''TTL'', ''MEMORY'', ''GET'', ''LRANGE'',
     ''SSCAN'', ''ZRANGE'', ''HSCAN'', ''SMEMBERS'', ''HGETALL'', ''INFO'']"

definition selects_databases :: "'s Hiredis \<Rightarrow> ('s \<Rightarrow> int) \<Rightarrow> bool" where
  "selects_databases hi sel \<longleftrightarrow>
     (\<forall>host port c. hi_connect hi host port = Some c \<longrightarrow> sel c = 0) \<and>
     (\<forall>c. sel (snd (hi_startTls hi c)) = sel c) \<and>
     (\<forall>c i. sel (snd (hi_send hi c (select_args i))) =
        (if refused (fst (hi_send hi c (select_args i))) then sel c else i)) \<and>
     (\<forall>c args. args \<noteq> [] \<and> hd args \<in> set library_commands \<longrightarrow> sel (snd (hi_send hi c args)) = sel c)"

definition in_step :: "('s \<Rightarrow> int) \<Rightarrow> 's RedisState \<Rightarrow> bool" where
  "in_step sel st \<longleftrightarrow> (case rs_ctx st of None \<Rightarrow> True | Some c \<Rightarrow> sel c = rs_selectedDb st)"

definition keeps :: "('s \<Rightarrow> int) \<Rightarrow> 's RedisState \<Rightarrow> 's RedisState \<Rightarrow> bool" where
  "keeps sel st st' \<longleftrightarrow>
     rs_selectedDb st' = rs_selectedDb st \<and> map_option sel (rs_ctx st') = map_option sel (rs_ctx st)"

lemma keeps_refl [simp]: "keeps sel st st"
  by (simp add: keeps_def)

lemma keeps_trans [trans]: "keeps sel a b \<Longrightarrow> keeps sel b c \<Longrightarrow> keeps sel a c"
  by (simp add: keeps_def)

lemma keeps_in_step: "keeps sel st st' \<Longrightarrow> in_step sel st \<Longrightarrow> in_step sel st'"
  by (auto simp: keeps_def in_step_def split: option.splits)

lemma command_keeps:
  assumes "selects_databases hi sel" "args \<noteq> []" "hd args \<in> set library_commands"
  shows "keeps sel st (snd (command hi args st))"
proof (cases "rs_ctx st")
  case (Some c)
  have "sel (snd (hi_send hi c args)) = sel c" using assms by (simp add: selects_databases_def)
  with Some show ?thesis by (simp add: command_def keeps_def split: prod.split) force
qed (simp add: command_def)

lemma pipeline_keeps:
  assumes "selects_databases hi sel" "\<forall>args\<in>set cmds. args \<noteq> [] \<and> hd args \<in> set library_commands"
  shows "keeps sel st (snd (pipeline hi cmds st))"
  using assms(2)
proof (induction cmds arbitrary: st)
  case (Cons args cmds)
  have "keeps sel st (snd (command hi args st))" using command_keeps [OF assms(1)] Cons.prems by simp
  also have "keeps sel (snd (command hi args st)) (snd (pipeline hi cmds (snd (command hi args st))))"
    using Cons by simp
  finally show ?case by (simp add: split_beta)
qed simp

lemma key_details_keeps:
  assumes "selects_databases hi sel"
  shows "keeps sel st (snd (key_details hi names st))"
proof -
  let ?p = "pipeline hi (concat (map detail_commands names)) st"
  let ?ks = "read_details names (fst ?p)"
  have "keeps sel st (snd ?p)"
    by (rule pipeline_keeps [OF assms]) (auto simp: detail_commands_def library_commands_def)
  also have "keeps sel (snd ?p) (snd (pipeline hi (map preview_command ?ks) (snd ?p)))"
    by (rule pipeline_keeps [OF assms]) (auto simp: preview_command_def library_commands_def Let_def)
  finally show ?thesis by (simp add: key_details_def Let_def split_beta)
qed

text \<open>A scan ends with an ill-formed page, with the limit, or with cursor 0; else it asks on.\<close>

lemma scan_loop_step:
  assumes "command hi (scan_args cursor pattern) st = (r, st1)"
  shows "scan_loop hi pattern limit cursor keys st =
    (case scan_page r of
       None \<Rightarrow> Some (keys, st1)
     | Some (next, els) \<Rightarrow>
         if snd (take_keys limit els keys) \<or> next = 0 then Some (fst (take_keys limit els keys), st1)
         else scan_loop hi pattern limit next (fst (take_keys limit els keys)) st1)"
  by (subst scan_loop.simps) (auto simp: assms split_beta split: option.splits)

lemma scan_loop_induct [consumes 1, case_names page]:
  assumes "scan_loop hi pattern limit cursor keys st = Some (ks, st')"
    and step: "\<And>cursor keys st r st1. command hi (scan_args cursor pattern) st = (r, st1) \<Longrightarrow>
      (case scan_page r of
         None \<Rightarrow> ks = keys \<and> st' = st1
       | Some (next, els) \<Rightarrow>
          (if snd (take_keys limit els keys) \<or> next = 0 then ks = fst (take_keys limit els keys) \<and> st' = st1
           else P next (fst (take_keys limit els keys)) st1)) \<Longrightarrow> P cursor keys st"
  shows "P cursor keys st"
proof -
  let ?P = "\<lambda>hi' pattern' limit' cursor' keys' st0 res.
    hi' = hi \<longrightarrow> pattern' = pattern \<longrightarrow> limit' = limit \<longrightarrow> res = (ks, st') \<longrightarrow> P cursor' keys' st0"
  have "?P hi pattern limit cursor keys st (ks, st')"
  proof (rule scan_loop.raw_induct [where P = ?P, OF _ assms(1)], intro impI)
    fix loop hi' pattern' limit' cursor' keys' st0 res
    assume IH: "\<And>hi' pattern' limit' cursor' keys' st0 res.
        loop hi' pattern' limit' cursor' keys' st0 = Some res \<Longrightarrow> ?P hi' pattern' limit' cursor' keys' st0 res"
      and body: "(case command hi' (scan_args cursor' pattern') st0 of (r, st1) \<Rightarrow>
        case scan_page r of None \<Rightarrow> Some (keys', st1)
        | Some (next, els) \<Rightarrow> (case take_keys limit' els keys' of (keys1, full) \<Rightarrow>
            if full \<or> next = 0 then Some (keys1, st1) else loop hi' pattern' limit' next keys1 st1)) = Some res"
      and eqs: "hi' = hi" "pattern' = pattern" "limit' = limit" "res = (ks, st')"
    obtain r st1 where c: "command hi (scan_args cursor' pattern) st0 = (r, st1)" by fastforce
    show "P cursor' keys' st0"
    proof (rule step [OF c])
      show "case scan_page r of
          None \<Rightarrow> ks = keys' \<and> st' = st1
        | Some (next, els) \<Rightarrow>
            (if snd (take_keys limit els keys') \<or> next = 0 then ks = fst (take_keys limit els keys') \<and> st' = st1
             else P next (fst (take_keys limit els keys')) st1)"
        using body IH unfolding eqs c by (auto simp: split_beta split: option.splits if_splits)
    qed
  qed
  then show ?thesis by blast
qed

lemma scan_loop_keeps:
  assumes "selects_databases hi sel" "scan_loop hi pattern limit cursor keys st = Some (ks, st')"
  shows "keeps sel st st'"
  using assms(2)
proof (induction rule: scan_loop_induct)
  case (page cursor keys st r st1)
  have "keeps sel st st1"
    using command_keeps [OF assms(1), of "scan_args cursor pattern" st] page(1)
    by (simp add: scan_args_def library_commands_def)
  with page(2) show ?case by (auto split: option.splits if_splits intro: keeps_trans)
qed


lemma select_command:
  assumes "selects_databases hi sel" "in_step sel st" "command hi (select_args i) st = (r, st1)"
  shows "if refused r then in_step sel st1 else in_step sel (st1\<lparr>rs_selectedDb := i\<rparr>)"
proof (cases "rs_ctx st")
  case (Some c)
  have "sel (snd (hi_send hi c (select_args i))) =
      (if refused (fst (hi_send hi c (select_args i))) then sel c else i)"
    using assms(1) by (simp add: selects_databases_def)
  with Some assms(2,3) show ?thesis by (auto simp: command_def in_step_def split: prod.splits)
qed (use assms(3) in \<open>auto simp: command_def in_step_def refused_def\<close>)

lemma command_ctx: "command hi args st = (r, st1) \<Longrightarrow> rs_ctx st1 = None \<longleftrightarrow> rs_ctx st = None"
  by (auto simp: command_def split: option.splits prod.splits)

lemma ensureSelected_ok:
  assumes "selects_databases hi sel" "in_step sel st" "ensureSelectedLocked hi i st = (ok, st1)"
  shows "in_step sel st1" "ok \<Longrightarrow> \<exists>c. rs_ctx st1 = Some c \<and> sel c = i"
proof -
  have "in_step sel st1 \<and> (ok \<longrightarrow> rs_ctx st1 \<noteq> None \<and> rs_selectedDb st1 = i)"
    using assms(3) select_command [OF assms(1,2)] assms(2)
    by (fastforce simp: ensureSelectedLocked_def dest: command_ctx split: if_splits prod.splits)
  then show "in_step sel st1" "ok \<Longrightarrow> \<exists>c. rs_ctx st1 = Some c \<and> sel c = i"
    by (auto simp: in_step_def)
qed

lemma open_context_sel:
  assumes "selects_databases hi sel" "open_context hi info = Inr (c, tls)"
  shows "sel c = 0"
proof -
  have send: "hi_send hi c0 args = (r, c1) \<Longrightarrow> args \<noteq> [] \<Longrightarrow> hd args \<in> set library_commands \<Longrightarrow> sel c1 = sel c0" for c0 args r c1
    using assms(1) by (metis selects_databases_def snd_conv)
  have tls: "hi_startTls hi c0 = (ok, c1) \<Longrightarrow> sel c1 = sel c0" for c0 ok c1
    using assms(1) by (metis selects_databases_def snd_conv)
  from assms(2) obtain c0 c1 c2 where "hi_connect hi (c_str (ci_host info)) (ci_port info) = Some c0"
    and c: "open_tls hi info c0 = Inr (c1, tls)" "open_auth hi info c1 = Inr c2" "open_ping hi c2 = Inr c"
    by (auto simp: open_context_def split: option.splits if_splits sum.splits)
  then have "sel c0 = 0" using assms(1) by (auto simp: selects_databases_def)
  moreover have "sel c1 = sel c0" using c(1) tls
    by (auto simp: open_tls_def split: if_splits option.splits prod.splits)
  moreover have "sel c2 = sel c1" using c(2) send
    by (auto simp: open_auth_def auth_args_def library_commands_def split: if_splits prod.splits)
  moreover have "sel c = sel c2" using c(3) send
    by (auto simp: open_ping_def library_commands_def split: if_splits prod.splits)
  ultimately show ?thesis by simp
qed

lemma open_rest_sel:
  assumes "selects_databases hi sel" "sel c = 0" "open_count hi c = (nk, c1)" "open_select hi info num c1 = (s, c2)"
  shows "sel c2 = s"
proof -
  have "sel c1 = 0"
  proof -
    have "sel (snd (hi_send hi c [''CONFIG'', ''GET'', ''databases''])) = sel c"
      using assms(1) by (simp add: selects_databases_def library_commands_def)
    with assms(2,3) show ?thesis by (auto simp: open_count_def split: prod.splits)
  qed
  moreover have "sel (snd (hi_send hi c1 (select_args i))) =
      (if refused (fst (hi_send hi c1 (select_args i))) then sel c1 else i)" for i
    using assms(1) by (simp add: selects_databases_def)
  ultimately show ?thesis using assms(4)
    by (auto simp: open_select_def split: if_splits option.splits prod.splits) (metis fst_conv snd_conv)+
qed

lemma redis_open_in_step:
  assumes "selects_databases hi sel" "in_step sel (rc_state conn)"
  shows "in_step sel (rc_state (snd (redis_open hi conn)))"
proof (cases "rs_ctx (rc_state conn) = None")
  case True
  show ?thesis
  proof (cases "open_context hi (rc_info conn)")
    case (Inr p)
    obtain c tls where p: "p = (c, tls)" by fastforce
    obtain num known c1 where n: "open_count hi c = ((num, known), c1)" by (metis prod.exhaust)
    obtain s c2 where s: "open_select hi (rc_info conn) num c1 = (s, c2)" by fastforce
    have "sel c2 = s"
      using open_rest_sel [OF assms(1) open_context_sel [OF assms(1)] n s] Inr p by simp
    with True Inr p n s show ?thesis by (simp add: redis_open_def in_step_def)
  qed (use True in \<open>simp add: redis_open_def cleanup_def in_step_def\<close>)
qed (use assms in \<open>simp add: redis_open_def\<close>)


section \<open>Everything that can happen to a connection\<close>

text \<open>
  One rule per call of the interface, on the connection or through a database handle. A command
  line from the user may be anything that leaves the selection alone; scans are the ones that end.
\<close>

inductive redis_step :: "'s Hiredis \<Rightarrow> ('s \<Rightarrow> int) \<Rightarrow> 's RedisConnection \<Rightarrow> 's RedisConnection \<Rightarrow> bool"
  for hi :: "'s Hiredis" and sel :: "'s \<Rightarrow> int" where
  step_open: "redis_step hi sel conn (snd (redis_open hi conn))"
| step_close: "redis_step hi sel conn (redis_close conn)"
| step_database: "redis_step hi sel conn (snd (redis_database name conn))"
| step_databases: "redis_step hi sel conn (snd (redis_databases conn))"
| step_select: "redis_step hi sel conn (snd (selectDatabase hi i conn))"
| step_info: "redis_step hi sel conn (snd (databaseInfo hi conn))"
| step_execute: "\<forall>c. sel (snd (hi_send hi c (parseRedisCommand cmd))) = sel c \<Longrightarrow>
    redis_step hi sel conn (conn\<lparr>rc_state := snd (rd_execute hi db cmd (rc_state conn))\<rparr>)"
| step_tables: "rd_tables hi db (rc_state conn) = Some (ts, st) \<Longrightarrow> redis_step hi sel conn (conn\<lparr>rc_state := st\<rparr>)"
| step_data: "rd_getTableData hi db t limit offset (rc_state conn) = Some (data, st) \<Longrightarrow>
    redis_step hi sel conn (conn\<lparr>rc_state := st\<rparr>)"
| step_rows: "rd_getRowCount hi db t (rc_state conn) = Some (n, st) \<Longrightarrow> redis_step hi sel conn (conn\<lparr>rc_state := st\<rparr>)"
| step_keys: "getKeys hi pattern limit (rc_state conn) = Some (ks, st) \<Longrightarrow> redis_step hi sel conn (conn\<lparr>rc_state := st\<rparr>)"
| step_type: "redis_step hi sel conn (conn\<lparr>rc_state := snd (getKeyType hi key (rc_state conn))\<rparr>)"
| step_ttl: "redis_step hi sel conn (conn\<lparr>rc_state := snd (getKeyTTL hi key (rc_state conn))\<rparr>)"
| step_value: "redis_step hi sel conn (conn\<lparr>rc_state := snd (getKeyValue hi key type (rc_state conn))\<rparr>)"

inductive redis_reachable :: "'s Hiredis \<Rightarrow> ('s \<Rightarrow> int) \<Rightarrow> ConnectionInfo \<Rightarrow> 's RedisConnection \<Rightarrow> bool"
  for hi :: "'s Hiredis" and sel :: "'s \<Rightarrow> int" and info :: ConnectionInfo where
  start: "redis_reachable hi sel info (new_redis_connection info)"
| more: "redis_reachable hi sel info conn \<Longrightarrow> redis_step hi sel conn conn' \<Longrightarrow> redis_reachable hi sel info conn'"


text \<open>The calls keep the state in step.\<close>

lemma scanKeys_in_step:
  assumes "selects_databases hi sel" "in_step sel st" "scanKeysLocked hi pattern limit st = Some (ks, st')"
  shows "in_step sel st'"
  using assms(3) scan_loop_keeps [OF assms(1)] assms(2) keeps_in_step
  by (fastforce simp: scanKeysLocked_def split: if_splits)

lemma fetchKeyDetails_in_step:
  assumes "selects_databases hi sel" "in_step sel st"
  shows "in_step sel (snd (fetchKeyDetails hi db names st))"
proof -
  obtain ok st1 where e: "ensureSelectedLocked hi (rd_index db) st = (ok, st1)" by fastforce
  with ensureSelected_ok(1) [OF assms e] keeps_in_step [OF key_details_keeps [OF assms(1), of st1 names]]
  show ?thesis using assms(2) by (auto simp: fetchKeyDetails_def Let_def)
qed

lemma handle_calls_in_step:
  assumes "selects_databases hi sel" "in_step sel st"
  shows "rd_tables hi db st = Some (ts, st') \<Longrightarrow> in_step sel st'"
    and "rd_getTableData hi db t limit offset st = Some (data, st') \<Longrightarrow> in_step sel st'"
    and "rd_getRowCount hi db t st = Some (n, st') \<Longrightarrow> in_step sel st'"
proof -
  obtain ok st1 where e: "ensureSelectedLocked hi (rd_index db) st = (ok, st1)" by fastforce
  note st1 = ensureSelected_ok(1) [OF assms e]
  show "rd_tables hi db st = Some (ts, st') \<Longrightarrow> in_step sel st'"
    using assms(2) st1 scanKeys_in_step [OF assms(1) st1] e
    by (auto simp: rd_tables_def split: if_splits option.splits)
  show "rd_getTableData hi db t limit offset st = Some (data, st') \<Longrightarrow> in_step sel st'"
    using assms(2) st1 scanKeys_in_step [OF assms(1) st1] fetchKeyDetails_in_step [OF assms(1)] e
    by (auto simp: rd_getTableData_def split: if_splits option.splits prod.splits) (metis snd_conv)+
  show "rd_getRowCount hi db t st = Some (n, st') \<Longrightarrow> in_step sel st'"
    using assms(2) st1 scanKeys_in_step [OF assms(1) st1] e
    by (auto simp: rd_getRowCount_def split: if_splits option.splits)
qed

lemma rd_execute_in_step:
  assumes "selects_databases hi sel" "in_step sel st"
    and "\<forall>c. sel (snd (hi_send hi c (parseRedisCommand cmd))) = sel c"
  shows "in_step sel (snd (rd_execute hi db cmd st))"
proof -
  obtain ok st1 where e: "ensureSelectedLocked hi (rd_index db) st = (ok, st1)" by fastforce
  note st1 = ensureSelected_ok(1) [OF assms(1,2) e]
  obtain r st2 where c: "command hi (parseRedisCommand cmd) st1 = (r, st2)" by fastforce
  have "keeps sel st1 st2"
    using c assms(3) by (auto simp: command_def keeps_def split: option.splits prod.splits) (metis snd_conv)
  from keeps_in_step [OF this st1] st1 assms(2) show ?thesis
    by (auto simp: rd_execute_def Let_def e c split: option.split Reply.split)
qed

lemma connection_calls_in_step:
  assumes "selects_databases hi sel" "in_step sel st"
  shows "getKeys hi pattern limit st = Some (ks, st') \<Longrightarrow> in_step sel st'"
    and "in_step sel (snd (getKeyType hi key st))"
    and "in_step sel (snd (getKeyTTL hi key st))"
    and "in_step sel (snd (getKeyValue hi key type st))"
proof -
  have k: "in_step sel st0 \<Longrightarrow> args \<noteq> [] \<Longrightarrow> hd args \<in> set library_commands \<Longrightarrow> in_step sel (snd (command hi args st0))" for args st0
    using command_keeps [OF assms(1)] keeps_in_step by blast
  have "in_step sel st'" if "scan_loop hi pattern limit 0 [] st = Some (ns, st1)"
    "key_details hi (sort ns) st1 = (ks, st')" for ns st1
    using keeps_trans [OF scan_loop_keeps [OF assms(1) that(1)] key_details_keeps [OF assms(1), of st1 "sort ns"]]
      that(2) keeps_in_step assms(2) by fastforce
  then show "getKeys hi pattern limit st = Some (ks, st') \<Longrightarrow> in_step sel st'"
    using assms(2) by (auto simp: getKeys_def split: if_splits)
  show type: "in_step sel (snd (getKeyType hi key st))" for key
    using assms(2) k [OF assms(2), of "[''TYPE'', c_str key]"]
    by (simp add: getKeyType_def split_beta library_commands_def)
  show "in_step sel (snd (getKeyTTL hi key st))"
    using assms(2) k [OF assms(2), of "[''TTL'', c_str key]"]
    by (simp add: getKeyTTL_def split_beta library_commands_def)
  have args: "value_args ty key = Some as \<Longrightarrow> as \<noteq> [] \<and> hd as \<in> set library_commands" for ty as
    by (auto simp: value_args_def library_commands_def split: if_splits)
  have "in_step sel (snd (if type = [] then getKeyType hi key st else (type, st)))"
    using assms(2) type by simp
  then show "in_step sel (snd (getKeyValue hi key type st))"
    using k args by (auto simp: getKeyValue_def split_beta split: option.split)
qed

lemma redis_database_state [simp]: "rc_state (snd (redis_database name conn)) = rc_state conn"
  by (auto simp: redis_database_def Let_def split: option.split)

lemma redis_handles_state [simp]: "rc_state (snd (redis_handles is conn)) = rc_state conn"
  by (induction "is" arbitrary: conn) (simp_all add: split_beta)

lemma server_calls_in_step:
  assumes "selects_databases hi sel" "in_step sel (rc_state conn)"
  shows "in_step sel (rc_state (snd (selectDatabase hi i conn)))"
    and "in_step sel (rc_state (snd (databaseInfo hi conn)))"
proof -
  obtain r st1 where c: "command hi (select_args i) (rc_state conn) = (r, st1)" by fastforce
  from select_command [OF assms c] assms(2) show "in_step sel (rc_state (snd (selectDatabase hi i conn)))"
    by (auto simp: selectDatabase_def Let_def c)
  have "in_step sel (snd (command hi [''INFO'', ''keyspace''] (rc_state conn)))"
    using command_keeps [OF assms(1), of "[''INFO'', ''keyspace'']"] keeps_in_step assms(2)
    by (fastforce simp: library_commands_def)
  with assms(2) show "in_step sel (rc_state (snd (databaseInfo hi conn)))"
    by (simp add: databaseInfo_def Let_def split_beta)
qed

text \<open>Handles in the cache are the handles of their index.\<close>

definition cache_ok :: "ConnectionInfo \<Rightarrow> 's RedisConnection \<Rightarrow> bool" where
  "cache_ok info conn \<longleftrightarrow> rc_info conn = info \<and>
     (\<forall>i db. rc_dbCache conn i = Some db \<longrightarrow> db = \<lparr>rd_index = i, rd_connName = ci_name info\<rparr>)"

lemma cache_ok_state [simp]: "cache_ok info (conn\<lparr>rc_state := st\<rparr>) \<longleftrightarrow> cache_ok info conn"
  by (simp add: cache_ok_def)

lemma redis_database_cache:
  "cache_ok info conn \<Longrightarrow> cache_ok info (snd (redis_database name conn))"
  by (auto simp: redis_database_def cache_ok_def Let_def split: option.splits if_splits)

lemma redis_handles_cache: "cache_ok info conn \<Longrightarrow> cache_ok info (snd (redis_handles is conn))"
  by (induction "is" arbitrary: conn) (simp_all add: split_beta redis_database_cache)

lemma redis_step_invariant:
  assumes "redis_step hi sel conn conn'" "selects_databases hi sel"
    and "in_step sel (rc_state conn) \<and> cache_ok info conn"
  shows "in_step sel (rc_state conn') \<and> cache_ok info conn'"
  using assms(1)
proof cases
  case step_open
  have "cache_ok info (snd (redis_open hi conn))"
    using assms(3) by (auto simp: redis_open_def cache_ok_def split: sum.split prod.split)
  with step_open redis_open_in_step assms show ?thesis by blast
next
  case step_close
  then show ?thesis using assms(3) by (simp add: redis_close_def cleanup_def in_step_def cache_ok_def)
next
  case step_select
  have "cache_ok info (snd (selectDatabase hi i conn))" for i
    using assms(3) by (auto simp: selectDatabase_def Let_def cache_ok_def split: prod.split)
  with step_select server_calls_in_step(1) assms show ?thesis by blast
next
  case step_info
  have "cache_ok info (snd (databaseInfo hi conn))"
    using assms(3) by (auto simp: databaseInfo_def Let_def split_beta)
  with step_info server_calls_in_step(2) assms show ?thesis by blast
qed (use assms rd_execute_in_step handle_calls_in_step connection_calls_in_step redis_database_cache
    redis_handles_cache in \<open>auto simp: redis_databases_def\<close>)

lemma redis_reachable_invariant:
  assumes "redis_reachable hi sel info conn" "selects_databases hi sel"
  shows "in_step sel (rc_state conn) \<and> cache_ok info conn"
  using assms(1)
proof induction
  case start
  show ?case
    by (simp add: new_redis_connection_def new_redis_state_def in_step_def cache_ok_def)
next
  case (more conn conn')
  then show ?case using redis_step_invariant [OF _ assms(2)] by blast
qed



section \<open>Scans\<close>

lemma take_keys_length:
  "int (length keys) \<le> max 1 limit \<Longrightarrow> int (length keys) < limit \<or> keys = [] \<Longrightarrow>
   int (length (fst (take_keys limit rs keys))) \<le> max 1 limit \<and>
   (snd (take_keys limit rs keys) \<or> int (length (fst (take_keys limit rs keys))) < limit \<or>
      fst (take_keys limit rs keys) = [])"
  by (induction limit rs keys rule: take_keys.induct) (auto split: Reply.split)

lemma scan_loop_length:
  assumes "scan_loop hi pattern limit cursor keys st = Some (ks, st')"
    and "int (length keys) < limit \<or> keys = []"
  shows "int (length ks) \<le> max 1 limit"
  using assms
proof (induction rule: scan_loop_induct)
  case (page cursor keys st r st1)
  have start: "int (length keys) \<le> max 1 limit" using page(3) by auto
  show ?case
  proof (cases "scan_page r")
    case (Some p)
    with page(2,3) take_keys_length [OF start page(3), of "snd p"] show ?thesis
      by (auto simp: split_beta split: if_splits)
  qed (use page(2) start in simp)
qed

text \<open>The server's pages from a cursor come to an end within \<open>n\<close> more pages.\<close>

fun scan_ends :: "'s Hiredis \<Rightarrow> bytes \<Rightarrow> nat \<Rightarrow> nat \<Rightarrow> 's RedisState \<Rightarrow> bool" where
  "scan_ends hi pattern 0 cursor st =
     (case scan_page (fst (command hi (scan_args cursor pattern) st)) of None \<Rightarrow> True | Some (next, els) \<Rightarrow> next = 0)"
| "scan_ends hi pattern (Suc n) cursor st =
     (case scan_page (fst (command hi (scan_args cursor pattern) st)) of
        None \<Rightarrow> True
      | Some (next, els) \<Rightarrow> next = 0 \<or> scan_ends hi pattern n next (snd (command hi (scan_args cursor pattern) st)))"

lemma scan_loop_returns:
  "scan_ends hi pattern n cursor st \<Longrightarrow> \<exists>ks st'. scan_loop hi pattern limit cursor keys st = Some (ks, st')"
proof (induction n arbitrary: cursor keys st)
  case (0 cursor keys st)
  obtain r st1 where c: "command hi (scan_args cursor pattern) st = (r, st1)" by fastforce
  from 0 c show ?case unfolding scan_loop_step [OF c] by (auto split: option.splits)
next
  case (Suc n cursor keys st)
  obtain r st1 where c: "command hi (scan_args cursor pattern) st = (r, st1)" by fastforce
  from Suc c show ?case unfolding scan_loop_step [OF c]
    by (auto split: option.splits)
qed

section \<open>A server to run against\<close>

text \<open>An in-memory server for concrete runs: sixteen databases of strings, each answered in one page.\<close>

record Memory =
  mm_sel :: int
  mm_dbs :: "(int \<times> (bytes \<times> bytes) list) list"

definition mm_keys :: "Memory \<Rightarrow> (bytes \<times> bytes) list" where
  "mm_keys m = (case map_of (mm_dbs m) (mm_sel m) of None \<Rightarrow> [] | Some kvs \<Rightarrow> kvs)"

definition memory_select :: "Memory \<Rightarrow> bytes list \<Rightarrow> Reply \<times> Memory" where
  "memory_select m args =
     (case List.find (\<lambda>i. to_string (int i) = args ! 1) [0..<16] of
        None \<Rightarrow> (RError ''ERR DB index is out of range'', m)
      | Some i \<Rightarrow> (RStatus ''OK'', m\<lparr>mm_sel := int i\<rparr>))"

definition memory_reply :: "Memory \<Rightarrow> bytes list \<Rightarrow> Reply" where
  "memory_reply m args =
     (let cmd = hd args in
      if cmd = ''PING'' then RStatus ''PONG''
      else if cmd = ''GET'' then (case map_of (mm_keys m) (args ! 1) of None \<Rightarrow> RNil | Some v \<Rightarrow> RString v)
      else if cmd = ''SCAN'' then RArray [RString ''0'', RArray (map (RString \<circ> fst) (mm_keys m))]
      else if cmd = ''TYPE'' then RStatus ''string''
      else if cmd = ''TTL'' then RInteger (-1)
      else if cmd = ''MEMORY'' then RInteger 64
      else if cmd = ''CONFIG'' then RArray [RString ''databases'', RString ''16'']
      else if cmd = ''INFO'' then RString (''db2:keys=4,expires=0,avg_ttl=0'' @ [carriage, newline])
      else RError ''ERR unknown command'')"

definition memory_send :: "Memory \<Rightarrow> bytes list \<Rightarrow> Reply option \<times> Memory" where
  "memory_send m args =
     (if hd args = ''SELECT'' then (case memory_select m args of (r, m') \<Rightarrow> (Some r, m'))
      else (Some (memory_reply m args), m))"

definition memory_redis :: "(int \<times> (bytes \<times> bytes) list) list \<Rightarrow> Memory Hiredis" where
  "memory_redis dbs =
     \<lparr>hi_connect = (\<lambda>host port. Some \<lparr>mm_sel = 0, mm_dbs = dbs\<rparr>), hi_err = (\<lambda>c. False), hi_errstr = (\<lambda>c. []),
      hi_hasSsl = True, hi_sslContext = (\<lambda>ca. None), hi_startTls = (\<lambda>c. (True, c)), hi_send = memory_send\<rparr>"

lemma to_string_inject: "to_string (int n) = to_string i \<Longrightarrow> i = int n"
proof -
  assume eq: "to_string (int n) = to_string i"
  have "hd (nat_to_string n) \<noteq> CHR ''-''"
    using nat_to_string_digits [of n] nat_to_string_nonempty [of n] isdigit_not_sign
    by (metis hd_in_set list_all_iff)
  with eq have "\<not> i < 0" by (auto simp: to_string_def)
  with eq have "nat_of_digits (nat_to_string n) = nat_of_digits (nat_to_string (nat i))" by (simp add: to_string_def)
  with \<open>\<not> i < 0\<close> show ?thesis by simp
qed

lemma memory_selects: "selects_databases (memory_redis dbs) mm_sel"
proof -
  have "mm_sel (snd (memory_send c (select_args i))) =
      (if refused (fst (memory_send c (select_args i))) then mm_sel c else i)" for c i
    using to_string_inject
    by (auto simp: memory_send_def memory_select_def select_args_def refused_def find_Some_iff split: option.splits)
  moreover have "mm_sel (snd (memory_send c args)) = mm_sel c" if "hd args \<in> set library_commands" for c args
    using that by (auto simp: memory_send_def library_commands_def)
  ultimately show ?thesis by (simp add: selects_databases_def memory_redis_def)
qed

definition sample_info :: ConnectionInfo where
  "sample_info = \<lparr>ci_type = REDIS, ci_name = ''r'', ci_path = [], ci_host = ''h'', ci_port = 6379, ci_database = [],
     ci_username = [], ci_password = [], ci_showAllDatabases = False, ci_sslmode = Disable, ci_sslCACertPath = [],
     ci_readOnly = False\<rparr>"

definition sample_dbs :: "(int \<times> (bytes \<times> bytes) list) list" where
  "sample_dbs = [(0, [(''k'', ''zero'')]), (1, [(''k'', ''one'')]),
     (2, [(''z'', ''1''), (''y'', ''2''), (''a'', ''3''), (''b'', ''4'')])]"

definition sample_redis :: "Memory Hiredis" where
  "sample_redis = memory_redis sample_dbs"

text \<open>The state right after \<^verbatim>\<open>open()\<close>, and with another database selected.\<close>

definition sample_state :: "int \<Rightarrow> Memory RedisState" where
  "sample_state i = \<lparr>rs_ctx = Some \<lparr>mm_sel = i, mm_dbs = sample_dbs\<rparr>, rs_ssl = False, rs_selectedDb = i,
     rs_numDatabases = 16, rs_dbCountKnown = True\<rparr>"

definition sample_connection :: "Memory RedisConnection" where
  "sample_connection = snd (redis_open sample_redis (new_redis_connection sample_info))"

definition sample_handle :: "int \<Rightarrow> RedisDatabase" where
  "sample_handle i = \<lparr>rd_index = i, rd_connName = ''r''\<rparr>"

definition result_cell :: "QueryResult \<Rightarrow> bytes" where
  "result_cell r = hd (hd (sr_tableData (hd (qr_statements r))))"

lemma sample_connection_state: "rc_state sample_connection = sample_state 0" "rc_selectedDb sample_connection = 0"
  by code_simp+

lemma sample_reachable: "redis_reachable sample_redis mm_sel sample_info sample_connection"
  unfolding sample_connection_def by (rule more [OF start step_open])


section \<open>Properties\<close>

lemma rd_execute_runs_on:
  assumes "selects_databases hi sel" "in_step sel st" "qr_success (fst (rd_execute hi db cmd st))"
  shows "\<exists>c x. sel c = rd_index db \<and> fst (hi_send hi c (parseRedisCommand cmd)) = Some x \<and>
    sr_tableData (hd (qr_statements (fst (rd_execute hi db cmd st)))) = [[format_reply x]]"
proof -
  obtain ok st1 where e: "ensureSelectedLocked hi (rd_index db) st = (ok, st1)" by fastforce
  obtain r st2 where c: "command hi (parseRedisCommand cmd) st1 = (r, st2)" by fastforce
  have failed: "\<not> qr_success (failed_result m)" for m by (simp add: failed_result_def one_result_def qr_success_def)
  with assms(3) have ok: "ok" and r: "r \<noteq> None" "\<not> refused r"
    by (auto simp: rd_execute_def Let_def e c refused_def split: if_splits option.splits Reply.splits)
  then obtain x where x: "r = Some x" "\<not> is_error x" by (auto simp: refused_def)
  obtain ctx where ctx: "rs_ctx st1 = Some ctx" "sel ctx = rd_index db"
    using ensureSelected_ok(2) [OF assms(1,2) e ok] by blast
  have "fst (hi_send hi ctx (parseRedisCommand cmd)) = Some x"
    using c x ctx by (auto simp: command_def split: prod.splits)
  moreover have "sr_tableData (hd (qr_statements (fst (rd_execute hi db cmd st)))) = [[format_reply x]]"
    using assms(3) failed ok x by (cases x) (auto simp: rd_execute_def Let_def e c one_result_def split: if_splits)
  ultimately show ?thesis using ctx by blast
qed

text \<open>
  C17: as long as the user's own command lines leave the selection alone, the library never loses track
  of the logical database: in every reachable state the number it remembers is the one the server
  has selected, whatever calls were made through whatever handles. So a successful command run
  through a handle was answered by its own database, and cached handles are those of their index.
\<close>

theorem redis_selection_tracked:
  assumes "selects_databases hi sel" "redis_reachable hi sel info conn"
  shows "in_step sel (rc_state conn) \<and>
    (\<forall>db cmd. qr_success (fst (rd_execute hi db cmd (rc_state conn))) \<longrightarrow>
       (\<exists>c x. sel c = rd_index db \<and> fst (hi_send hi c (parseRedisCommand cmd)) = Some x \<and>
          sr_tableData (hd (qr_statements (fst (rd_execute hi db cmd (rc_state conn))))) = [[format_reply x]])) \<and>
    (\<forall>i db. rc_dbCache conn i = Some db \<longrightarrow> rd_index db = i)"
proof -
  have inv: "in_step sel (rc_state conn)" "cache_ok info conn"
    using redis_reachable_invariant [OF assms(2,1)] by simp_all
  have "rd_index db = i" if "rc_dbCache conn i = Some db" for i db
  proof -
    have "db = \<lparr>rd_index = i, rd_connName = ci_name info\<rparr>" using inv(2) that by (simp add: cache_ok_def)
    then show ?thesis by simp
  qed
  with inv(1) rd_execute_runs_on [OF assms(1) inv(1)] show ?thesis by blast
qed

theorem redis_selection_tracked_witness:
  "in_step mm_sel (rc_state sample_connection) \<and>
   (\<exists>c x. mm_sel c = 1 \<and> fst (memory_send c (parseRedisCommand ''GET k'')) = Some x)"
proof -
  have run: "qr_success (fst (rd_execute sample_redis (sample_handle 1) ''GET k'' (sample_state 0)))"
    by code_simp
  have "selects_databases sample_redis mm_sel" by (simp add: sample_redis_def memory_selects)
  note all = redis_selection_tracked [OF this sample_reachable, unfolded sample_connection_state]
  then have "\<exists>c x. mm_sel c = rd_index (sample_handle 1) \<and>
      fst (hi_send sample_redis c (parseRedisCommand ''GET k'')) = Some x" using run by blast
  moreover have "hi_send sample_redis = memory_send" by (simp add: sample_redis_def memory_redis_def)
  ultimately show ?thesis using all by (simp add: sample_connection_state sample_handle_def)
qed

text \<open>
  C36: opening a closed connection succeeds exactly when it ends with a context; then the database it
  remembers as selected is the connection's, and it is encrypted exactly when hiredis has TLS and the
  mode is Require, VerifyCA or VerifyFull. So VerifyIdentity, the strictest mode, connects in clear
  text.
\<close>

theorem redis_open_tls:
  assumes "rs_ctx (rc_state conn) = None" "redis_open hi conn = ((ok, msg), conn')"
  shows "(ok \<longleftrightarrow> rs_ctx (rc_state conn') \<noteq> None) \<and>
    (ok \<longrightarrow> (rs_ssl (rc_state conn') \<longleftrightarrow> hi_hasSsl hi \<and> ci_sslmode (rc_info conn) \<in> {Require, VerifyCA, VerifyFull}) \<and>
       rs_selectedDb (rc_state conn') = rc_selectedDb conn') \<and>
    (ok \<and> ci_sslmode (rc_info conn) = VerifyIdentity \<longrightarrow> \<not> rs_ssl (rc_state conn'))"
proof (cases "open_context hi (rc_info conn)")
  case (Inl e)
  with assms show ?thesis by (auto simp: redis_open_def cleanup_def)
next
  case (Inr p)
  obtain c tls where p: "p = (c, tls)" by fastforce
  have "tls \<longleftrightarrow> hi_hasSsl hi \<and> wants_tls (ci_sslmode (rc_info conn))"
    using Inr p by (auto simp: open_context_def open_tls_def split: option.splits if_splits sum.splits prod.splits)
  with assms Inr p show ?thesis
    by (auto simp: redis_open_def wants_tls_def split: prod.splits)
qed

theorem redis_open_tls_witness:
  "\<not> rs_ssl (rc_state (snd (redis_open sample_redis (new_redis_connection (sample_info\<lparr>ci_sslmode := VerifyIdentity\<rparr>)))))"
proof -
  let ?conn = "new_redis_connection (sample_info\<lparr>ci_sslmode := VerifyIdentity\<rparr>) :: Memory RedisConnection"
  have closed: "rs_ctx (rc_state ?conn) = None" by (simp add: new_redis_connection_def new_redis_state_def)
  obtain ok msg conn' where o: "redis_open sample_redis ?conn = ((ok, msg), conn')" by (metis prod.exhaust)
  have "fst (fst (redis_open sample_redis ?conn))" by code_simp
  with redis_open_tls [OF closed o] o show ?thesis
    by (simp add: new_redis_connection_def sample_info_def)
qed

text \<open>
  C35: a scan for keys returns whenever the server's own iteration ends, and never returns more keys than
  asked for (one, if fewer than one is asked for).
\<close>

theorem scanKeys_returns_within_limit:
  assumes "scan_ends hi pattern n 0 st"
  shows "\<exists>keys st'. scanKeysLocked hi pattern limit st = Some (keys, st') \<and> int (length keys) \<le> max 1 limit"
proof (cases "rs_ctx st = None")
  case False
  obtain ks st' where "scan_loop hi pattern limit 0 [] st = Some (ks, st')"
    using scan_loop_returns [OF assms] by blast
  with False scan_loop_length [OF this] show ?thesis by (simp add: scanKeysLocked_def)
qed (simp add: scanKeysLocked_def)

theorem scanKeys_returns_within_limit_witness:
  "\<exists>keys st'. scanKeysLocked sample_redis ''*'' 3 (sample_state 2) = Some (keys, st') \<and> int (length keys) \<le> max 1 3"
proof -
  have "scan_ends sample_redis ''*'' 0 0 (sample_state 2)" by code_simp
  from scanKeys_returns_within_limit [OF this] show ?thesis .
qed

text \<open>
  \<^verbatim>\<open>databaseInfo\<close> lists the databases 0, 1, ... in order, one entry each, and marks as holding keys
  exactly those the server reported; when the server does not tell how many there are, no reported
  database is left out.
\<close>

lemma databaseInfo_lists_databases:
  assumes "databaseInfo hi conn = (Inr infos, conn')"
    and "found = fst ` set (read_keyspace (info_text (fst (command hi [''INFO'', ''keyspace''] (rc_state conn)))))"
  shows "(\<forall>i<length infos. ki_index (infos ! i) = int i \<and> (ki_hasKeys (infos ! i) \<longleftrightarrow> int i \<in> found)) \<and>
    (\<not> rs_dbCountKnown (rc_state conn') \<longrightarrow> (\<forall>i\<in>found. i < int (length infos)))"
proof -
  let ?r = "command hi [''INFO'', ''keyspace''] (rc_state conn)"
  let ?text = "info_text (fst ?r)"
  let ?n = "info_count (rs_dbCountKnown (snd ?r)) (rs_numDatabases (snd ?r)) (rc_selectedDb conn) (read_keyspace ?text)"
  have infos: "infos = database_infos ?n (read_keyspace ?text)" and st: "rc_state conn' = snd ?r"
    using assms(1) by (auto simp: databaseInfo_def Let_def split_beta split: if_splits)
  have len: "length infos = nat ?n" by (simp add: infos database_infos_def)
  have "ki_index (infos ! i) = int i \<and> (ki_hasKeys (infos ! i) \<longleftrightarrow> int i \<in> found)" if "i < length infos" for i
    using database_infos_nth [of i ?n ?text] that len unfolding infos assms(2) by auto
  moreover have "i < int (length infos)" if "\<not> rs_dbCountKnown (rc_state conn')" "i \<in> found" for i
  proof -
    from that(2) obtain d where "(i, d) \<in> set (read_keyspace ?text)" unfolding assms(2) by force
    from info_count_bound [OF _ this, of "rs_dbCountKnown (snd ?r)" "rs_numDatabases (snd ?r)" "rc_selectedDb conn"]
    show ?thesis using that(1) st by (simp add: len)
  qed
  ultimately show ?thesis by blast
qed


lemma databaseInfo_lists_databases_witness:
  "\<exists>infos conn'. databaseInfo sample_redis (sample_connection\<lparr>rc_state := (sample_state 0)\<lparr>rs_dbCountKnown := False\<rparr>\<rparr>) =
     (Inr infos, conn') \<and> (\<forall>i<length infos. ki_index (infos ! i) = int i)"
proof -
  let ?conn = "sample_connection\<lparr>rc_state := (sample_state 0)\<lparr>rs_dbCountKnown := False\<rparr>\<rparr>"
  have "\<not> isl (fst (databaseInfo sample_redis ?conn))" by code_simp
  then obtain infos conn' where d: "databaseInfo sample_redis ?conn = (Inr infos, conn')"
    by (metis prod.exhaust fst_conv sum.disc(1) sum.exhaust)
  from databaseInfo_lists_databases [OF d refl] have "\<forall>i<length infos. ki_index (infos ! i) = int i" by simp
  with d show ?thesis by (intro exI conjI)
qed

text \<open>
  Five ways in which the Redis backend departs from what its callers may expect, on a concrete server.
  An empty argument is lost from a command line. A SELECT typed by the user through the handle of
  database 0 makes later commands through that handle run on database 1. After a call through the
  handle of database 1 the connection's own \<^verbatim>\<open>getKeys\<close> lists database 1, while \<^verbatim>\<open>selectedDatabase()\<close>
  is still 0. And since each page of a key listing sorts only as many keys as it has scanned, pages
  of two over the keys z, y, a, b show y and z twice and never a and b. The strictest TLS mode asks
  for no TLS.
\<close>

lemma redis_deviations:
  "\<not> wants_tls VerifyIdentity \<and>
   parseRedisCommand (''SET k '' @ [dquote, dquote]) = [''SET'', ''k''] \<and>
   result_cell (fst (rd_execute sample_redis (sample_handle 0) ''GET k''
     (snd (rd_execute sample_redis (sample_handle 0) ''SELECT 1'' (sample_state 0))))) = ''one'' \<and>
   map_option (map rk_value \<circ> fst) (getKeys sample_redis ''*'' 10
     (snd (rd_execute sample_redis (sample_handle 1) ''PING'' (sample_state 0)))) = Some [''one''] \<and>
   rc_selectedDb sample_connection = 0 \<and>
   map_option (map hd \<circ> fst) (rd_getTableData sample_redis (sample_handle 2) default_table 2 0 (sample_state 2)) =
     Some [''y'', ''z''] \<and>
   map_option (map hd \<circ> fst) (rd_getTableData sample_redis (sample_handle 2) default_table 2 2 (sample_state 2)) =
     Some [''y'', ''z'']"
proof (intro conjI)
  show "\<not> wants_tls VerifyIdentity" by (simp add: wants_tls_def)
  show "parseRedisCommand (''SET k '' @ [dquote, dquote]) = [''SET'', ''k'']" by code_simp
  have "snd (rd_execute sample_redis (sample_handle 0) ''SELECT 1'' (sample_state 0)) =
      (sample_state 0)\<lparr>rs_ctx := Some \<lparr>mm_sel = 1, mm_dbs = sample_dbs\<rparr>\<rparr>" by code_simp
  then show "result_cell (fst (rd_execute sample_redis (sample_handle 0) ''GET k''
     (snd (rd_execute sample_redis (sample_handle 0) ''SELECT 1'' (sample_state 0))))) = ''one''"
    by (simp only:) code_simp
  have "snd (rd_execute sample_redis (sample_handle 1) ''PING'' (sample_state 0)) = sample_state 1" by code_simp
  then show "map_option (map rk_value \<circ> fst) (getKeys sample_redis ''*'' 10
     (snd (rd_execute sample_redis (sample_handle 1) ''PING'' (sample_state 0)))) = Some [''one'']"
    by (simp only:) code_simp
  show "rc_selectedDb sample_connection = 0" by (rule sample_connection_state)
  show "map_option (map hd \<circ> fst) (rd_getTableData sample_redis (sample_handle 2) default_table 2 0 (sample_state 2)) =
     Some [''y'', ''z'']" by code_simp
  show "map_option (map hd \<circ> fst) (rd_getTableData sample_redis (sample_handle 2) default_table 2 2 (sample_state 2)) =
     Some [''y'', ''z'']" by code_simp
qed

end
