(* ===== verification/Catalog_Reading.thy ===== *)
theory Catalog_Reading
  imports Database_Api
begin

text \<open>
  What the backends share when they read a catalog and when they hand out handles: rows collected
  into a hash map from a table's name to its columns or keys and moved out of it table by table, an
  ordered map from an index's name to its columns, and the cache of one handle per database name.
  Handles are shared pointers, so the model numbers them: a number stands for the object, and the
  objects live in the list of all handles ever made.
\<close>


section \<open>Rows by name\<close>

text \<open>
  \<open>by_name f data\<close>: the map that the loop \<^verbatim>\<open>for (row) m[row[0]].push_back(...)\<close> leaves, with \<open>f\<close> giving the
  name and the value of a row, or nothing for a row that is skipped. A name that is not in the map
  has the empty vector, which is what \<^verbatim>\<open>m[name]\<close> makes for it.
\<close>

definition push_row :: "('r \<Rightarrow> ('k \<times> 'a) option) \<Rightarrow> ('k \<Rightarrow> 'a list) \<Rightarrow> 'r \<Rightarrow> 'k \<Rightarrow> 'a list" where
  "push_row f m row = (case f row of None \<Rightarrow> m | Some (k, v) \<Rightarrow> m(k := m k @ [v]))"

definition by_name :: "('r \<Rightarrow> ('k \<times> 'a) option) \<Rightarrow> 'r list \<Rightarrow> 'k \<Rightarrow> 'a list" where
  "by_name f data = foldl (push_row f) (\<lambda>_. []) data"

text \<open>The vectors are moved out of the map, so a second table of one name finds an empty one.\<close>

fun moved_out :: "('k \<Rightarrow> 'a list) \<Rightarrow> 'k list \<Rightarrow> 'a list list" where
  "moved_out m [] = []"
| "moved_out m (n # ns) = m n # moved_out (m(n := [])) ns"

text \<open>\<^verbatim>\<open>m[row[0]] = ...\<close>: the last row of a name counts.\<close>

definition last_by_name :: "('r \<Rightarrow> ('k \<times> 'a) option) \<Rightarrow> 'r list \<Rightarrow> 'k \<Rightarrow> 'a option" where
  "last_by_name f data n = (case rev (by_name f data n) of [] \<Rightarrow> None | v # _ \<Rightarrow> Some v)"

definition first_cells :: "bytes list list \<Rightarrow> bytes list" where
  "first_cells data = map hd (filter (\<lambda>row. row \<noteq> []) data)"

definition default_key :: ForeignKey where
  "default_key = \<lparr>fk_name = [], fk_sourceColumn = [], fk_targetTable = [], fk_targetColumn = [],
     fk_onDelete = [], fk_onUpdate = []\<rparr>"

definition default_index :: Index where
  "default_index = \<lparr>idx_name = [], idx_columns = [], idx_isUnique = False, idx_isPrimary = False, idx_type = []\<rparr>"

text \<open>
  Indexes from rows of one column each: a name not seen yet starts an index, and every row adds its
  column to the index of its name.
\<close>

definition add_index_row :: "bytes \<Rightarrow> bool \<Rightarrow> bytes \<Rightarrow> Index list \<Rightarrow> Index list" where
  "add_index_row name unique column idxs =
     (let idxs1 = (if name \<in> set (map idx_name idxs) then idxs
                   else idxs @ [default_index\<lparr>idx_name := name, idx_isUnique := unique\<rparr>])
      in map (\<lambda>i. if idx_name i = name then i\<lparr>idx_columns := idx_columns i @ [column]\<rparr> else i) idxs1)"

text \<open>\<^verbatim>\<open>std::stoll\<close> of a size, with \<^verbatim>\<open>-1\<close> for a text that is no number.\<close>

definition size_or_unknown :: "bytes \<Rightarrow> int" where
  "size_or_unknown s = (case stol s of None \<Rightarrow> -1 | Some v \<Rightarrow> v)"

lemma push_rows:
  "foldl (push_row f) m data n = m n @ map snd (filter (\<lambda>p. fst p = n) (List.map_filter f data))"
proof (induction data arbitrary: m)
  case (Cons r rs)
  then show ?case by (cases "f r") (auto simp: push_row_def map_filter_simps)
qed (simp add: map_filter_simps)

text \<open>What the loop stores under a name: the values of the rows of that name, in row order.\<close>

lemma by_name_filter: "by_name f data n = map snd (filter (\<lambda>p. fst p = n) (List.map_filter f data))"
  by (simp add: by_name_def push_rows)

lemma by_name_simps [simp]:
  "by_name f [] n = []"
  "by_name f (r # rs) n = (case f r of None \<Rightarrow> [] | Some (k, v) \<Rightarrow> if k = n then [v] else []) @ by_name f rs n"
  by (auto simp: by_name_filter map_filter_def split: option.split)

lemma moved_out_length [simp]: "length (moved_out m ns) = length ns"
  by (induction ns arbitrary: m) simp_all

lemma moved_out_cong: "(\<And>n. n \<in> set ns \<Longrightarrow> m n = m' n) \<Longrightarrow> moved_out m ns = moved_out m' ns"
proof (induction ns arbitrary: m m')
  case (Cons n ns)
  have "moved_out (m(n := [])) ns = moved_out (m'(n := [])) ns"
    by (rule Cons.IH) (use Cons.prems in auto)
  with Cons.prems show ?case by simp
qed simp

lemma moved_out_distinct: "distinct ns \<Longrightarrow> moved_out m ns = map m ns"
proof (induction ns arbitrary: m)
  case (Cons n ns)
  then have "moved_out (m(n := [])) ns = moved_out m ns" by (intro moved_out_cong) auto
  with Cons show ?case by simp
qed simp

lemma add_index_row_names:
  "map idx_name (add_index_row name unique column idxs) =
     (if name \<in> set (map idx_name idxs) then map idx_name idxs else map idx_name idxs @ [name])"
  by (auto simp: add_index_row_def Let_def default_index_def)

lemma add_index_row_distinct:
  "distinct (map idx_name idxs) \<Longrightarrow> distinct (map idx_name (add_index_row name unique column idxs))"
  unfolding add_index_row_names by simp


section \<open>Row limits\<close>

text \<open>A limit that is not positive is none.\<close>

definition limited :: "int \<Rightarrow> 'a list \<Rightarrow> 'a list" where
  "limited rowLimit xs = (if rowLimit > 0 then take (nat rowLimit) xs else xs)"

definition within_limit :: "int \<Rightarrow> StatementResult \<Rightarrow> bool" where
  "within_limit L s \<longleftrightarrow> L > 0 \<longrightarrow> length (sr_tableData s) \<le> nat L"

lemma within_limit_limited: "sr_tableData s = limited L xs \<Longrightarrow> within_limit L s"
  by (simp add: within_limit_def limited_def)


section \<open>One handle per database name\<close>

record 'h Pool =
  pl_info :: ConnectionInfo
  pl_open :: bool
  pl_cache :: "(bytes \<times> nat) list"
  pl_handles :: "'h list"

type_synonym 'h maker = "ConnectionInfo \<Rightarrow> bytes \<Rightarrow> 'h"

definition new_pool :: "ConnectionInfo \<Rightarrow> 'h Pool" where
  "new_pool info = \<lparr>pl_info = info, pl_open = False, pl_cache = [], pl_handles = []\<rparr>"

definition pool_add :: "'h \<Rightarrow> 'h Pool \<Rightarrow> nat \<times> 'h Pool" where
  "pool_add h p = (length (pl_handles p), p\<lparr>pl_handles := pl_handles p @ [h]\<rparr>)"

definition pool_name :: "bytes \<Rightarrow> 'h Pool \<Rightarrow> bytes" where
  "pool_name name p = (if name = [] then ci_database (pl_info p) else name)"

definition pool_database :: "'h maker \<Rightarrow> bytes \<Rightarrow> 'h Pool \<Rightarrow> nat \<times> 'h Pool" where
  "pool_database new name p =
     (let n = pool_name name p
      in case map_of (pl_cache p) n of
           Some i \<Rightarrow> (i, p)
         | None \<Rightarrow> (case pool_add (new (pl_info p) n) p of (i, p') \<Rightarrow> (i, p'\<lparr>pl_cache := (n, i) # pl_cache p'\<rparr>)))"

definition pool_openDatabase :: "'h maker \<Rightarrow> bytes \<Rightarrow> 'h Pool \<Rightarrow> nat \<times> 'h Pool" where
  "pool_openDatabase new name p = pool_add (new (pl_info p) (pool_name name p)) p"

definition pool_close :: "'h Pool \<Rightarrow> 'h Pool" where
  "pool_close p = p\<lparr>pl_cache := [], pl_open := False\<rparr>"

definition pool_erase :: "bytes \<Rightarrow> 'h Pool \<Rightarrow> 'h Pool" where
  "pool_erase name p = p\<lparr>pl_cache := filter (\<lambda>e. fst e \<noteq> name) (pl_cache p)\<rparr>"

definition pool_store :: "bytes \<Rightarrow> nat \<Rightarrow> 'h Pool \<Rightarrow> 'h Pool" where
  "pool_store name i p = p\<lparr>pl_cache := (name, i) # filter (\<lambda>e. fst e \<noteq> name) (pl_cache p)\<rparr>"

text \<open>An operation on the object behind a handle.\<close>

definition at_handle :: "nat \<Rightarrow> ('h \<Rightarrow> 'a \<times> 'h) \<Rightarrow> 'h Pool \<Rightarrow> 'a \<times> 'h Pool" where
  "at_handle i f p = (case f (pl_handles p ! i) of (x, h) \<Rightarrow> (x, p\<lparr>pl_handles := (pl_handles p)[i := h]\<rparr>))"

definition at_database :: "'h maker \<Rightarrow> bytes \<Rightarrow> ('h \<Rightarrow> 'a \<times> 'h) \<Rightarrow> 'h Pool \<Rightarrow> 'a \<times> 'h Pool" where
  "at_database new name f p = (case pool_database new name p of (i, p1) \<Rightarrow> at_handle i f p1)"

text \<open>The handles of a list of names, made or found in order.\<close>

fun pool_databases :: "'h maker \<Rightarrow> bytes list \<Rightarrow> 'h Pool \<Rightarrow> nat list \<times> 'h Pool" where
  "pool_databases new [] p = ([], p)"
| "pool_databases new (n # ns) p =
     (case pool_database new n p of (i, p1) \<Rightarrow>
        (case pool_databases new ns p1 of (is, p2) \<Rightarrow> (i # is, p2)))"


section \<open>The cache keeps its handles\<close>

text \<open>Every name of the cache leads to one handle that exists and bears that name.\<close>

definition pool_ok :: "('h \<Rightarrow> bytes) \<Rightarrow> 'h Pool \<Rightarrow> bool" where
  "pool_ok handle_name p \<longleftrightarrow> distinct (map fst (pl_cache p)) \<and>
     (\<forall>n i. (n, i) \<in> set (pl_cache p) \<longrightarrow> i < length (pl_handles p) \<and> handle_name (pl_handles p ! i) = n)"

text \<open>What an operation may do to the pool: handles stay and keep their names.\<close>

definition pool_grows :: "('h \<Rightarrow> bytes) \<Rightarrow> 'h Pool \<Rightarrow> 'h Pool \<Rightarrow> bool" where
  "pool_grows handle_name p p' \<longleftrightarrow> length (pl_handles p) \<le> length (pl_handles p') \<and>
     (\<forall>i < length (pl_handles p). handle_name (pl_handles p' ! i) = handle_name (pl_handles p ! i))"

lemma pool_grows_refl: "pool_grows nm p p"
  by (simp add: pool_grows_def)

lemma pool_grows_trans: "pool_grows nm p q \<Longrightarrow> pool_grows nm q r \<Longrightarrow> pool_grows nm p r"
  by (auto simp: pool_grows_def)

lemma distinct_map_filter: "distinct (map f xs) \<Longrightarrow> distinct (map f (filter P xs))"
  by (induction xs) auto

lemma pool_ok_close: "pool_ok nm (pool_close p)" and pool_grows_close: "pool_grows nm p (pool_close p)"
  by (simp_all add: pool_ok_def pool_grows_def pool_close_def)

lemma pool_ok_erase: "pool_ok nm p \<Longrightarrow> pool_ok nm (pool_erase n p)"
  and pool_grows_erase: "pool_grows nm p (pool_erase n p)"
  by (auto simp: pool_ok_def pool_erase_def distinct_map_filter pool_grows_def)

lemma pool_ok_info [simp]:
  "pool_ok nm (p\<lparr>pl_info := info\<rparr>) = pool_ok nm p" "pool_ok nm (p\<lparr>pl_open := b\<rparr>) = pool_ok nm p"
  by (simp_all add: pool_ok_def)

lemma pool_grows_info [simp]:
  "pool_grows nm p (q\<lparr>pl_info := info\<rparr>) = pool_grows nm p q" "pool_grows nm p (q\<lparr>pl_open := b\<rparr>) = pool_grows nm p q"
  by (simp_all add: pool_grows_def)

lemma pool_ok_store:
  "pool_ok nm p \<Longrightarrow> i < length (pl_handles p) \<Longrightarrow> nm (pl_handles p ! i) = n \<Longrightarrow> pool_ok nm (pool_store n i p)"
  and pool_grows_store: "pool_grows nm p (pool_store n i p)"
  by (auto simp: pool_ok_def pool_store_def distinct_map_filter pool_grows_def)

lemma pool_add_ok:
  assumes "pool_ok nm p" "pool_add h p = (i, p1)"
  shows "pool_ok nm p1" "pool_grows nm p p1" "i < length (pl_handles p1)" "pl_handles p1 ! i = h"
  using assms by (auto simp: pool_add_def pool_ok_def pool_grows_def nth_append less_SucI)

lemma at_handle_ok:
  assumes "pool_ok nm p" "\<And>h. nm (snd (f h)) = nm h" "at_handle i f p = (x, p1)"
  shows "pool_ok nm p1" "pool_grows nm p p1" "pl_cache p1 = pl_cache p"
proof -
  obtain h where h: "f (pl_handles p ! i) = (x, h)" "p1 = p\<lparr>pl_handles := (pl_handles p)[i := h]\<rparr>"
    using assms(3) by (auto simp: at_handle_def split: prod.splits)
  have "nm ((pl_handles p)[i := h] ! j) = nm (pl_handles p ! j)" if "j < length (pl_handles p)" for j
    using assms(2) [of "pl_handles p ! i"] h(1) that by (cases "i = j") simp_all
  with assms(1) h(2) show "pool_ok nm p1" "pool_grows nm p p1" "pl_cache p1 = pl_cache p"
    by (auto simp: pool_ok_def pool_grows_def)
qed

lemma pool_ok_at_handle:
  "pool_ok nm p \<Longrightarrow> (\<And>h. nm (snd (f h)) = nm h) \<Longrightarrow> pool_ok nm (snd (at_handle i f p))"
  using at_handle_ok(1) [of nm p f i] by (metis prod.collapse)

lemma at_database_keeps:
  assumes "n \<noteq> pool_name m p"
  shows "n \<in> fst ` set (pl_cache (snd (at_database new m f p))) \<longleftrightarrow> n \<in> fst ` set (pl_cache p)"
    "pl_info (snd (at_database new m f p)) = pl_info p"
  using assms by (auto simp: at_database_def at_handle_def pool_database_def pool_add_def Let_def split_beta split: option.splits)

locale database_pool =
  fixes new :: "'h maker" and handle_name :: "'h \<Rightarrow> bytes"
  assumes new_name: "handle_name (new info n) = n"
begin

lemma database_ok:
  assumes "pool_ok handle_name p" "pool_database new name p = (i, p1)"
  shows "pool_ok handle_name p1" "pool_grows handle_name p p1" "i < length (pl_handles p1)"
    "handle_name (pl_handles p1 ! i) = pool_name name p" "(pool_name name p, i) \<in> set (pl_cache p1)"
    "pl_info p1 = pl_info p" "pl_open p1 = pl_open p"
proof -
  have "pool_ok handle_name p1 \<and> pool_grows handle_name p p1 \<and> i < length (pl_handles p1) \<and>
    handle_name (pl_handles p1 ! i) = pool_name name p \<and> (pool_name name p, i) \<in> set (pl_cache p1) \<and>
    pl_info p1 = pl_info p \<and> pl_open p1 = pl_open p"
  proof (cases "map_of (pl_cache p) (pool_name name p)")
    case None
    then have fresh: "pool_name name p \<notin> set (map fst (pl_cache p))" by (simp add: map_of_eq_None_iff)
    have p1: "p1 = p\<lparr>pl_handles := pl_handles p @ [new (pl_info p) (pool_name name p)],
        pl_cache := (pool_name name p, i) # pl_cache p\<rparr>" "i = length (pl_handles p)"
      using assms(2) None by (auto simp: pool_database_def pool_add_def Let_def)
    with assms(1) fresh new_name show ?thesis
      by (auto simp: pool_ok_def pool_grows_def nth_append less_SucI)
  next
    case (Some j)
    with assms map_of_SomeD [OF Some] show ?thesis by (auto simp: pool_database_def pool_grows_refl pool_ok_def)
  qed
  then show "pool_ok handle_name p1" "pool_grows handle_name p p1" "i < length (pl_handles p1)"
    "handle_name (pl_handles p1 ! i) = pool_name name p" "(pool_name name p, i) \<in> set (pl_cache p1)"
    "pl_info p1 = pl_info p" "pl_open p1 = pl_open p" by simp_all
qed

text \<open>Asking again gives the same handle and changes nothing.\<close>

lemma database_again:
  assumes "pool_ok handle_name p" "pool_database new name p = (i, p1)"
  shows "pool_database new name p1 = (i, p1)"
proof -
  note ok = database_ok [OF assms]
  have "map_of (pl_cache p1) (pool_name name p) = Some i"
    using ok(1,5) by (simp add: pool_ok_def)
  moreover have "pool_name name p1 = pool_name name p" using ok(6) by (simp add: pool_name_def)
  ultimately show ?thesis by (simp add: pool_database_def)
qed

lemma openDatabase_ok:
  assumes "pool_ok handle_name p" "pool_openDatabase new name p = (i, p1)"
  shows "pool_ok handle_name p1" "pool_grows handle_name p p1" "i \<notin> snd ` set (pl_cache p1)"
proof -
  have add: "pool_add (new (pl_info p) (pool_name name p)) p = (i, p1)"
    using assms(2) by (simp add: pool_openDatabase_def)
  show "pool_ok handle_name p1" "pool_grows handle_name p p1" using pool_add_ok [OF assms(1) add] by simp_all
  show "i \<notin> snd ` set (pl_cache p1)" using add assms(1) by (fastforce simp: pool_add_def pool_ok_def)
qed

lemma databases_ok:
  assumes "pool_ok handle_name p" "pool_databases new ns p = (is, p1)"
  shows "pool_ok handle_name p1" "pool_grows handle_name p p1" "length is = length ns" "pl_info p1 = pl_info p"
    "\<And>k. k < length ns \<Longrightarrow> is ! k < length (pl_handles p1) \<and> handle_name (pl_handles p1 ! (is ! k)) = pool_name (ns ! k) p"
proof -
  have "pool_ok handle_name p1 \<and> pool_grows handle_name p p1 \<and> length is = length ns \<and> pl_info p1 = pl_info p \<and>
    (\<forall>k < length ns. is ! k < length (pl_handles p1) \<and> handle_name (pl_handles p1 ! (is ! k)) = pool_name (ns ! k) p)"
    using assms
  proof (induction ns arbitrary: p "is")
    case (Cons n ns)
    obtain i q where q: "pool_database new n p = (i, q)" by fastforce
    obtain js where js: "pool_databases new ns q = (js, p1)" "is = i # js"
      using Cons.prems(2) q by (auto split: prod.splits)
    note one = database_ok [OF Cons.prems(1) q]
    note rest = Cons.IH [OF one(1) js(1)]
    have nm: "pool_name m q = pool_name m p" for m using one(6) by (simp add: pool_name_def)
    have "is ! k < length (pl_handles p1) \<and> handle_name (pl_handles p1 ! (is ! k)) = pool_name ((n # ns) ! k) p"
      if "k < length (n # ns)" for k
      using that rest one(3,4) js(2) nm by (cases k) (auto simp: pool_grows_def)
    moreover have "pool_grows handle_name p p1" using pool_grows_trans [OF one(2)] rest by blast
    ultimately show ?case using rest one(6) js(2) by simp
  qed (auto simp: pool_grows_refl)
  then show "pool_ok handle_name p1" "pool_grows handle_name p p1" "length is = length ns" "pl_info p1 = pl_info p"
    "\<And>k. k < length ns \<Longrightarrow> is ! k < length (pl_handles p1) \<and> handle_name (pl_handles p1 ! (is ! k)) = pool_name (ns ! k) p"
    by auto
qed

lemma at_database_ok:
  assumes "pool_ok handle_name p" "\<And>h. handle_name (snd (f h)) = handle_name h" "at_database new name f p = (x, p1)"
  shows "pool_ok handle_name p1" "pool_grows handle_name p p1"
proof -
  obtain i q where q: "pool_database new name p = (i, q)" by fastforce
  note one = database_ok [OF assms(1) q]
  have "at_handle i f q = (x, p1)" using assms(3) q by (simp add: at_database_def)
  note two = at_handle_ok [OF one(1) assms(2) this]
  show "pool_ok handle_name p1" "pool_grows handle_name p p1"
    using two pool_grows_trans [OF one(2) two(2)] by simp_all
qed

lemma ok_database: "pool_ok handle_name p \<Longrightarrow> pool_ok handle_name (snd (pool_database new n p))"
  using database_ok(1) by (metis prod.collapse)

lemma ok_openDatabase: "pool_ok handle_name p \<Longrightarrow> pool_ok handle_name (snd (pool_openDatabase new n p))"
  using openDatabase_ok(1) by (metis prod.collapse)

lemma ok_databases: "pool_ok handle_name p \<Longrightarrow> pool_ok handle_name (snd (pool_databases new ns p))"
  using databases_ok(1) by (metis prod.collapse)

lemma ok_at_database:
  "pool_ok handle_name p \<Longrightarrow> (\<And>h. handle_name (snd (f h)) = handle_name h) \<Longrightarrow>
     pool_ok handle_name (snd (at_database new n f p))"
  using at_database_ok(1) [of p f n] by (metis prod.collapse)

end


section \<open>Invariants of the handles\<close>

definition pool_inv :: "('h \<Rightarrow> bytes) \<Rightarrow> ('h \<Rightarrow> bool) \<Rightarrow> 'h Pool \<Rightarrow> bool" where
  "pool_inv handle_name good p \<longleftrightarrow> pool_ok handle_name p \<and> list_all good (pl_handles p)"

lemma pool_inv_close: "pool_inv nm good p \<Longrightarrow> pool_inv nm good (pool_close p)"
  by (simp add: pool_inv_def pool_ok_close) (simp add: pool_close_def)

lemma pool_inv_erase: "pool_inv nm good p \<Longrightarrow> pool_inv nm good (pool_erase n p)"
  by (simp add: pool_inv_def pool_ok_erase) (simp add: pool_erase_def)

lemma pool_inv_info [simp]:
  "pool_inv nm good (p\<lparr>pl_info := info\<rparr>) = pool_inv nm good p" "pool_inv nm good (p\<lparr>pl_open := b\<rparr>) = pool_inv nm good p"
  by (simp_all add: pool_inv_def)

lemma pool_inv_store:
  "pool_inv nm good p \<Longrightarrow> i < length (pl_handles p) \<Longrightarrow> nm (pl_handles p ! i) = n \<Longrightarrow> pool_inv nm good (pool_store n i p)"
  by (simp add: pool_inv_def pool_ok_store) (simp add: pool_store_def)

lemma pool_inv_at_handle:
  assumes "at_handle i f p = (x, p1)" "pool_inv nm good p" "\<forall>h. nm (snd (f h)) = nm h" "\<forall>h. good h \<longrightarrow> good (snd (f h))"
  shows "pool_inv nm good p1 \<and> length (pl_handles p1) = length (pl_handles p) \<and> pl_info p1 = pl_info p"
proof -
  have ok: "pool_ok nm p1" using at_handle_ok(1) [of nm p f i x p1] assms(1-3) by (simp add: pool_inv_def)
  obtain h where h: "f (pl_handles p ! i) = (x, h)" "p1 = p\<lparr>pl_handles := (pl_handles p)[i := h]\<rparr>"
    using assms(1) by (auto simp: at_handle_def split: prod.splits)
  have "good ((pl_handles p)[i := h] ! j)" if "j < length (pl_handles p)" for j
    using assms(2) spec [OF assms(4), of "pl_handles p ! i"] h(1) that
    by (cases "i = j") (auto simp: pool_inv_def list_all_length)
  with ok h(2) show ?thesis by (simp add: pool_inv_def list_all_length)
qed

locale guarded_pool = database_pool +
  fixes good :: "'a \<Rightarrow> bool"
  assumes new_good: "good (new info n)"
begin

lemma inv_new: "pool_inv handle_name good (new_pool info)"
  by (simp add: pool_inv_def pool_ok_def new_pool_def)

lemma inv_add:
  assumes "pool_inv handle_name good p" "pool_add (new info n) p = (i, p1)"
  shows "pool_inv handle_name good p1 \<and> i < length (pl_handles p1) \<and> pl_info p1 = pl_info p"
  using pool_add_ok [OF _ assms(2), of handle_name] assms new_good
  by (auto simp: pool_inv_def pool_add_def)

lemma inv_database:
  assumes "pool_inv handle_name good p" "pool_database new name p = (i, p1)"
  shows "pool_inv handle_name good p1 \<and> i < length (pl_handles p1) \<and> pl_info p1 = pl_info p"
proof -
  note ok = database_ok [OF _ assms(2)]
  have "list_all good (pl_handles p1)"
    using assms new_good by (auto simp: pool_inv_def pool_database_def pool_add_def Let_def split: option.splits)
  with ok assms(1) show ?thesis by (simp add: pool_inv_def)
qed

lemma inv_openDatabase:
  assumes "pool_inv handle_name good p" "pool_openDatabase new name p = (i, p1)"
  shows "pool_inv handle_name good p1"
  using inv_add [OF assms(1) assms(2) [unfolded pool_openDatabase_def]] by simp

lemma inv_databases:
  assumes "pool_inv handle_name good p" "pool_databases new ns p = (is, p1)"
  shows "pool_inv handle_name good p1"
  using assms
proof (induction ns arbitrary: p "is")
  case (Cons n ns)
  obtain i q where q: "pool_database new n p = (i, q)" by fastforce
  obtain js where js: "pool_databases new ns q = (js, p1)" using Cons.prems(2) q by (auto split: prod.splits)
  show ?case using Cons.IH [OF _ js] inv_database [OF Cons.prems(1) q] by simp
qed simp

lemma inv_at_database:
  assumes "at_database new name f p = (x, p1)" "pool_inv handle_name good p"
    and "\<forall>h. handle_name (snd (f h)) = handle_name h" "\<forall>h. good h \<longrightarrow> good (snd (f h))"
  shows "pool_inv handle_name good p1 \<and> pl_info p1 = pl_info p"
proof -
  obtain i q where q: "pool_database new name p = (i, q)" by fastforce
  then have "at_handle i f q = (x, p1)" using assms(1) by (simp add: at_database_def)
  moreover have "pool_inv handle_name good q \<and> i < length (pl_handles q) \<and> pl_info q = pl_info p"
    using inv_database [OF assms(2) q] .
  ultimately show ?thesis using pool_inv_at_handle [of i f q x p1 handle_name good] assms(3,4) by simp
qed

end


section \<open>Listings over several schemas\<close>

fun collect :: "('b \<Rightarrow> ('s, 'a list) call) \<Rightarrow> 'b list \<Rightarrow> ('s, 'a list) call" where
  "collect f [] = return_ok []"
| "collect f (x # xs) = and_then (f x) (\<lambda>a. and_then (collect f xs) (\<lambda>b. return_ok (a @ b)))"


section \<open>Every listing is consistent\<close>

text \<open>A table in a schema, its full name the name below a path.\<close>

definition table_in :: "bytes \<Rightarrow> bytes \<Rightarrow> Table \<Rightarrow> bool" where
  "table_in schema path t \<longleftrightarrow> tbl_schema t = schema \<and> tbl_fullName t = path @ ''.'' @ tbl_name t"

text \<open>
  The incoming keys of every table are exactly the keys of the listed tables that target it, in
  order and renamed to the table they come from; of several tables with one name the last has them.
\<close>

definition incoming_exact :: "Table list \<Rightarrow> bool" where
  "incoming_exact ts \<longleftrightarrow>
     (\<forall>i<length ts. tbl_incomingForeignKeys (ts ! i) =
        (if \<forall>j. i < j \<and> j < length ts \<longrightarrow> tbl_name (ts ! j) \<noteq> tbl_name (ts ! i)
         then concat (map (\<lambda>src. map (\<lambda>fk. fk\<lparr>fk_targetTable := tbl_name src\<rparr>)
                (filter (\<lambda>fk. fk_targetTable fk = tbl_name (ts ! i)) (tbl_foreignKeys src))) ts)
         else []))"

text \<open>What holds of every failure and of every result of a computation.\<close>

definition yields :: "(bytes \<Rightarrow> bool) \<Rightarrow> ('s, 'a) call \<Rightarrow> ('a \<Rightarrow> bool) \<Rightarrow> bool" where
  "yields E c P \<longleftrightarrow> (\<forall>s. case fst (c s) of Inl e \<Rightarrow> E e | Inr x \<Rightarrow> P x)"

definition speaks :: "bytes \<Rightarrow> bool" where
  "speaks e \<longleftrightarrow> e \<noteq> []"

lemma yields_return: "P x \<Longrightarrow> yields E (return_ok x) P"
  by (simp add: yields_def return_ok_def)

lemma yields_and_then: "yields E c P \<Longrightarrow> (\<And>x. P x \<Longrightarrow> yields E (f x) Q) \<Longrightarrow> yields E (and_then c f) Q"
  unfolding yields_def and_then_def
  by (auto split: prod.splits sum.splits) (metis fst_conv sum.case(1,2))+

lemma yields_mono: "yields E c P \<Longrightarrow> (\<And>x. P x \<Longrightarrow> Q x) \<Longrightarrow> yields E c Q"
  by (fastforce simp: yields_def split: sum.splits)

lemma yields_collect: "(\<And>x. yields E (f x) (list_all P)) \<Longrightarrow> yields E (collect f xs) (list_all P)"
  by (induction xs) (auto intro!: yields_return yields_and_then)

lemma yields_if: "(b \<Longrightarrow> yields E c P) \<Longrightarrow> (\<not> b \<Longrightarrow> yields E d P) \<Longrightarrow> yields E (if b then c else d) P"
  by simp

lemmas yields_intros = yields_return yields_and_then yields_if

lemma populate_fields:
  "i < length ts \<Longrightarrow> \<exists>inc. populateIncomingForeignKeys ts ! i = (ts ! i)\<lparr>tbl_incomingForeignKeys := inc\<rparr>"
  "length (populateIncomingForeignKeys ts) = length ts"
  by (auto simp: populateIncomingForeignKeys_def Let_def foldl_sources_nth)

lemma populate_maps:
  "map tbl_name (populateIncomingForeignKeys ts) = map tbl_name ts"
  "map tbl_foreignKeys (populateIncomingForeignKeys ts) = map tbl_foreignKeys ts"
proof -
  have "tbl_name (populateIncomingForeignKeys ts ! i) = tbl_name (ts ! i) \<and>
      tbl_foreignKeys (populateIncomingForeignKeys ts ! i) = tbl_foreignKeys (ts ! i)" if "i < length ts" for i
    using populate_fields(1) [OF that] by auto
  then show "map tbl_name (populateIncomingForeignKeys ts) = map tbl_name ts"
    "map tbl_foreignKeys (populateIncomingForeignKeys ts) = map tbl_foreignKeys ts"
    by (auto intro!: nth_equalityI simp: populate_fields(2))
qed

lemma incoming_sources:
  assumes "map tbl_name ts = map tbl_name us" "map tbl_foreignKeys ts = map tbl_foreignKeys us"
  shows "map (\<lambda>src. g (tbl_name src) (tbl_foreignKeys src)) ts = map (\<lambda>src. g (tbl_name src) (tbl_foreignKeys src)) us"
proof -
  have len: "length ts = length us" using assms(1) by (metis length_map)
  have "tbl_name (ts ! i) = tbl_name (us ! i)" "tbl_foreignKeys (ts ! i) = tbl_foreignKeys (us ! i)" if "i < length us" for i
    using assms that len by (metis nth_map)+
  with len show ?thesis by (intro nth_equalityI) simp_all
qed

lemma populate_exact: "incoming_exact (populateIncomingForeignKeys ts)"
  unfolding incoming_exact_def populate_fields(2)
proof (intro allI impI)
  fix i assume i: "i < length ts"
  let ?us = "populateIncomingForeignKeys ts"
  have name: "tbl_name (?us ! j) = tbl_name (ts ! j)" if "j < length ts" for j
    using populate_maps(1) [of ts] populate_fields(2) [of ts] that by (metis nth_map)
  have src: "map (\<lambda>src. map (\<lambda>fk. fk\<lparr>fk_targetTable := tbl_name src\<rparr>) (filter (\<lambda>fk. fk_targetTable fk = n) (tbl_foreignKeys src))) ?us =
      map (\<lambda>src. map (\<lambda>fk. fk\<lparr>fk_targetTable := tbl_name src\<rparr>) (filter (\<lambda>fk. fk_targetTable fk = n) (tbl_foreignKeys src))) ts" for n
    by (rule incoming_sources [OF populate_maps, where g = "\<lambda>s ks. map (\<lambda>fk. fk\<lparr>fk_targetTable := s\<rparr>) (filter (\<lambda>fk. fk_targetTable fk = n) ks)"])
  have "(\<forall>j. i < j \<and> j < length ts \<longrightarrow> tbl_name (?us ! j) \<noteq> tbl_name (?us ! i)) \<longleftrightarrow>
      (\<forall>j. i < j \<and> j < length ts \<longrightarrow> tbl_name (ts ! j) \<noteq> tbl_name (ts ! i))" using name i by auto
  with populateIncomingForeignKeys_nth [OF i] show "tbl_incomingForeignKeys (?us ! i) =
      (if \<forall>j. i < j \<and> j < length ts \<longrightarrow> tbl_name (?us ! j) \<noteq> tbl_name (?us ! i)
       then concat (map (\<lambda>src. map (\<lambda>fk. fk\<lparr>fk_targetTable := tbl_name src\<rparr>)
              (filter (\<lambda>fk. fk_targetTable fk = tbl_name (?us ! i)) (tbl_foreignKeys src))) ?us)
       else [])"
    unfolding src name [OF i] by simp
qed

lemma incoming_exact_Nil [simp]: "incoming_exact []"
  by (simp add: incoming_exact_def)

lemma populate_in: "list_all (table_in schema path) ts \<Longrightarrow> list_all (table_in schema path) (populateIncomingForeignKeys ts)"
  unfolding list_all_length populate_fields(2)
  using populate_fields(1) [of _ ts] by (fastforce simp: table_in_def)

text \<open>
  A listing \<open>c\<close> that starts with the call \<open>first\<close>: it fails as \<open>E\<close> allows, or \<open>first\<close> has answered, the
  tables bear exactly the names of the answer in its order, and \<open>P\<close> holds of them.
\<close>

definition listing :: "(bytes \<Rightarrow> bool) \<Rightarrow> ('s, 'd) call \<Rightarrow> ('d \<Rightarrow> bytes list) \<Rightarrow> (Table list \<Rightarrow> bool) \<Rightarrow> ('s, Table list) call \<Rightarrow> bool" where
  "listing E first names P c \<longleftrightarrow>
     (\<forall>s. case fst (c s) of Inl e \<Rightarrow> E e | Inr ts \<Rightarrow> \<exists>data. fst (first s) = Inr data \<and> map tbl_name ts = names data \<and> P ts)"

lemma listing_and_then:
  assumes "yields E first (\<lambda>_. True)" "\<And>data. yields E (f data) (\<lambda>ts. map tbl_name ts = names data \<and> P ts)"
  shows "listing E first names P (and_then first f)"
  unfolding listing_def
proof
  fix s
  obtain r s1 where r: "first s = (r, s1)" by fastforce
  show "case fst (and_then first f s) of Inl e \<Rightarrow> E e
    | Inr ts \<Rightarrow> \<exists>data. fst (first s) = Inr data \<and> map tbl_name ts = names data \<and> P ts"
  proof (cases r)
    case (Inl e)
    with r assms(1) show ?thesis by (simp add: and_then_def yields_def) (metis fst_conv sum.case(1))
  next
    case (Inr data)
    have "case fst (f data s1) of Inl e \<Rightarrow> E e | Inr ts \<Rightarrow> map tbl_name ts = names data \<and> P ts"
      using assms(2) [of data] by (simp add: yields_def)
    with Inr r show ?thesis by (auto simp: and_then_def split: sum.splits)
  qed
qed

lemma yields_collect_named:
  "(\<And>x. yields E (f x) (\<lambda>ts. map tbl_name ts = [nm x] \<and> list_all P ts)) \<Longrightarrow>
   yields E (collect f xs) (\<lambda>ts. map tbl_name ts = map nm xs \<and> list_all P ts)"
proof (induction xs)
  case (Cons x xs)
  show ?case
    unfolding collect.simps
    by (rule yields_and_then [OF Cons.prems], rule yields_and_then [OF Cons.IH [OF Cons.prems]], rule yields_return) auto
qed (simp add: yields_return)

lemma yields_populated:
  "yields E c (\<lambda>ts. map tbl_name ts = ns \<and> list_all (table_in schema path) ts) \<Longrightarrow>
   yields E (and_then c (\<lambda>ts. return_ok (populateIncomingForeignKeys ts)))
     (\<lambda>ts. map tbl_name ts = ns \<and> list_all (table_in schema path) ts \<and> incoming_exact ts)"
  by (erule yields_and_then) (simp add: yields_return populate_maps populate_in populate_exact)

end
