(* ===== verification/Postgres_Session.thy ===== *)
theory Postgres_Session
  imports Catalog_Reading
begin

text \<open>
  The session of a PostgreSQL database handle (\<^verbatim>\<open>src/postgres_connection.cpp\<close>, the first half of
  \<^verbatim>\<open>PostgresDatabase\<close>): connecting on first use, running a text and reading its results chunk by
  chunk with a row limit, stopping a read early, and keeping the search path. libpq and the server
  are a parameter over a session state \<open>'s\<close>. The lemmas show that reading in chunks gives what
  reading at once gives, that no row set exceeds its limit, and what the handle knows of the path.
\<close>


section \<open>Quoting\<close>

definition pg_literal :: "bytes \<Rightarrow> bytes" where
  "pg_literal s = [squote] @ escapeSingleQuotes s @ [squote]"

definition pg_quoteIdent :: "bytes \<Rightarrow> bytes" where
  "pg_quoteIdent s = [dquote] @ double_char dquote s @ [dquote]"

definition literalList :: "bytes list \<Rightarrow> bytes" where
  "literalList names = join_nonempty '', '' [] (map pg_literal names)"

definition maintenanceDatabase :: "DatabaseType \<Rightarrow> bytes" where
  "maintenanceDatabase ty =
     (if ty = COCKROACHDB then ''defaultdb'' else if ty = REDSHIFT then ''dev'' else ''postgres'')"


section \<open>Results\<close>

text \<open>
  A result of libpq: its status, the columns with their type ids, the cells (a null is \<open>None\<close>), the
  text of \<^verbatim>\<open>PQcmdTuples\<close> and that of \<^verbatim>\<open>PQresultErrorMessage\<close>.
\<close>

datatype PgStatus = Tuples_Ok | Tuples_Chunk | Command_Ok | Other_Status

record PgResult =
  pg_status :: PgStatus
  pg_columns :: "(bytes \<times> int) list"
  pg_tuples :: "bytes option list list"
  pg_cmdTuples :: bytes
  pg_error :: bytes

definition pg_cell :: "int \<Rightarrow> bytes option \<Rightarrow> bytes" where
  "pg_cell oid v =
     (case v of
        None \<Rightarrow> NULL_SENTINEL
      | Some t \<Rightarrow> if oid = 16 then (if starts_with t ''t'' then BOOL_TRUE_SENTINEL else BOOL_FALSE_SENTINEL) else t)"

definition pg_row :: "PgResult \<Rightarrow> bytes option list \<Rightarrow> bytes list" where
  "pg_row res cells = map (\<lambda>(col, v). pg_cell (snd col) v) (zip (pg_columns res) cells)"

text \<open>How many of \<open>n\<close> further rows are kept when there are \<open>have\<close> already.\<close>

definition rows_kept :: "int \<Rightarrow> nat \<Rightarrow> nat \<Rightarrow> nat" where
  "rows_kept rowLimit have n = (if rowLimit > 0 then min n (nat (rowLimit - int have)) else n)"

definition appendPgRows :: "PgResult \<Rightarrow> int \<Rightarrow> StatementResult \<Rightarrow> StatementResult" where
  "appendPgRows res rowLimit result =
     result\<lparr>sr_columnNames := (if sr_columnNames result = [] then map fst (pg_columns res) else sr_columnNames result),
            sr_tableData := sr_tableData result @
              map (pg_row res) (take (rows_kept rowLimit (length (sr_tableData result)) (length (pg_tuples res))) (pg_tuples res))\<rparr>"

definition setRowsMessage :: "int \<Rightarrow> int \<Rightarrow> bool \<Rightarrow> StatementResult \<Rightarrow> StatementResult" where
  "setRowsMessage seen rowLimit stopped result =
     (let n = length (sr_tableData result)
      in result\<lparr>sr_message := ''Returned '' @ nat_to_string n @ '' row'' @ (if n = 1 then [] else ''s'') @
        (if stopped then '' (limited to '' @ to_string rowLimit @ ''; the rest was not fetched)''
         else if rowLimit > 0 \<and> seen > rowLimit then '' (limited to '' @ to_string rowLimit @ '')''
         else [])\<rparr>)"

definition pg_failure :: "bytes \<Rightarrow> StatementResult" where
  "pg_failure message = default_statement\<lparr>sr_success := False, sr_errorMessage := message\<rparr>"

definition extractPgResult :: "PgResult \<Rightarrow> int \<Rightarrow> StatementResult" where
  "extractPgResult res rowLimit =
     (case pg_status res of
        Tuples_Ok \<Rightarrow> setRowsMessage (int (length (pg_tuples res))) rowLimit False (appendPgRows res rowLimit default_statement)
      | Command_Ok \<Rightarrow>
          if pg_cmdTuples res \<noteq> []
          then default_statement\<lparr>sr_affectedRows := atoi (pg_cmdTuples res),
                 sr_message := pg_cmdTuples res @ '' row(s) affected''\<rparr>
          else default_statement\<lparr>sr_message := ''Query executed successfully''\<rparr>
      | _ \<Rightarrow> pg_failure (pg_error res))"


section \<open>Reads that may be stopped\<close>

definition first_word :: "bytes \<Rightarrow> nat \<Rightarrow> nat \<Rightarrow> bytes" where
  "first_word sql b e = map tolower (takeWhile isalpha (substr sql b (e - b)))"

definition stoppableRead :: "bytes \<Rightarrow> bool" where
  "stoppableRead sql =
     (case statementRangeAt sql 0 POSTGRESQL of (b, e) \<Rightarrow>
        list_all (\<lambda>c. c = CHR '';'' \<or> isspace c) (drop e sql) \<and>
        (let word = first_word sql b e in word = ''select'' \<or> word = ''table'' \<or> word = ''values''))"


section \<open>The loop over the results\<close>

text \<open>
  What a sent text will deliver: its results if it is left alone, and what follows the first \<open>n + 1\<close>
  results when it is cancelled then; and the session after it, by when it was cancelled. A reply
  is finite: \<^verbatim>\<open>PQgetResult\<close> ends with a null.
\<close>

record 's PgReply =
  rp_results :: "PgResult list"
  rp_cancelled :: "nat \<Rightarrow> PgResult list"
  rp_session :: "nat option \<Rightarrow> 's"

record Stream =
  st_statements :: "StatementResult list"
  st_rows :: StatementResult
  st_streaming :: bool
  st_seen :: int
  st_stopped :: bool

definition stream_start :: Stream where
  "stream_start = \<lparr>st_statements = [], st_rows = default_statement, st_streaming = False, st_seen = 0,
     st_stopped = False\<rparr>"

text \<open>A finished row set goes to the statements: \<^verbatim>\<open>std::exchange(rows, {})\<close>.\<close>

definition finish_rows :: "StatementResult \<Rightarrow> Stream \<Rightarrow> Stream" where
  "finish_rows r st = st\<lparr>st_statements := st_statements st @ [r], st_rows := default_statement, st_seen := 0\<rparr>"

definition pg_result :: "int \<Rightarrow> PgResult \<Rightarrow> Stream \<Rightarrow> Stream" where
  "pg_result rowLimit res st =
     (if pg_status res = Tuples_Chunk \<or> (st_streaming st \<and> pg_status res = Tuples_Ok)
      then let st1 = st\<lparr>st_rows := appendPgRows res rowLimit (st_rows st),
                        st_seen := st_seen st + int (length (pg_tuples res)),
                        st_streaming := pg_status res = Tuples_Chunk\<rparr>
           in if st_streaming st1 then st1
              else finish_rows (setRowsMessage (st_seen st1) rowLimit False (st_rows st1)) st1
      else if st_streaming st
      then let st1 = st\<lparr>st_streaming := False\<rparr>
           in if st_stopped st1
              then finish_rows (setRowsMessage (st_seen st1) rowLimit True (st_rows st1)) st1
              else finish_rows (extractPgResult res rowLimit) st1
      else let r = extractPgResult res rowLimit
           in if sr_success r \<or> sr_errorMessage r \<noteq> []
              then st\<lparr>st_statements := st_statements st @ [r]\<rparr> else st)"

text \<open>When the loop cancels: streaming, allowed to stop, not stopped yet, more seen than wanted.\<close>

definition stop_now :: "bool \<Rightarrow> int \<Rightarrow> PgResult \<Rightarrow> Stream \<Rightarrow> bool" where
  "stop_now stoppable rowLimit res st \<longleftrightarrow>
     pg_status res = Tuples_Chunk \<and> stoppable \<and> \<not> st_stopped st \<and> st_seen st > rowLimit"

fun pg_loop :: "bool \<Rightarrow> int \<Rightarrow> 's PgReply \<Rightarrow> nat \<Rightarrow> PgResult list \<Rightarrow> Stream \<Rightarrow> Stream \<times> nat option" where
  "pg_loop stoppable rowLimit reply n [] st = (st, None)"
| "pg_loop stoppable rowLimit reply n (res # rest) st =
     (let st1 = pg_result rowLimit res st
      in if stop_now stoppable rowLimit res st1
         then (foldl (\<lambda>s r. pg_result rowLimit r s) (st1\<lparr>st_stopped := True\<rparr>) (rp_cancelled reply n), Some n)
         else pg_loop stoppable rowLimit reply (n + 1) rest st1)"


section \<open>The handle\<close>

text \<open>
  libpq on a session: \<open>pq_send\<close> is \<^verbatim>\<open>PQsendQuery(conn, sql.c_str())\<close> with the given chunk size (zero for
  none), so a text ends for it at its first NUL byte.
\<close>

record 's Pq =
  pq_connect :: "bytes \<Rightarrow> bytes + 's"
  pq_ping :: "'s \<Rightarrow> 's"
  pq_idle :: "'s \<Rightarrow> bool"
  pq_send :: "bytes \<Rightarrow> nat \<Rightarrow> 's \<Rightarrow> bytes + 's PgReply"
  pq_ok :: "'s \<Rightarrow> bool"

record 's PgDb =
  pd_info :: ConnectionInfo
  pd_name :: bytes
  pd_conn :: "'s option"
  pd_searchPath :: bytes

definition new_PgDb :: "ConnectionInfo \<Rightarrow> bytes \<Rightarrow> 's PgDb" where
  "new_PgDb info name = \<lparr>pd_info = info, pd_name = name, pd_conn = None, pd_searchPath = []\<rparr>"

definition ensureConn :: "'s Pq \<Rightarrow> ('s PgDb, 's) call" where
  "ensureConn pq d =
     (case pd_conn d of
        Some c \<Rightarrow> (Inr c, d)
      | None \<Rightarrow> (case pq_connect pq (buildConnectionString (pd_info d) (pd_name d)) of
          Inl err \<Rightarrow> (Inl (''PostgreSQL connection failed: '' @ err), d)
        | Inr c \<Rightarrow> (Inr c, d\<lparr>pd_conn := Some c, pd_searchPath := []\<rparr>)))"

definition pg_open :: "'s Pq \<Rightarrow> 's PgDb \<Rightarrow> Status \<times> 's PgDb" where
  "pg_open pq d = (case ensureConn pq d of (Inl e, d') \<Rightarrow> ((False, e), d') | (Inr c, d') \<Rightarrow> ((True, []), d'))"

definition pg_alive :: "'s Pq \<Rightarrow> 's PgDb \<Rightarrow> bool" where
  "pg_alive pq d = (case pd_conn d of None \<Rightarrow> True | Some c \<Rightarrow> pq_ok pq c)"

definition query_result :: "StatementResult list \<Rightarrow> QueryResult" where
  "query_result ss = \<lparr>qr_statements = ss, qr_messages = []\<rparr>"

definition pg_run :: "'s Pq \<Rightarrow> bytes \<Rightarrow> int \<Rightarrow> bool \<Rightarrow> 's PgDb \<Rightarrow> QueryResult \<times> 's PgDb" where
  "pg_run pq sql rowLimit timed d =
     (case ensureConn pq d of
        (Inl e, d1) \<Rightarrow> (query_result [pg_failure e], d1)
      | (Inr c, d1) \<Rightarrow>
          let c1 = (if timed then pq_ping pq c else c);
              capped = rowLimit > 0;
              stoppable = (capped \<and> pq_idle pq c1 \<and> stoppableRead sql)
          in case pq_send pq sql (if capped then min (nat rowLimit) 500 else 0) c1 of
               Inl err \<Rightarrow> (query_result [pg_failure err], d1\<lparr>pd_conn := Some c1\<rparr>)
             | Inr reply \<Rightarrow>
                 (case pg_loop stoppable rowLimit reply 0 (rp_results reply) stream_start of
                    (st, cancelled) \<Rightarrow>
                      (query_result (st_statements st), d1\<lparr>pd_conn := Some (rp_session reply cancelled)\<rparr>)))"

text \<open>A name no schema can have.\<close>

definition UNKNOWN :: bytes where "UNKNOWN = [CHR 0x00]"

definition contains :: "bytes \<Rightarrow> bytes \<Rightarrow> bool" where
  "contains s p \<longleftrightarrow> str_find p s 0 \<noteq> None"

definition path_statement :: "bytes \<Rightarrow> bytes" where
  "path_statement schema = (if schema = [] then ''RESET search_path'' else ''SET search_path TO '' @ pg_quoteIdent schema)"

definition may_move_path :: "bytes \<Rightarrow> bool" where
  "may_move_path sql \<longleftrightarrow>
     (let l = map tolower sql
      in contains l ''search_path'' \<or> contains l ''rollback'' \<or> contains l ''discard'' \<or> contains l ''reset'')"

definition set_path :: "'s Pq \<Rightarrow> bytes \<Rightarrow> 's PgDb \<Rightarrow> QueryResult option \<times> 's PgDb" where
  "set_path pq schema d =
     (if schema = pd_searchPath d then (None, d)
      else case pg_run pq (path_statement schema) 0 False d of (r, d1) \<Rightarrow>
        if \<not> qr_success r then (Some r, d1) else (None, d1\<lparr>pd_searchPath := schema\<rparr>))"

definition executeIn :: "'s Pq \<Rightarrow> bytes \<Rightarrow> bytes \<Rightarrow> int \<Rightarrow> 's PgDb \<Rightarrow> QueryResult \<times> 's PgDb" where
  "executeIn pq schema sql rowLimit d =
     (case set_path pq schema d of
        (Some r, d1) \<Rightarrow> (r, d1)
      | (None, d1) \<Rightarrow>
          (case pg_run pq sql rowLimit True d1 of (r, d2) \<Rightarrow>
             (r, if \<not> qr_success r \<or> may_move_path sql then d2\<lparr>pd_searchPath := UNKNOWN\<rparr> else d2)))"

definition pg_execute :: "'s Pq \<Rightarrow> bytes \<Rightarrow> int \<Rightarrow> 's PgDb \<Rightarrow> QueryResult \<times> 's PgDb" where
  "pg_execute pq = executeIn pq []"

definition pg_rows :: "'s Pq \<Rightarrow> bytes \<Rightarrow> ('s PgDb, bytes list list) call" where
  "pg_rows pq sql d =
     (case pg_run pq sql 0 False d of (r, d1) \<Rightarrow>
        (if \<not> qr_success r
         then Inl (if qr_errorMessage r = [] then ''query failed'' else qr_errorMessage r)
         else (case qr_statements r of [] \<Rightarrow> Inr [] | s # _ \<Rightarrow> Inr (sr_tableData s)), d1))"


section \<open>Row limits\<close>

lemma limited_append:
  "limited L (xs @ ys) = limited L xs @ take (rows_kept L (length (limited L xs)) (length ys)) ys"
proof (cases "L > 0")
  case True
  have "nat (L - int (min (length xs) (nat L))) = nat L - length xs"
    by (simp add: min_def) arith
  with True show ?thesis by (simp add: limited_def rows_kept_def min_def)
qed (simp add: limited_def rows_kept_def)

lemma within_limit_simps [simp]:
  "within_limit L default_statement" "within_limit L (pg_failure m)"
  "within_limit L (setRowsMessage t l stopped s) \<longleftrightarrow> within_limit L s"
  by (simp_all add: within_limit_def default_statement_def pg_failure_def setRowsMessage_def Let_def)

lemma within_limit_append: "within_limit L s \<Longrightarrow> within_limit L (appendPgRows res L s)"
  by (auto simp: within_limit_def appendPgRows_def rows_kept_def)

lemma within_limit_extract: "within_limit L (extractPgResult res L)"
  by (auto simp: extractPgResult_def within_limit_append default_statement_def within_limit_def
      split: PgStatus.split) (simp_all add: appendPgRows_def rows_kept_def setRowsMessage_def Let_def pg_failure_def default_statement_def)

definition stream_within :: "int \<Rightarrow> Stream \<Rightarrow> bool" where
  "stream_within L st \<longleftrightarrow> within_limit L (st_rows st) \<and> list_all (within_limit L) (st_statements st)"

lemma pg_result_within: "stream_within L st \<Longrightarrow> stream_within L (pg_result L res st)"
  by (auto simp: stream_within_def pg_result_def Let_def finish_rows_def within_limit_append within_limit_extract)

lemma pg_loop_within: "stream_within L st \<Longrightarrow> stream_within L (fst (pg_loop stoppable L rep n results st))"
proof (induction stoppable L rep n results st rule: pg_loop.induct)
  case (2 stoppable L rep n res rest st)
  let ?st1 = "pg_result L res st"
  have fold: "stream_within L s \<Longrightarrow> stream_within L (foldl (\<lambda>s r. pg_result L r s) s rs)" for s rs
    by (induction rs arbitrary: s) (auto simp: pg_result_within)
  have st1: "stream_within L ?st1" using "2.prems" by (rule pg_result_within)
  then have "stream_within L (?st1\<lparr>st_stopped := True\<rparr>)" by (simp add: stream_within_def)
  with fold "2.IH" st1 show ?case by (simp add: Let_def)
qed simp

lemma run_within:
  "list_all (within_limit rowLimit) (qr_statements (fst (pg_run pq sql rowLimit timed d)))"
proof -
  have "stream_within rowLimit stream_start" by (simp add: stream_within_def stream_start_def)
  from pg_loop_within [OF this] have "list_all (within_limit rowLimit)
      (st_statements (fst (pg_loop stoppable rowLimit rep n results stream_start)))"
    for stoppable rep n results by (auto simp: stream_within_def)
  from this show ?thesis
    by (auto simp: pg_run_def query_result_def Let_def case_prod_beta split: sum.split)
qed


section \<open>Reading in chunks\<close>

lemma pg_row_columns: "pg_columns a = pg_columns b \<Longrightarrow> pg_row a = pg_row b"
  by (rule ext) (simp add: pg_row_def)

text \<open>What the row set being streamed holds after the rows \<open>xs\<close> of a result with the columns of \<open>l\<close>.\<close>

definition streamed :: "PgResult \<Rightarrow> int \<Rightarrow> bytes option list list \<Rightarrow> StatementResult" where
  "streamed l L xs = default_statement\<lparr>sr_columnNames := map fst (pg_columns l), sr_tableData := map (pg_row l) (limited L xs)\<rparr>"

lemma append_streamed:
  assumes "pg_columns res = pg_columns l"
  shows "appendPgRows res L (streamed l L xs) = streamed l L (xs @ pg_tuples res)"
  using limited_append [of L xs "pg_tuples res"] assms pg_row_columns [OF assms]
  by (simp add: appendPgRows_def streamed_def)

lemma append_first:
  assumes "pg_columns res = pg_columns l"
  shows "appendPgRows res L default_statement = streamed l L (pg_tuples res)"
  using limited_append [of L "[]" "pg_tuples res"] assms pg_row_columns [OF assms]
  by (simp add: appendPgRows_def streamed_def default_statement_def limited_def)

definition merged :: "PgResult \<Rightarrow> bytes option list list \<Rightarrow> PgResult" where
  "merged l xs = l\<lparr>pg_tuples := xs\<rparr>"

lemma extract_merged:
  "pg_status l = Tuples_Ok \<Longrightarrow>
   extractPgResult (merged l xs) L = setRowsMessage (int (length xs)) L False (streamed l L xs)"
  by (simp add: extractPgResult_def merged_def append_first [of "l\<lparr>pg_tuples := xs\<rparr>" l])

definition same_rows :: "StatementResult \<Rightarrow> StatementResult \<Rightarrow> bool" where
  "same_rows s s' \<longleftrightarrow> sr_success s = sr_success s' \<and> sr_columnNames s = sr_columnNames s' \<and>
     sr_tableData s = sr_tableData s'"

text \<open>In the middle of a row set: some chunks read, none finished.\<close>

definition mid_stream :: "PgResult \<Rightarrow> int \<Rightarrow> bytes option list list \<Rightarrow> bool \<Rightarrow> Stream" where
  "mid_stream l L xs stopped = \<lparr>st_statements = [], st_rows = streamed l L xs, st_streaming = True,
     st_seen = int (length xs), st_stopped = stopped\<rparr>"

definition chunk_of :: "PgResult \<Rightarrow> PgResult \<Rightarrow> bool" where
  "chunk_of l c \<longleftrightarrow> pg_status c = Tuples_Chunk \<and> pg_columns c = pg_columns l"

lemma result_mid_chunk:
  assumes "chunk_of l res"
  shows "pg_result L res (mid_stream l L xs stopped) = mid_stream l L (xs @ pg_tuples res) stopped"
  using assms by (simp add: pg_result_def mid_stream_def Let_def append_streamed chunk_of_def)

lemma result_start_chunk:
  assumes "chunk_of l res"
  shows "pg_result L res stream_start = mid_stream l L (pg_tuples res) False"
  using assms by (simp add: pg_result_def mid_stream_def Let_def append_first stream_start_def chunk_of_def)

lemma result_mid_last:
  assumes "pg_status l = Tuples_Ok"
  shows "st_statements (pg_result L l (mid_stream l L xs stopped)) = [extractPgResult (merged l (xs @ pg_tuples l)) L]"
  using assms by (simp add: pg_result_def mid_stream_def Let_def append_streamed finish_rows_def extract_merged)

lemma fold_mid:
  assumes "list_all (chunk_of l) cs" "pg_status l = Tuples_Ok"
  shows "st_statements (foldl (\<lambda>s r. pg_result L r s) (mid_stream l L xs stopped) (cs @ [l])) =
    [extractPgResult (merged l (xs @ concat (map pg_tuples (cs @ [l])))) L]"
  using assms(1) by (induction cs arbitrary: xs) (simp_all add: result_mid_chunk result_mid_last [OF assms(2)])

lemma result_mid_error:
  assumes "pg_status e = Other_Status"
  shows "st_statements (pg_result L e (mid_stream l L xs True)) = [setRowsMessage (int (length xs)) L True (streamed l L xs)]"
  using assms by (simp add: pg_result_def mid_stream_def Let_def finish_rows_def)

lemma fold_chunks:
  "list_all (chunk_of l) cs \<Longrightarrow>
   foldl (\<lambda>s r. pg_result L r s) (mid_stream l L xs stopped) cs = mid_stream l L (xs @ concat (map pg_tuples cs)) stopped"
  by (induction cs arbitrary: xs) (simp_all add: result_mid_chunk)

text \<open>
  A cancelled reply goes on as if nothing had happened, when the cancel came too late, or brings some
  more chunks that were under way and ends in an error.
\<close>

definition cancels_cleanly :: "'s PgReply \<Rightarrow> bool" where
  "cancels_cleanly rep \<longleftrightarrow>
     (\<forall>n. rp_cancelled rep n = drop (n + 1) (rp_results rep) \<or>
          (\<exists>k e. rp_cancelled rep n = take k (butlast (drop (n + 1) (rp_results rep))) @ [e] \<and> pg_status e = Other_Status))"

lemma limited_enough: "L > 0 \<Longrightarrow> int (length xs) > L \<Longrightarrow> limited L (xs @ ys) = limited L xs"
  by (simp add: limited_def)

lemma same_rows_streamed:
  "limited L xs = limited L ys \<Longrightarrow> same_rows (setRowsMessage a L b (streamed l L xs)) (setRowsMessage c L d (streamed l L ys))"
  by (simp add: same_rows_def setRowsMessage_def streamed_def default_statement_def Let_def)

lemma loop_mid:
  assumes cs: "list_all (chunk_of l) cs"
    and l: "pg_status l = Tuples_Ok" and rep: "cancels_cleanly rep" "drop n (rp_results rep) = cs @ [l]"
    and stop: "stoppable \<longrightarrow> L > 0"
  shows "\<exists>s. st_statements (fst (pg_loop stoppable L rep n (cs @ [l]) (mid_stream l L xs False))) = [s] \<and>
    same_rows s (extractPgResult (merged l (xs @ concat (map pg_tuples (cs @ [l])))) L) \<and>
    (\<not> stoppable \<longrightarrow> s = extractPgResult (merged l (xs @ concat (map pg_tuples (cs @ [l])))) L)"
  using cs rep(2)
proof (induction cs arbitrary: n xs)
  case Nil
  have "\<not> stop_now stoppable L l (pg_result L l (mid_stream l L xs False))" using l by (simp add: stop_now_def)
  then show ?case using result_mid_last [OF l, of L xs False] by (simp add: Let_def same_rows_def)
next
  case (Cons c cs)
  then have c: "chunk_of l c" by simp_all
  note step = result_mid_chunk [OF c, of L xs False]
  have tail: "drop (n + 1) (rp_results rep) = cs @ [l]"
    using Cons.prems(2) by (metis append_Cons drop_Suc tl_drop list.sel(3) Suc_eq_plus1)
  show ?case
  proof (cases "stop_now stoppable L c (mid_stream l L (xs @ pg_tuples c) False)")
    case False
    with Cons.IH [OF _ tail, of "xs @ pg_tuples c"] Cons.prems step show ?thesis by (simp add: Let_def)
  next
    case True
    then have L: "L > 0" "int (length (xs @ pg_tuples c)) > L" "stoppable"
      using stop by (auto simp: stop_now_def mid_stream_def)
    have loop: "fst (pg_loop stoppable L rep n ((c # cs) @ [l]) (mid_stream l L xs False)) =
        foldl (\<lambda>s r. pg_result L r s) (mid_stream l L (xs @ pg_tuples c) True) (rp_cancelled rep n)"
      using True step by (simp add: Let_def mid_stream_def)
    consider "rp_cancelled rep n = cs @ [l]" | k e where "rp_cancelled rep n = take k cs @ [e]" "pg_status e = Other_Status"
      using rep(1) [unfolded cancels_cleanly_def, THEN spec, of n] unfolding tail by auto
    then show ?thesis
    proof cases
      case 1
      have "list_all (chunk_of l) cs" using Cons.prems(1) by simp
      from fold_mid [OF this l] show ?thesis unfolding loop 1 using L(3) by (simp add: same_rows_def)
    next
      case 2
      have "list_all (chunk_of l) (take k cs)" using Cons.prems(1) by (auto simp: list_all_iff dest: in_set_takeD)
      note more = fold_chunks [OF this, of L "xs @ pg_tuples c" True]
      have "limited L ((xs @ pg_tuples c) @ concat (map pg_tuples (take k cs))) =
          limited L (xs @ concat (map pg_tuples ((c # cs) @ [l])))"
        using limited_enough [OF L(1,2)] by simp
      then show ?thesis unfolding loop 2(1) using 2(2) L(3)
        by (simp add: more result_mid_error extract_merged [OF l] same_rows_streamed)
    qed
  qed
qed

lemma loop_chunks:
  assumes cs: "list_all (chunk_of l) cs"
    and l: "pg_status l = Tuples_Ok" and rep: "cancels_cleanly rep" "rp_results rep = cs @ [l]"
    and stop: "stoppable \<longrightarrow> L > 0"
  shows "\<exists>s. st_statements (fst (pg_loop stoppable L rep 0 (rp_results rep) stream_start)) = [s] \<and>
    same_rows s (extractPgResult (merged l (concat (map pg_tuples (rp_results rep)))) L) \<and>
    (\<not> stoppable \<longrightarrow> s = extractPgResult (merged l (concat (map pg_tuples (rp_results rep)))) L)"
proof (cases cs)
  case Nil
  have "merged l (pg_tuples l) = l" by (simp add: merged_def)
  moreover have "sr_success (extractPgResult l L)"
    using l by (simp add: extractPgResult_def setRowsMessage_def appendPgRows_def default_statement_def Let_def)
  ultimately show ?thesis
    using l rep(2) Nil by (simp add: pg_result_def stream_start_def stop_now_def Let_def same_rows_def)
next
  case (Cons c cs')
  then have c: "chunk_of l c" using cs by simp
  have start: "pg_result L c stream_start = pg_result L c (mid_stream l L [] False)"
    using result_start_chunk [OF c] result_mid_chunk [OF c, of L "[]"] by simp
  have "fst (pg_loop stoppable L rep 0 (rp_results rep) stream_start) =
      fst (pg_loop stoppable L rep 0 (cs @ [l]) (mid_stream l L [] False))"
    using rep(2) Cons start by (simp add: Let_def)
  with loop_mid [OF cs l rep(1), of 0 stoppable L "[]"] rep(2) stop show ?thesis by simp
qed


section \<open>The search path\<close>

text \<open>
  What a server does to the search path \<open>path\<close> of a session, as the handle counts on it: a new
  session has the default, the statements the handle sends set it or fail without effect, reading
  from the catalog leaves it, and so do the \<open>quiet\<close> texts, if they succeed. Which texts of a user
  are quiet is the server's affair: the handle takes every text for quiet that mentions none of the
  words of \<open>may_move_path\<close>.
\<close>

definition reply_outcome :: "bool \<Rightarrow> int \<Rightarrow> 's PgReply \<Rightarrow> QueryResult \<times> 's" where
  "reply_outcome stoppable rowLimit rep =
     (case pg_loop stoppable rowLimit rep 0 (rp_results rep) stream_start of
        (st, cancelled) \<Rightarrow> (query_result (st_statements st), rp_session rep cancelled))"

definition keeps_paths :: "'s Pq \<Rightarrow> ('s \<Rightarrow> bytes) \<Rightarrow> (bytes \<Rightarrow> bool) \<Rightarrow> bool" where
  "keeps_paths pq path quiet \<longleftrightarrow>
     (\<forall>cs c. pq_connect pq cs = Inr c \<longrightarrow> path c = []) \<and>
     (\<forall>c. path (pq_ping pq c) = path c) \<and>
     (\<forall>schema c rep. pq_send pq (path_statement schema) 0 c = Inr rep \<longrightarrow>
        path (snd (reply_outcome False 0 rep)) =
          (if qr_success (fst (reply_outcome False 0 rep)) then schema else path c)) \<and>
     (\<forall>sql k c rep stoppable l. quiet sql \<and> pq_send pq sql k c = Inr rep \<and>
        (starts_with sql ''SELECT '' \<or> qr_success (fst (reply_outcome stoppable l rep))) \<longrightarrow>
        path (snd (reply_outcome stoppable l rep)) = path c)"

lemma keeps_paths_parts:
  assumes "keeps_paths pq path quiet"
  shows keeps_paths_connect: "pq_connect pq cs = Inr c \<Longrightarrow> path c = []"
    and keeps_paths_ping: "path (pq_ping pq c) = path c"
    and keeps_paths_set: "pq_send pq (path_statement schema) 0 c = Inr rep \<Longrightarrow>
      path (snd (reply_outcome False 0 rep)) = (if qr_success (fst (reply_outcome False 0 rep)) then schema else path c)"
    and keeps_paths_quiet: "quiet sql \<Longrightarrow> pq_send pq sql k c = Inr rep \<Longrightarrow>
      starts_with sql ''SELECT '' \<or> qr_success (fst (reply_outcome stoppable l rep)) \<Longrightarrow>
      path (snd (reply_outcome stoppable l rep)) = path c"
  using assms unfolding keeps_paths_def by blast+

lemma run_cases:
  obtains (no_connection) e where "ensureConn pq d = (Inl e, d)" "pg_run pq sql l timed d = (query_result [pg_failure e], d)"
  | (not_sent) c d1 e where "ensureConn pq d = (Inr c, d1)"
      "pq_send pq sql (if l > 0 then min (nat l) 500 else 0) (if timed then pq_ping pq c else c) = Inl e"
      "pg_run pq sql l timed d = (query_result [pg_failure e], d1\<lparr>pd_conn := Some (if timed then pq_ping pq c else c)\<rparr>)"
  | (sent) c d1 rep stoppable where "ensureConn pq d = (Inr c, d1)" "l > 0 \<or> \<not> stoppable"
      "pq_send pq sql (if l > 0 then min (nat l) 500 else 0) (if timed then pq_ping pq c else c) = Inr rep"
      "pg_run pq sql l timed d = (fst (reply_outcome stoppable l rep), d1\<lparr>pd_conn := Some (snd (reply_outcome stoppable l rep))\<rparr>)"
proof (cases "fst (ensureConn pq d)")
  case (Inl e)
  then have "ensureConn pq d = (Inl e, d)"
    by (auto simp: ensureConn_def split: option.splits sum.splits)
  then show ?thesis using no_connection by (simp add: pg_run_def)
next
  case (Inr c)
  then obtain d1 where c: "ensureConn pq d = (Inr c, d1)" by (metis prod.collapse)
  show ?thesis
  proof (cases "pq_send pq sql (if l > 0 then min (nat l) 500 else 0) (if timed then pq_ping pq c else c)")
    case (Inl e)
    with c not_sent show ?thesis by (simp add: pg_run_def Let_def)
  next
    case (Inr rep)
    let ?stop = "l > 0 \<and> pq_idle pq (if timed then pq_ping pq c else c) \<and> stoppableRead sql"
    have "pg_run pq sql l timed d = (fst (reply_outcome ?stop l rep), d1\<lparr>pd_conn := Some (snd (reply_outcome ?stop l rep))\<rparr>)"
      using c Inr by (simp add: pg_run_def reply_outcome_def Let_def split_beta)
    then show ?thesis using c Inr sent [of c d1 ?stop rep] by blast
  qed
qed

definition on_path :: "('s \<Rightarrow> bytes) \<Rightarrow> bytes \<Rightarrow> 's PgDb \<Rightarrow> bool" where
  "on_path path schema d \<longleftrightarrow> (case pd_conn d of None \<Rightarrow> schema = [] | Some c \<Rightarrow> path c = schema)"

definition path_known :: "('s \<Rightarrow> bytes) \<Rightarrow> 's PgDb \<Rightarrow> bool" where
  "path_known path d \<longleftrightarrow> pd_searchPath d = UNKNOWN \<or> on_path path (pd_searchPath d) d"

lemma ensureConn_path:
  assumes "keeps_paths pq path quiet" "ensureConn pq d = (Inr c, d1)"
  shows "pd_conn d1 = Some c" "path_known path d \<Longrightarrow> path_known path d1"
    "on_path path schema d \<Longrightarrow> path c = schema"
    "pd_searchPath d1 = (if pd_conn d = None then [] else pd_searchPath d)"
  using assms
  by (auto simp: ensureConn_def keeps_paths_def path_known_def on_path_def UNKNOWN_def
      split: option.splits sum.splits)

lemma run_keeps_path:
  assumes "keeps_paths pq path quiet" "pg_run pq sql l timed d = (r, d1)" "on_path path schema d" "quiet sql"
    and "starts_with sql ''SELECT '' \<or> qr_success r"
  shows "on_path path schema d1"
  using assms(1,2)
proof (cases rule: run_cases [of pq d sql l timed])
  case (not_sent c d' e)
  then show ?thesis
    using assms ensureConn_path(3) [OF assms(1) not_sent(1) assms(3)] by (auto simp: on_path_def keeps_paths_def)
next
  case (sent c d' rep stoppable)
  have "path c = schema" using ensureConn_path(3) [OF assms(1) sent(1) assms(3)] .
  moreover have "path (if timed then pq_ping pq c else c) = path c" using keeps_paths_ping [OF assms(1)] by simp
  moreover have "r = fst (reply_outcome stoppable l rep)" using assms(2) sent(4) by simp
  then have "path (snd (reply_outcome stoppable l rep)) = path (if timed then pq_ping pq c else c)"
    using keeps_paths_quiet [OF assms(1,4) sent(3)] assms(5) by blast
  ultimately show ?thesis using assms(2) sent(4) by (auto simp: on_path_def)
qed (use assms in simp)

lemma run_searchPath:
  assumes "keeps_paths pq path quiet" "pg_run pq sql l timed d = (r, d1)"
  shows "pd_searchPath d1 = pd_searchPath d \<or> pd_conn d = None \<and> pd_searchPath d1 = []"
proof (cases rule: run_cases [of pq d sql l timed])
  case (not_sent c d' e)
  with assms(2) ensureConn_path(4) [OF assms(1) not_sent(1)] show ?thesis by (auto split: if_splits)
next
  case (sent c d' rep stoppable)
  with assms(2) ensureConn_path(4) [OF assms(1) sent(1)] show ?thesis by (auto split: if_splits)
qed (use assms(2) in simp)

lemma set_path_statement:
  assumes "keeps_paths pq path quiet" "pg_run pq (path_statement schema) 0 False d = (r, d1)"
  shows "if qr_success r then on_path path schema d1
    else (\<forall>s. on_path path s d \<longrightarrow> on_path path s d1)"
  using assms(1,2)
proof (cases rule: run_cases [of pq d "path_statement schema" 0 False])
  case (not_sent c d' e)
  then show ?thesis using assms(2) ensureConn_path(3) [OF assms(1) not_sent(1)]
    by (auto simp: on_path_def query_result_def qr_success_def pg_failure_def)
next
  case (sent c d' rep stoppable)
  then have "path (snd (reply_outcome False 0 rep)) =
      (if qr_success (fst (reply_outcome False 0 rep)) then schema else path c)"
    using keeps_paths_set [OF assms(1)] by simp
  then show ?thesis using sent assms(2) ensureConn_path(3) [OF assms(1) sent(1)] by (auto simp: on_path_def)
qed (use assms in \<open>auto simp: query_result_def qr_success_def pg_failure_def\<close>)

lemma set_path_ok:
  assumes "keeps_paths pq path quiet" "path_known path d" "schema \<noteq> UNKNOWN" "set_path pq schema d = (res, d1)"
  shows "case res of None \<Rightarrow> on_path path schema d1 \<and> pd_searchPath d1 = schema
    | Some r \<Rightarrow> \<not> qr_success r \<and> path_known path d1"
proof (cases "schema = pd_searchPath d")
  case True
  with assms show ?thesis by (auto simp: set_path_def path_known_def)
next
  case False
  obtain r d' where run: "pg_run pq (path_statement schema) 0 False d = (r, d')" by fastforce
  note st = set_path_statement [OF assms(1) run]
  show ?thesis
  proof (cases "qr_success r")
    case True
    with st False run assms(4) show ?thesis by (auto simp: set_path_def on_path_def)
  next
    case nok: False
    have "path_known path d'"
    proof -
      consider "pd_searchPath d' = pd_searchPath d" | "pd_conn d = None" "pd_searchPath d' = []"
        using run_searchPath [OF assms(1) run] by auto
      then show ?thesis
      proof cases
        case 1
        with assms(2) st nok show ?thesis by (auto simp: path_known_def)
      next
        case 2
        then have "on_path path [] d" by (simp add: on_path_def)
        with st nok 2 show ?thesis by (auto simp: path_known_def)
      qed
    qed
    with nok False run assms(4) show ?thesis by (auto simp: set_path_def)
  qed
qed

lemma executeIn_known:
  assumes "keeps_paths pq path quiet" "path_known path d" "schema \<noteq> UNKNOWN"
    and "may_move_path sql \<or> quiet sql"
  shows "path_known path (snd (executeIn pq schema sql l d))"
proof -
  obtain res d1 where s: "set_path pq schema d = (res, d1)" by fastforce
  note ok = set_path_ok [OF assms(1-3) s]
  show ?thesis
  proof (cases res)
    case (Some r)
    with ok s show ?thesis by (simp add: executeIn_def)
  next
    case None
    with ok have d1: "on_path path schema d1" "pd_searchPath d1 = schema" by auto
    obtain r d2 where run: "pg_run pq sql l True d1 = (r, d2)" by fastforce
    show ?thesis
    proof (cases "\<not> qr_success r \<or> may_move_path sql")
      case True
      with s None run show ?thesis by (simp add: executeIn_def path_known_def)
    next
      case False
      then have "on_path path schema d2" using run_keeps_path [OF assms(1) run d1(1)] assms(4) by simp
      moreover have "pd_searchPath d2 = schema"
        using run_searchPath [OF assms(1) run] d1 by (auto simp: on_path_def)
      ultimately show ?thesis using False s None run by (simp add: executeIn_def path_known_def)
    qed
  qed
qed

lemma catalog_read_known:
  assumes "keeps_paths pq path quiet" "path_known path d" "starts_with sql ''SELECT ''" "quiet sql"
  shows "path_known path (snd (pg_run pq sql l timed d))"
proof -
  obtain r d1 where run: "pg_run pq sql l timed d = (r, d1)" by fastforce
  have keep: "on_path path s d \<Longrightarrow> on_path path s d1" for s
    using run_keeps_path [OF assms(1) run _ assms(4)] assms(3) by blast
  from run_searchPath [OF assms(1) run] show ?thesis
  proof
    assume "pd_conn d = None \<and> pd_searchPath d1 = []"
    then show ?thesis using keep [of "[]"] run by (simp add: path_known_def on_path_def)
  qed (use keep assms(2) run in \<open>auto simp: path_known_def\<close>)
qed

text \<open>The states a handle can reach: opening, executing texts in schemas, reading the catalog.\<close>

inductive pg_reachable :: "'s Pq \<Rightarrow> (bytes \<Rightarrow> bool) \<Rightarrow> 's PgDb \<Rightarrow> bool" for pq quiet where
  pg_new: "pg_reachable pq quiet (new_PgDb info name)"
| pg_opened: "pg_reachable pq quiet d \<Longrightarrow> pg_reachable pq quiet (snd (pg_open pq d))"
| pg_executed: "pg_reachable pq quiet d \<Longrightarrow> schema \<noteq> UNKNOWN \<Longrightarrow> may_move_path sql \<or> quiet sql \<Longrightarrow>
    pg_reachable pq quiet (snd (executeIn pq schema sql l d))"
| pg_listed: "pg_reachable pq quiet d \<Longrightarrow> starts_with sql ''SELECT '' \<Longrightarrow> quiet sql \<Longrightarrow>
    pg_reachable pq quiet (snd (pg_run pq sql l False d))"

lemma open_known: "keeps_paths pq path quiet \<Longrightarrow> path_known path d \<Longrightarrow> path_known path (snd (pg_open pq d))"
  by (cases "ensureConn pq d" rule: prod.exhaust; cases "fst (ensureConn pq d)")
    (auto simp: pg_open_def ensureConn_path(2) ensureConn_def split: option.splits sum.splits)

lemma reachable_known: "pg_reachable pq quiet d \<Longrightarrow> keeps_paths pq path quiet \<Longrightarrow> path_known path d"
  by (induction rule: pg_reachable.induct)
    (auto simp: open_known executeIn_known catalog_read_known, simp add: path_known_def on_path_def new_PgDb_def)

text \<open>
  A server small enough to run: its session is its path, and it understands the statements that
  set it; any other text returns the path in one row, in one result.
\<close>

definition desk_result :: "PgStatus \<Rightarrow> bytes \<Rightarrow> PgResult" where
  "desk_result st v = \<lparr>pg_status = st, pg_columns = [(''path'', 19)], pg_tuples = [[Some v]], pg_cmdTuples = [], pg_error = []\<rparr>"

definition desk_move :: "bytes \<Rightarrow> bytes option" where
  "desk_move sql =
     (if sql = ''RESET search_path'' then Some []
      else if starts_with sql ''SET search_path TO '' then Some (undouble dquote (butlast (drop 20 sql)))
      else if starts_with sql ''SET SCHEMA '' then Some (undouble squote (butlast (drop 12 sql)))
      else None)"

definition desk :: "bytes Pq" where
  "desk = \<lparr>pq_connect = \<lambda>_. Inr [], pq_ping = id, pq_idle = \<lambda>_. True,
     pq_send = \<lambda>sql k path. Inr (case desk_move sql of
         None \<Rightarrow> \<lparr>rp_results = [desk_result Tuples_Ok path], rp_cancelled = \<lambda>_. [], rp_session = \<lambda>_. path\<rparr>
       | Some path' \<Rightarrow> \<lparr>rp_results = [desk_result Command_Ok []], rp_cancelled = \<lambda>_. [], rp_session = \<lambda>_. path'\<rparr>),
     pq_ok = \<lambda>_. True\<rparr>"

lemma desk_path_statement: "desk_move (path_statement schema) = Some schema"
  by (simp add: desk_move_def path_statement_def pg_quoteIdent_def starts_with_def undouble_double)

lemma desk_keeps_paths: "keeps_paths desk id (\<lambda>sql. desk_move sql = None)"
  by (simp add: keeps_paths_def desk_def desk_path_statement reply_outcome_def desk_result_def pg_result_def
      stop_now_def stream_start_def query_result_def qr_success_def extractPgResult_def default_statement_def Let_def
      split: option.splits)


section \<open>What the session guarantees\<close>

text \<open>
  C18: Take a handle in any state it reaches by connecting, catalog reads and user texts each of which
  either mentions a word the handle watches for or leaves the search path alone (\<open>quiet\<close>). Then a text given to
  run in a schema meets a session whose search path is that schema, and what it answers is the
  server's answer there; when the path cannot be set the text is not sent and the failure is
  returned. (A text outside this class, such as SET SCHEMA, can break it.)
\<close>

theorem statements_meet_their_schema:
  assumes "keeps_paths pq path quiet" "pg_reachable pq quiet d" "schema \<noteq> UNKNOWN"
  shows "case set_path pq schema d of
      (Some r, d1) \<Rightarrow> \<not> qr_success r \<and> executeIn pq schema sql l d = (r, d1)
    | (None, d1) \<Rightarrow> on_path path schema d1 \<and> fst (executeIn pq schema sql l d) = fst (pg_run pq sql l True d1)"
proof -
  have known: "path_known path d" using reachable_known assms(1,2) by blast
  obtain res d1 where set: "set_path pq schema d = (res, d1)" by fastforce
  show ?thesis using set_path_ok [OF assms(1) known assms(3) set] set
    by (auto simp: executeIn_def split_beta split: option.splits)
qed

lemma statements_meet_their_schema_witness:
  "case set_path desk ''a'' (snd (executeIn desk ''b'' ''TABLE t'' 10 (new_PgDb default_info ''db''))) of
      (Some r, d1) \<Rightarrow> \<not> qr_success r
    | (None, d1) \<Rightarrow> on_path id ''a'' d1"
proof -
  have "pg_reachable desk (\<lambda>sql. desk_move sql = None) (snd (executeIn desk ''b'' ''TABLE t'' 10 (new_PgDb default_info ''db'')))"
    by (rule pg_executed [OF pg_new]) (simp_all add: UNKNOWN_def desk_move_def starts_with_def)
  from statements_meet_their_schema [OF desk_keeps_paths this, of "''a''" "[]" 0]
  show ?thesis by (auto simp: UNKNOWN_def split: prod.splits option.splits)
qed

text \<open>
  C19: When the server delivers the rows of a statement in chunks, streaming them gives one result
  with the columns and rows that reading them at once would give under the same limit, even if the
  read is stopped early; and it is that very result when the text may not be stopped.
\<close>

theorem reading_in_chunks:
  assumes "pd_conn d = Some c" "pq_send pq sql (min (nat L) 500) (pq_ping pq c) = Inr rep" "L > 0"
    and "rp_results rep = cs @ [l]" "list_all (chunk_of l) cs" "pg_status l = Tuples_Ok" "cancels_cleanly rep"
  shows "\<exists>s. qr_statements (fst (pg_run pq sql L True d)) = [s] \<and>
    same_rows s (extractPgResult (merged l (concat (map pg_tuples (rp_results rep)))) L) \<and>
    (\<not> stoppableRead sql \<longrightarrow> s = extractPgResult (merged l (concat (map pg_tuples (rp_results rep)))) L)"
proof -
  let ?stop = "pq_idle pq (pq_ping pq c) \<and> stoppableRead sql"
  have "qr_statements (fst (pg_run pq sql L True d)) = st_statements (fst (pg_loop ?stop L rep 0 (rp_results rep) stream_start))"
    using assms(1-3) by (simp add: pg_run_def ensureConn_def query_result_def Let_def split_beta)
  with loop_chunks [OF assms(5,6,7,4), of ?stop L] assms(3) show ?thesis by auto
qed

text \<open>
  A server that sends six rows in chunks of two and, when cancelled, one more chunk and then an error.
\<close>

definition six_rows :: "PgStatus \<Rightarrow> nat list \<Rightarrow> PgResult" where
  "six_rows st vs = \<lparr>pg_status = st, pg_columns = [(''n'', 23)], pg_tuples = map (\<lambda>v. [Some (nat_to_string v)]) vs,
     pg_cmdTuples = [], pg_error = []\<rparr>"

definition six_results :: "PgResult list" where
  "six_results = [six_rows Tuples_Chunk [1, 2], six_rows Tuples_Chunk [3, 4], six_rows Tuples_Chunk [5, 6], six_rows Tuples_Ok []]"

definition six_reply :: "unit PgReply" where
  "six_reply = \<lparr>rp_results = six_results,
     rp_cancelled = \<lambda>n. take 1 (butlast (drop (n + 1) six_results)) @ [six_rows Other_Status []], rp_session = \<lambda>_. ()\<rparr>"

lemma six_reply_cancels: "cancels_cleanly six_reply"
  unfolding cancels_cleanly_def
proof
  fix n
  have "rp_cancelled six_reply n = take 1 (butlast (drop (n + 1) (rp_results six_reply))) @ [six_rows Other_Status []] \<and>
      pg_status (six_rows Other_Status []) = Other_Status" by (simp add: six_reply_def six_rows_def)
  then show "rp_cancelled six_reply n = drop (n + 1) (rp_results six_reply) \<or>
      (\<exists>k e. rp_cancelled six_reply n = take k (butlast (drop (n + 1) (rp_results six_reply))) @ [e] \<and> pg_status e = Other_Status)"
    by blast
qed

definition six_server :: "unit Pq" where
  "six_server = \<lparr>pq_connect = \<lambda>_. Inr (), pq_ping = id, pq_idle = \<lambda>_. True, pq_send = \<lambda>_ _ _. Inr six_reply, pq_ok = \<lambda>_. True\<rparr>"

lemma reading_in_chunks_witness:
  "\<exists>s. qr_statements (fst (pg_run six_server ''SELECT n FROM t'' 3 True ((new_PgDb default_info ''db'')\<lparr>pd_conn := Some ()\<rparr>))) = [s] \<and>
    same_rows s (extractPgResult (merged (six_rows Tuples_Ok []) (concat (map pg_tuples (rp_results six_reply)))) 3)"
proof -
  have "rp_results six_reply = butlast (rp_results six_reply) @ [six_rows Tuples_Ok []]"
    "list_all (chunk_of (six_rows Tuples_Ok [])) (butlast (rp_results six_reply))"
    "pg_status (six_rows Tuples_Ok []) = Tuples_Ok" "pq_send six_server sql k c = Inr six_reply" for sql k c
    by (simp_all add: six_server_def six_reply_def six_results_def chunk_of_def six_rows_def)
  from reading_in_chunks [where L = 3 and sql = "''SELECT n FROM t''" and d = "(new_PgDb default_info ''db'')\<lparr>pd_conn := Some ()\<rparr>",
      OF _ this(4) _ this(1,2,3) six_reply_cancels] show ?thesis by auto
qed

end
