(* ===== verification/Postgres_Catalog.thy ===== *)
theory Postgres_Catalog
  imports Postgres_Session
begin

text \<open>
  The catalog of a PostgreSQL database (\<^verbatim>\<open>src/postgres_connection.cpp\<close>): the queries, what is made of
  their rows, the listings of a schema and of a database, the description of a table, and the
  schema handles. The lemmas show that a listing gives back the catalog it is answered from, and that
  whatever a server answers a listing has the tables the server names, with their incoming keys.
\<close>


section \<open>Queries\<close>

definition COLUMN_TYPE :: "bytes" where
  "COLUMN_TYPE =
       ''CASE WHEN c.data_type IN ('USER-DEFINED', 'ARRAY') THEN (SELECT pg_catalog.format_type(a.atttypid, '' @
       ''a.atttypmod) FROM pg_catalog.pg_attribute a WHERE a.attrelid = (pg_catalog.quote_ident(c.table_schema) '' @
       ''|| '.' || pg_catalog.quote_ident(c.table_name))::regclass AND a.attname = c.column_name) ELSE '' @
       ''c.data_type END''"

definition schemata_query :: "bytes" where
  "schemata_query =
       ''SELECT schema_name FROM information_schema.schemata WHERE schema_name NOT IN ('information_schema', '' @
       [squote] @
       ''pg_catalog', 'pg_toast', 'crdb_internal', 'pg_extension') AND schema_name NOT LIKE 'pg'' @
       [backslash] @ ''_temp'' @ [backslash] @ ''_%' AND schema_name NOT LIKE 'pg'' @ [backslash] @
       ''_toast'' @ [backslash] @ ''_temp'' @ [backslash] @ ''_%' ORDER BY schema_name''"

definition tables_query :: "bytes \<Rightarrow> bytes" where
  "tables_query schema =
       ''SELECT tablename FROM pg_tables WHERE schemaname = '' @
       pg_literal schema @
       '' ORDER BY tablename''"

definition columns_query :: "bytes \<Rightarrow> bytes \<Rightarrow> bytes" where
  "columns_query schema nameList =
       ''SELECT c.table_name, c.column_name, '' @
       COLUMN_TYPE @
       '', c.is_nullable, CASE WHEN tc.constraint_type = 'PRIMARY KEY' THEN 'true' ELSE 'false' END, '' @
       ''CASE WHEN c.column_default LIKE 'nextval(%' OR c.column_default = 'unique_rowid()' OR c.is_identity '' @
       ''= 'YES'   THEN 'true' ELSE 'false' END, COALESCE(c.column_default, '' @ [squote, squote] @
       '') FROM information_schema.columns c LEFT JOIN information_schema.key_column_usage kcu   ON c.column_name '' @
       ''= kcu.column_name AND c.table_name = kcu.table_name   AND c.table_schema = kcu.table_schema '' @
       ''LEFT JOIN information_schema.table_constraints tc   ON kcu.constraint_name = tc.constraint_name '' @
       ''  AND tc.constraint_type = 'PRIMARY KEY' WHERE c.table_schema = '' @
       pg_literal schema @
       '' AND c.table_name IN ('' @
       nameList @
       '') ORDER BY c.table_name, c.ordinal_position''"

definition keys_query :: "bytes \<Rightarrow> bytes \<Rightarrow> bytes" where
  "keys_query schema nameList =
       ''SELECT src.relname, sa.attname, tgt.relname, ta.attname, con.conname FROM pg_catalog.pg_constraint '' @
       ''con JOIN pg_catalog.pg_class src ON src.oid = con.conrelid JOIN pg_catalog.pg_namespace n ON '' @
       ''n.oid = src.relnamespace JOIN pg_catalog.pg_class tgt ON tgt.oid = con.confrelid   AND tgt.relnamespace '' @
       ''= src.relnamespace JOIN generate_series(1, 32) i ON i <= array_length(con.conkey, 1) JOIN pg_catalog.pg_attribute '' @
       ''sa   ON sa.attrelid = con.conrelid AND sa.attnum = con.conkey[i] JOIN pg_catalog.pg_attribute '' @
       ''ta   ON ta.attrelid = con.confrelid AND ta.attnum = con.confkey[i] WHERE con.contype = 'f' AND '' @
       ''n.nspname = '' @
       pg_literal schema @
       '' AND src.relname IN ('' @
       nameList @
       '') ORDER BY src.relname, con.conname, i''"

definition schema_keys_query :: "bytes \<Rightarrow> bytes \<Rightarrow> bytes" where
  "schema_keys_query schema nameList =
       ''SELECT tc.table_name, kcu.column_name, ccu.table_name, ccu.column_name, tc.constraint_name FROM '' @
       ''information_schema.table_constraints tc JOIN information_schema.key_column_usage kcu   ON tc.constraint_name '' @
       ''= kcu.constraint_name   AND tc.table_schema = kcu.table_schema JOIN information_schema.constraint_column_usage '' @
       ''ccu   ON ccu.constraint_name = tc.constraint_name   AND ccu.table_schema = tc.table_schema WHERE '' @
       ''tc.constraint_type = 'FOREIGN KEY' AND tc.table_schema = '' @
       pg_literal schema @
       '' AND tc.table_name IN ('' @
       nameList @
       '') ORDER BY tc.table_name''"

definition sizes_query :: "bytes \<Rightarrow> bytes \<Rightarrow> bytes" where
  "sizes_query schema nameList =
       ''SELECT c.relname, pg_total_relation_size(c.oid) FROM pg_catalog.pg_class c JOIN pg_catalog.pg_namespace '' @
       ''n ON n.oid = c.relnamespace WHERE n.nspname = '' @
       pg_literal schema @
       '' AND c.relkind = 'r' AND c.relname IN ('' @
       nameList @
       '')''"

definition views_query :: "bytes \<Rightarrow> bytes" where
  "views_query schema =
       ''SELECT viewname, COALESCE(definition, '' @ [squote, squote] @
       '') FROM pg_views WHERE schemaname = '' @
       pg_literal schema @
       '' ORDER BY viewname''"

definition view_columns_query :: "bytes \<Rightarrow> bytes \<Rightarrow> bytes" where
  "view_columns_query schema nameList =
       ''SELECT c.table_name, c.column_name, '' @
       COLUMN_TYPE @
       '', c.is_nullable FROM information_schema.columns c WHERE c.table_schema = '' @
       pg_literal schema @
       '' AND c.table_name IN ('' @
       nameList @
       '') ORDER BY c.table_name, c.ordinal_position''"

definition matviews_query :: "bytes \<Rightarrow> bytes" where
  "matviews_query schema =
       ''SELECT matviewname, COALESCE(definition, '' @ [squote, squote] @
       '') FROM pg_matviews WHERE schemaname = '' @
       pg_literal schema @
       '' ORDER BY matviewname''"

definition matview_columns_query :: "bytes \<Rightarrow> bytes \<Rightarrow> bytes" where
  "matview_columns_query schema nameList =
       ''SELECT c.relname, a.attname, pg_catalog.format_type(a.atttypid, a.atttypmod), a.attnotnull FROM '' @
       ''pg_catalog.pg_attribute a JOIN pg_catalog.pg_class c ON a.attrelid = c.oid JOIN pg_catalog.pg_namespace '' @
       ''n ON c.relnamespace = n.oid WHERE n.nspname = '' @
       pg_literal schema @
       '' AND c.relkind = 'm' AND a.attnum > 0 AND NOT a.attisdropped AND c.relname IN ('' @
       nameList @
       '') ORDER BY c.relname, a.attnum''"

definition sequences_query :: "bytes \<Rightarrow> bytes" where
  "sequences_query schema =
       ''SELECT sequencename FROM pg_sequences WHERE schemaname = '' @
       pg_literal schema @
       '' ORDER BY sequencename''"

definition routines_query :: "bytes \<Rightarrow> bytes" where
  "routines_query schema =
       ''SELECT p.proname, p.proname || '(' || COALESCE(pg_catalog.pg_get_function_identity_arguments(p.oid), '' @
       [squote, squote] @
       '') || ')', CASE p.prokind WHEN 'f' THEN 'FUNCTION' ELSE 'PROCEDURE' END, pg_catalog.pg_get_function_result(p.oid) '' @
       ''FROM pg_catalog.pg_proc p JOIN pg_catalog.pg_namespace n ON n.oid = p.pronamespace WHERE n.nspname '' @
       ''= '' @
       pg_literal schema @
       '' AND p.prokind IN ('f', 'p') ORDER BY p.prokind, p.proname''"

definition regclass_of :: "bytes \<Rightarrow> bytes \<Rightarrow> bytes" where
  "regclass_of schema tableName =
       pg_literal (pg_quoteIdent schema @ ''.'' @ pg_quoteIdent tableName)"

definition describe_query :: "bytes \<Rightarrow> bytes \<Rightarrow> bytes" where
  "describe_query schema tableName =
       ''SELECT c.column_name, '' @
       COLUMN_TYPE @
       '', c.is_nullable, COALESCE(c.column_default, '' @ [squote, squote] @
       ''), CASE WHEN c.column_default LIKE 'nextval(%' OR c.column_default = 'unique_rowid()' OR c.is_identity '' @
       ''= 'YES'   THEN 'true' ELSE 'false' END FROM information_schema.columns c WHERE c.table_schema '' @
       ''= '' @
       pg_literal schema @
       '' AND c.table_name = '' @
       pg_literal tableName @
       '' ORDER BY c.ordinal_position''"

definition primary_query :: "bytes \<Rightarrow> bytes \<Rightarrow> bytes" where
  "primary_query schema tableName =
       ''SELECT a.attname FROM pg_index i JOIN pg_attribute a ON a.attrelid = i.indrelid AND a.attnum '' @
       ''= ANY(i.indkey) WHERE i.indrelid = '' @
       regclass_of schema tableName @
       ''::regclass AND i.indisprimary''"

definition indexes_query :: "bytes \<Rightarrow> bytes \<Rightarrow> bytes" where
  "indexes_query schema tableName =
       ''SELECT i.relname, a.attname, ix.indisunique FROM pg_class t JOIN pg_namespace n ON n.oid = t.relnamespace '' @
       ''JOIN pg_index ix ON t.oid = ix.indrelid JOIN pg_class i ON i.oid = ix.indexrelid JOIN pg_attribute '' @
       ''a ON a.attrelid = t.oid AND a.attnum = ANY(ix.indkey) WHERE t.relkind = 'r' AND n.nspname = '' @
       pg_literal schema @
       '' AND t.relname = '' @
       pg_literal tableName @
       '' AND NOT ix.indisprimary ORDER BY i.relname, a.attnum''"

definition table_keys_query :: "bytes \<Rightarrow> bytes \<Rightarrow> bytes" where
  "table_keys_query schema tableName =
       ''SELECT kcu.column_name, ccu.table_name, ccu.column_name, tc.constraint_name FROM information_schema.table_constraints '' @
       ''tc JOIN information_schema.key_column_usage kcu   ON tc.constraint_name = kcu.constraint_name '' @
       ''  AND tc.table_schema = kcu.table_schema JOIN information_schema.constraint_column_usage ccu '' @
       ''  ON ccu.constraint_name = tc.constraint_name   AND ccu.table_schema = tc.table_schema WHERE '' @
       ''tc.constraint_type = 'FOREIGN KEY' AND tc.table_schema = '' @
       pg_literal schema @
       '' AND tc.table_name = '' @
       pg_literal tableName"

definition size_query :: "bytes \<Rightarrow> bytes \<Rightarrow> bytes" where
  "size_query schema tableName =
       ''SELECT pg_total_relation_size('' @
       regclass_of schema tableName @
       ''::regclass)''"


section \<open>Rows of the catalog\<close>

definition pg_try :: "'s Pq \<Rightarrow> bytes \<Rightarrow> int \<Rightarrow> ('s PgDb, QueryResult) call" where
  "pg_try pq sql rowLimit d = (case pg_run pq sql rowLimit False d of (r, d') \<Rightarrow> (Inr r, d'))"

definition pg_column_row :: "bytes list \<Rightarrow> (bytes \<times> Column) option" where
  "pg_column_row row =
     (if length row < 7 then None
      else Some (row ! 0, default_column\<lparr>col_name := row ! 1, col_type := row ! 2, col_isNotNull := (row ! 3 = ''NO''),
        col_isPrimaryKey := (row ! 4 = ''true''), col_isAutoIncrement := (row ! 5 = ''true''), col_defaultValue := row ! 6\<rparr>))"

definition pg_key_row :: "bytes list \<Rightarrow> (bytes \<times> ForeignKey) option" where
  "pg_key_row row =
     (if length row < 5 then None
      else Some (row ! 0, default_key\<lparr>fk_sourceColumn := row ! 1, fk_targetTable := row ! 2, fk_targetColumn := row ! 3,
        fk_name := row ! 4\<rparr>))"

definition pg_size_row :: "bytes list \<Rightarrow> (bytes \<times> int) option" where
  "pg_size_row row = (if length row < 2 then None else Some (row ! 0, size_or_unknown (row ! 1)))"

text \<open>A column of a view: \<open>yes\<close> is how the query says that it takes no nulls.\<close>

definition pg_view_column_row :: "bytes \<Rightarrow> bytes list \<Rightarrow> (bytes \<times> Column) option" where
  "pg_view_column_row yes row =
     (if length row < 4 then None
      else Some (row ! 0, default_column\<lparr>col_name := row ! 1, col_type := row ! 2, col_isNotNull := (row ! 3 = yes)\<rparr>))"

definition pg_view_row :: "bytes \<Rightarrow> bytes list \<Rightarrow> Table option" where
  "pg_view_row schema row =
     (if length row < 2 then None
      else Some (default_table\<lparr>tbl_name := row ! 0, tbl_schema := schema, tbl_fullName := schema @ ''.'' @ row ! 0,
        tbl_definition := row ! 1\<rparr>))"

definition pg_routine_row :: "bytes list \<Rightarrow> Routine option" where
  "pg_routine_row row =
     (if length row < 4 then None
      else Some \<lparr>rt_name = row ! 0, rt_signature = row ! 1,
        rt_kind = (if row ! 2 = ''PROCEDURE'' then RProcedure else RFunction),
        rt_returnType = (if row ! 3 = NULL_SENTINEL then [] else row ! 3)\<rparr>)"

definition pg_describe_row :: "bytes list \<Rightarrow> Column option" where
  "pg_describe_row row =
     (if length row < 5 then None
      else Some (default_column\<lparr>col_name := row ! 0, col_type := row ! 1, col_isNotNull := (row ! 2 = ''NO''),
        col_defaultValue := row ! 3, col_isAutoIncrement := (row ! 4 = ''true'')\<rparr>))"

definition pg_index_row :: "bytes list \<Rightarrow> Index list \<Rightarrow> Index list" where
  "pg_index_row row idxs =
     (if length row < 3 then idxs else add_index_row (row ! 0) (row ! 2 = BOOL_TRUE_SENTINEL) (row ! 1) idxs)"

definition pg_table_key_row :: "bytes list \<Rightarrow> ForeignKey option" where
  "pg_table_key_row row =
     (if length row < 4 then None
      else Some (default_key\<lparr>fk_sourceColumn := row ! 0, fk_targetTable := row ! 1, fk_targetColumn := row ! 2,
        fk_name := row ! 3\<rparr>))"


section \<open>Listings of a schema\<close>

definition schemaNames :: "'s Pq \<Rightarrow> ('s PgDb, bytes list) call" where
  "schemaNames pq = and_then (pg_rows pq schemata_query) (\<lambda>data. return_ok (first_cells data))"

definition pg_table :: "bytes \<Rightarrow> (bytes \<Rightarrow> int option) \<Rightarrow> bytes \<Rightarrow> Column list \<Rightarrow> ForeignKey list \<Rightarrow> Table" where
  "pg_table schema sizes name cols keys =
     default_table\<lparr>tbl_name := name, tbl_schema := schema, tbl_fullName := schema @ ''.'' @ name, tbl_columns := cols,
       tbl_foreignKeys := keys, tbl_sizeBytes := (case sizes name of None \<Rightarrow> -1 | Some n \<Rightarrow> n)\<rparr>"

definition pg_tables :: "bytes \<Rightarrow> bytes list \<Rightarrow> bytes list list \<Rightarrow> bytes list list \<Rightarrow> bytes list list \<Rightarrow> Table list" where
  "pg_tables schema names cols keys sizes =
     populateIncomingForeignKeys
       (map (\<lambda>(name, cs, ks). pg_table schema (last_by_name pg_size_row sizes) name cs ks)
          (zip names (zip (moved_out (by_name pg_column_row cols) names) (moved_out (by_name pg_key_row keys) names))))"

text \<open>The foreign keys: from \<^verbatim>\<open>pg_constraint\<close>, or from \<^verbatim>\<open>information_schema\<close> where that query fails.\<close>

definition pg_keys :: "'s Pq \<Rightarrow> bytes \<Rightarrow> bytes \<Rightarrow> ('s PgDb, bytes list list) call" where
  "pg_keys pq schema nameList =
     and_then (pg_try pq (keys_query schema nameList) 0) (\<lambda>r.
       if qr_success r \<and> qr_statements r \<noteq> [] then return_ok (sr_tableData (hd (qr_statements r)))
       else pg_rows pq (schema_keys_query schema nameList))"

definition tablesIn :: "'s Pq \<Rightarrow> bytes \<Rightarrow> ('s PgDb, Table list) call" where
  "tablesIn pq schema =
     and_then (pg_rows pq (tables_query schema)) (\<lambda>data.
       let names = first_cells data; nameList = literalList names
       in if names = [] then return_ok []
          else and_then (pg_rows pq (columns_query schema nameList)) (\<lambda>cols.
            and_then (pg_keys pq schema nameList) (\<lambda>keys.
            and_then (pg_try pq (sizes_query schema nameList) 0) (\<lambda>r.
              return_ok (pg_tables schema names cols keys
                (if qr_success r \<and> qr_statements r \<noteq> [] then sr_tableData (hd (qr_statements r)) else []))))))"

definition pg_views :: "bytes \<Rightarrow> Table list \<Rightarrow> bytes list list \<Rightarrow> Table list" where
  "pg_views yes vs cols =
     map (\<lambda>(v, cs). v\<lparr>tbl_columns := cs\<rparr>) (zip vs (moved_out (by_name (pg_view_column_row yes) cols) (map tbl_name vs)))"

definition views_of :: "'s Pq \<Rightarrow> bytes \<Rightarrow> (bytes \<Rightarrow> bytes) \<Rightarrow> bytes \<Rightarrow> bytes \<Rightarrow> ('s PgDb, Table list) call" where
  "views_of pq query columns yes schema =
     and_then (pg_rows pq query) (\<lambda>data.
       let vs = List.map_filter (pg_view_row schema) data
       in if vs = [] then return_ok []
          else and_then (pg_rows pq (columns (literalList (map tbl_name vs)))) (\<lambda>cols. return_ok (pg_views yes vs cols)))"

definition viewsIn :: "'s Pq \<Rightarrow> bytes \<Rightarrow> ('s PgDb, Table list) call" where
  "viewsIn pq schema = views_of pq (views_query schema) (view_columns_query schema) ''NO'' schema"

definition materializedViewsIn :: "'s Pq \<Rightarrow> bytes \<Rightarrow> ('s PgDb, Table list) call" where
  "materializedViewsIn pq schema =
     views_of pq (matviews_query schema) (matview_columns_query schema) BOOL_TRUE_SENTINEL schema"

definition sequencesIn :: "'s Pq \<Rightarrow> bytes \<Rightarrow> ('s PgDb, bytes list) call" where
  "sequencesIn pq schema = and_then (pg_rows pq (sequences_query schema)) (\<lambda>data. return_ok (first_cells data))"

definition routinesIn :: "'s Pq \<Rightarrow> bytes \<Rightarrow> ('s PgDb, Routine list) call" where
  "routinesIn pq schema =
     and_then (pg_rows pq (routines_query schema)) (\<lambda>data. return_ok (List.map_filter pg_routine_row data))"

text \<open>The size of a described table: optional, and \<^verbatim>\<open>-1\<close> when the answer is no number.\<close>

definition described_size :: "QueryResult \<Rightarrow> int" where
  "described_size r =
     (if qr_success r then
        (case qr_statements r of
           s # _ \<Rightarrow> (case sr_tableData s of
             (cell # _) # _ \<Rightarrow> if cell = NULL_SENTINEL then -1 else size_or_unknown cell
           | _ \<Rightarrow> -1)
         | [] \<Rightarrow> -1)
      else -1)"

definition describeIn :: "'s Pq \<Rightarrow> bytes \<Rightarrow> bytes \<Rightarrow> ('s PgDb, Table) call" where
  "describeIn pq schema tableName =
     (let t = default_table\<lparr>tbl_name := tableName, tbl_schema := schema, tbl_fullName := schema @ ''.'' @ tableName\<rparr>
      in and_then (pg_rows pq (describe_query schema tableName)) (\<lambda>data.
        let cols = List.map_filter pg_describe_row data
        in if cols = [] then return_ok t
           else and_then (pg_rows pq (primary_query schema tableName)) (\<lambda>pk.
             and_then (pg_rows pq (indexes_query schema tableName)) (\<lambda>idx.
             and_then (pg_rows pq (table_keys_query schema tableName)) (\<lambda>keys.
             and_then (pg_try pq (size_query schema tableName) 1) (\<lambda>size.
               return_ok (t\<lparr>
                 tbl_columns := map (\<lambda>c. c\<lparr>col_isPrimaryKey := (col_name c \<in> set (first_cells pk))\<rparr>) cols,
                 tbl_indexes := fold pg_index_row idx [],
                 tbl_foreignKeys := List.map_filter pg_table_key_row keys,
                 tbl_sizeBytes := described_size size\<rparr>)))))))"


section \<open>Listings of a database\<close>

definition in_all_schemas :: "'s Pq \<Rightarrow> (bytes \<Rightarrow> ('s PgDb, 'a list) call) \<Rightarrow> ('s PgDb, 'a list) call" where
  "in_all_schemas pq f = and_then (schemaNames pq) (collect f)"

definition pg_tables_all :: "'s Pq \<Rightarrow> ('s PgDb, Table list) call" where
  "pg_tables_all pq = in_all_schemas pq (tablesIn pq)"

definition pg_views_all :: "'s Pq \<Rightarrow> ('s PgDb, Table list) call" where
  "pg_views_all pq = in_all_schemas pq (viewsIn pq)"

definition pg_materializedViews_all :: "'s Pq \<Rightarrow> ('s PgDb, Table list) call" where
  "pg_materializedViews_all pq = in_all_schemas pq (materializedViewsIn pq)"

definition pg_sequences_all :: "'s Pq \<Rightarrow> ('s PgDb, bytes list) call" where
  "pg_sequences_all pq =
     in_all_schemas pq (\<lambda>s. and_then (sequencesIn pq s) (\<lambda>names. return_ok (map (\<lambda>n. s @ ''.'' @ n) names)))"

definition pg_routines_all :: "'s Pq \<Rightarrow> ('s PgDb, Routine list) call" where
  "pg_routines_all pq = in_all_schemas pq (routinesIn pq)"

definition pg_describeTable :: "'s Pq \<Rightarrow> bytes \<Rightarrow> ('s PgDb, Table) call" where
  "pg_describeTable pq tableName =
     (case str_find ''.'' tableName 0 of
        Some dot \<Rightarrow> describeIn pq (take dot tableName) (drop (dot + 1) tableName)
      | None \<Rightarrow> and_then (pg_rows pq ''SELECT current_schema()'') (\<lambda>current.
          describeIn pq (case current of (s # _) # _ \<Rightarrow> s | _ \<Rightarrow> ''public'') tableName))"


section \<open>Schemas as handles\<close>

text \<open>
  \<^verbatim>\<open>PostgresSchema\<close>: a name over the database's handle. It is a backend of the interface whose
  statements run with its name as the search path.
\<close>

definition pg_schema_db :: "'s Pq \<Rightarrow> DatabaseType \<Rightarrow> bytes \<Rightarrow> 's PgDb Db" where
  "pg_schema_db pq ty name =
     \<lparr>db_type = ty, db_schemaName = name, db_execute = executeIn pq name, db_describeTable = describeIn pq name\<rparr>"

definition pg_database_db :: "'s Pq \<Rightarrow> DatabaseType \<Rightarrow> 's PgDb Db" where
  "pg_database_db pq ty =
     \<lparr>db_type = ty, db_schemaName = [], db_execute = pg_execute pq, db_describeTable = pg_describeTable pq\<rparr>"

definition inSchema :: "bytes \<Rightarrow> Table \<Rightarrow> Table" where
  "inSchema name t = (if tbl_schema t = [] then t\<lparr>tbl_schema := name\<rparr> else t)"

definition pg_schema_getTableData ::
    "'s Pq \<Rightarrow> DatabaseType \<Rightarrow> bytes \<Rightarrow> Table \<Rightarrow> int \<Rightarrow> int \<Rightarrow> bytes \<Rightarrow> bytes \<Rightarrow> ('s PgDb, bytes list list) call" where
  "pg_schema_getTableData pq ty name table limit offset whereClause orderByClause =
     getTableData (pg_schema_db pq ty name) (inSchema name table) limit offset whereClause orderByClause"

definition pg_schema_getColumnNames :: "'s Pq \<Rightarrow> DatabaseType \<Rightarrow> bytes \<Rightarrow> Table \<Rightarrow> ('s PgDb, bytes list) call" where
  "pg_schema_getColumnNames pq ty name table = getColumnNames (pg_schema_db pq ty name) (inSchema name table)"

definition pg_schema_getRowCount :: "'s Pq \<Rightarrow> DatabaseType \<Rightarrow> bytes \<Rightarrow> Table \<Rightarrow> bytes \<Rightarrow> ('s PgDb, int) call" where
  "pg_schema_getRowCount pq ty name table = getRowCount (pg_schema_db pq ty name) (inSchema name table)"

text \<open>Renaming a schema renames the handle; the state is the database's with the handle's name.\<close>

definition pg_renameSchema :: "'s Pq \<Rightarrow> bytes \<Rightarrow> bytes \<times> 's PgDb \<Rightarrow> Status \<times> (bytes \<times> 's PgDb)" where
  "pg_renameSchema pq newName = (\<lambda>(name, d).
     case pg_execute pq (''ALTER SCHEMA '' @ pg_quoteIdent name @ '' RENAME TO '' @ pg_quoteIdent newName) 0 d of
       (r, d') \<Rightarrow> (toStatus r, (if qr_success r then newName else name, d')))"

definition pg_dropSchema :: "'s Pq \<Rightarrow> bytes \<Rightarrow> 's PgDb \<Rightarrow> Status \<times> 's PgDb" where
  "pg_dropSchema pq name d =
     (case pg_execute pq (''DROP SCHEMA '' @ pg_quoteIdent name @ '' CASCADE'') 0 d of (r, d') \<Rightarrow> (toStatus r, d'))"


section \<open>Every listing is consistent\<close>

lemma yields_rows: "yields speaks (pg_rows pq sql) (\<lambda>_. True)"
  by (auto simp: yields_def speaks_def pg_rows_def Let_def split: prod.split list.split)

lemma yields_try: "yields speaks (pg_try pq sql l) (\<lambda>_. True)"
  by (auto simp: yields_def pg_try_def split: prod.split)

lemma pg_tables_listed:
  "map tbl_name (pg_tables schema names cols keys sizes) = names"
  "list_all (table_in schema schema) (pg_tables schema names cols keys sizes)"
  "incoming_exact (pg_tables schema names cols keys sizes)"
  unfolding pg_tables_def
  by (simp add: populate_maps split_beta comp_def pg_table_def,
      rule populate_in, simp add: list_all_iff pg_table_def table_in_def split_beta, rule populate_exact)

lemma yields_keys: "yields speaks (pg_keys pq schema nameList) (\<lambda>_. True)"
  unfolding pg_keys_def by (intro yields_and_then [OF yields_try] yields_if yields_return yields_rows) simp

lemma tablesIn_listed:
  "listing speaks (pg_rows pq (tables_query schema)) first_cells
     (\<lambda>ts. list_all (table_in schema schema) ts \<and> incoming_exact ts) (tablesIn pq schema)"
  unfolding tablesIn_def Let_def
  by (intro listing_and_then [OF yields_rows] yields_and_then [OF yields_rows] yields_and_then [OF yields_keys]
      yields_and_then [OF yields_try] yields_if yields_return) (simp_all add: pg_tables_listed)

text \<open>The names of views: rows that lack the definition are skipped.\<close>

abbreviation view_names :: "bytes list list \<Rightarrow> bytes list" where
  "view_names data \<equiv> map hd (filter (\<lambda>row. length row \<ge> 2) data)"

lemma pg_view_rows_named:
  "map tbl_name (List.map_filter (pg_view_row schema) data) = view_names data"
  "list_all (table_in schema schema) (List.map_filter (pg_view_row schema) data)"
proof -
  have "row ! 0 = hd row" if "2 \<le> length row" for row :: "bytes list" using that by (cases row) auto
  then show "map tbl_name (List.map_filter (pg_view_row schema) data) = view_names data"
    "list_all (table_in schema schema) (List.map_filter (pg_view_row schema) data)"
    by (induction data) (auto simp: map_filter_simps pg_view_row_def table_in_def default_table_def)
qed

lemma pg_views_named:
  "map tbl_name (pg_views yes vs cols) = map tbl_name vs"
  "list_all (table_in schema schema) vs \<Longrightarrow> list_all (table_in schema schema) (pg_views yes vs cols)"
proof -
  have "map (tbl_name \<circ> fst) (zip vs xs) = map tbl_name vs" if "length xs = length vs" for xs :: "Column list list"
    using that by (simp flip: map_map)
  then show "map tbl_name (pg_views yes vs cols) = map tbl_name vs"
    by (simp add: pg_views_def split_beta comp_def)
qed (auto simp: pg_views_def list_all_iff table_in_def dest!: set_zip_leftD)

lemma views_of_listed:
  "listing speaks (pg_rows pq query) view_names (list_all (table_in schema schema)) (views_of pq query columns yes schema)"
proof -
  have none: "view_names data = []" if "List.map_filter (pg_view_row schema) data = []" for data
    using pg_view_rows_named(1) [of schema data] that by simp
  show ?thesis
    unfolding views_of_def Let_def
    by (intro listing_and_then [OF yields_rows] yields_and_then [OF yields_rows] yields_if yields_return)
      (use none pg_views_named(2) [OF pg_view_rows_named(2)] in \<open>auto simp: pg_views_named(1) pg_view_rows_named(1)\<close>)
qed

lemma pg_views_listed:
  "listing speaks (pg_rows pq (views_query schema)) view_names (list_all (table_in schema schema)) (viewsIn pq schema)"
  "listing speaks (pg_rows pq (matviews_query schema)) view_names (list_all (table_in schema schema))
     (materializedViewsIn pq schema)"
  using views_of_listed [of pq] by (simp_all add: viewsIn_def materializedViewsIn_def)


section \<open>What a listing reads\<close>

text \<open>A server that answers every text with its rows, as a function of the text, and stays in good states.\<close>

definition serves :: "'s Pq \<Rightarrow> (bytes \<Rightarrow> bytes list list) \<Rightarrow> ('s PgDb \<Rightarrow> bool) \<Rightarrow> bool" where
  "serves pq ask good \<longleftrightarrow>
     (\<forall>d sql. good d \<longrightarrow>
        good (snd (pg_run pq sql 0 False d)) \<and>
        (\<exists>s. qr_statements (fst (pg_run pq sql 0 False d)) = [s] \<and> sr_success s \<and> sr_tableData s = ask sql))"

text \<open>
  A schema and what the catalog queries answer for it: its tables carry what those queries select,
  and the rows of the answers are their columns, keys and sizes, cell by cell as the select lists
  have them, in the order of the tables.
\<close>

definition flag_cell :: "bool \<Rightarrow> bytes" where
  "flag_cell b = (if b then ''true'' else ''false'')"

definition column_cells :: "bytes \<Rightarrow> Column \<Rightarrow> bytes list" where
  "column_cells n c = [n, col_name c, col_type c, if col_isNotNull c then ''NO'' else ''YES'',
     flag_cell (col_isPrimaryKey c), flag_cell (col_isAutoIncrement c), col_defaultValue c]"

definition key_cells :: "bytes \<Rightarrow> ForeignKey \<Rightarrow> bytes list" where
  "key_cells n k = [n, fk_sourceColumn k, fk_targetTable k, fk_targetColumn k, fk_name k]"

definition size_cells :: "bytes \<Rightarrow> int \<Rightarrow> bytes list" where
  "size_cells n v = [n, to_string v]"

definition selected_table :: "bytes \<Rightarrow> Table \<Rightarrow> bool" where
  "selected_table schema t \<longleftrightarrow>
     table_in schema schema t \<and> tbl_comment t = [] \<and> tbl_definition t = [] \<and> tbl_indexes t = [] \<and>
     tbl_incomingForeignKeys t = [] \<and> 0 \<le> tbl_sizeBytes t \<and> tbl_sizeBytes t < 2 ^ 63 \<and>
     list_all (\<lambda>c. col_comment c = [] \<and> \<not> col_isUnique c) (tbl_columns t) \<and>
     list_all (\<lambda>k. fk_onDelete k = [] \<and> fk_onUpdate k = []) (tbl_foreignKeys t)"

definition rows_of :: "(bytes \<Rightarrow> 'a \<Rightarrow> bytes list) \<Rightarrow> (Table \<Rightarrow> 'a list) \<Rightarrow> Table list \<Rightarrow> bytes list list" where
  "rows_of cells parts ts = concat (map (\<lambda>t. map (cells (tbl_name t)) (parts t)) ts)"

definition describes :: "(bytes \<Rightarrow> bytes list list) \<Rightarrow> bytes \<Rightarrow> Table list \<Rightarrow> bool" where
  "describes ask schema ts \<longleftrightarrow>
     list_all (selected_table schema) ts \<and> distinct (map tbl_name ts) \<and>
     ask (tables_query schema) = map (\<lambda>t. [tbl_name t]) ts \<and>
     (let nameList = literalList (map tbl_name ts)
      in ask (columns_query schema nameList) = rows_of column_cells tbl_columns ts \<and>
         ask (keys_query schema nameList) = rows_of key_cells tbl_foreignKeys ts \<and>
         ask (sizes_query schema nameList) = rows_of size_cells (\<lambda>t. [tbl_sizeBytes t]) ts)"

text \<open>The tables with the keys that come in from each other, each renamed to the table it comes from.\<close>

definition with_incoming :: "Table list \<Rightarrow> Table list" where
  "with_incoming ts = map (\<lambda>t. t\<lparr>tbl_incomingForeignKeys :=
     [fk\<lparr>fk_targetTable := tbl_name src\<rparr>. src \<leftarrow> ts, fk \<leftarrow> tbl_foreignKeys src, fk_targetTable fk = tbl_name t]\<rparr>) ts"

lemma populate_with_incoming:
  assumes "distinct (map tbl_name ts)"
  shows "populateIncomingForeignKeys ts = with_incoming ts"
proof (rule nth_equalityI)
  fix i assume "i < length (populateIncomingForeignKeys ts)"
  then have i: "i < length ts" by (simp add: populate_fields(2))
  then have "\<forall>j. i < j \<and> j < length ts \<longrightarrow> tbl_name (ts ! j) \<noteq> tbl_name (ts ! i)"
    using assms by (auto simp: distinct_conv_nth)
  moreover have "map f (filter P xs) = concat (map (\<lambda>x. if P x then [f x] else []) xs)"
    for f :: "ForeignKey \<Rightarrow> ForeignKey" and P xs by (induction xs) simp_all
  ultimately show "populateIncomingForeignKeys ts ! i = with_incoming ts ! i"
    using populateIncomingForeignKeys_nth [OF i] i by (simp add: with_incoming_def)
qed (simp add: populate_fields(2) with_incoming_def)

text \<open>The readers of rows undo the layout of the cells.\<close>

lemma rows_read_cells:
  "col_comment c = [] \<and> \<not> col_isUnique c \<Longrightarrow> pg_column_row (column_cells n c) = Some (n, c)"
  "fk_onDelete k = [] \<and> fk_onUpdate k = [] \<Longrightarrow> pg_key_row (key_cells n k) = Some (n, k)"
  "0 \<le> v \<Longrightarrow> v < 2 ^ 63 \<Longrightarrow> pg_size_row (size_cells n v) = Some (n, v)"
proof -
  show "col_comment c = [] \<and> \<not> col_isUnique c \<Longrightarrow> pg_column_row (column_cells n c) = Some (n, c)"
    by (cases c) (simp add: pg_column_row_def column_cells_def flag_cell_def default_column_def)
  show "fk_onDelete k = [] \<and> fk_onUpdate k = [] \<Longrightarrow> pg_key_row (key_cells n k) = Some (n, k)"
    by (cases k) (simp add: pg_key_row_def key_cells_def default_key_def)
  show "0 \<le> v \<Longrightarrow> v < 2 ^ 63 \<Longrightarrow> pg_size_row (size_cells n v) = Some (n, v)"
    using stol_nat_to_string [of "nat v"]
    by (simp add: pg_size_row_def size_cells_def size_or_unknown_def to_string_def)
qed

lemma filter_own_rows:
  "distinct (map nm ts) \<Longrightarrow> t \<in> set ts \<Longrightarrow>
     map snd (filter (\<lambda>p. fst p = nm t) (concat (map (\<lambda>t. map (Pair (nm t)) (parts t)) ts))) = parts t"
proof (induction ts)
  case (Cons u ts)
  have none: "filter (\<lambda>p. fst p = nm u) (concat (map (\<lambda>t. map (Pair (nm t)) (parts t)) ts)) = []"
    using Cons.prems(1) by (auto simp: filter_empty_conv) (metis imageI)
  show ?case
  proof (cases "t = u")
    case True
    with none show ?thesis by (simp add: filter_map comp_def)
  next
    case False
    with Cons.prems have "t \<in> set ts" "nm u \<noteq> nm t" by auto
    with Cons show ?thesis by (simp add: filter_map comp_def)
  qed
qed simp

lemma by_name_rows_of:
  assumes "distinct (map tbl_name ts)" "t \<in> set ts"
    and "\<And>u x. u \<in> set ts \<Longrightarrow> x \<in> set (parts u) \<Longrightarrow> f (cells (tbl_name u) x) = Some (tbl_name u, x)"
  shows "by_name f (rows_of cells parts ts) (tbl_name t) = parts t"
proof -
  have one: "List.map_filter f (map (cells (tbl_name u)) xs) = map (Pair (tbl_name u)) xs"
    if "u \<in> set ts" "set xs \<subseteq> set (parts u)" for u xs
    using that(2) assms(3) [OF that(1)] by (induction xs) (auto simp: map_filter_simps)
  have app: "List.map_filter f (xs @ ys) = List.map_filter f xs @ List.map_filter f ys" for xs ys
    by (simp add: map_filter_def)
  have "List.map_filter f (rows_of cells parts us) = concat (map (\<lambda>u. map (Pair (tbl_name u)) (parts u)) us)"
    if "set us \<subseteq> set ts" for us
    using that one by (induction us) (simp_all add: rows_of_def app map_filter_simps)
  from this [of ts] show ?thesis by (simp add: by_name_filter filter_own_rows [OF assms(1,2)])
qed

lemma zip_maps: "zip names (zip (map f names) (map g names)) = map (\<lambda>n. (n, f n, g n)) names"
  by (induction names) simp_all

lemma pg_tables_distinct:
  "distinct names \<Longrightarrow> pg_tables schema names cols keys sizes =
     populateIncomingForeignKeys (map (\<lambda>n. pg_table schema (last_by_name pg_size_row sizes) n
       (by_name pg_column_row cols n) (by_name pg_key_row keys n)) names)"
  by (simp add: pg_tables_def moved_out_distinct zip_maps comp_def)

lemma pg_tables_of_rows:
  assumes "list_all (selected_table schema) ts" "distinct (map tbl_name ts)"
  shows "pg_tables schema (map tbl_name ts) (rows_of column_cells tbl_columns ts) (rows_of key_cells tbl_foreignKeys ts)
    (rows_of size_cells (\<lambda>t. [tbl_sizeBytes t]) ts) = with_incoming ts"
proof -
  have "pg_table schema (last_by_name pg_size_row (rows_of size_cells (\<lambda>t. [tbl_sizeBytes t]) ts)) (tbl_name t)
      (by_name pg_column_row (rows_of column_cells tbl_columns ts) (tbl_name t))
      (by_name pg_key_row (rows_of key_cells tbl_foreignKeys ts) (tbl_name t)) = t" if t: "t \<in> set ts" for t
  proof -
    have sel: "selected_table schema u" if "u \<in> set ts" for u using assms(1) that by (simp add: list_all_iff)
    have "by_name pg_column_row (rows_of column_cells tbl_columns ts) (tbl_name t) = tbl_columns t"
      by (rule by_name_rows_of [OF assms(2) t], rule rows_read_cells(1)) (use sel in \<open>auto simp: selected_table_def list_all_iff\<close>)
    moreover have "by_name pg_key_row (rows_of key_cells tbl_foreignKeys ts) (tbl_name t) = tbl_foreignKeys t"
      by (rule by_name_rows_of [OF assms(2) t], rule rows_read_cells(2)) (use sel in \<open>auto simp: selected_table_def list_all_iff\<close>)
    moreover have "by_name pg_size_row (rows_of size_cells (\<lambda>t. [tbl_sizeBytes t]) ts) (tbl_name t) = [tbl_sizeBytes t]"
      by (rule by_name_rows_of [OF assms(2) t], rule rows_read_cells(3)) (use sel in \<open>auto simp: selected_table_def\<close>)
    ultimately show ?thesis
      using sel [OF t] by (cases t) (simp add: last_by_name_def pg_table_def selected_table_def table_in_def default_table_def)
  qed
  then show ?thesis
    using pg_tables_distinct [OF assms(2)] populate_with_incoming [OF assms(2)] by (simp add: comp_def cong: map_cong)
qed

lemma serves_rows:
  assumes "serves pq ask good" "good d"
  obtains d' where "pg_rows pq sql d = (Inr (ask sql), d')" "good d'"
proof -
  obtain r d' where run: "pg_run pq sql 0 False d = (r, d')" by fastforce
  with assms have "good d' \<and> (\<exists>s. qr_statements r = [s] \<and> sr_success s \<and> sr_tableData s = ask sql)"
    unfolding serves_def by (metis fst_conv snd_conv)
  with run that [of d'] show ?thesis by (auto simp: pg_rows_def qr_success_def)
qed

lemma serves_try:
  assumes "serves pq ask good" "good d"
  obtains r d' where "pg_try pq sql 0 d = (Inr r, d')" "good d'" "qr_success r" "qr_statements r \<noteq> []"
    "sr_tableData (hd (qr_statements r)) = ask sql"
proof -
  obtain r d' where run: "pg_run pq sql 0 False d = (r, d')" by fastforce
  with assms have "good d' \<and> (\<exists>s. qr_statements r = [s] \<and> sr_success s \<and> sr_tableData s = ask sql)"
    unfolding serves_def by (metis fst_conv snd_conv)
  with run that [of r d'] show ?thesis by (auto simp: pg_try_def qr_success_def)
qed

lemma tablesIn_served:
  assumes "serves pq ask good" "good d" "describes ask schema ts"
  shows "\<exists>d'. tablesIn pq schema d = (Inr (with_incoming ts), d') \<and> good d'"
proof -
  define names where "names = map tbl_name ts"
  have first: "first_cells (ask (tables_query schema)) = names"
    using assms(3) by (simp add: describes_def first_cells_def names_def filter_True comp_def)
  have tabs: "list_all (selected_table schema) ts" "distinct (map tbl_name ts)"
    and rows: "ask (columns_query schema (literalList names)) = rows_of column_cells tbl_columns ts"
      "ask (keys_query schema (literalList names)) = rows_of key_cells tbl_foreignKeys ts"
      "ask (sizes_query schema (literalList names)) = rows_of size_cells (\<lambda>t. [tbl_sizeBytes t]) ts"
    using assms(3) by (simp_all add: describes_def Let_def names_def)
  obtain d1 where d1: "pg_rows pq (tables_query schema) d = (Inr (ask (tables_query schema)), d1)" "good d1"
    using serves_rows [OF assms(1,2)] .
  show ?thesis
  proof (cases "names = []")
    case True
    with d1 first show ?thesis
      by (simp add: tablesIn_def and_then_def return_ok_def Let_def names_def with_incoming_def)
  next
    case False
    obtain d2 where d2: "pg_rows pq (columns_query schema (literalList names)) d1 =
        (Inr (ask (columns_query schema (literalList names))), d2)" "good d2"
      using serves_rows [OF assms(1) d1(2)] .
    obtain r d3 where d3: "pg_try pq (keys_query schema (literalList names)) 0 d2 = (Inr r, d3)" "good d3"
        "qr_success r" "qr_statements r \<noteq> []"
        "sr_tableData (hd (qr_statements r)) = ask (keys_query schema (literalList names))"
      using serves_try [OF assms(1) d2(2)] .
    obtain r' d4 where d4: "pg_try pq (sizes_query schema (literalList names)) 0 d3 = (Inr r', d4)" "good d4"
        "qr_success r'" "qr_statements r' \<noteq> []"
        "sr_tableData (hd (qr_statements r')) = ask (sizes_query schema (literalList names))"
      using serves_try [OF assms(1) d3(2)] .
    have "tablesIn pq schema d = (Inr (pg_tables schema names (ask (columns_query schema (literalList names)))
        (ask (keys_query schema (literalList names))) (ask (sizes_query schema (literalList names)))), d4)"
      using False d1(1) d2(1) d3 d4 first unfolding tablesIn_def
      by (simp add: and_then_def return_ok_def pg_keys_def Let_def)
    also have "\<dots> = (Inr (with_incoming ts), d4)"
      unfolding rows using pg_tables_of_rows [OF tabs] by (simp add: names_def)
    finally show ?thesis using d4(2) by blast
  qed
qed

lemma collect_served:
  assumes "\<And>x d. x \<in> set xs \<Longrightarrow> good d \<Longrightarrow> \<exists>d'. f x d = (Inr (g x), d') \<and> good d'" "good d"
  shows "\<exists>d'. collect f xs d = (Inr (concat (map g xs)), d') \<and> good d'"
  using assms
proof (induction xs arbitrary: d)
  case (Cons x xs)
  obtain d1 where d1: "f x d = (Inr (g x), d1)" "good d1" using Cons.prems by fastforce
  obtain d2 where "collect f xs d1 = (Inr (concat (map g xs)), d2)" "good d2"
    using Cons.IH [OF _ d1(2)] Cons.prems(1) by fastforce
  with d1 show ?case by (simp add: and_then_def return_ok_def)
qed (simp add: return_ok_def)

text \<open>
  C21: Listing the tables of a database gives back its catalog. Where every query succeeds and the
  answers are the rows of tables \<open>tables schema\<close> laid out as the queries select them, with distinct names in
  each schema, the listing is these tables, schema by schema in the order of the server: each with
  its own columns, foreign keys and size, cell for cell, and with the keys that come in from the
  tables of its schema.
\<close>

theorem pg_tables_read_the_catalog:
  assumes "serves pq ask good" "good d"
    and "ask schemata_query = map (\<lambda>schema. [schema]) schemas" "list_all (\<lambda>schema. describes ask schema (tables schema)) schemas"
  shows "fst (pg_tables_all pq d) = Inr (concat (map (with_incoming \<circ> tables) schemas))"
proof -
  obtain d1 where d1: "pg_rows pq schemata_query d = (Inr (ask schemata_query), d1)" "good d1"
    using serves_rows [OF assms(1,2)] .
  have "first_cells (ask schemata_query) = schemas"
    using assms(3) by (simp add: first_cells_def filter_True comp_def)
  moreover have "\<exists>d'. collect (tablesIn pq) schemas d1 = (Inr (concat (map (\<lambda>schema. with_incoming (tables schema)) schemas)), d') \<and> good d'"
    by (rule collect_served [where good = good, OF _ d1(2)])
      (use assms(4) in \<open>auto simp: list_all_iff intro!: tablesIn_served [OF assms(1)]\<close>)
  ultimately show ?thesis using d1(1)
    by (auto simp: pg_tables_all_def in_all_schemas_def schemaNames_def and_then_def return_ok_def comp_def)
qed

text \<open>A server that answers from a function, in rows of at most seven columns.\<close>

definition clerk :: "(bytes \<Rightarrow> bytes list list) \<Rightarrow> unit Pq" where
  "clerk ask = \<lparr>pq_connect = \<lambda>_. Inr (), pq_ping = id, pq_idle = \<lambda>_. True,
     pq_send = \<lambda>sql k s. Inr \<lparr>rp_results = [\<lparr>pg_status = Tuples_Ok, pg_columns = replicate 7 (''c'', 19),
         pg_tuples = map (map Some) (ask sql), pg_cmdTuples = [], pg_error = []\<rparr>],
       rp_cancelled = \<lambda>_. [], rp_session = \<lambda>_. ()\<rparr>, pq_ok = \<lambda>_. True\<rparr>"

lemma pg_cells_text: "length row \<le> n \<Longrightarrow> map (\<lambda>(col, v). pg_cell (snd col) v) (zip (replicate n (c, 19)) (map Some row)) = row"
proof (induction row arbitrary: n)
  case (Cons x row)
  then show ?case by (cases n) (simp_all add: pg_cell_def)
qed simp

lemma clerk_serves:
  assumes "\<And>sql. list_all (\<lambda>row. length row \<le> 7) (ask sql)"
  shows "serves (clerk ask) ask (\<lambda>_. True)"
proof -
  have "map (pg_row res) (map (map Some) (ask sql)) = ask sql" if "pg_columns res = replicate 7 (''c'', 19)" for sql res
    using assms [of sql] pg_cells_text [of _ 7 "''c''"] that
    by (intro nth_equalityI) (simp_all add: pg_row_def list_all_length)
  then show ?thesis
    by (auto simp: serves_def clerk_def pg_run_def ensureConn_def Let_def query_result_def pg_result_def stop_now_def
        stream_start_def extractPgResult_def setRowsMessage_def appendPgRows_def default_statement_def rows_kept_def
        split: option.splits)
qed

definition library :: "Table list" where
  "library =
     (let cid = default_column\<lparr>col_name := ''id'', col_type := ''integer'', col_isNotNull := True, col_isPrimaryKey := True,
            col_isAutoIncrement := True\<rparr>;
          author = default_column\<lparr>col_name := ''author'', col_type := ''integer''\<rparr>;
          t = default_table\<lparr>tbl_schema := ''public'', tbl_sizeBytes := 8192\<rparr>
      in [t\<lparr>tbl_name := ''authors'', tbl_fullName := ''public.authors'', tbl_columns := [cid]\<rparr>,
          t\<lparr>tbl_name := ''books'', tbl_fullName := ''public.books'', tbl_columns := [cid, author], tbl_foreignKeys :=
            [default_key\<lparr>fk_sourceColumn := ''author'', fk_targetTable := ''authors'', fk_targetColumn := ''id'', fk_name := ''fk''\<rparr>]\<rparr>])"

definition library_ask :: "bytes \<Rightarrow> bytes list list" where
  "library_ask sql =
     (let names = literalList (map tbl_name library)
      in if sql = schemata_query then [[''public'']]
         else if sql = tables_query ''public'' then map (\<lambda>t. [tbl_name t]) library
         else if sql = columns_query ''public'' names then rows_of column_cells tbl_columns library
         else if sql = keys_query ''public'' names then rows_of key_cells tbl_foreignKeys library
         else if sql = sizes_query ''public'' names then rows_of size_cells (\<lambda>t. [tbl_sizeBytes t]) library
         else [])"

lemma query_heads:
  "take 11 schemata_query = ''SELECT sche''" "take 11 (tables_query x) = ''SELECT tabl''"
  "take 11 (columns_query x y) = ''SELECT c.ta''" "take 11 (keys_query x y) = ''SELECT src.''"
  "take 11 (sizes_query x y) = ''SELECT c.re''"
  by (simp_all add: schemata_query_def tables_query_def columns_query_def keys_query_def sizes_query_def)

lemma queries_differ [simp]:
  "tables_query x \<noteq> schemata_query" "columns_query x y \<noteq> schemata_query" "keys_query x y \<noteq> schemata_query"
  "sizes_query x y \<noteq> schemata_query" "columns_query x y \<noteq> tables_query z" "keys_query x y \<noteq> tables_query z"
  "sizes_query x y \<noteq> tables_query z" "keys_query x y \<noteq> columns_query v w" "sizes_query x y \<noteq> columns_query v w"
  "sizes_query x y \<noteq> keys_query v w"
  by (rule notI, drule arg_cong [of _ _ "take 11"], simp add: query_heads)+

lemma library_described: "describes library_ask ''public'' library"
proof -
  have "list_all (selected_table ''public'') library \<and> distinct (map tbl_name library)" by code_simp
  then show ?thesis by (simp add: describes_def library_ask_def Let_def)
qed

lemma library_short_rows: "list_all (\<lambda>row. length row \<le> 7) (library_ask sql)"
proof -
  have "list_all (\<lambda>row. length row \<le> 7) (map (\<lambda>t. [tbl_name t]) library)"
    "list_all (\<lambda>row. length row \<le> 7) (rows_of column_cells tbl_columns library)"
    "list_all (\<lambda>row. length row \<le> 7) (rows_of key_cells tbl_foreignKeys library)"
    "list_all (\<lambda>row. length row \<le> 7) (rows_of size_cells (\<lambda>t. [tbl_sizeBytes t]) library)"
    by (simp_all add: rows_of_def list_all_iff column_cells_def key_cells_def size_cells_def)
  then show ?thesis by (simp add: library_ask_def Let_def)
qed

lemma pg_tables_read_the_catalog_witness:
  "fst (pg_tables_all (clerk library_ask) (new_PgDb default_info ''db'')) = Inr (with_incoming library)"
proof -
  have "serves (clerk library_ask) library_ask (\<lambda>_. True)" by (rule clerk_serves) (rule library_short_rows)
  moreover have "library_ask schemata_query = map (\<lambda>schema. [schema]) [''public'']" by (simp add: library_ask_def Let_def)
  ultimately show ?thesis
    using pg_tables_read_the_catalog [of "clerk library_ask" library_ask "\<lambda>_. True" "new_PgDb default_info ''db''"
      "[''public'']" "\<lambda>_. library"] library_described
    by simp
qed

end
