(* ===== verification/Postgres_Connection.thy ===== *)
theory Postgres_Connection
  imports Postgres_Catalog
begin

text \<open>
  A PostgreSQL server connection (\<^verbatim>\<open>ConnectionImpl\<close> of \<^verbatim>\<open>src/postgres_connection.cpp\<close>): the cache of
  database handles, and creating, dropping and renaming databases through them. The lemmas show
  that a name has one handle for as long as it is cached, whatever the servers answer, and that
  every handle's account of its search path stays true.
\<close>


section \<open>The connection\<close>

definition pg_connection :: "ConnectionInfo \<Rightarrow> 's PgDb Pool" where
  "pg_connection info =
     new_pool (if ci_database info = [] then info\<lparr>ci_database := maintenanceDatabase (ci_type info)\<rparr> else info)"

definition pg_connection_open :: "'s Pq \<Rightarrow> 's PgDb Pool \<Rightarrow> Status \<times> 's PgDb Pool" where
  "pg_connection_open pq p =
     (case at_database new_PgDb [] (pg_open pq) p of (st, p1) \<Rightarrow> (st, p1\<lparr>pl_open := fst st\<rparr>))"

definition pg_database :: "bytes \<Rightarrow> 's PgDb Pool \<Rightarrow> nat \<times> 's PgDb Pool" where
  "pg_database = pool_database new_PgDb"

definition pg_openDatabase :: "bytes \<Rightarrow> 's PgDb Pool \<Rightarrow> nat \<times> 's PgDb Pool" where
  "pg_openDatabase = pool_openDatabase new_PgDb"

definition datname_query :: bytes where
  "datname_query = ''SELECT datname FROM pg_database WHERE datistemplate = false ORDER BY datname''"

definition pg_databases :: "'s Pq \<Rightarrow> ('s PgDb Pool, nat list) call" where
  "pg_databases pq p =
     (case at_database new_PgDb [] (pg_execute pq datname_query 0) p of (r, p1) \<Rightarrow>
        if \<not> qr_success r then (Inl (qr_errorMessage r), p1)
        else case qr_statements r of
            [] \<Rightarrow> (Inr [], p1)
          | s # _ \<Rightarrow>
              (case pool_databases new_PgDb
                 (filter (\<lambda>n. \<not> (ci_type (pl_info p1) = COCKROACHDB \<and> n = ''system'')) (first_cells (sr_tableData s))) p1 of
                 (is, p2) \<Rightarrow> (Inr is, p2)))"

definition pg_create_database_text :: "DatabaseType \<Rightarrow> CreateDatabaseOptions \<Rightarrow> bytes" where
  "pg_create_database_text ty opts =
     ''CREATE DATABASE '' @ pg_quoteIdent (opt_name opts) @
     (if opt_owner opts \<noteq> [] then '' OWNER '' @ pg_quoteIdent (opt_owner opts) else []) @
     (if opt_templateDb opts \<noteq> [] \<and> ty \<noteq> COCKROACHDB then '' TEMPLATE '' @ pg_quoteIdent (opt_templateDb opts) else []) @
     (if opt_encoding opts \<noteq> [] then '' ENCODING '' @ pg_literal (opt_encoding opts) else []) @
     (if opt_tablespace opts \<noteq> [] \<and> ty \<noteq> COCKROACHDB then '' TABLESPACE '' @ pg_quoteIdent (opt_tablespace opts) else [])"

definition comment_text :: "CreateDatabaseOptions \<Rightarrow> bytes" where
  "comment_text opts =
     ''COMMENT ON DATABASE '' @ pg_quoteIdent (opt_name opts) @ '' IS '' @ pg_literal (opt_comment opts)"

definition pg_createDatabase :: "'s Pq \<Rightarrow> CreateDatabaseOptions \<Rightarrow> 's PgDb Pool \<Rightarrow> Status \<times> 's PgDb Pool" where
  "pg_createDatabase pq opts p =
     (if opt_name opts = [] then ((False, ''Database name cannot be empty''), p)
      else case pg_database [] p of (i, p1) \<Rightarrow>
        (case at_handle i (pg_execute pq (pg_create_database_text (ci_type (pl_info p)) opts) 0) p1 of (r, p2) \<Rightarrow>
           if \<not> qr_success r then ((False, qr_errorMessage r), p2)
           else if opt_comment opts = [] then ((True, []), p2)
           else (case at_handle i (pg_execute pq (comment_text opts) 0) p2 of (c, p3) \<Rightarrow>
             (if qr_success c then ((True, []), p3)
              else ((True, ''Created database, but failed to set comment: '' @ qr_errorMessage c), p3)))))"

definition terminate_text :: "bytes \<Rightarrow> bytes" where
  "terminate_text name =
     ''SELECT pg_terminate_backend(pid) FROM pg_stat_activity WHERE datname = '' @ pg_literal name @
     '' AND pid <> pg_backend_pid()''"

text \<open>The last part of \<^verbatim>\<open>dropDatabase\<close>, through the handle \<open>via\<close>.\<close>

definition drop_through :: "'s Pq \<Rightarrow> bytes \<Rightarrow> bool \<Rightarrow> nat \<Rightarrow> 's PgDb Pool \<Rightarrow> Status \<times> 's PgDb Pool" where
  "drop_through pq name connectedDb via p =
     (case at_handle via (pg_execute pq (terminate_text name) 0) p of (_, p1) \<Rightarrow>
        (case at_handle via (pg_execute pq (''DROP DATABASE '' @ pg_quoteIdent name) 0) p1 of (r, p2) \<Rightarrow>
           if \<not> qr_success r then ((False, qr_errorMessage r), p2)
           else if connectedDb
           then let n = pd_name (pl_handles p2 ! via)
                in ((True, []), pool_store n via (p2\<lparr>pl_info := (pl_info p2)\<lparr>ci_database := n\<rparr>\<rparr>))
           else ((True, []), p2)))"

definition pg_dropDatabase :: "'s Pq \<Rightarrow> bytes \<Rightarrow> 's PgDb Pool \<Rightarrow> Status \<times> 's PgDb Pool" where
  "pg_dropDatabase pq name p =
     (let info = pl_info p; connectedDb = (name = ci_database info)
      in case pg_database [] (pool_erase name p) of (i, p1) \<Rightarrow>
           if connectedDb
           then (case pool_add (new_PgDb info (maintenanceDatabase (ci_type info))) p1 of (via, p2) \<Rightarrow>
             (case at_handle via (pg_open pq) p2 of (st, p3) \<Rightarrow>
                if \<not> fst st then ((False, ''Failed to connect to maintenance database: '' @ snd st), p3)
                else drop_through pq name True via p3))
           else drop_through pq name False i p1)"

definition rename_text :: "bytes \<Rightarrow> bytes \<Rightarrow> bytes" where
  "rename_text oldName newName = ''ALTER DATABASE '' @ pg_quoteIdent oldName @ '' RENAME TO '' @ pg_quoteIdent newName"

definition pg_renameDatabase :: "'s Pq \<Rightarrow> bytes \<Rightarrow> bytes \<Rightarrow> 's PgDb Pool \<Rightarrow> Status \<times> 's PgDb Pool" where
  "pg_renameDatabase pq oldName newName p =
     (case at_database new_PgDb [] (pg_execute pq (rename_text oldName newName) 0) (pool_erase oldName p) of
        (r, p1) \<Rightarrow> (toStatus r, p1))"


section \<open>Handles keep their names\<close>

lemma ensureConn_name: "pd_name (snd (ensureConn pq d)) = pd_name d"
  by (auto simp: ensureConn_def split: option.split sum.split)

lemma pg_open_name: "pd_name (snd (pg_open pq d)) = pd_name d"
  using ensureConn_name [of pq d] by (auto simp: pg_open_def split: prod.split sum.split)

lemma pg_run_name: "pd_name (snd (pg_run pq sql l timed d)) = pd_name d"
  using ensureConn_name [of pq d]
  by (auto simp: pg_run_def Let_def split_beta split: prod.split sum.split)

lemma set_path_name: "pd_name (snd (set_path pq schema d)) = pd_name d"
  using pg_run_name [of pq "path_statement schema" 0 False d] by (auto simp: set_path_def split: prod.split)

lemma executeIn_name: "pd_name (snd (executeIn pq schema sql l d)) = pd_name d"
  using set_path_name [of pq schema d] pg_run_name [of pq sql l True "snd (set_path pq schema d)"]
  by (auto simp: executeIn_def split: prod.split option.split)

lemma pg_execute_name: "pd_name (snd (pg_execute pq sql l d)) = pd_name d"
  by (simp add: pg_execute_def executeIn_name)

interpretation pg: database_pool new_PgDb pd_name
  by unfold_locales (simp add: new_PgDb_def)

interpretation pg_paths: guarded_pool new_PgDb pd_name "path_known path" for path
  by unfold_locales (simp add: path_known_def on_path_def new_PgDb_def)


section \<open>What a connection can reach\<close>

definition drop_text :: "bytes \<Rightarrow> bytes" where
  "drop_text name = ''DROP DATABASE '' @ pg_quoteIdent name"

text \<open>The texts the connection sends itself leave the search path alone.\<close>

definition own_texts_quiet :: "(bytes \<Rightarrow> bool) \<Rightarrow> bool" where
  "own_texts_quiet quiet \<longleftrightarrow> quiet datname_query \<and> (\<forall>ty opts. quiet (pg_create_database_text ty opts)) \<and>
     (\<forall>opts. quiet (comment_text opts)) \<and> (\<forall>n. quiet (terminate_text n)) \<and> (\<forall>n. quiet (drop_text n)) \<and>
     (\<forall>a b. quiet (rename_text a b))"

inductive pg_pool_reachable :: "'s Pq \<Rightarrow> (bytes \<Rightarrow> bool) \<Rightarrow> 's PgDb Pool \<Rightarrow> bool" for pq quiet where
  pool_start: "pg_pool_reachable pq quiet (pg_connection info)"
| pool_opened: "pg_pool_reachable pq quiet p \<Longrightarrow> pg_pool_reachable pq quiet (snd (pg_connection_open pq p))"
| pool_closed: "pg_pool_reachable pq quiet p \<Longrightarrow> pg_pool_reachable pq quiet (pool_close p)"
| pool_listed: "pg_pool_reachable pq quiet p \<Longrightarrow> pg_pool_reachable pq quiet (snd (pg_databases pq p))"
| pool_asked: "pg_pool_reachable pq quiet p \<Longrightarrow> pg_pool_reachable pq quiet (snd (pg_database name p))"
| pool_fresh: "pg_pool_reachable pq quiet p \<Longrightarrow> pg_pool_reachable pq quiet (snd (pg_openDatabase name p))"
| pool_created: "pg_pool_reachable pq quiet p \<Longrightarrow> pg_pool_reachable pq quiet (snd (pg_createDatabase pq opts p))"
| pool_dropped: "pg_pool_reachable pq quiet p \<Longrightarrow> pg_pool_reachable pq quiet (snd (pg_dropDatabase pq name p))"
| pool_renamed: "pg_pool_reachable pq quiet p \<Longrightarrow> pg_pool_reachable pq quiet (snd (pg_renameDatabase pq a b p))"
| pool_connected: "pg_pool_reachable pq quiet p \<Longrightarrow> pg_pool_reachable pq quiet (snd (at_handle i (pg_open pq) p))"
| pool_executed: "pg_pool_reachable pq quiet p \<Longrightarrow> schema \<noteq> UNKNOWN \<Longrightarrow> may_move_path sql \<or> quiet sql \<Longrightarrow>
    pg_pool_reachable pq quiet (snd (at_handle i (executeIn pq schema sql l) p))"
| pool_read: "pg_pool_reachable pq quiet p \<Longrightarrow> starts_with sql ''SELECT '' \<Longrightarrow> quiet sql \<Longrightarrow>
    pg_pool_reachable pq quiet (snd (at_handle i (\<lambda>d. pg_run pq sql l False d) p))"

lemma execute_keeps_known:
  "keeps_paths pq path quiet \<Longrightarrow> quiet sql \<Longrightarrow> path_known path d \<Longrightarrow> path_known path (snd (pg_execute pq sql l d))"
  using executeIn_known [of pq path quiet d "[]" sql l] by (simp add: pg_execute_def UNKNOWN_def)

lemma at_handle_execute:
  assumes "keeps_paths pq path quiet" "quiet sql" "at_handle i (pg_execute pq sql l) p = (r, p1)"
    and "pool_inv pd_name (path_known path) p"
  shows "pool_inv pd_name (path_known path) p1 \<and> length (pl_handles p1) = length (pl_handles p) \<and> pl_info p1 = pl_info p"
  using execute_keeps_known [OF assms(1,2)] by (intro pool_inv_at_handle [OF assms(3,4)] allI impI pg_execute_name) simp

lemma at_database_execute:
  assumes "keeps_paths pq path quiet" "quiet sql" "at_database new_PgDb name (pg_execute pq sql l) p = (r, p1)"
    and "pool_inv pd_name (path_known path) p"
  shows "pool_inv pd_name (path_known path) p1 \<and> pl_info p1 = pl_info p"
  using execute_keeps_known [OF assms(1,2)] by (intro pg_paths.inv_at_database [OF assms(3,4)] allI impI pg_execute_name) simp

lemma at_handle_open:
  assumes "keeps_paths pq path quiet" "at_handle i (pg_open pq) p = (st, p1)" "pool_inv pd_name (path_known path) p"
  shows "pool_inv pd_name (path_known path) p1 \<and> length (pl_handles p1) = length (pl_handles p) \<and> pl_info p1 = pl_info p"
  using open_known [OF assms(1)] by (intro pool_inv_at_handle [OF assms(2,3)] allI impI pg_open_name) simp

lemma own_texts:
  assumes "own_texts_quiet quiet"
  shows "quiet datname_query" "quiet (pg_create_database_text ty opts)" "quiet (comment_text opts)" "quiet (terminate_text n)"
    "quiet (drop_text n)" "quiet (rename_text a b)"
  using assms by (simp_all add: own_texts_quiet_def)

lemma drop_through_inv:
  assumes "keeps_paths pq path quiet" "own_texts_quiet quiet" "pool_inv pd_name (path_known path) p"
    and "via < length (pl_handles p)"
  shows "pool_inv pd_name (path_known path) (snd (drop_through pq name connectedDb via p))"
proof -
  obtain r1 p1 where p1: "at_handle via (pg_execute pq (terminate_text name) 0) p = (r1, p1)" by fastforce
  obtain r2 p2 where p2: "at_handle via (pg_execute pq (drop_text name) 0) p1 = (r2, p2)" by fastforce
  note inv1 = at_handle_execute [OF assms(1) own_texts(4) [OF assms(2)] p1 assms(3)]
  then have inv2: "pool_inv pd_name (path_known path) p2 \<and> length (pl_handles p2) = length (pl_handles p1) \<and> pl_info p2 = pl_info p1"
    using at_handle_execute [OF assms(1) own_texts(5) [OF assms(2)] p2] by simp
  have "pool_inv pd_name (path_known path) (pool_store (pd_name (pl_handles p2 ! via)) via
      (p2\<lparr>pl_info := (pl_info p2)\<lparr>ci_database := pd_name (pl_handles p2 ! via)\<rparr>\<rparr>))"
    by (rule pool_inv_store) (use inv1 inv2 assms(4) in simp_all)
  with p1 p2 inv2 show ?thesis by (simp add: drop_through_def drop_text_def Let_def)
qed

lemma reachable_inv:
  assumes "keeps_paths pq path quiet" "own_texts_quiet quiet" "pg_pool_reachable pq quiet p"
  shows "pool_inv pd_name (path_known path) p"
  using assms(3)
proof induction
  case (pool_start info)
  show ?case by (simp add: pg_connection_def pg_paths.inv_new)
next
  case (pool_opened p)
  obtain st p1 where p1: "at_database new_PgDb [] (pg_open pq) p = (st, p1)" by fastforce
  have "pool_inv pd_name (path_known path) p1 \<and> pl_info p1 = pl_info p"
    using open_known [OF assms(1)] by (intro pg_paths.inv_at_database [OF p1 pool_opened.IH] allI impI pg_open_name) simp
  with p1 show ?case by (simp add: pg_connection_open_def)
next
  case (pool_closed p)
  from pool_closed.IH show ?case by (rule pool_inv_close)
next
  case (pool_listed p)
  obtain r p1 where p1: "at_database new_PgDb [] (pg_execute pq datname_query 0) p = (r, p1)" by fastforce
  note inv1 = at_database_execute [OF assms(1) own_texts(1) [OF assms(2)] p1 pool_listed.IH]
  show ?case
  proof (cases "qr_success r \<and> qr_statements r \<noteq> []")
    case True
    let ?ns = "filter (\<lambda>n. \<not> (ci_type (pl_info p1) = COCKROACHDB \<and> n = ''system'')) (first_cells (sr_tableData (hd (qr_statements r))))"
    obtain "is" p2 where p2: "pool_databases new_PgDb ?ns p1 = (is, p2)" by fastforce
    have "snd (pg_databases pq p) = p2"
      using p1 p2 True by (simp add: pg_databases_def neq_Nil_conv) (auto simp: split_beta)
    with pg_paths.inv_databases [OF _ p2] inv1 show ?thesis by simp
  next
    case False
    with p1 inv1 show ?thesis by (auto simp: pg_databases_def qr_success_def)
  qed
next
  case (pool_asked p name)
  obtain i p1 where p1: "pool_database new_PgDb name p = (i, p1)" by fastforce
  from pg_paths.inv_database [OF pool_asked.IH this] p1 show ?case by (simp add: pg_database_def)
next
  case (pool_fresh p name)
  obtain i p1 where p1: "pool_openDatabase new_PgDb name p = (i, p1)" by fastforce
  from pg_paths.inv_openDatabase [OF pool_fresh.IH this] p1 show ?case by (simp add: pg_openDatabase_def)
next
  case (pool_created p opts)
  obtain i p1 where p1: "pg_database [] p = (i, p1)" by fastforce
  obtain r p2 where p2: "at_handle i (pg_execute pq (pg_create_database_text (ci_type (pl_info p)) opts) 0) p1 = (r, p2)" by fastforce
  obtain c p3 where p3: "at_handle i (pg_execute pq (comment_text opts) 0) p2 = (c, p3)" by fastforce
  have inv1: "pool_inv pd_name (path_known path) p1"
    using pg_paths.inv_database [OF pool_created.IH] p1 by (simp add: pg_database_def)
  note inv2 = at_handle_execute [OF assms(1) own_texts(2) [OF assms(2)] p2 inv1]
  then have "pool_inv pd_name (path_known path) p3"
    using at_handle_execute [OF assms(1) own_texts(3) [OF assms(2)] p3] by simp
  with inv2 p1 p2 p3 pool_created.IH show ?case by (simp add: pg_createDatabase_def)
next
  case (pool_dropped p name)
  obtain i p1 where p1: "pg_database [] (pool_erase name p) = (i, p1)" by fastforce
  have inv1: "pool_inv pd_name (path_known path) p1 \<and> i < length (pl_handles p1) \<and> pl_info p1 = pl_info (pool_erase name p)"
    using pg_paths.inv_database [OF pool_inv_erase [OF pool_dropped.IH]] p1 by (simp add: pg_database_def)
  let ?new = "new_PgDb (pl_info p) (maintenanceDatabase (ci_type (pl_info p)))"
  obtain via p2 where p2: "pool_add ?new p1 = (via, p2)" by fastforce
  obtain st p3 where p3: "at_handle via (pg_open pq) p2 = (st, p3)" by fastforce
  have inv2: "pool_inv pd_name (path_known path) p2 \<and> via < length (pl_handles p2) \<and> pl_info p2 = pl_info p1"
    using pg_paths.inv_add [OF _ p2, of path] inv1 by blast
  then have inv3: "pool_inv pd_name (path_known path) p3 \<and> length (pl_handles p3) = length (pl_handles p2) \<and> pl_info p3 = pl_info p2"
    using at_handle_open [OF assms(1) p3] by simp
  with inv1 inv2 p1 p2 p3 drop_through_inv [OF assms(1,2)] show ?case by (simp add: pg_dropDatabase_def Let_def)
next
  case (pool_renamed p a b)
  obtain r p1 where p1: "at_database new_PgDb [] (pg_execute pq (rename_text a b) 0) (pool_erase a p) = (r, p1)" by fastforce
  note at_database_execute [OF assms(1) own_texts(6) [OF assms(2)] p1 pool_inv_erase [OF pool_renamed.IH]]
  with p1 show ?case by (simp add: pg_renameDatabase_def)
next
  case (pool_connected p i)
  obtain st p1 where p1: "at_handle i (pg_open pq) p = (st, p1)" by fastforce
  from at_handle_open [OF assms(1) p1 pool_connected.IH] p1 show ?case by simp
next
  case (pool_executed p schema sql i l)
  obtain r p1 where p1: "at_handle i (executeIn pq schema sql l) p = (r, p1)" by fastforce
  have "pool_inv pd_name (path_known path) p1 \<and> length (pl_handles p1) = length (pl_handles p) \<and> pl_info p1 = pl_info p"
    using executeIn_known [OF assms(1) _ pool_executed.hyps(2,3)]
    by (intro pool_inv_at_handle [OF p1 pool_executed.IH] allI impI executeIn_name) simp
  with p1 show ?case by simp
next
  case (pool_read p sql i l)
  obtain r p1 where p1: "at_handle i (pg_run pq sql l False) p = (r, p1)" by fastforce
  have "pool_inv pd_name (path_known path) p1 \<and> length (pl_handles p1) = length (pl_handles p) \<and> pl_info p1 = pl_info p"
    using catalog_read_known [OF assms(1) _ pool_read.hyps(2,3)]
    by (intro pool_inv_at_handle [OF p1 pool_read.IH] allI impI pg_run_name) simp
  with p1 show ?case by simp
qed

text \<open>
  C20: However the databases of a server are opened, listed, created, dropped, renamed and used, as long
  as each user text either mentions a word the handles watch for or leaves the search path alone:
  each name of the cache has one handle of that name; asking for a database gives the handle of its
  name (the default one for the empty name), asking again gives the same and changes nothing, a fresh
  handle is not the cached one, and every handle's account of its search path is true or unknown.
\<close>

theorem pg_connection_handles:
  assumes "keeps_paths pq path quiet" "own_texts_quiet quiet" "pg_pool_reachable pq quiet p"
  shows "pool_ok pd_name p \<and> list_all (path_known path) (pl_handles p) \<and>
    (case pg_database name p of (i, p1) \<Rightarrow>
       i < length (pl_handles p1) \<and> pd_name (pl_handles p1 ! i) = pool_name name p \<and> pg_database name p1 = (i, p1)) \<and>
    (case pg_openDatabase name p of (i, p1) \<Rightarrow> i \<notin> snd ` set (pl_cache p1))"
proof -
  have inv: "pool_ok pd_name p" "list_all (path_known path) (pl_handles p)"
    using reachable_inv [OF assms] by (simp_all add: pool_inv_def)
  obtain i p1 j p2 where p1: "pg_database name p = (i, p1)" and p2: "pg_openDatabase name p = (j, p2)" by fastforce
  note one = pg.database_ok [OF inv(1) p1 [unfolded pg_database_def]]
  note again = pg.database_again [OF inv(1) p1 [unfolded pg_database_def]]
  note fresh = pg.openDatabase_ok [OF inv(1) p2 [unfolded pg_openDatabase_def]]
  show ?thesis using inv p1 p2 one(3,4) again fresh(3) by (simp add: pg_database_def)
qed

definition app_info :: ConnectionInfo where
  "app_info = default_info\<lparr>ci_type := POSTGRESQL, ci_database := ''app''\<rparr>"

lemma desk_own_texts: "own_texts_quiet (\<lambda>sql. desk_move sql = None)"
  by (simp add: own_texts_quiet_def desk_move_def starts_with_def datname_query_def pg_create_database_text_def comment_text_def
      terminate_text_def drop_text_def rename_text_def)

lemma pg_connection_handles_witness:
  "let p = snd (pg_database ''other'' (snd (pg_connection_open desk (pg_connection app_info))))
   in pool_ok pd_name p \<and> length (pl_handles p) = 2"
proof -
  have "pg_pool_reachable desk (\<lambda>sql. desk_move sql = None)
      (snd (pg_database ''other'' (snd (pg_connection_open desk (pg_connection app_info)))))"
    by (intro pool_asked pool_opened pool_start)
  from pg_connection_handles [OF desk_keeps_paths desk_own_texts this]
  have "pool_ok pd_name (snd (pg_database ''other'' (snd (pg_connection_open desk (pg_connection app_info)))))" by blast
  moreover have "length (pl_handles (snd (pg_database ''other'' (snd (pg_connection_open desk (pg_connection app_info)))))) = 2"
    by (simp add: pg_connection_def pg_connection_open_def pg_database_def pool_database_def pool_add_def new_pool_def
        at_database_def at_handle_def app_info_def default_info_def pool_name_def split_beta Let_def)
  ultimately show ?thesis by (simp add: Let_def)
qed


section \<open>Where the backend departs from what it promises\<close>

text \<open>
  A server that knows which database a session is in and, as PostgreSQL does, refuses to rename
  that database; everything else succeeds.
\<close>

definition townhall :: "bytes Pq" where
  "townhall = \<lparr>pq_connect = \<lambda>cs. case List.find (\<lambda>n. buildConnectionString app_info n = cs) [''app'', ''postgres''] of
       None \<Rightarrow> Inl ''no such database'' | Some n \<Rightarrow> Inr n,
     pq_ping = id, pq_idle = \<lambda>_. True,
     pq_send = \<lambda>sql k name. Inr \<lparr>rp_results =
         [if starts_with sql (''ALTER DATABASE '' @ pg_quoteIdent name)
          then (desk_result Other_Status [])\<lparr>pg_error := ''current database cannot be renamed''\<rparr>
          else desk_result Command_Ok []], rp_cancelled = \<lambda>_. [], rp_session = \<lambda>_. name\<rparr>,
     pq_ok = \<lambda>_. True\<rparr>"

definition no_schema_ask :: "bytes \<Rightarrow> bytes list list" where
  "no_schema_ask sql = (if sql = ''SELECT current_schema()'' then [[NULL_SENTINEL]] else [])"

lemma desk_run:
  "pg_run desk sql l timed d = (query_result [extractPgResult (case desk_move sql of
       None \<Rightarrow> desk_result Tuples_Ok (case pd_conn d of None \<Rightarrow> [] | Some p \<Rightarrow> p) | Some p \<Rightarrow> desk_result Command_Ok []) l],
     d\<lparr>pd_conn := Some (case desk_move sql of None \<Rightarrow> (case pd_conn d of None \<Rightarrow> [] | Some p \<Rightarrow> p) | Some p \<Rightarrow> p),
       pd_searchPath := (if pd_conn d = None then [] else pd_searchPath d)\<rparr>)"
  by (simp add: pg_run_def ensureConn_def desk_def pg_result_def stop_now_def stream_start_def desk_result_def Let_def
      extractPgResult_def setRowsMessage_def appendPgRows_def default_statement_def split: option.split)

lemma townhall_run:
  "pd_conn d = None \<Longrightarrow> pq_connect townhall (buildConnectionString (pd_info d) (pd_name d)) = Inr (pd_name d) \<Longrightarrow>
   pg_run townhall sql l timed d = (query_result [extractPgResult
       (if starts_with sql (''ALTER DATABASE '' @ pg_quoteIdent (pd_name d))
        then (desk_result Other_Status [])\<lparr>pg_error := ''current database cannot be renamed''\<rparr> else desk_result Command_Ok []) l],
     d\<lparr>pd_conn := Some (pd_name d), pd_searchPath := []\<rparr>)"
  by (simp add: pg_run_def ensureConn_def townhall_def pg_result_def stop_now_def stream_start_def desk_result_def Let_def
      extractPgResult_def pg_failure_def default_statement_def)

lemma townhall_rename:
  "fst (pg_renameDatabase townhall old ''new'' (pg_connection app_info)) =
     (if starts_with (rename_text old ''new'') (''ALTER DATABASE '' @ pg_quoteIdent ''app'')
      then (False, ''current database cannot be renamed'') else (True, []))"
proof -
  have conn: "pg_connection app_info = \<lparr>pl_info = app_info, pl_open = False, pl_cache = [], pl_handles = []\<rparr>"
    by (simp add: pg_connection_def new_pool_def app_info_def)
  have connect: "pq_connect townhall (buildConnectionString app_info ''app'') = Inr ''app''" by (simp add: townhall_def)
  have db: "ci_database app_info = ''app''" by (simp add: app_info_def)
  show ?thesis
    by (simp add: pg_renameDatabase_def pool_erase_def conn at_database_def pool_database_def pool_name_def db pool_add_def
        Let_def at_handle_def new_PgDb_def pg_execute_def executeIn_def set_path_def townhall_run connect toStatus_def split_beta
        query_result_def qr_success_def qr_errorMessage_def extractPgResult_def desk_result_def pg_failure_def default_statement_def)
qed

lemma no_schema_describe:
  "map_sum id tbl_schema (fst (pg_describeTable (clerk no_schema_ask) ''t'' d)) = Inr NULL_SENTINEL"
proof -
  have serves: "serves (clerk no_schema_ask) no_schema_ask (\<lambda>_. True)"
    by (rule clerk_serves) (simp add: no_schema_ask_def)
  obtain d1 where d1: "pg_rows (clerk no_schema_ask) ''SELECT current_schema()'' d = (Inr [[NULL_SENTINEL]], d1)"
    by (rule serves_rows [OF serves, where d = d and sql = "''SELECT current_schema()''"]) (simp_all add: no_schema_ask_def)
  have "no_schema_ask (describe_query NULL_SENTINEL ''t'') = []"
    by (simp add: no_schema_ask_def describe_query_def)
  then obtain d2 where d2: "pg_rows (clerk no_schema_ask) (describe_query NULL_SENTINEL ''t'') d1 = (Inr [], d2)"
    by (metis serves_rows [OF serves TrueI])
  have "str_find ''.'' ''t'' 0 = None" by code_simp
  then show ?thesis
    using d1 d2 by (simp add: pg_describeTable_def and_then_def describeIn_def map_filter_def return_ok_def Let_def)
qed

text \<open>
  Concrete runs: after SET SCHEMA the handle believes in the old path and runs the next text
  in the wrong schema, while a text that merely mentions the path makes it set the path again; the
  connected database cannot be renamed, though another one can; where no schema of the path
  exists, a table is looked up in a schema named like the null sentinel, not in public.
\<close>

lemma postgres_deviations:
  "(let d = snd (executeIn desk ''a'' (''SET SCHEMA '' @ pg_literal ''b'') 10 (new_PgDb app_info ''app''));
        (r, d1) = executeIn desk ''a'' ''SELECT current_schema()'' 10 d;
        d2 = snd (executeIn desk ''a'' ''SELECT search_path FROM t'' 10 d1);
        r2 = fst (executeIn desk ''a'' ''SELECT current_schema()'' 10 d2)
    in pd_searchPath d = ''a'' \<and> map sr_tableData (qr_statements r) = [[[''b'']]] \<and>
       pd_searchPath d2 = UNKNOWN \<and> map sr_tableData (qr_statements r2) = [[[''a'']]]) \<and>
   fst (pg_renameDatabase townhall ''app'' ''new'' (pg_connection app_info)) = (False, ''current database cannot be renamed'') \<and>
   fst (pg_renameDatabase townhall ''old'' ''new'' (pg_connection app_info)) = (True, []) \<and>
   map_sum id tbl_schema (fst (pg_describeTable (clerk no_schema_ask) ''t'' (new_PgDb app_info ''app''))) = Inr NULL_SENTINEL"
proof (intro conjI)
  have known: "desk_move (''SET SCHEMA '' @ pg_literal ''b'') = Some ''b''" "desk_move ''SELECT current_schema()'' = None"
    "desk_move ''SELECT search_path FROM t'' = None" "may_move_path ''SELECT search_path FROM t''"
    "\<not> may_move_path (''SET SCHEMA '' @ pg_literal ''b'')" "\<not> may_move_path ''SELECT current_schema()''" "UNKNOWN \<noteq> ''a''"
    by code_simp+
  show "let d = snd (executeIn desk ''a'' (''SET SCHEMA '' @ pg_literal ''b'') 10 (new_PgDb app_info ''app''));
        (r, d1) = executeIn desk ''a'' ''SELECT current_schema()'' 10 d;
        d2 = snd (executeIn desk ''a'' ''SELECT search_path FROM t'' 10 d1);
        r2 = fst (executeIn desk ''a'' ''SELECT current_schema()'' 10 d2)
    in pd_searchPath d = ''a'' \<and> map sr_tableData (qr_statements r) = [[[''b'']]] \<and>
       pd_searchPath d2 = UNKNOWN \<and> map sr_tableData (qr_statements r2) = [[[''a'']]]"
    using known by (simp add: executeIn_def set_path_def desk_run new_PgDb_def desk_path_statement extractPgResult_def desk_result_def
        qr_success_def query_result_def default_statement_def setRowsMessage_def appendPgRows_def rows_kept_def pg_row_def pg_cell_def Let_def)
  show "fst (pg_renameDatabase townhall ''app'' ''new'' (pg_connection app_info)) = (False, ''current database cannot be renamed'')"
    "fst (pg_renameDatabase townhall ''old'' ''new'' (pg_connection app_info)) = (True, [])"
    by (simp_all add: townhall_rename rename_text_def pg_quoteIdent_def starts_with_def)
qed (rule no_schema_describe)

lemmas postgres_departures =
  postgres_deviations [THEN conjunct1]
  postgres_deviations [THEN conjunct2, THEN conjunct1]
  postgres_deviations [THEN conjunct2, THEN conjunct2, THEN conjunct1]
  postgres_deviations [THEN conjunct2, THEN conjunct2, THEN conjunct2]

end
