(* ===== verification/Sqlite_Backend.thy ===== *)
theory Sqlite_Backend
  imports Catalog_Reading Syntax_Check
begin

text \<open>
  The SQLite backend (\<^verbatim>\<open>src/sqlite_connection.cpp\<close>): running a text statement by statement, reading the
  catalog through PRAGMAs, and the connection with its shared handle. sqlite3 is a parameter over
  the state \<open>'s\<close> of all files and handles, with handles \<open>'h\<close> and prepared statements \<open>'t\<close>. The
  lemmas show that a batch always ends, stops at its first failure and respects the row limit, that
  listings are consistent, and that a node outlives the connection that handed it out.
\<close>


section \<open>sqlite3\<close>

text \<open>A cell: NULL, or a value with the text and the integer sqlite3 converts it to.\<close>

datatype SqCell = SqNull | SqValue bytes int

text \<open>
  What stepping a statement will deliver: its rows, how it ends after them (\<open>None\<close>: \<^verbatim>\<open>SQLITE_DONE\<close>, else
  the error text), and the state after so many steps.
\<close>

record 's SqReply =
  sr_rows :: "SqCell list list"
  sr_end :: "bytes option"
  sr_after :: "nat \<Rightarrow> 's"

text \<open>
  One handle: \<open>sq_prepare\<close> compiles the first statement of a text: an error text, or the statement, if there
  is one, and the number of bytes it takes. \<open>sq_run\<close> is the stepping of a statement whose parameter
  was bound, if any. \<open>sq_changes\<close> is \<^verbatim>\<open>sqlite3_changes\<close>: the rows the last INSERT, UPDATE or DELETE touched.
\<close>

record ('s, 't) Sqlite =
  sq_prepare :: "bytes \<Rightarrow> 's \<Rightarrow> bytes + 't option \<times> nat"
  sq_columns :: "'t \<Rightarrow> bytes list"
  sq_run :: "'t \<Rightarrow> bytes option \<Rightarrow> 's \<Rightarrow> 's SqReply"
  sq_changes :: "'s \<Rightarrow> int"
  sq_errmsg :: "'s \<Rightarrow> bytes"

text \<open>
  The library: \<open>sl_open\<close> opens a path, read-only or not, and fails with the error text of the handle
  if there is one; \<open>sl_at\<close> is what can be done with a handle.
\<close>

record ('s, 'h, 't) SqliteLib =
  sl_open :: "bytes \<Rightarrow> bool \<Rightarrow> 's \<Rightarrow> (bytes option + 'h) \<times> 's"
  sl_at :: "'h \<Rightarrow> ('s, 't) Sqlite"

definition column_cell :: "SqCell list \<Rightarrow> nat \<Rightarrow> SqCell" where
  "column_cell row col = (if col < length row then row ! col else SqNull)"

definition columnText :: "SqCell list \<Rightarrow> nat \<Rightarrow> bool \<Rightarrow> bytes" where
  "columnText row col sentinelNull =
     (case column_cell row col of SqNull \<Rightarrow> if sentinelNull then NULL_SENTINEL else [] | SqValue t n \<Rightarrow> t)"

text \<open>\<^verbatim>\<open>sqlite3_column_int\<close> keeps the low 32 bits.\<close>

definition column_flag :: "SqCell list \<Rightarrow> nat \<Rightarrow> bool" where
  "column_flag row col \<longleftrightarrow> (case column_cell row col of SqNull \<Rightarrow> False | SqValue t n \<Rightarrow> n mod 2 ^ 32 \<noteq> 0)"

definition openHandle :: "('s, 'h, 't) SqliteLib \<Rightarrow> ConnectionInfo \<Rightarrow> ('s, 'h) call" where
  "openHandle lib info s =
     (case sl_open lib (c_str (ci_path info)) (ci_readOnly info) s of
        (Inl None, s') \<Rightarrow> (Inl ''Unable to open database'', s')
      | (Inl (Some e), s') \<Rightarrow> (Inl e, s')
      | (Inr h, s') \<Rightarrow> (Inr h, s'))"

text \<open>\<^verbatim>\<open>queryRows\<close>: the rows of the first statement of a text; stepping no statement is an error.\<close>

definition queryRows :: "('s, 't) Sqlite \<Rightarrow> bytes \<Rightarrow> ('s, SqCell list list) call" where
  "queryRows lib sql s =
     (case sq_prepare lib (c_str sql) s of
        Inl e \<Rightarrow> (Inl e, s)
      | Inr (None, n) \<Rightarrow> (Inl (sq_errmsg lib s), s)
      | Inr (Some t, n) \<Rightarrow>
          let r = sq_run lib t None s; s' = sr_after r (length (sr_rows r) + 1)
          in (case sr_end r of None \<Rightarrow> Inr (sr_rows r) | Some e \<Rightarrow> Inl e, s'))"

definition size_sql :: bytes where
  "size_sql = ''SELECT SUM(d.pgsize) FROM sqlite_master m LEFT JOIN dbstat d ON d.name = m.name '' @
     ''WHERE m.tbl_name = ? AND m.type IN ('table', 'index')''"

definition getTableSizeBytes :: "('s, 't) Sqlite \<Rightarrow> bytes \<Rightarrow> ('s, int) call" where
  "getTableSizeBytes lib tableName s =
     (case sq_prepare lib size_sql s of
        Inr (Some t, n) \<Rightarrow>
          let r = sq_run lib t (Some (c_str tableName)) s
          in (Inr (case sr_rows r of [] \<Rightarrow> -1 | row # _ \<Rightarrow> (case column_cell row 0 of SqNull \<Rightarrow> -1 | SqValue t n \<Rightarrow> n)),
              sr_after r 1)
      | _ \<Rightarrow> (Inr (-1), s))"

definition sqlite_quoteIdent :: "bytes \<Rightarrow> bytes" where
  "sqlite_quoteIdent ident = [dquote] @ double_char dquote ident @ [dquote]"


section \<open>Running a text\<close>

definition returned_message :: "nat \<Rightarrow> bytes" where
  "returned_message n = ''Returned '' @ nat_to_string n @ '' row'' @ (if n = 1 then [] else ''s'')"

text \<open>A statement with columns: rows are stepped until the limit is reached or they end.\<close>

definition run_query :: "('s, 't) Sqlite \<Rightarrow> int \<Rightarrow> 't \<Rightarrow> 's \<Rightarrow> StatementResult \<times> 's" where
  "run_query lib rowLimit t s =
     (let r = sq_run lib t None s; n = length (sr_rows r);
          full = (rowLimit > 0 \<and> nat rowLimit \<le> n);
          error = (if full then None else sr_end r);
          data = map (\<lambda>row. map (\<lambda>i. columnText row i True) [0..<length (sq_columns lib t)]) (limited rowLimit (sr_rows r))
      in (default_statement\<lparr>sr_columnNames := sq_columns lib t, sr_tableData := data,
            sr_success := (error = None), sr_errorMessage := (case error of None \<Rightarrow> [] | Some e \<Rightarrow> e),
            sr_message := returned_message (length data)\<rparr>,
          sr_after r (if full then nat rowLimit else n + 1)))"

text \<open>A statement without columns is stepped once.\<close>

definition run_command :: "('s, 't) Sqlite \<Rightarrow> 't \<Rightarrow> 's \<Rightarrow> StatementResult \<times> 's" where
  "run_command lib t s =
     (let r = sq_run lib t None s; s' = sr_after r 1
      in (if sr_rows r \<noteq> [] \<or> sr_end r = None
          then default_statement\<lparr>sr_affectedRows := sq_changes lib s', sr_message := ''Query executed successfully''\<rparr>
          else default_statement\<lparr>sr_success := False, sr_errorMessage := the (sr_end r)\<rparr>, s'))"

definition run_prepared :: "('s, 't) Sqlite \<Rightarrow> int \<Rightarrow> 't \<Rightarrow> 's \<Rightarrow> StatementResult \<times> 's" where
  "run_prepared lib rowLimit t s =
     (if sq_columns lib t \<noteq> [] then run_query lib rowLimit t s else run_command lib t s)"

text \<open>The loop over the remaining text; \<open>None\<close> stands for a loop that does not end.\<close>

partial_function (option) run_remaining ::
    "('s, 't) Sqlite \<Rightarrow> int \<Rightarrow> bytes \<Rightarrow> 's \<Rightarrow> StatementResult list \<Rightarrow> (StatementResult list \<times> 's) option" where
  "run_remaining lib rowLimit remaining s results =
     (let text = dropWhile isspace remaining
      in if text = [] then Some (results, s)
         else case sq_prepare lib text s of
             Inl e \<Rightarrow> Some (results @ [default_statement\<lparr>sr_success := False, sr_errorMessage := e\<rparr>], s)
           | Inr (None, n) \<Rightarrow> run_remaining lib rowLimit (drop n text) s results
           | Inr (Some t, n) \<Rightarrow>
               (case run_prepared lib rowLimit t s of (r, s') \<Rightarrow>
                  if sr_success r then run_remaining lib rowLimit (drop n text) s' (results @ [r])
                  else Some (results @ [r], s')))"

declare run_remaining.simps [code]

definition runMultiStatement :: "('s, 't) Sqlite \<Rightarrow> bytes \<Rightarrow> int \<Rightarrow> 's \<Rightarrow> (QueryResult \<times> 's) option" where
  "runMultiStatement lib query rowLimit s =
     (case run_remaining lib rowLimit (c_str query) s [] of
        None \<Rightarrow> None | Some (rs, s') \<Rightarrow> Some (\<lparr>qr_statements = rs, qr_messages = []\<rparr>, s'))"


section \<open>The catalog\<close>

definition sqlite_column_row :: "SqCell list \<Rightarrow> Column" where
  "sqlite_column_row row =
     default_column\<lparr>col_name := columnText row 1 False, col_type := columnText row 2 False, col_isNotNull := column_flag row 3,
       col_defaultValue := columnText row 4 False, col_isPrimaryKey := column_flag row 5\<rparr>"

definition sqlite_key_row :: "bytes \<Rightarrow> SqCell list \<Rightarrow> ForeignKey" where
  "sqlite_key_row tn row =
     \<lparr>fk_name = ''fk_'' @ tn @ ''_'' @ columnText row 3 False, fk_sourceColumn = columnText row 3 False,
      fk_targetTable = columnText row 2 False, fk_targetColumn = columnText row 4 False,
      fk_onDelete = columnText row 6 False, fk_onUpdate = columnText row 5 False\<rparr>"

definition sqlite_index_row :: "SqCell list \<Rightarrow> Index" where
  "sqlite_index_row row =
     default_index\<lparr>idx_name := columnText row 1 False, idx_isUnique := column_flag row 2,
       idx_isPrimary := (columnText row 3 False = ''pk''), idx_type := ''BTREE''\<rparr>"

fun index_columns :: "('s, 't) Sqlite \<Rightarrow> Index list \<Rightarrow> ('s, Index list) call" where
  "index_columns lib [] = return_ok []"
| "index_columns lib (i # is) =
     and_then (queryRows lib (''PRAGMA index_info('' @ sqlite_quoteIdent (idx_name i) @ '')'')) (\<lambda>data.
     and_then (index_columns lib is) (\<lambda>rest.
       return_ok (i\<lparr>idx_columns := map (\<lambda>row. columnText row 2 False) data\<rparr> # rest)))"

definition load :: "('s, 't) Sqlite \<Rightarrow> bytes \<Rightarrow> bytes \<Rightarrow> bool \<Rightarrow> ('s, Table) call" where
  "load lib connName tn isView =
     (let q = sqlite_quoteIdent tn; t = default_table\<lparr>tbl_name := tn, tbl_fullName := connName @ ''.'' @ tn\<rparr>
      in and_then (queryRows lib (''PRAGMA table_info('' @ q @ '')'')) (\<lambda>cols.
        let t1 = t\<lparr>tbl_columns := map sqlite_column_row cols\<rparr>
        in if isView then return_ok t1
           else and_then (queryRows lib (''PRAGMA foreign_key_list('' @ q @ '')'')) (\<lambda>keys.
             and_then (queryRows lib (''PRAGMA index_list('' @ q @ '')'')) (\<lambda>idx.
             and_then (index_columns lib (map sqlite_index_row idx)) (\<lambda>indexes.
             and_then (getTableSizeBytes lib tn) (\<lambda>n.
               return_ok (t1\<lparr>tbl_foreignKeys := map (sqlite_key_row tn) keys, tbl_indexes := indexes,
                 tbl_sizeBytes := n\<rparr>)))))))"

definition one :: "('s, 'a) call \<Rightarrow> ('s, 'a list) call" where
  "one c = and_then c (\<lambda>x. return_ok [x])"

definition sqlite_tables_query :: bytes where
  "sqlite_tables_query = ''SELECT name FROM sqlite_master WHERE type='table' AND name NOT LIKE 'sqlite_%' ORDER BY name''"

definition sqlite_tables :: "('s, 't) Sqlite \<Rightarrow> bytes \<Rightarrow> ('s, Table list) call" where
  "sqlite_tables lib connName =
     and_then (queryRows lib sqlite_tables_query) (\<lambda>data.
     and_then (collect (\<lambda>n. one (load lib connName n False)) (map (\<lambda>row. columnText row 0 False) data)) (\<lambda>ts.
       return_ok (populateIncomingForeignKeys ts)))"

text \<open>The body of a view: what follows the first AS.\<close>

definition view_body :: "bytes \<Rightarrow> bytes" where
  "view_body sql = (case str_find '' AS '' sql 0 of None \<Rightarrow> [] | Some pos \<Rightarrow> drop (pos + 4) sql)"

definition sqlite_views_query :: bytes where
  "sqlite_views_query = ''SELECT name, sql FROM sqlite_master WHERE type='view' ORDER BY name''"

definition sqlite_views :: "('s, 't) Sqlite \<Rightarrow> bytes \<Rightarrow> ('s, Table list) call" where
  "sqlite_views lib connName =
     and_then (queryRows lib sqlite_views_query) (\<lambda>data.
       collect (\<lambda>row. one (and_then (load lib connName (columnText row 0 False) True) (\<lambda>v.
         return_ok (v\<lparr>tbl_definition := view_body (columnText row 1 False)\<rparr>)))) data)"

definition sqlite_sequences :: "('s, 't) Sqlite \<Rightarrow> ('s, bytes list) call" where
  "sqlite_sequences lib =
     and_then (queryRows lib (''SELECT name FROM sqlite_master WHERE type='table' AND name='' @ sql_literal ''sqlite_sequence'')) (\<lambda>data.
       if data = [] then return_ok []
       else and_then (queryRows lib ''SELECT name FROM sqlite_sequence ORDER BY name'') (\<lambda>names.
         return_ok (map (\<lambda>row. columnText row 0 False) names)))"

definition sqlite_describeTable :: "('s, 't) Sqlite \<Rightarrow> bytes \<Rightarrow> bytes \<Rightarrow> ('s, Table) call" where
  "sqlite_describeTable lib connName tableName = load lib connName tableName False"

definition fileNameOf :: "bytes \<Rightarrow> bytes" where
  "fileNameOf p = rev (takeWhile (\<lambda>c. c \<noteq> CHR ''/'' \<and> c \<noteq> backslash) (rev p))"


section \<open>The connection\<close>

text \<open>
  Handles are shared pointers: the connection holds one, and so does each node it handed out.
  Closing the connection forgets its handle; a node keeps its own.
\<close>

record 'h SqNode =
  nd_handle :: 'h
  nd_connName :: bytes
  nd_name :: bytes

record 'h SqConn =
  sc_info :: ConnectionInfo
  sc_handle :: "'h option"
  sc_defaultDb :: "'h SqNode option"

definition new_SqConn :: "ConnectionInfo \<Rightarrow> 'h SqConn" where
  "new_SqConn info = \<lparr>sc_info = info, sc_handle = None, sc_defaultDb = None\<rparr>"

definition new_node :: "ConnectionInfo \<Rightarrow> 'h \<Rightarrow> 'h SqNode" where
  "new_node info h = \<lparr>nd_handle = h, nd_connName = ci_name info, nd_name = fileNameOf (ci_path info)\<rparr>"

definition sqlite_open :: "('s, 'h, 't) SqliteLib \<Rightarrow> 'h SqConn \<Rightarrow> 's \<Rightarrow> (Status \<times> 'h SqConn) \<times> 's" where
  "sqlite_open lib c s =
     (if sc_handle c \<noteq> None then (((True, []), c), s)
      else case openHandle lib (sc_info c) s of
          (Inl e, s') \<Rightarrow> (((False, e), c), s')
        | (Inr h, s') \<Rightarrow> (((True, []), c\<lparr>sc_handle := Some h, sc_defaultDb := None\<rparr>), s'))"

definition sqlite_close :: "'h SqConn \<Rightarrow> 'h SqConn" where
  "sqlite_close c = c\<lparr>sc_defaultDb := None, sc_handle := None\<rparr>"

definition sqlite_isOpen :: "'h SqConn \<Rightarrow> bool" where
  "sqlite_isOpen c \<longleftrightarrow> sc_handle c \<noteq> None"

definition sqlite_database :: "'h SqConn \<Rightarrow> 'h SqNode option \<times> 'h SqConn" where
  "sqlite_database c =
     (case sc_handle c of
        None \<Rightarrow> (None, c)
      | Some h \<Rightarrow> (case sc_defaultDb c of
          Some nd \<Rightarrow> (Some nd, c)
        | None \<Rightarrow> (Some (new_node (sc_info c) h), c\<lparr>sc_defaultDb := Some (new_node (sc_info c) h)\<rparr>)))"

definition sqlite_databases :: "'h SqConn \<Rightarrow> 'h SqNode list \<times> 'h SqConn" where
  "sqlite_databases c = (case sqlite_database c of (Some nd, c') \<Rightarrow> ([nd], c') | (None, c') \<Rightarrow> ([], c'))"

definition sqlite_openDatabase :: "('s, 'h, 't) SqliteLib \<Rightarrow> 'h SqConn \<Rightarrow> 's \<Rightarrow> 'h SqNode option \<times> 's" where
  "sqlite_openDatabase lib c s =
     (case openHandle lib (sc_info c) s of
        (Inl e, s') \<Rightarrow> (None, s') | (Inr h, s') \<Rightarrow> (Some (new_node (sc_info c) h), s'))"

text \<open>A node as a backend of the interface; an endless text is \<open>None\<close>.\<close>

definition node_execute :: "('s, 'h, 't) SqliteLib \<Rightarrow> 'h SqNode \<Rightarrow> bytes \<Rightarrow> int \<Rightarrow> 's \<Rightarrow> (QueryResult \<times> 's) option" where
  "node_execute lib nd = runMultiStatement (sl_at lib (nd_handle nd))"

definition node_tables :: "('s, 'h, 't) SqliteLib \<Rightarrow> 'h SqNode \<Rightarrow> ('s, Table list) call" where
  "node_tables lib nd = sqlite_tables (sl_at lib (nd_handle nd)) (nd_connName nd)"

definition node_views :: "('s, 'h, 't) SqliteLib \<Rightarrow> 'h SqNode \<Rightarrow> ('s, Table list) call" where
  "node_views lib nd = sqlite_views (sl_at lib (nd_handle nd)) (nd_connName nd)"


section \<open>A batch ends and stops at its first failure\<close>

text \<open>A statement takes at least one byte of a text that is not empty.\<close>

definition takes_text :: "('s, 't) Sqlite \<Rightarrow> bool" where
  "takes_text lib \<longleftrightarrow> (\<forall>text s t n. text \<noteq> [] \<longrightarrow> sq_prepare lib text s = Inr (t, n) \<longrightarrow> 0 < n)"

text \<open>Results of a batch: all but the last succeeded, and none holds more rows than wanted.\<close>

definition batch_results :: "int \<Rightarrow> StatementResult list \<Rightarrow> bool" where
  "batch_results L rs \<longleftrightarrow> list_all sr_success (butlast rs) \<and> list_all (within_limit L) rs"

lemma limited_length: "L > 0 \<Longrightarrow> length (limited L xs) \<le> nat L"
  by (simp add: limited_def)

lemma run_prepared_within: "within_limit L (fst (run_prepared lib L t s))"
  by (simp add: run_prepared_def run_query_def run_command_def within_limit_def default_statement_def limited_length Let_def)

lemma run_remaining_steps:
  assumes "dropWhile isspace remaining = text"
  shows run_remaining_blank: "text = [] \<Longrightarrow> run_remaining lib L remaining s results = Some (results, s)"
    and run_remaining_error: "text \<noteq> [] \<Longrightarrow> sq_prepare lib text s = Inl e \<Longrightarrow> run_remaining lib L remaining s results =
      Some (results @ [default_statement\<lparr>sr_success := False, sr_errorMessage := e\<rparr>], s)"
    and run_remaining_comment: "text \<noteq> [] \<Longrightarrow> sq_prepare lib text s = Inr (None, n) \<Longrightarrow>
      run_remaining lib L remaining s results = run_remaining lib L (drop n text) s results"
    and run_remaining_statement: "text \<noteq> [] \<Longrightarrow> sq_prepare lib text s = Inr (Some t, n) \<Longrightarrow>
      run_prepared lib L t s = (r, s1) \<Longrightarrow> run_remaining lib L remaining s results =
      (if sr_success r then run_remaining lib L (drop n text) s1 (results @ [r]) else Some (results @ [r], s1))"
  by (subst run_remaining.simps, simp add: assms Let_def)+

lemma batch_append:
  "batch_results L rs \<Longrightarrow> list_all sr_success rs \<Longrightarrow> within_limit L r \<Longrightarrow> batch_results L (rs @ [r])"
  by (simp add: batch_results_def)

lemma run_remaining_ends:
  assumes "takes_text lib" "list_all sr_success results" "list_all (within_limit L) results"
  shows "\<exists>rs s'. run_remaining lib L remaining s results = Some (results @ rs, s') \<and> batch_results L (results @ rs)"
  using assms(2,3)
proof (induction "length remaining" arbitrary: remaining s results rule: less_induct)
  case less
  let ?text = "dropWhile isspace remaining"
  note step = run_remaining_steps [OF refl, of remaining]
  have ok: "batch_results L results" "\<And>r. within_limit L r \<Longrightarrow> batch_results L (results @ [r])"
    using less.prems by (auto simp: batch_results_def list_all_iff dest: in_set_butlastD)
  have shorter: "length (drop n ?text) < length remaining" if "?text \<noteq> []" "0 < n" for n
    using that length_dropWhile_le [of isspace remaining] by (cases ?text) auto
  show ?case
  proof (cases "?text = []")
    case True
    then show ?thesis using step(1) [OF True, of lib L s results] ok(1)
      by (intro exI [of _ "[]"] exI [of _ s]) simp
  next
    case False
    show ?thesis
    proof (cases "sq_prepare lib ?text s")
      case (Inl e)
      have "within_limit L (default_statement\<lparr>sr_success := False, sr_errorMessage := e\<rparr>)"
        by (simp add: within_limit_def default_statement_def)
      with step(2) [OF False Inl] ok(2) show ?thesis by blast
    next
      case (Inr p)
      obtain t n where p: "p = (t, n)" by fastforce
      then have n: "length (drop n ?text) < length remaining"
        using Inr False assms(1) shorter unfolding takes_text_def by blast
      show ?thesis
      proof (cases t)
        case None
        then have "sq_prepare lib ?text s = Inr (None, n)" using Inr p by simp
        with less.hyps [OF n less.prems, of s] step(3) [OF False this] show ?thesis by simp
      next
        case (Some u)
        then have prep: "sq_prepare lib ?text s = Inr (Some u, n)" using Inr p by simp
        obtain r s1 where r: "run_prepared lib L u s = (r, s1)" by fastforce
        have within: "within_limit L r" using run_prepared_within [of L lib u s] r by simp
        show ?thesis
        proof (cases "sr_success r")
          case True
          have "\<exists>rs s'. run_remaining lib L (drop n ?text) s1 (results @ [r]) = Some ((results @ [r]) @ rs, s') \<and>
              batch_results L ((results @ [r]) @ rs)"
            by (rule less.hyps [OF n]) (use less.prems True within in simp_all)
          with step(4) [OF False prep r] True show ?thesis by auto
        next
          case nok: False
          with step(4) [OF False prep r] ok(2) [OF within] show ?thesis by auto
        qed
      qed
    qed
  qed
qed

text \<open>
  C23: Where every statement takes some of the text, running a text always ends; its results are
  those of the statements up to the first one that fails, so all but the last succeeded, and no
  row set is longer than the limit.
\<close>

theorem sqlite_batch_ends:
  assumes "takes_text lib"
  shows "\<exists>rs s'. runMultiStatement lib query L s = Some (\<lparr>qr_statements = rs, qr_messages = []\<rparr>, s') \<and>
    list_all sr_success (butlast rs) \<and> list_all (within_limit L) rs"
  using run_remaining_ends [OF assms, of "[]" L "c_str query" s]
  by (auto simp: runMultiStatement_def batch_results_def)

text \<open>
  A library over one counter: statements end at semicolons, a DELETE touches three rows, a SELECT
  returns five rows, anything else does nothing; dashes start a comment.
\<close>

definition abacus :: "(int, bytes) Sqlite" where
  "abacus = \<lparr>sq_prepare = \<lambda>text s. Inr (let t = takeWhile (\<lambda>c. c \<noteq> CHR '';'') text in
       (if starts_with t ''--'' then None else Some t, length t + 1)),
     sq_columns = \<lambda>t. if starts_with t ''SELECT'' then [''a''] else [],
     sq_run = \<lambda>t b s. \<lparr>sr_rows = (if starts_with t ''SELECT'' then replicate 5 [SqValue ''1'' 1] else []), sr_end = None,
       sr_after = \<lambda>n. if starts_with t ''DELETE'' then 3 else s\<rparr>,
     sq_changes = id, sq_errmsg = \<lambda>s. ''bad parameter''\<rparr>"

lemma sqlite_batch_ends_witness:
  "\<exists>rs s'. runMultiStatement abacus ''SELECT a FROM t; DELETE FROM t'' 2 0 = Some (\<lparr>qr_statements = rs, qr_messages = []\<rparr>, s') \<and>
    list_all sr_success (butlast rs)"
proof -
  have "takes_text abacus" by (auto simp: takes_text_def abacus_def Let_def)
  from sqlite_batch_ends [OF this] show ?thesis by blast
qed

text \<open>
  Concrete runs: a CREATE TABLE after a DELETE reports the rows of the DELETE as affected; a
  text of comments only is neither a success nor has an error message; the body of a view is cut
  at an AS inside a name and is lost when AS is written in lower case.
\<close>

lemma sqlite_deviations:
  "map_option (map sr_affectedRows \<circ> qr_statements \<circ> fst) (runMultiStatement abacus ''DELETE FROM t; CREATE TABLE u(a)'' 0 0) =
     Some [3, 3] \<and>
   map_option (\<lambda>(r, s). (qr_success r, qr_errorMessage r)) (runMultiStatement abacus ''-- nothing'' 0 0) = Some (False, []) \<and>
   view_body (''CREATE VIEW '' @ sqlite_quoteIdent ''x AS y'' @ '' AS SELECT 1'') = ''y'' @ [dquote] @ '' AS SELECT 1'' \<and>
   view_body ''create view v as select 1'' = []"
  by code_simp


section \<open>The connection and its nodes\<close>

inductive sqlite_reachable :: "('s, 'h, 't) SqliteLib \<Rightarrow> 'h SqConn \<Rightarrow> bool" for lib where
  sq_new: "sqlite_reachable lib (new_SqConn info)"
| sq_opened: "sqlite_reachable lib c \<Longrightarrow> sqlite_reachable lib (snd (fst (sqlite_open lib c s)))"
| sq_closed: "sqlite_reachable lib c \<Longrightarrow> sqlite_reachable lib (sqlite_close c)"
| sq_asked: "sqlite_reachable lib c \<Longrightarrow> sqlite_reachable lib (snd (sqlite_database c))"

definition node_current :: "'h SqConn \<Rightarrow> bool" where
  "node_current c \<longleftrightarrow> (\<forall>nd. sc_defaultDb c = Some nd \<longrightarrow> (\<exists>h. sc_handle c = Some h \<and> nd = new_node (sc_info c) h))"

lemma reachable_node_current: "sqlite_reachable lib c \<Longrightarrow> node_current c"
  by (induction rule: sqlite_reachable.induct)
    (auto simp: node_current_def new_SqConn_def sqlite_open_def sqlite_close_def sqlite_database_def
      split: prod.splits sum.splits option.splits)

text \<open>
  In every state of a SQLite connection, asking for its database gives nothing exactly when it
  is closed, and else the one node over the connection's handle, the same each time; closing takes
  the handle from the connection and from no node, and opening again does not bring an old node back.
\<close>

lemma sqlite_connection_nodes:
  assumes "sqlite_reachable lib c"
  shows "case sqlite_database c of (node, c1) \<Rightarrow>
    node = map_option (new_node (sc_info c)) (sc_handle c) \<and> sqlite_database c1 = (node, c1) \<and>
    sqlite_isOpen c1 = sqlite_isOpen c \<and> \<not> sqlite_isOpen (sqlite_close c1) \<and>
    fst (sqlite_database (sqlite_close c1)) = None \<and>
    fst (sqlite_database (snd (fst (sqlite_open lib (sqlite_close c1) s)))) =
      (case openHandle lib (sc_info c) s of (Inl e, s') \<Rightarrow> None | (Inr h, s') \<Rightarrow> Some (new_node (sc_info c) h))"
  using reachable_node_current [OF assms]
  by (auto simp: node_current_def sqlite_database_def sqlite_isOpen_def sqlite_close_def sqlite_open_def
      split: option.splits prod.splits sum.splits)

definition one_file :: "(int, nat, bytes) SqliteLib" where
  "one_file = \<lparr>sl_open = \<lambda>path ro s. (Inr 7, s), sl_at = \<lambda>h. abacus\<rparr>"

lemma sqlite_connection_nodes_witness:
  "fst (sqlite_database (snd (fst (sqlite_open one_file (new_SqConn default_info) 0)))) = Some (new_node default_info 7)"
proof -
  have "sqlite_reachable one_file (snd (fst (sqlite_open one_file (new_SqConn default_info) 0)))"
    by (intro sq_opened sq_new)
  from sqlite_connection_nodes [OF this, of 0] show ?thesis
    by (auto simp: sqlite_open_def one_file_def openHandle_def new_SqConn_def split: prod.splits)
qed


section \<open>Listings\<close>

abbreviation may_fail :: "('s, 'a) call \<Rightarrow> ('a \<Rightarrow> bool) \<Rightarrow> bool" where
  "may_fail \<equiv> yields (\<lambda>_. True)"

lemma may_fail_any: "may_fail c (\<lambda>_. True)"
  by (simp add: yields_def split: sum.split)

lemma load_named: "may_fail (load lib connName tn isView) (\<lambda>t. tbl_name t = tn \<and> table_in [] connName t)"
  unfolding load_def Let_def
  by (intro yields_and_then [OF may_fail_any] yields_if yields_return) (simp_all add: table_in_def default_table_def)

lemma one_named:
  "yields E c (\<lambda>t. tbl_name t = n \<and> P t) \<Longrightarrow> yields E (one c) (\<lambda>ts. map tbl_name ts = [n] \<and> list_all P ts)"
  unfolding one_def by (erule yields_and_then) (simp add: yields_return)

abbreviation first_text :: "SqCell list \<Rightarrow> bytes" where
  "first_text row \<equiv> columnText row 0 False"

lemma sqlite_tables_listed:
  "listing (\<lambda>_. True) (queryRows lib sqlite_tables_query) (map first_text)
     (\<lambda>ts. list_all (table_in [] connName) ts \<and> incoming_exact ts) (sqlite_tables lib connName)"
  unfolding sqlite_tables_def
proof (rule listing_and_then [OF may_fail_any], rule yields_populated)
  fix data
  show "may_fail (collect (\<lambda>n. one (load lib connName n False)) (map first_text data))
      (\<lambda>ts. map tbl_name ts = map first_text data \<and> list_all (table_in [] connName) ts)"
    using yields_collect_named [where nm = "\<lambda>n. n", OF one_named [OF load_named]] by simp
qed

lemma sqlite_views_listed:
  "listing (\<lambda>_. True) (queryRows lib sqlite_views_query) (map first_text)
     (list_all (table_in [] connName)) (sqlite_views lib connName)"
  unfolding sqlite_views_def
proof (rule listing_and_then [OF may_fail_any], rule yields_collect_named, rule one_named)
  fix row
  show "may_fail (and_then (load lib connName (first_text row) True)
      (\<lambda>v. return_ok (v\<lparr>tbl_definition := view_body (columnText row 1 False)\<rparr>)))
      (\<lambda>t. tbl_name t = first_text row \<and> table_in [] connName t)"
    by (rule yields_and_then [OF load_named], rule yields_return) (simp add: table_in_def)
qed

end
