(* ===== verification/Mysql_Backend.thy ===== *)
theory Mysql_Backend
  imports Postgres_Connection Syntax_Check
begin

text \<open>
  The MySQL family (\<^verbatim>\<open>src/mysql_connection.cpp\<close>): opening a session with its TLS options, running a batch
  and reading its results, the catalog, the statements the backend writes itself, and the
  connection with its cache of handles. The client library is a parameter over a session state
  \<open>'s\<close>. The lemmas show that a batch counts as a success only if the server ran all of it, what TLS
  a mode asks for, that listings are consistent, and that each name has one handle.
\<close>


section \<open>Opening a session\<close>

definition mysql_quoteIdent :: "bytes \<Rightarrow> bytes" where
  "mysql_quoteIdent s = [backtick] @ double_char backtick s @ [backtick]"

fun mysql_escapeLiteral :: "bytes \<Rightarrow> bytes" where
  "mysql_escapeLiteral [] = []"
| "mysql_escapeLiteral (c # s) =
     (if c = squote then [squote, squote] else if c = backslash then [backslash, backslash] else [c]) @ mysql_escapeLiteral s"

definition mysql_text :: "bytes \<Rightarrow> bytes" where
  "mysql_text s = [squote] @ mysql_escapeLiteral s @ [squote]"

definition verifies :: "SslMode \<Rightarrow> bool" where
  "verifies m \<longleftrightarrow> m = VerifyCA \<or> m = VerifyFull \<or> m = VerifyIdentity"

definition shouldApplySslCA :: "ConnectionInfo \<Rightarrow> bool" where
  "shouldApplySslCA info \<longleftrightarrow> ci_sslCACertPath info \<noteq> [] \<and> verifies (ci_sslmode info)"

text \<open>What a session is opened with; over TCP, with multi-statements, a connect timeout and utf8mb4.\<close>

record MyOptions =
  mo_ioTimeout :: nat
  mo_sslCA :: "bytes option"
  mo_enforce :: bool
  mo_verify :: bool
  mo_host :: bytes
  mo_user :: bytes
  mo_password :: bytes
  mo_db :: "bytes option"
  mo_port :: int

definition mysql_options :: "ConnectionInfo \<Rightarrow> bytes \<Rightarrow> nat \<Rightarrow> MyOptions" where
  "mysql_options info dbName ioTimeout =
     \<lparr>mo_ioTimeout = ioTimeout,
      mo_sslCA = (if shouldApplySslCA info then Some (ci_sslCACertPath info) else None),
      mo_enforce = (ci_sslmode info = Require \<or> verifies (ci_sslmode info)),
      mo_verify = verifies (ci_sslmode info),
      mo_host = ci_host info, mo_user = ci_username info, mo_password = ci_password info,
      mo_db = (if dbName = [] then None else Some dbName), mo_port = ci_port info\<rparr>"

text \<open>
  The results of a sent text: row sets with their columns (name, and whether it is a boolean, a
  one-digit \<^verbatim>\<open>TINYINT\<close>), counts of affected rows (\<open>None\<close> when the library has none), or a set that
  cannot be read. A reply has at least one, and may end in an error of a later statement.
\<close>

datatype MyResult =
    MyRows "(bytes \<times> bool) list" "bytes option list list"
  | MyAffected "nat option"
  | MyBroken bytes

record MyReply =
  my_results :: "MyResult list"
  my_error :: "bytes option"

record 's Mysql =
  my_connect :: "MyOptions \<Rightarrow> bytes + 's"
  my_ping :: "'s \<Rightarrow> bool \<times> 's"
  my_query :: "bytes \<Rightarrow> 's \<Rightarrow> (bytes + MyReply) \<times> 's"

definition openMysql :: "'s Mysql \<Rightarrow> ConnectionInfo \<Rightarrow> bytes \<Rightarrow> nat \<Rightarrow> bytes + 's" where
  "openMysql lib info dbName ioTimeout =
     (case my_connect lib (mysql_options info dbName ioTimeout) of
        Inl e \<Rightarrow> Inl (''MySQL connection failed: '' @ e) | Inr s \<Rightarrow> Inr s)"


section \<open>Results\<close>

definition mysql_cell :: "bool \<Rightarrow> bytes option \<Rightarrow> bytes" where
  "mysql_cell isBool v =
     (case v of None \<Rightarrow> NULL_SENTINEL
      | Some t \<Rightarrow> if isBool then (if starts_with t ''1'' then BOOL_TRUE_SENTINEL else BOOL_FALSE_SENTINEL) else t)"

definition mysql_row :: "(bytes \<times> bool) list \<Rightarrow> bytes option list \<Rightarrow> bytes list" where
  "mysql_row cols row = map (\<lambda>(f, v). mysql_cell (snd f) v) (zip cols row)"

definition extractMysqlResult :: "int \<Rightarrow> MyResult \<Rightarrow> StatementResult" where
  "extractMysqlResult rowLimit res =
     (case res of
        MyRows cols data \<Rightarrow>
          let kept = map (mysql_row cols) (limited rowLimit data); n = length kept; m = int (length data)
          in default_statement\<lparr>sr_columnNames := map fst cols, sr_tableData := kept,
               sr_message := ''Returned '' @ nat_to_string n @ '' row'' @ (if n = 1 then [] else ''s'') @
                 (if rowLimit > 0 \<and> rowLimit \<le> m \<and> to_int32 m > rowLimit
                  then '' (limited to '' @ to_string rowLimit @ '')'' else [])\<rparr>
      | MyAffected (Some n) \<Rightarrow> default_statement\<lparr>sr_affectedRows := to_int32 (int n),
          sr_message := nat_to_string n @ '' row(s) affected''\<rparr>
      | MyAffected None \<Rightarrow> default_statement\<lparr>sr_message := ''Query executed successfully''\<rparr>
      | MyBroken e \<Rightarrow> pg_failure e)"


section \<open>The handle\<close>

record 's MyDb =
  md_info :: ConnectionInfo
  md_name :: bytes
  md_conn :: "'s option"

definition new_MyDb :: "ConnectionInfo \<Rightarrow> bytes \<Rightarrow> 's MyDb" where
  "new_MyDb info name = \<lparr>md_info = info, md_name = name, md_conn = None\<rparr>"

definition my_ensureConn :: "'s Mysql \<Rightarrow> ('s MyDb, 's) call" where
  "my_ensureConn lib d =
     (case md_conn d of
        Some c \<Rightarrow> (Inr c, d)
      | None \<Rightarrow> (case openMysql lib (md_info d) (md_name d) 0 of
          Inl e \<Rightarrow> (Inl e, d) | Inr c \<Rightarrow> (Inr c, d\<lparr>md_conn := Some c\<rparr>)))"

definition my_open :: "'s Mysql \<Rightarrow> 's MyDb \<Rightarrow> Status \<times> 's MyDb" where
  "my_open lib d = (case my_ensureConn lib d of (Inl e, d') \<Rightarrow> ((False, e), d') | (Inr c, d') \<Rightarrow> ((True, []), d'))"

definition mysql_ping :: "'s Mysql \<Rightarrow> 's MyDb \<Rightarrow> bool \<times> 's MyDb" where
  "mysql_ping lib d =
     (case md_conn d of None \<Rightarrow> (False, d)
      | Some c \<Rightarrow> (case my_ping lib c of (b, c') \<Rightarrow> (b, d\<lparr>md_conn := Some c'\<rparr>)))"

definition mysql_alive :: "'s Mysql \<Rightarrow> 's MyDb \<Rightarrow> bool \<times> 's MyDb" where
  "mysql_alive lib d = (if md_conn d = None then (True, d) else mysql_ping lib d)"

text \<open>The statements of a reply: those that succeeded or have a message, then the later error.\<close>

definition reply_statements :: "int \<Rightarrow> MyReply \<Rightarrow> StatementResult list" where
  "reply_statements rowLimit rep =
     filter (\<lambda>r. sr_success r \<or> sr_errorMessage r \<noteq> []) (map (extractMysqlResult rowLimit) (my_results rep)) @
     (case my_error rep of None \<Rightarrow> [] | Some e \<Rightarrow> [pg_failure e])"

definition mysql_execute :: "'s Mysql \<Rightarrow> bytes \<Rightarrow> int \<Rightarrow> 's MyDb \<Rightarrow> QueryResult \<times> 's MyDb" where
  "mysql_execute lib sql rowLimit d =
     (case my_ensureConn lib d of
        (Inl e, d1) \<Rightarrow> (query_result [pg_failure e], d1)
      | (Inr c, d1) \<Rightarrow>
          (case my_query lib sql (snd (my_ping lib c)) of
             (Inl e, c2) \<Rightarrow> (query_result [pg_failure e], d1\<lparr>md_conn := Some c2\<rparr>)
           | (Inr rep, c2) \<Rightarrow> (query_result (reply_statements rowLimit rep), d1\<lparr>md_conn := Some c2\<rparr>)))"


section \<open>Catalog reads\<close>

text \<open>
  A catalog read drops every error: the rows of the first result if there are any, and the rest is
  drained. A value of a row is a C string; a missing one is empty.
\<close>

definition my_rows :: "'s Mysql \<Rightarrow> bytes \<Rightarrow> 's \<Rightarrow> bytes option list list \<times> 's" where
  "my_rows lib sql c =
     (case my_query lib (c_str sql) c of
        (Inl e, c') \<Rightarrow> ([], c')
      | (Inr rep, c') \<Rightarrow> (case my_results rep of MyRows cols data # _ \<Rightarrow> data | _ \<Rightarrow> [], c'))"

definition my_field :: "bytes option list \<Rightarrow> nat \<Rightarrow> bytes option" where
  "my_field row k = (if k < length row then map_option c_str (row ! k) else None)"

definition my_value :: "bytes option list \<Rightarrow> nat \<Rightarrow> bytes" where
  "my_value row k = (case my_field row k of None \<Rightarrow> [] | Some t \<Rightarrow> t)"

definition first_fields :: "bytes option list list \<Rightarrow> bytes list" where
  "first_fields data = List.map_filter (\<lambda>row. my_field row 0) data"

definition my_column :: "bytes option list \<Rightarrow> Column" where
  "my_column row = default_column\<lparr>col_name := my_value row 0, col_type := my_value row 1,
     col_isNotNull := (my_field row 2 = Some ''NO''), col_isPrimaryKey := (my_field row 3 = Some ''PRI''),
     col_defaultValue := my_value row 4,
     col_isAutoIncrement := (my_field row 5 \<noteq> None \<and> str_find ''auto_increment'' (my_value row 5) 0 \<noteq> None)\<rparr>"

definition my_view_column :: "bytes option list \<Rightarrow> Column" where
  "my_view_column row = default_column\<lparr>col_name := my_value row 0, col_type := my_value row 1,
     col_isNotNull := (my_field row 2 = Some ''NO'')\<rparr>"

definition my_key :: "bytes option list \<Rightarrow> ForeignKey" where
  "my_key row = default_key\<lparr>fk_sourceColumn := my_value row 0, fk_targetTable := my_value row 1,
     fk_targetColumn := my_value row 2, fk_name := my_value row 3\<rparr>"

definition my_routine :: "bytes option list \<Rightarrow> Routine" where
  "my_routine row = \<lparr>rt_name = my_value row 0, rt_signature = my_value row 1,
     rt_kind = (if my_value row 2 = ''PROCEDURE'' then RProcedure else RFunction), rt_returnType = my_value row 3\<rparr>"

definition my_keys_query :: "bytes \<Rightarrow> bytes \<Rightarrow> bytes" where
  "my_keys_query db tableName =
     ''SELECT COLUMN_NAME, REFERENCED_TABLE_NAME, REFERENCED_COLUMN_NAME, CONSTRAINT_NAME FROM INFORMATION_SCHEMA.KEY_COLUMN_USAGE '' @
       ''WHERE TABLE_SCHEMA = '' @
     mysql_text db @ '' AND TABLE_NAME = '' @ mysql_text tableName @ '' AND REFERENCED_TABLE_NAME IS NOT NULL''"

definition my_routines_query :: "bytes \<Rightarrow> bytes" where
  "my_routines_query db =
     ''SELECT ROUTINE_NAME, CONCAT(ROUTINE_NAME, '(', IFNULL((SELECT GROUP_CONCAT(PARAMETER_NAME, ' ', '' @
       ''DATA_TYPE ORDER BY ORDINAL_POSITION) FROM information_schema.PARAMETERS p WHERE p.SPECIFIC_SCHEMA '' @
       ''= r.ROUTINE_SCHEMA AND p.SPECIFIC_NAME = r.ROUTINE_NAME AND p.PARAMETER_MODE IS NOT NULL), '' @
       [squote, squote] @
       ''), ')') AS signature, ROUTINE_TYPE, DTD_IDENTIFIER FROM information_schema.ROUTINES r WHERE '' @
       ''ROUTINE_SCHEMA = '' @
     mysql_text db @ '' ORDER BY ROUTINE_TYPE, ROUTINE_NAME''"

text \<open>A table or view of database \<open>db\<close> on the connection named \<open>conn\<close>.\<close>

definition my_named :: "bytes \<Rightarrow> bytes \<Rightarrow> bytes \<Rightarrow> Table" where
  "my_named conn db name =
     default_table\<lparr>tbl_name := name, tbl_schema := db, tbl_fullName := conn @ ''.'' @ db @ ''.'' @ name\<rparr>"

definition my_table :: "'s Mysql \<Rightarrow> bytes \<Rightarrow> bytes \<Rightarrow> bytes \<Rightarrow> 's \<Rightarrow> Table \<times> 's" where
  "my_table lib conn db name c =
     (case my_rows lib (''DESCRIBE '' @ mysql_quoteIdent name) c of (cols, c1) \<Rightarrow>
       (case my_rows lib (my_keys_query db name) c1 of (keys, c2) \<Rightarrow>
         ((my_named conn db name)\<lparr>tbl_columns := map my_column cols, tbl_foreignKeys := map my_key keys\<rparr>, c2)))"

definition my_view :: "'s Mysql \<Rightarrow> bytes \<Rightarrow> bytes \<Rightarrow> bytes \<Rightarrow> 's \<Rightarrow> Table \<times> 's" where
  "my_view lib conn db name c =
     (case my_rows lib (''DESCRIBE '' @ mysql_quoteIdent name) c of (cols, c1) \<Rightarrow>
       ((my_named conn db name)\<lparr>tbl_columns := map my_view_column cols\<rparr>, c1))"

fun one_by_one :: "('b \<Rightarrow> 's \<Rightarrow> 'a \<times> 's) \<Rightarrow> 'b list \<Rightarrow> 's \<Rightarrow> 'a list \<times> 's" where
  "one_by_one f [] c = ([], c)"
| "one_by_one f (x # xs) c = (case f x c of (a, c1) \<Rightarrow> (case one_by_one f xs c1 of (as, c2) \<Rightarrow> (a # as, c2)))"

text \<open>A catalog call on a handle: without a session it gives what it has so far.\<close>

definition with_session :: "'s Mysql \<Rightarrow> 'a \<Rightarrow> ('s \<Rightarrow> 'a \<times> 's) \<Rightarrow> 's MyDb \<Rightarrow> 'a \<times> 's MyDb" where
  "with_session lib nothing f d =
     (case my_ensureConn lib d of
        (Inl e, d1) \<Rightarrow> (nothing, d1)
      | (Inr c, d1) \<Rightarrow> (case f c of (x, c') \<Rightarrow> (x, d1\<lparr>md_conn := Some c'\<rparr>)))"

definition my_show_text :: "bytes \<Rightarrow> bytes" where
  "my_show_text kind = ''SHOW FULL TABLES WHERE Table_type = '' @ [squote] @ kind @ [squote]"

definition my_listed :: "'s Mysql \<Rightarrow> bytes \<Rightarrow> (bytes \<Rightarrow> 's \<Rightarrow> Table \<times> 's) \<Rightarrow> 's \<Rightarrow> Table list \<times> 's" where
  "my_listed lib kind f c =
     (case my_rows lib (my_show_text kind) c of (data, c1) \<Rightarrow>
        one_by_one f (first_fields data) c1)"

definition mysql_tables :: "'s Mysql \<Rightarrow> 's MyDb \<Rightarrow> Table list \<times> 's MyDb" where
  "mysql_tables lib d =
     with_session lib [] (\<lambda>c. case my_listed lib ''BASE TABLE'' (my_table lib (ci_name (md_info d)) (md_name d)) c of
       (ts, c') \<Rightarrow> (populateIncomingForeignKeys ts, c')) d"

definition mysql_views :: "'s Mysql \<Rightarrow> 's MyDb \<Rightarrow> Table list \<times> 's MyDb" where
  "mysql_views lib d =
     with_session lib [] (my_listed lib ''VIEW'' (my_view lib (ci_name (md_info d)) (md_name d))) d"

definition mysql_routines :: "'s Mysql \<Rightarrow> 's MyDb \<Rightarrow> Routine list \<times> 's MyDb" where
  "mysql_routines lib d =
     with_session lib [] (\<lambda>c. case my_rows lib (my_routines_query (md_name d)) c of (data, c') \<Rightarrow> (map my_routine data, c')) d"

text \<open>Unique columns: those that are alone in a unique index other than the primary key's.\<close>

definition unique_row :: "bytes option list \<Rightarrow> (bytes \<times> bytes) option" where
  "unique_row row =
     (if my_value row 2 \<noteq> [] \<and> my_value row 4 \<noteq> [] then Some (my_value row 2, my_value row 4) else None)"

definition unique_column :: "bytes option list list \<Rightarrow> bytes \<Rightarrow> bool" where
  "unique_column data column \<longleftrightarrow>
     list_ex (\<lambda>name. name \<noteq> ''PRIMARY'' \<and> by_name unique_row data name = [column])
       (map fst (List.map_filter unique_row data))"

definition my_index_row :: "bytes option list \<Rightarrow> Index list \<Rightarrow> Index list" where
  "my_index_row row idxs =
     add_index_row (my_value row 2) ((case my_field row 1 of None \<Rightarrow> 1 | Some t \<Rightarrow> atoi t) = 0) (my_value row 4) idxs"

definition my_indexes :: "bytes option list list \<Rightarrow> Index list" where
  "my_indexes data = stable_sort_by (\<lambda>a b. text_before (idx_name a) (idx_name b)) (fold my_index_row data [])"

definition my_described :: "'s Mysql \<Rightarrow> bytes \<Rightarrow> bytes \<Rightarrow> bytes \<Rightarrow> 's \<Rightarrow> Table \<times> 's" where
  "my_described lib conn db name c =
     (case my_rows lib (''DESCRIBE '' @ mysql_quoteIdent name) c of (cols, c1) \<Rightarrow>
       (case my_rows lib (''SHOW INDEX FROM '' @ mysql_quoteIdent name @ '' WHERE Non_unique = 0'') c1 of (uniq, c2) \<Rightarrow>
         (case my_rows lib (''SHOW INDEX FROM '' @ mysql_quoteIdent name @ '' WHERE Key_name != '' @
             [squote] @ ''PRIMARY'' @ [squote]) c2 of (idx, c3) \<Rightarrow>
           (case my_rows lib (my_keys_query db name) c3 of (keys, c4) \<Rightarrow>
             ((my_named conn db name)\<lparr>
                tbl_columns := map (\<lambda>r. (my_column r)\<lparr>col_isUnique := unique_column uniq (my_value r 0)\<rparr>) cols,
                tbl_indexes := my_indexes idx, tbl_foreignKeys := map my_key keys\<rparr>, c4)))))"

definition mysql_describeTable :: "'s Mysql \<Rightarrow> bytes \<Rightarrow> 's MyDb \<Rightarrow> Table \<times> 's MyDb" where
  "mysql_describeTable lib name d =
     with_session lib (my_named (ci_name (md_info d)) (md_name d) name)
       (my_described lib (ci_name (md_info d)) (md_name d) name) d"


section \<open>Data access\<close>

definition my_data_text :: "bytes \<Rightarrow> bytes \<Rightarrow> bytes \<Rightarrow> int \<Rightarrow> int \<Rightarrow> bytes" where
  "my_data_text name whereClause orderByClause limit offset =
     ''SELECT * FROM '' @ mysql_quoteIdent name @
     (if whereClause \<noteq> [] then '' WHERE '' @ whereClause else []) @
     (if orderByClause \<noteq> [] then '' ORDER BY '' @ orderByClause else []) @
     '' LIMIT '' @ to_string limit @ '' OFFSET '' @ to_string offset"

definition my_data :: "'s Mysql \<Rightarrow> bytes \<Rightarrow> 's \<Rightarrow> bytes list list \<times> 's" where
  "my_data lib sql c =
     (case my_query lib (c_str sql) c of
        (Inl e, c') \<Rightarrow> ([], c')
      | (Inr rep, c') \<Rightarrow> (case my_results rep of MyRows cols data # _ \<Rightarrow> map (mysql_row cols) data | _ \<Rightarrow> [], c'))"

definition mysql_getTableData ::
    "'s Mysql \<Rightarrow> Table \<Rightarrow> int \<Rightarrow> int \<Rightarrow> bytes \<Rightarrow> bytes \<Rightarrow> 's MyDb \<Rightarrow> bytes list list \<times> 's MyDb" where
  "mysql_getTableData lib table limit offset whereClause orderByClause =
     with_session lib [] (my_data lib (my_data_text (tbl_name table) whereClause orderByClause limit offset))"

definition mysql_getColumnNames :: "'s Mysql \<Rightarrow> Table \<Rightarrow> 's MyDb \<Rightarrow> bytes list \<times> 's MyDb" where
  "mysql_getColumnNames lib table =
     with_session lib [] (\<lambda>c. case my_rows lib (''DESCRIBE '' @ mysql_quoteIdent (tbl_name table)) c of
       (data, c') \<Rightarrow> (first_fields data, c'))"

definition mysql_getRowCount :: "'s Mysql \<Rightarrow> Table \<Rightarrow> bytes \<Rightarrow> 's MyDb \<Rightarrow> int \<times> 's MyDb" where
  "mysql_getRowCount lib table whereClause =
     with_session lib 0 (\<lambda>c. case my_rows lib (''SELECT COUNT(*) FROM '' @ mysql_quoteIdent (tbl_name table) @
         (if whereClause \<noteq> [] then '' WHERE '' @ whereClause else [])) c of
       (data, c') \<Rightarrow> (case data of [] \<Rightarrow> 0 | row # _ \<Rightarrow> (case my_field row 0 of None \<Rightarrow> 0 | Some t \<Rightarrow> atoi t), c'))"


section \<open>Statements of its own\<close>

definition my_column_text :: "Column \<Rightarrow> bytes" where
  "my_column_text c =
     mysql_quoteIdent (col_name c) @ '' '' @ (if col_type c = [] then ''TEXT'' else col_type c) @
     (if col_isAutoIncrement c then '' AUTO_INCREMENT'' else []) @
     (if col_isPrimaryKey c then '' PRIMARY KEY'' else []) @
     (if col_isNotNull c \<and> \<not> col_isPrimaryKey c then '' NOT NULL'' else []) @
     (if col_isUnique c \<and> \<not> col_isPrimaryKey c then '' UNIQUE'' else []) @
     (if col_defaultValue c \<noteq> [] then '' DEFAULT '' @ col_defaultValue c else [])"

definition my_key_text :: "ForeignKey \<Rightarrow> bytes" where
  "my_key_text fk =
     '', FOREIGN KEY ('' @ mysql_quoteIdent (fk_sourceColumn fk) @ '') REFERENCES '' @ mysql_quoteIdent (fk_targetTable fk) @
     ''('' @ mysql_quoteIdent (fk_targetColumn fk) @ '')'' @
     (if fk_onUpdate fk \<noteq> [] then '' ON UPDATE '' @ fk_onUpdate fk else []) @
     (if fk_onDelete fk \<noteq> [] then '' ON DELETE '' @ fk_onDelete fk else [])"

definition my_create_text :: "Table \<Rightarrow> bytes" where
  "my_create_text table =
     ''CREATE TABLE '' @ mysql_quoteIdent (tbl_name table) @ '' ('' @
     join_with '', '' (map my_column_text (tbl_columns table)) @
     concat (map my_key_text (tbl_foreignKeys table)) @ '')''"

definition my_statement :: "'s Mysql \<Rightarrow> bytes \<Rightarrow> 's MyDb \<Rightarrow> Status \<times> 's MyDb" where
  "my_statement lib sql d = (case mysql_execute lib sql 0 d of (r, d') \<Rightarrow> (toStatus r, d'))"

definition my_createTable :: "'s Mysql \<Rightarrow> Table \<Rightarrow> 's MyDb \<Rightarrow> Status \<times> 's MyDb" where
  "my_createTable lib table = my_statement lib (my_create_text table)"

definition my_renameTable :: "'s Mysql \<Rightarrow> bytes \<Rightarrow> bytes \<Rightarrow> 's MyDb \<Rightarrow> Status \<times> 's MyDb" where
  "my_renameTable lib oldName newName =
     my_statement lib (''RENAME TABLE '' @ mysql_quoteIdent oldName @ '' TO '' @ mysql_quoteIdent newName)"

definition my_dropTable :: "'s Mysql \<Rightarrow> bytes \<Rightarrow> 's MyDb \<Rightarrow> Status \<times> 's MyDb" where
  "my_dropTable lib name = my_statement lib (''DROP TABLE '' @ mysql_quoteIdent name)"

definition my_truncateTable :: "'s Mysql \<Rightarrow> bytes \<Rightarrow> 's MyDb \<Rightarrow> Status \<times> 's MyDb" where
  "my_truncateTable lib name = my_statement lib (''TRUNCATE TABLE '' @ mysql_quoteIdent name)"

definition my_dropColumn :: "'s Mysql \<Rightarrow> bytes \<Rightarrow> bytes \<Rightarrow> 's MyDb \<Rightarrow> Status \<times> 's MyDb" where
  "my_dropColumn lib name column =
     my_statement lib (''ALTER TABLE '' @ mysql_quoteIdent name @ '' DROP COLUMN '' @ mysql_quoteIdent column)"

definition my_dropView :: "'s Mysql \<Rightarrow> bytes \<Rightarrow> bool \<Rightarrow> 's MyDb \<Rightarrow> Status \<times> 's MyDb" where
  "my_dropView lib name isMaterialized = my_statement lib (''DROP VIEW '' @ mysql_quoteIdent name)"


section \<open>The connection\<close>

definition my_connection_open :: "'s Mysql \<Rightarrow> 's MyDb Pool \<Rightarrow> Status \<times> 's MyDb Pool" where
  "my_connection_open lib p =
     (case at_database new_MyDb [] (my_open lib) p of (st, p1) \<Rightarrow> (st, p1\<lparr>pl_open := fst st\<rparr>))"

definition system_schema :: "bytes \<Rightarrow> bool" where
  "system_schema name \<longleftrightarrow>
     map tolower name \<in> set [''information_schema'', ''performance_schema'', ''mysql'', ''sys'', ''metrics_schema'']"

definition my_databases :: "'s Mysql \<Rightarrow> 's MyDb Pool \<Rightarrow> nat list \<times> 's MyDb Pool" where
  "my_databases lib p =
     (case at_database new_MyDb [] (mysql_execute lib ''SHOW DATABASES'' 10000) p of (r, p1) \<Rightarrow>
        if \<not> qr_success r \<or> qr_statements r = [] then ([], p1)
        else pool_databases new_MyDb
          (filter (\<lambda>n. \<not> system_schema n) (first_cells (sr_tableData (hd (qr_statements r))))) p1)"

definition my_create_database_text :: "CreateDatabaseOptions \<Rightarrow> bytes" where
  "my_create_database_text opts =
     ''CREATE DATABASE '' @ mysql_quoteIdent (opt_name opts) @
     (if opt_charset opts \<noteq> [] then '' CHARACTER SET '' @ opt_charset opts else []) @
     (if opt_collation opts \<noteq> [] then '' COLLATE '' @ opt_collation opts else [])"

definition my_createDatabase :: "'s Mysql \<Rightarrow> CreateDatabaseOptions \<Rightarrow> 's MyDb Pool \<Rightarrow> Status \<times> 's MyDb Pool" where
  "my_createDatabase lib opts p =
     (case pool_database new_MyDb [] p of (i, p1) \<Rightarrow>
        if opt_name opts = [] then ((False, ''Database name cannot be empty''), p1)
        else if opt_charset opts \<noteq> [] \<and> \<not> isSafeSqlToken (opt_charset opts) then ((False, ''Invalid charset value''), p1)
        else if opt_collation opts \<noteq> [] \<and> \<not> isSafeSqlToken (opt_collation opts) then ((False, ''Invalid collation value''), p1)
        else at_handle i (my_statement lib (my_create_database_text opts)) p1)"

definition my_dropDatabase :: "'s Mysql \<Rightarrow> bytes \<Rightarrow> 's MyDb Pool \<Rightarrow> Status \<times> 's MyDb Pool" where
  "my_dropDatabase lib name p =
     (let sql = ''DROP DATABASE '' @ mysql_quoteIdent name; p1 = pool_erase name p
      in if name = ci_database (pl_info p)
         then (case openMysql lib (pl_info p1) [] 0 of
             Inl e \<Rightarrow> ((False, ''Failed to connect to system database: '' @ e), p1)
           | Inr c \<Rightarrow> (case fst (my_query lib (c_str sql) c) of
               Inl e \<Rightarrow> ((False, e), p1)
             | Inr rep \<Rightarrow> ((True, []), p1\<lparr>pl_info := (pl_info p1)\<lparr>ci_database := []\<rparr>\<rparr>)))
         else at_database new_MyDb [] (my_statement lib sql) p1)"

definition my_renameDatabase :: "bytes \<Rightarrow> bytes \<Rightarrow> Status" where
  "my_renameDatabase oldName newName =
     (False, ''MySQL does not support direct database renaming. You need to create a new database, copy all '' @
       ''data, and drop the old one.'')"


section \<open>A batch counts as a success only if all of it ran\<close>

definition readable :: "MyResult \<Rightarrow> bool" where
  "readable r \<longleftrightarrow> (case r of MyBroken e \<Rightarrow> False | _ \<Rightarrow> True)"

definition unreadable_silently :: "MyResult \<Rightarrow> bool" where
  "unreadable_silently r \<longleftrightarrow> r = MyBroken []"

lemma extract_success: "sr_success (extractMysqlResult L r) \<longleftrightarrow> readable r"
  and extract_error: "sr_errorMessage (extractMysqlResult L r) = (case r of MyBroken e \<Rightarrow> e | _ \<Rightarrow> [])"
  by (auto simp: extractMysqlResult_def readable_def pg_failure_def default_statement_def Let_def
      split: MyResult.split option.split)

lemma reply_success:
  "qr_success (query_result (reply_statements L rep)) \<longleftrightarrow>
     my_error rep = None \<and> list_ex readable (my_results rep) \<and>
     list_all (\<lambda>r. readable r \<or> unreadable_silently r) (my_results rep)"
proof -
  have "list_all sr_success (filter (\<lambda>r. sr_success r \<or> sr_errorMessage r \<noteq> []) (map (extractMysqlResult L) rs)) \<longleftrightarrow>
      list_all (\<lambda>r. readable r \<or> unreadable_silently r) rs" for rs
    by (induction rs) (auto simp: extract_success extract_error readable_def unreadable_silently_def split: MyResult.split)
  moreover have "list_all (\<lambda>r. readable r \<or> unreadable_silently r) rs \<Longrightarrow>
      filter (\<lambda>r. sr_success r \<or> sr_errorMessage r \<noteq> []) (map (extractMysqlResult L) rs) \<noteq> [] \<longleftrightarrow> list_ex readable rs" for rs
    by (induction rs) (auto simp: extract_success extract_error unreadable_silently_def)
  ultimately show ?thesis
    by (auto simp: reply_statements_def query_result_def qr_success_def pg_failure_def split: option.split)
qed

lemma reply_within: "list_all (within_limit L) (reply_statements L rep)"
proof -
  have "within_limit L (extractMysqlResult L r)" for r
    by (auto simp: extractMysqlResult_def within_limit_def limited_def default_statement_def pg_failure_def Let_def
        split: MyResult.split option.split)
  then show ?thesis
    by (auto simp: reply_statements_def list_all_iff within_limit_def pg_failure_def default_statement_def split: option.splits)
qed

text \<open>
  C24: Running a batch is reported as a success exactly when the session opens, the server accepts
  the text and no statement of it fails, and some result can be read; a failure after the first
  statement is never hidden. No row set exceeds its limit.
\<close>

theorem mysql_success_means_applied:
  "(qr_success (fst (mysql_execute lib sql L d)) \<longleftrightarrow>
     (case fst (my_ensureConn lib d) of Inl e \<Rightarrow> False
      | Inr c \<Rightarrow> (case fst (my_query lib sql (snd (my_ping lib c))) of Inl e \<Rightarrow> False
        | Inr rep \<Rightarrow> my_error rep = None \<and> list_ex readable (my_results rep) \<and>
            list_all (\<lambda>r. readable r \<or> unreadable_silently r) (my_results rep)))) \<and>
   list_all (within_limit L) (qr_statements (fst (mysql_execute lib sql L d)))"
proof -
  have "\<not> qr_success (query_result [pg_failure e])" "list_all (within_limit L) (qr_statements (query_result [pg_failure e]))" for e
    by (simp_all add: query_result_def qr_success_def pg_failure_def within_limit_def default_statement_def)
  moreover have "list_all (within_limit L) (qr_statements (query_result (reply_statements L rep)))" for rep
    using reply_within by (simp add: query_result_def)
  ultimately show ?thesis
    by (auto simp: mysql_execute_def reply_success split: prod.splits sum.splits)
qed


section \<open>Listings\<close>

lemma one_by_one_named:
  "(\<And>x c. tbl_name (fst (f x c)) = nm x \<and> P (fst (f x c))) \<Longrightarrow>
     map tbl_name (fst (one_by_one f xs c)) = map nm xs \<and> list_all P (fst (one_by_one f xs c))"
proof (induction xs arbitrary: c)
  case (Cons x xs)
  from Cons.IH [OF Cons.prems] Cons.prems [of x c] show ?case by (auto simp: split_beta)
qed simp

lemma with_session_cases:
  "fst (with_session lib nothing f d) =
     (case fst (my_ensureConn lib d) of Inl e \<Rightarrow> nothing | Inr c \<Rightarrow> fst (f c))"
  by (simp add: with_session_def split: prod.split sum.split)

abbreviation my_path :: "'s MyDb \<Rightarrow> bytes" where
  "my_path d \<equiv> ci_name (md_info d) @ ''.'' @ md_name d"

lemma my_listed_named:
  assumes "\<And>n c. tbl_name (fst (f n c)) = n \<and> P (fst (f n c))"
  shows "map tbl_name (fst (my_listed lib kind f c)) = first_fields (fst (my_rows lib (my_show_text kind) c))"
    "list_all P (fst (my_listed lib kind f c))"
  using one_by_one_named [of f "\<lambda>n. n" P, OF assms] by (simp_all add: my_listed_def split_beta)

lemma my_table_named:
  "tbl_name (fst (my_table lib conn db n c)) = n \<and> table_in db (conn @ ''.'' @ db) (fst (my_table lib conn db n c))"
  "tbl_name (fst (my_view lib conn db n c)) = n \<and> table_in db (conn @ ''.'' @ db) (fst (my_view lib conn db n c))"
  by (simp_all add: my_table_def my_view_def my_named_def table_in_def default_table_def split_beta)

lemma mysql_tables_listed:
  "case fst (my_ensureConn lib d) of
     Inl e \<Rightarrow> fst (mysql_tables lib d) = []
   | Inr c \<Rightarrow> map tbl_name (fst (mysql_tables lib d)) = first_fields (fst (my_rows lib (my_show_text ''BASE TABLE'') c)) \<and>
       list_all (table_in (md_name d) (my_path d)) (fst (mysql_tables lib d)) \<and> incoming_exact (fst (mysql_tables lib d))"
  using my_listed_named [where f = "my_table lib (ci_name (md_info d)) (md_name d)", OF my_table_named(1)]
  by (simp add: mysql_tables_def with_session_cases split_beta populate_maps populate_in populate_exact split: sum.split)

lemma mysql_views_listed:
  "case fst (my_ensureConn lib d) of
     Inl e \<Rightarrow> fst (mysql_views lib d) = []
   | Inr c \<Rightarrow> map tbl_name (fst (mysql_views lib d)) = first_fields (fst (my_rows lib (my_show_text ''VIEW'') c)) \<and>
       list_all (table_in (md_name d) (my_path d)) (fst (mysql_views lib d))"
  using my_listed_named [where f = "my_view lib (ci_name (md_info d)) (md_name d)", OF my_table_named(2)]
  by (simp add: mysql_views_def with_session_cases split: sum.split)


section \<open>Handles of a connection\<close>

interpretation my: database_pool new_MyDb md_name
  by unfold_locales (simp add: new_MyDb_def)

lemma my_ensureConn_name: "md_name (snd (my_ensureConn lib d)) = md_name d"
  by (auto simp: my_ensureConn_def split: option.split sum.split)

lemma my_open_name: "md_name (snd (my_open lib d)) = md_name d"
  using my_ensureConn_name [of lib d] by (auto simp: my_open_def split: prod.split sum.split)

lemma mysql_execute_name: "md_name (snd (mysql_execute lib sql l d)) = md_name d"
  using my_ensureConn_name [of lib d] by (auto simp: mysql_execute_def split: prod.split sum.split)

lemma my_statement_name: "md_name (snd (my_statement lib sql d)) = md_name d"
  using mysql_execute_name [of lib sql 0 d] by (auto simp: my_statement_def split: prod.split)

lemma with_session_name: "md_name (snd (with_session lib nothing f d)) = md_name d"
  using my_ensureConn_name [of lib d] by (auto simp: with_session_def split: prod.split sum.split)

text \<open>For what a catalog read does to a handle its result does not matter.\<close>

inductive my_pool_reachable :: "'s Mysql \<Rightarrow> 's MyDb Pool \<Rightarrow> bool" for lib where
  my_start: "my_pool_reachable lib (new_pool info)"
| my_opened: "my_pool_reachable lib p \<Longrightarrow> my_pool_reachable lib (snd (my_connection_open lib p))"
| my_closed: "my_pool_reachable lib p \<Longrightarrow> my_pool_reachable lib (pool_close p)"
| my_listed_all: "my_pool_reachable lib p \<Longrightarrow> my_pool_reachable lib (snd (my_databases lib p))"
| my_asked: "my_pool_reachable lib p \<Longrightarrow> my_pool_reachable lib (snd (pool_database new_MyDb name p))"
| my_fresh: "my_pool_reachable lib p \<Longrightarrow> my_pool_reachable lib (snd (pool_openDatabase new_MyDb name p))"
| my_created: "my_pool_reachable lib p \<Longrightarrow> my_pool_reachable lib (snd (my_createDatabase lib opts p))"
| my_dropped: "my_pool_reachable lib p \<Longrightarrow> my_pool_reachable lib (snd (my_dropDatabase lib name p))"
| my_executed: "my_pool_reachable lib p \<Longrightarrow> my_pool_reachable lib (snd (at_handle i (mysql_execute lib sql l) p))"
| my_read: "my_pool_reachable lib p \<Longrightarrow> my_pool_reachable lib (snd (at_handle i (with_session lib () f) p))"

lemma my_reachable_ok: "my_pool_reachable lib p \<Longrightarrow> pool_ok md_name p"
proof (induction rule: my_pool_reachable.induct)
  case (my_start info)
  show ?case by (simp add: pool_ok_def new_pool_def)
next
  case (my_opened p)
  then have "pool_ok md_name (snd (at_database new_MyDb [] (my_open lib) p))" by (intro my.ok_at_database my_open_name)
  then show ?case by (simp add: my_connection_open_def split_beta)
next
  case (my_closed p)
  show ?case by (rule pool_ok_close)
next
  case (my_listed_all p)
  obtain r p1 where p1: "at_database new_MyDb [] (mysql_execute lib ''SHOW DATABASES'' 10000) p = (r, p1)" by fastforce
  then have ok: "pool_ok md_name p1"
    using my.ok_at_database [where f = "mysql_execute lib ''SHOW DATABASES'' 10000" and n = "[]", OF my_listed_all.IH mysql_execute_name]
    by simp
  with p1 show ?case by (simp add: my_databases_def my.ok_databases)
next
  case (my_asked p name)
  show ?case by (rule my.ok_database [OF my_asked.IH])
next
  case (my_fresh p name)
  show ?case by (rule my.ok_openDatabase [OF my_fresh.IH])
next
  case (my_created p opts)
  have "pool_ok md_name (snd (pool_database new_MyDb [] p))" by (rule my.ok_database [OF my_created.IH])
  then show ?case by (simp add: my_createDatabase_def split_beta pool_ok_at_handle my_statement_name)
next
  case (my_dropped p name)
  then have "pool_ok md_name (pool_erase name p)" by (intro pool_ok_erase)
  then show ?case
    by (auto simp: my_dropDatabase_def Let_def my.ok_at_database my_statement_name split: sum.split)
next
  case (my_executed p i sql l)
  then show ?case by (intro pool_ok_at_handle mysql_execute_name)
next
  case (my_read p i f)
  then show ?case by (intro pool_ok_at_handle with_session_name)
qed

text \<open>
  In every state a MySQL connection can reach, a name has one handle that bears it. Dropping a
  database leaves no handle under its name, whether it succeeds or not; the default database changes
  only when it was dropped, and then there is none.
\<close>

lemma mysql_connection_handles:
  assumes "my_pool_reachable lib p"
  shows "pool_ok md_name p \<and>
    (case pool_database new_MyDb name p of (i, p1) \<Rightarrow>
       i < length (pl_handles p1) \<and> md_name (pl_handles p1 ! i) = pool_name name p \<and>
       pool_database new_MyDb name p1 = (i, p1)) \<and>
    (case my_dropDatabase lib name p of ((ok, m), p') \<Rightarrow>
       name \<notin> fst ` set (pl_cache p') \<and>
       ci_database (pl_info p') = (if ok \<and> name = ci_database (pl_info p) then [] else ci_database (pl_info p)))"
proof -
  have ok: "pool_ok md_name p" using assms by (rule my_reachable_ok)
  obtain i p1 where p1: "pool_database new_MyDb name p = (i, p1)" by fastforce
  have "case my_dropDatabase lib name p of ((ok, m), p') \<Rightarrow> name \<notin> fst ` set (pl_cache p') \<and>
      ci_database (pl_info p') = (if ok \<and> name = ci_database (pl_info p) then [] else ci_database (pl_info p))"
  proof (cases "name = ci_database (pl_info p)")
    case True
    then show ?thesis by (auto simp: my_dropDatabase_def pool_erase_def Let_def split: sum.split)
  next
    case False
    then have "name \<noteq> pool_name [] (pool_erase name p)" by (simp add: pool_name_def pool_erase_def)
    then have "name \<notin> fst ` set (pl_cache (snd (at_database new_MyDb [] f (pool_erase name p))))"
      "pl_info (snd (at_database new_MyDb [] f (pool_erase name p))) = pl_info p" for f :: "'a MyDb \<Rightarrow> Status \<times> 'a MyDb"
      using at_database_keeps [of name "[]" "pool_erase name p" new_MyDb f]
      by (simp_all add: pool_erase_def image_iff)
    with False show ?thesis by (simp add: my_dropDatabase_def Let_def split_beta)
  qed
  with ok p1 my.database_ok(3,4) [OF ok p1] my.database_again [OF ok p1] show ?thesis by simp
qed

definition offline :: "unit Mysql" where
  "offline = \<lparr>my_connect = \<lambda>opts. Inl ''no route'', my_ping = \<lambda>s. (False, s), my_query = \<lambda>sql s. (Inl ''gone'', s)\<rparr>"

lemma mysql_connection_handles_witness:
  "pool_ok md_name (snd (pool_database new_MyDb ''a'' (snd (my_connection_open offline (new_pool default_info)))))"
proof -
  have "my_pool_reachable offline (snd (pool_database new_MyDb ''a'' (snd (my_connection_open offline (new_pool default_info)))))"
    by (intro my_asked my_opened my_start)
  from mysql_connection_handles [OF this] show ?thesis by blast
qed


section \<open>Where the backend departs from what the interface promises\<close>

definition two_keys :: Table where
  "two_keys = default_table\<lparr>tbl_name := ''t'', tbl_columns :=
     [default_column\<lparr>col_name := ''a'', col_type := ''INT'', col_isPrimaryKey := True\<rparr>,
      default_column\<lparr>col_name := ''b'', col_type := ''INT'', col_isPrimaryKey := True\<rparr>]\<rparr>"

lemma mysql_departures:
  "my_create_text two_keys = ''CREATE TABLE `t` (`a` INT PRIMARY KEY, `b` INT PRIMARY KEY)''"
  "fst (mysql_tables offline (new_MyDb default_info ''db'')) = []"
  "fst (mysql_getRowCount offline two_keys [] (new_MyDb default_info ''db'')) = 0"
  "sr_affectedRows (extractMysqlResult 0 (MyAffected (Some 3000000000))) = -1294967296"
  by (code_simp, (simp add: mysql_tables_def mysql_getRowCount_def with_session_def my_ensureConn_def new_MyDb_def
      openMysql_def offline_def extractMysqlResult_def to_int32_def default_statement_def)+)

end
