(* ===== verification/Mssql_Backend.thy ===== *)
theory Mssql_Backend
  imports Catalog_Reading
begin

text \<open>
  SQL Server (\<^verbatim>\<open>src/mssql_connection.cpp\<close>): logging in with its TLS switches, running a batch through
  db-lib while another thread may cancel it, administration on the master database, the catalog,
  and the connection with its cache of handles. db-lib is a parameter over a session state \<open>'s\<close>. The
  lemmas show what a success means, when an administrative call returns, that listings are
  consistent, and that each name has one handle.
\<close>


section \<open>Logging in\<close>

definition tds_quoteIdent :: "bytes \<Rightarrow> bytes" where
  "tds_quoteIdent name = ''['' @ double_char (CHR '']'') name @ '']''"

definition tds_text :: "bytes \<Rightarrow> bytes" where
  "tds_text s = [squote] @ double_char squote s @ [squote]"

definition objectLiteral :: "bytes \<Rightarrow> bytes \<Rightarrow> bytes" where
  "objectLiteral schema name = tds_text (tds_quoteIdent schema @ ''.'' @ tds_quoteIdent name)"

text \<open>What a login asks for; the encryption is \<open>None\<close> when no level is set.\<close>

record TdsLogin =
  tl_user :: bytes
  tl_password :: bytes
  tl_encryption :: "bytes option"
  tl_caFile :: "bytes option"
  tl_checkHostname :: bool
  tl_server :: bytes

definition tds_login :: "ConnectionInfo \<Rightarrow> TdsLogin" where
  "tds_login info =
     (let m = ci_sslmode info; checked = (m = VerifyCA \<or> m = VerifyFull)
      in \<lparr>tl_user = ci_username info, tl_password = ci_password info,
          tl_encryption = (if m = Require \<or> m = VerifyCA then Some ''require''
                           else if m = VerifyFull then Some ''strict'' else None),
          tl_caFile = (if checked then Some (if ci_sslCACertPath info = [] then ''system'' else ci_sslCACertPath info) else None),
          tl_checkHostname = checked,
          tl_server = ci_host info @ '':'' @ to_string (ci_port info)\<rparr>)"

text \<open>
  A cell: null, or the text db-lib converts it to within the 8191 bytes of the buffer, if it can,
  and its raw bytes.
\<close>

datatype TdsCell = TdsNull | TdsValue "bytes option" bytes

text \<open>
  What \<^verbatim>\<open>dbresults\<close> reports: a row set (and whether its rows end with \<^verbatim>\<open>NO_MORE_ROWS\<close>, not \<^verbatim>\<open>FAIL\<close>), a
  count of rows (negative for none), or a failure with the error noted then.
\<close>

datatype TdsEvent =
    TdsSet "bytes list" "TdsCell list list" bool
  | TdsCount int
  | TdsFail bytes

text \<open>
  The reply to a batch: the error if \<^verbatim>\<open>dbsqlexec\<close> fails, else what follows; then \<^verbatim>\<open>NO_MORE_RESULTS\<close>, or
  \<^verbatim>\<open>FAIL\<close> for ever, with the error noted, when the connection is dead; the messages; when another thread raises the cancel
  flag (before which row of which event); and the session then, by whether it was cancelled.
\<close>

record 's TdsReply =
  te_exec :: "bytes option"
  te_events :: "TdsEvent list"
  te_dead :: "bytes option"
  te_messages :: "bytes list"
  te_flag :: "(nat \<times> nat) option"
  te_session :: "bool \<Rightarrow> 's"

record 's Tds =
  td_login :: bool
  td_option :: "bytes \<Rightarrow> bytes \<Rightarrow> bool"
  td_open :: "TdsLogin \<Rightarrow> bytes + 's"
  td_use :: "bytes \<Rightarrow> 's \<Rightarrow> bytes option \<times> 's"
  td_dead :: "'s \<Rightarrow> bool"
  td_exec :: "bytes \<Rightarrow> 's \<Rightarrow> 's TdsReply"

definition known_error :: "bytes \<Rightarrow> bytes" where
  "known_error e = (if e = [] then ''Unknown error'' else e)"

definition openDbLibConnection :: "'s Tds \<Rightarrow> ConnectionInfo \<Rightarrow> bytes \<Rightarrow> bytes + 's" where
  "openDbLibConnection lib info dbName =
     (let login = tds_login info; target = (if dbName \<noteq> [] then dbName else ci_database info)
      in if \<not> td_login lib then Inl ''dblogin() failed''
         else if (case tl_caFile login of None \<Rightarrow> False
                  | Some ca \<Rightarrow> \<not> td_option lib ''ca file'' (c_str ca) \<or> \<not> td_option lib ''check certificate hostname'' ''yes'')
         then Inl ''MSSQL: could not set the certificate checks''
         else case td_open lib login of
             Inl e \<Rightarrow> Inl (''MSSQL connection failed: '' @ known_error e)
           | Inr s \<Rightarrow>
               if target = [] then Inr s
               else (case td_use lib (c_str target) s of
                   (None, s') \<Rightarrow> Inr s' | (Some e, s') \<Rightarrow> Inl (''MSSQL dbuse failed: '' @ known_error e)))"


section \<open>Running a batch\<close>

definition colToString :: "TdsCell \<Rightarrow> bytes" where
  "colToString c = (case c of TdsNull \<Rightarrow> NULL_SENTINEL | TdsValue (Some t) raw \<Rightarrow> c_str t | TdsValue None raw \<Rightarrow> raw)"

definition flagged :: "(nat \<times> nat) option \<Rightarrow> nat \<Rightarrow> nat \<Rightarrow> bool" where
  "flagged flag event row \<longleftrightarrow> (case flag of None \<Rightarrow> False | Some (e, r) \<Rightarrow> e < event \<or> e = event \<and> r \<le> row)"

definition tds_failed :: "bytes \<Rightarrow> StatementResult" where
  "tds_failed message = default_statement\<lparr>sr_success := False, sr_errorMessage := message\<rparr>"

text \<open>The rows read before the flag is seen: the flag is looked at before each row.\<close>

definition rows_read :: "(nat \<times> nat) option \<Rightarrow> nat \<Rightarrow> 'r list \<Rightarrow> 'r list" where
  "rows_read flag event rs = map snd (takeWhile (\<lambda>(i, r). \<not> flagged flag event i) (enumerate 0 rs))"

definition extract_set :: "int \<Rightarrow> bytes list \<Rightarrow> TdsCell list list \<Rightarrow> StatementResult" where
  "extract_set rowLimit names seen =
     (let data = map (map colToString) (take (nat rowLimit) seen); n = length data
      in default_statement\<lparr>sr_columnNames := names, sr_tableData := data,
           sr_message := ''Returned '' @ nat_to_string n @ '' row'' @ (if n = 1 then [] else ''s'') @
             (if length seen > nat rowLimit then '' (limited to '' @ to_string rowLimit @ '')'' else [])\<rparr>)"

definition extract_count :: "int \<Rightarrow> StatementResult" where
  "extract_count affected =
     (if affected \<ge> 0
      then default_statement\<lparr>sr_affectedRows := affected, sr_message := to_string affected @ '' row(s) affected''\<rparr>
      else default_statement\<lparr>sr_message := ''Query executed successfully''\<rparr>)"

definition extractDbLibResult :: "int \<Rightarrow> (nat \<times> nat) option \<Rightarrow> nat \<Rightarrow> TdsEvent \<Rightarrow> StatementResult" where
  "extractDbLibResult rowLimit flag k ev =
     (case ev of
        TdsSet names data complete \<Rightarrow> extract_set rowLimit names (rows_read flag k data)
      | TdsCount n \<Rightarrow> extract_count n
      | TdsFail e \<Rightarrow> tds_failed e)"

definition event_rows :: "TdsEvent \<Rightarrow> nat" where
  "event_rows ev = (case ev of TdsSet names data complete \<Rightarrow> length data | _ \<Rightarrow> 0)"

text \<open>The loop over the results; the second part says whether \<^verbatim>\<open>dbcancel\<close> was called.\<close>

fun tds_results :: "int \<Rightarrow> (nat \<times> nat) option \<Rightarrow> nat \<Rightarrow> TdsEvent list \<Rightarrow> bytes option \<Rightarrow> StatementResult list \<times> bool" where
  "tds_results rowLimit flag k [] dead =
     (case dead of None \<Rightarrow> []
      | Some e \<Rightarrow> [tds_failed (if flagged flag k 0 then ''Query cancelled'' else known_error e)], False)"
| "tds_results rowLimit flag k (ev # evs) dead =
     (case ev of
        TdsFail e \<Rightarrow> ([tds_failed (if flagged flag k 0 then ''Query cancelled'' else known_error e)], False)
      | _ \<Rightarrow>
          if flagged flag k (event_rows ev + 1) then ([tds_failed ''Query cancelled''], True)
          else (case tds_results rowLimit flag (k + 1) evs dead of
              (rs, c) \<Rightarrow> (extractDbLibResult rowLimit flag k ev # rs, c)))"

definition executeQueryOnProcess :: "'s Tds \<Rightarrow> bytes \<Rightarrow> int \<Rightarrow> 's \<Rightarrow> QueryResult \<times> 's" where
  "executeQueryOnProcess lib query rowLimit s =
     (let rep = td_exec lib (c_str query) s
      in case te_exec rep of
           Some e \<Rightarrow>
             (\<lparr>qr_statements = [tds_failed (if flagged (te_flag rep) 0 0 then ''Query cancelled'' else known_error e)],
               qr_messages = te_messages rep\<rparr>, te_session rep True)
         | None \<Rightarrow> (case tds_results rowLimit (te_flag rep) 0 (te_events rep) (te_dead rep) of
             (rs, cancelled) \<Rightarrow> (\<lparr>qr_statements = rs, qr_messages = te_messages rep\<rparr>, te_session rep cancelled)))"

record 's TdDb =
  tb_info :: ConnectionInfo
  tb_name :: bytes
  tb_conn :: "'s option"

definition new_TdDb :: "ConnectionInfo \<Rightarrow> bytes \<Rightarrow> 's TdDb" where
  "new_TdDb info name = \<lparr>tb_info = info, tb_name = name, tb_conn = None\<rparr>"

text \<open>A dead session is closed and replaced.\<close>

definition tds_ensureConn :: "'s Tds \<Rightarrow> ('s TdDb, 's) call" where
  "tds_ensureConn lib d =
     (case tb_conn d of
        Some c \<Rightarrow> if \<not> td_dead lib c then (Inr c, d)
          else (case openDbLibConnection lib (tb_info d) (tb_name d) of
              Inl e \<Rightarrow> (Inl e, d\<lparr>tb_conn := None\<rparr>) | Inr c' \<Rightarrow> (Inr c', d\<lparr>tb_conn := Some c'\<rparr>))
      | None \<Rightarrow> (case openDbLibConnection lib (tb_info d) (tb_name d) of
          Inl e \<Rightarrow> (Inl e, d) | Inr c \<Rightarrow> (Inr c, d\<lparr>tb_conn := Some c\<rparr>)))"

definition INT_MAX :: int where
  "INT_MAX = 2147483647"

definition tds_execute :: "'s Tds \<Rightarrow> bytes \<Rightarrow> int \<Rightarrow> 's TdDb \<Rightarrow> QueryResult \<times> 's TdDb" where
  "tds_execute lib sql rowLimit d =
     (case tds_ensureConn lib d of
        (Inl e, d1) \<Rightarrow> (\<lparr>qr_statements = [tds_failed e], qr_messages = []\<rparr>, d1)
      | (Inr c, d1) \<Rightarrow>
          (case executeQueryOnProcess lib sql (if rowLimit > 0 then rowLimit else INT_MAX) c of
             (r, c') \<Rightarrow> (r, d1\<lparr>tb_conn := Some c'\<rparr>)))"

definition tds_open :: "'s Tds \<Rightarrow> 's TdDb \<Rightarrow> (bytes option) \<times> 's TdDb" where
  "tds_open lib d = (case tds_ensureConn lib d of (Inl e, d1) \<Rightarrow> (Some e, d1) | (Inr c, d1) \<Rightarrow> (None, d1))"

definition tds_alive :: "'s Tds \<Rightarrow> 's TdDb \<Rightarrow> bool" where
  "tds_alive lib d = (case tb_conn d of None \<Rightarrow> True | Some c \<Rightarrow> \<not> td_dead lib c)"


section \<open>Administration on master\<close>

text \<open>
  \<^verbatim>\<open>drainResults\<close> reads until \<^verbatim>\<open>NO_MORE_RESULTS\<close> and, within a result, until \<^verbatim>\<open>NO_MORE_ROWS\<close>; a code of
  \<^verbatim>\<open>FAIL\<close> goes on. \<open>None\<close> stands for a loop that does not end.
\<close>

datatype TdsCode = Code_Ok | Code_Fail | Code_No_More

definition results_code :: "TdsEvent list \<Rightarrow> bool \<Rightarrow> nat \<Rightarrow> TdsCode" where
  "results_code evs dead k =
     (if k < length evs then (case evs ! k of TdsFail e \<Rightarrow> Code_Fail | _ \<Rightarrow> Code_Ok)
      else if dead then Code_Fail else Code_No_More)"

definition row_code :: "TdsEvent list \<Rightarrow> bool \<Rightarrow> nat \<Rightarrow> nat \<Rightarrow> TdsCode" where
  "row_code evs dead k r =
     (if k < length evs
      then (case evs ! k of
          TdsSet names data complete \<Rightarrow> if r < length data then Code_Ok else if complete then Code_No_More else Code_Fail
        | _ \<Rightarrow> Code_No_More)
      else if dead then Code_Fail else Code_No_More)"

partial_function (option) drain_rows :: "TdsEvent list \<Rightarrow> bool \<Rightarrow> nat \<Rightarrow> nat \<Rightarrow> unit option" where
  "drain_rows evs dead k r =
     (if row_code evs dead k r = Code_No_More then Some () else drain_rows evs dead k (r + 1))"

partial_function (option) drainResults :: "TdsEvent list \<Rightarrow> bool \<Rightarrow> nat \<Rightarrow> unit option" where
  "drainResults evs dead k =
     (if results_code evs dead k = Code_No_More then Some ()
      else case drain_rows evs dead k 0 of None \<Rightarrow> None | Some u \<Rightarrow> drainResults evs dead (k + 1))"

declare drain_rows.simps [code] drainResults.simps [code]

definition execOnMaster :: "'s Tds \<Rightarrow> ConnectionInfo \<Rightarrow> bytes \<Rightarrow> Status option" where
  "execOnMaster lib info sql =
     (case openDbLibConnection lib info ''master'' of
        Inl e \<Rightarrow> Some (False, e)
      | Inr s \<Rightarrow>
          let rep = td_exec lib (c_str sql) s
          in case te_exec rep of
               Some e \<Rightarrow> Some (False, known_error e)
             | None \<Rightarrow> (case drainResults (te_events rep) (te_dead rep \<noteq> None) 0 of None \<Rightarrow> None | Some u \<Rightarrow> Some (True, [])))"


section \<open>The catalog\<close>

text \<open>Catalog queries go through \<^verbatim>\<open>execute\<close> of a database: \<open>ask\<close> gives the rows of the first result or throws.\<close>

definition tds_inList :: "bytes list \<Rightarrow> bytes" where
  "tds_inList names = join_with '', '' (map tds_text names)"

definition loadSchemaNames :: "(bytes \<Rightarrow> ('s, bytes list list) call) \<Rightarrow> ('s, bytes list) call" where
  "loadSchemaNames ask =
     and_then (ask
      (''SELECT SCHEMA_NAME FROM INFORMATION_SCHEMA.SCHEMATA WHERE CATALOG_NAME = DB_NAME() AND SCHEMA_NAME '' @
       ''NOT IN ('INFORMATION_SCHEMA', 'sys', 'db_owner', 'db_accessadmin', 'db_securityadmin', 'db_ddladmin', '' @
       [squote] @
       ''db_backupoperator', 'db_datareader', 'db_datawriter', 'db_denydatareader', 'db_denydatawriter') '' @
       ''ORDER BY SCHEMA_NAME''))
       (\<lambda>data. return_ok (filter (\<lambda>n. \<not> isNullSentinel n) (first_cells data)))"

definition tds_tables_query :: "bytes \<Rightarrow> bytes" where
  "tds_tables_query schema =
       ''SELECT TABLE_NAME FROM INFORMATION_SCHEMA.TABLES WHERE TABLE_TYPE = 'BASE TABLE' AND TABLE_CATALOG '' @
       ''= DB_NAME() AND TABLE_SCHEMA = '' @
       tds_text schema @ '' ORDER BY TABLE_NAME''"

definition tds_columns_query :: "bytes \<Rightarrow> bytes \<Rightarrow> bytes" where
  "tds_columns_query schema nameList =
       ''SELECT TABLE_NAME, COLUMN_NAME, DATA_TYPE, IS_NULLABLE, COLUMNPROPERTY(OBJECT_ID(QUOTENAME(TABLE_SCHEMA) '' @
       ''+ '.' + QUOTENAME(TABLE_NAME)), COLUMN_NAME, 'IsIdentity'), ISNULL(COLUMN_DEFAULT, '' @
       [squote, squote] @
       '') FROM INFORMATION_SCHEMA.COLUMNS WHERE TABLE_CATALOG = DB_NAME() AND TABLE_SCHEMA = '' @
       tds_text schema @ '' AND TABLE_NAME IN ('' @ nameList @ '') ORDER BY TABLE_NAME, ORDINAL_POSITION''"

definition tds_primary_query :: "bytes \<Rightarrow> bytes \<Rightarrow> bytes" where
  "tds_primary_query schema nameList =
       ''SELECT tc.TABLE_NAME, c.COLUMN_NAME FROM INFORMATION_SCHEMA.TABLE_CONSTRAINTS tc JOIN INFORMATION_SCHEMA.KEY_COLUMN_USAGE '' @
       ''c ON c.CONSTRAINT_NAME = tc.CONSTRAINT_NAME AND c.TABLE_SCHEMA = tc.TABLE_SCHEMA WHERE tc.TABLE_SCHEMA '' @
       ''= '' @
       tds_text schema @ '' AND tc.CONSTRAINT_TYPE = 'PRIMARY KEY' AND tc.TABLE_NAME IN ('' @ nameList @ '')''"

definition tds_keys_query :: "bytes \<Rightarrow> bytes" where
  "tds_keys_query schema =
       ''SELECT OBJECT_NAME(fk.parent_object_id), fk.name, COL_NAME(fkc.parent_object_id, fkc.parent_column_id), '' @
       ''OBJECT_NAME(fkc.referenced_object_id), COL_NAME(fkc.referenced_object_id, fkc.referenced_column_id) '' @
       ''FROM sys.foreign_keys fk JOIN sys.foreign_key_columns fkc ON fk.object_id = fkc.constraint_object_id '' @
       ''WHERE OBJECT_SCHEMA_NAME(fk.parent_object_id) = '' @
       tds_text schema"

definition tds_indexes_query :: "bytes \<Rightarrow> bytes" where
  "tds_indexes_query schema =
       ''SELECT OBJECT_NAME(i.object_id), i.name, i.is_unique, c.name FROM sys.indexes i JOIN sys.index_columns '' @
       ''ic ON i.object_id = ic.object_id AND i.index_id = ic.index_id JOIN sys.columns c ON ic.object_id '' @
       ''= c.object_id AND ic.column_id = c.column_id WHERE i.is_primary_key = 0 AND i.type > 0 AND OBJECT_SCHEMA_NAME(i.object_id) '' @
       ''= '' @
       tds_text schema @ '' ORDER BY OBJECT_NAME(i.object_id), i.name, ic.key_ordinal''"

definition tds_column_row :: "bytes list \<Rightarrow> (bytes \<times> Column) option" where
  "tds_column_row row =
     (if length row < 6 then None
      else Some (row ! 0, default_column\<lparr>col_name := row ! 1, col_type := row ! 2, col_isNotNull := (row ! 3 = ''NO''),
        col_isAutoIncrement := (row ! 4 = ''1''), col_defaultValue := row ! 5\<rparr>))"

definition tds_primary_row :: "bytes list \<Rightarrow> (bytes \<times> bytes) option" where
  "tds_primary_row row = (if length row < 2 then None else Some (row ! 0, row ! 1))"

definition mark_primary :: "bytes list \<Rightarrow> Column list \<Rightarrow> Column list" where
  "mark_primary pk cols = map (\<lambda>c. if col_name c \<in> set pk then c\<lparr>col_isPrimaryKey := True\<rparr> else c) cols"

definition tds_key_row :: "bytes list \<Rightarrow> (bytes \<times> ForeignKey) option" where
  "tds_key_row row =
     (if length row < 5 then None
      else Some (row ! 0, default_key\<lparr>fk_name := row ! 1, fk_sourceColumn := row ! 2, fk_targetTable := row ! 3,
        fk_targetColumn := row ! 4\<rparr>))"

text \<open>Rows of an index follow each other: a new name starts a new index.\<close>

definition next_index_row :: "bytes \<times> bool \<times> bytes \<Rightarrow> Index list \<Rightarrow> Index list" where
  "next_index_row = (\<lambda>(name, unique, column) idxs.
     (let idxs1 = (if idxs = [] \<or> idx_name (last idxs) \<noteq> name
                   then idxs @ [default_index\<lparr>idx_name := name, idx_isUnique := unique\<rparr>] else idxs)
      in butlast idxs1 @ [(last idxs1)\<lparr>idx_columns := idx_columns (last idxs1) @ [column]\<rparr>]))"

definition tds_index_row :: "bytes list \<Rightarrow> (bytes \<times> bytes \<times> bool \<times> bytes) option" where
  "tds_index_row row = (if length row < 4 then None else Some (row ! 0, row ! 1, row ! 2 = ''1'', row ! 3))"

definition tds_table :: "bytes \<Rightarrow> bytes \<Rightarrow> Column list \<Rightarrow> ForeignKey list \<Rightarrow> Index list \<Rightarrow> Table" where
  "tds_table schema name cols keys idxs =
     default_table\<lparr>tbl_name := name, tbl_schema := schema, tbl_fullName := schema @ ''.'' @ name,
       tbl_columns := cols, tbl_foreignKeys := keys, tbl_indexes := idxs\<rparr>"

definition tds_tables_of ::
    "bytes \<Rightarrow> bytes list \<Rightarrow> bytes list list \<Rightarrow> bytes list list \<Rightarrow> bytes list list \<Rightarrow> bytes list list \<Rightarrow> Table list" where
  "tds_tables_of schema names cols pk keys idx =
     (let cs = (\<lambda>n. mark_primary (by_name tds_primary_row pk n) (by_name tds_column_row cols n));
          is = (\<lambda>n. fold next_index_row (by_name tds_index_row idx n) [])
      in populateIncomingForeignKeys (map (\<lambda>(name, c, k, i). tds_table schema name c k i)
           (zip names (zip (moved_out cs names) (zip (moved_out (by_name tds_key_row keys) names) (moved_out is names))))))"

definition loadTablesForSchema :: "(bytes \<Rightarrow> ('s, bytes list list) call) \<Rightarrow> bytes \<Rightarrow> ('s, Table list) call" where
  "loadTablesForSchema ask schema =
     and_then (ask (tds_tables_query schema)) (\<lambda>data.
       let names = first_cells data; nameList = tds_inList names
       in if names = [] then return_ok []
          else and_then (ask (tds_columns_query schema nameList)) (\<lambda>cols.
            and_then (ask (tds_primary_query schema nameList)) (\<lambda>pk.
            and_then (ask (tds_keys_query schema)) (\<lambda>keys.
            and_then (ask (tds_indexes_query schema)) (\<lambda>idx.
              return_ok (tds_tables_of schema names cols pk keys idx))))))"

definition tds_view_column_row :: "bytes list \<Rightarrow> (bytes \<times> Column) option" where
  "tds_view_column_row row =
     (if length row < 4 then None
      else Some (row ! 0, default_column\<lparr>col_name := row ! 1, col_type := row ! 2, col_isNotNull := (row ! 3 = ''NO'')\<rparr>))"

definition tds_views_query :: "bytes \<Rightarrow> bytes" where
  "tds_views_query schema =
      (''SELECT TABLE_NAME FROM INFORMATION_SCHEMA.VIEWS WHERE TABLE_CATALOG = DB_NAME() AND TABLE_SCHEMA '' @
       ''= '' @
       tds_text schema @ '' ORDER BY TABLE_NAME'')"

definition loadViewsForSchema :: "(bytes \<Rightarrow> ('s, bytes list list) call) \<Rightarrow> bytes \<Rightarrow> ('s, Table list) call" where
  "loadViewsForSchema ask schema =
     and_then (ask (tds_views_query schema)) (\<lambda>data.
       let names = first_cells data
       in if names = [] then return_ok []
          else and_then (ask
      (''SELECT TABLE_NAME, COLUMN_NAME, DATA_TYPE, IS_NULLABLE FROM INFORMATION_SCHEMA.COLUMNS WHERE '' @
       ''TABLE_CATALOG = DB_NAME() AND TABLE_SCHEMA = '' @
       tds_text schema @ '' AND TABLE_NAME IN ('' @ tds_inList names @ '') ORDER BY TABLE_NAME, ORDINAL_POSITION'')) (\<lambda>cols.
            return_ok (map (\<lambda>(n, cs). tds_table schema n cs [] []) (zip names (moved_out (by_name tds_view_column_row cols) names)))))"

definition tds_routine_row :: "bytes list \<Rightarrow> Routine option" where
  "tds_routine_row row =
     (if length row < 4 then None
      else Some \<lparr>rt_name = row ! 0, rt_signature = row ! 1,
        rt_kind = (if row ! 2 = ''PROCEDURE'' then RProcedure else RFunction), rt_returnType = row ! 3\<rparr>)"

definition loadRoutinesForSchema :: "(bytes \<Rightarrow> ('s, bytes list list) call) \<Rightarrow> bytes \<Rightarrow> ('s, Routine list) call" where
  "loadRoutinesForSchema ask schema =
     and_then (ask
      (''SELECT o.name, o.name + '(' + ISNULL(STUFF((SELECT ', ' + p.name + ' ' + TYPE_NAME(p.user_type_id) '' @
       ''FROM sys.parameters p WHERE p.object_id = o.object_id AND p.parameter_id > 0 ORDER BY p.parameter_id '' @
       ''FOR XML PATH('' @ [squote, squote] @ '')), 1, 2, '' @ [squote, squote] @ ''), '' @
       [squote, squote] @
       '') + ')', CASE o.type WHEN 'P' THEN 'PROCEDURE' ELSE 'FUNCTION' END, CASE WHEN o.type IN ('IF', '' @
       [squote] @
       ''TF') THEN 'TABLE' ELSE ISNULL((SELECT TYPE_NAME(p.user_type_id) FROM sys.parameters p WHERE '' @
       ''p.object_id = o.object_id AND p.parameter_id = 0), '' @ [squote, squote] @
       '') END FROM sys.objects o WHERE o.schema_id = SCHEMA_ID('' @
       tds_text schema @ '') AND o.type IN ('P', 'FN', 'IF', 'TF') ORDER BY o.type, o.name''))
       (\<lambda>data. return_ok (List.map_filter tds_routine_row data))"

definition tds_describe_query :: "bytes \<Rightarrow> bytes \<Rightarrow> bytes" where
  "tds_describe_query schema tableName =
       ''SELECT COLUMN_NAME, DATA_TYPE + CASE WHEN DATA_TYPE IN ('varchar', 'char', 'nvarchar', 'nchar', '' @
       [squote] @
       ''varbinary', 'binary') THEN '(' + CASE WHEN CHARACTER_MAXIMUM_LENGTH = -1 THEN 'max' ELSE CAST(CHARACTER_MAXIMUM_LENGTH '' @
       ''AS varchar(10)) END + ')' WHEN DATA_TYPE IN ('decimal', 'numeric') THEN '(' + CAST(NUMERIC_PRECISION '' @
       ''AS varchar(5)) + ',' + CAST(NUMERIC_SCALE AS varchar(5)) + ')' WHEN DATA_TYPE IN ('datetime2', '' @
       [squote] @
       ''time', 'datetimeoffset') THEN '(' + CAST(DATETIME_PRECISION AS varchar(5)) + ')' ELSE '' @
       [squote, squote] @ '' END, IS_NULLABLE, ISNULL(COLUMN_DEFAULT, '' @ [squote, squote] @
       ''), COLUMNPROPERTY(OBJECT_ID('' @
       objectLiteral schema tableName @
       ''), COLUMN_NAME, 'IsIdentity') FROM INFORMATION_SCHEMA.COLUMNS WHERE TABLE_CATALOG = DB_NAME() '' @
       ''AND TABLE_SCHEMA = '' @
       tds_text schema @ '' AND TABLE_NAME = '' @ tds_text tableName @ '' ORDER BY ORDINAL_POSITION''"

definition tds_describe_primary :: "bytes \<Rightarrow> bytes \<Rightarrow> bytes" where
  "tds_describe_primary schema tableName =
       ''SELECT c.COLUMN_NAME FROM INFORMATION_SCHEMA.TABLE_CONSTRAINTS tc JOIN INFORMATION_SCHEMA.KEY_COLUMN_USAGE '' @
       ''c ON c.CONSTRAINT_NAME = tc.CONSTRAINT_NAME AND c.TABLE_SCHEMA = tc.TABLE_SCHEMA WHERE tc.TABLE_SCHEMA '' @
       ''= '' @
       tds_text schema @ '' AND tc.TABLE_NAME = '' @ tds_text tableName @
       '' AND tc.CONSTRAINT_TYPE = 'PRIMARY KEY'' @ [squote]"

definition tds_describe_keys :: "bytes \<Rightarrow> bytes \<Rightarrow> bytes" where
  "tds_describe_keys schema tableName =
       ''SELECT fk.name, COL_NAME(fkc.parent_object_id, fkc.parent_column_id), OBJECT_NAME(fkc.referenced_object_id), '' @
       ''COL_NAME(fkc.referenced_object_id, fkc.referenced_column_id) FROM sys.foreign_keys fk JOIN sys.foreign_key_columns '' @
       ''fkc ON fk.object_id = fkc.constraint_object_id WHERE fk.parent_object_id = OBJECT_ID('' @
       objectLiteral schema tableName @ '')''"

definition tds_describe_indexes :: "bytes \<Rightarrow> bytes \<Rightarrow> bytes" where
  "tds_describe_indexes schema tableName =
       ''SELECT i.name, i.is_unique, c.name FROM sys.indexes i JOIN sys.index_columns ic ON i.object_id '' @
       ''= ic.object_id AND i.index_id = ic.index_id JOIN sys.columns c ON ic.object_id = c.object_id '' @
       ''AND ic.column_id = c.column_id WHERE i.object_id = OBJECT_ID('' @
       objectLiteral schema tableName @ '') AND i.is_primary_key = 0 AND i.type > 0 ORDER BY i.name, ic.key_ordinal''"

definition described_column :: "bytes list \<Rightarrow> Column option" where
  "described_column row =
     (if length row < 5 then None
      else Some (default_column\<lparr>col_name := row ! 0, col_type := row ! 1, col_isNotNull := (row ! 2 = ''NO''),
        col_defaultValue := trim_right_spaces (row ! 3), col_isAutoIncrement := (row ! 4 = ''1'')\<rparr>))"

definition described_key :: "bytes list \<Rightarrow> ForeignKey option" where
  "described_key row =
     (if length row < 4 then None
      else Some (default_key\<lparr>fk_name := row ! 0, fk_sourceColumn := row ! 1, fk_targetTable := row ! 2, fk_targetColumn := row ! 3\<rparr>))"

definition described_index :: "bytes list \<Rightarrow> (bytes \<times> bool \<times> bytes) option" where
  "described_index row = (if length row < 3 then None else Some (row ! 0, row ! 1 = ''1'', row ! 2))"

definition described_table ::
    "bytes \<Rightarrow> bytes \<Rightarrow> bytes list list \<Rightarrow> bytes list list \<Rightarrow> bytes list list \<Rightarrow> bytes list list \<Rightarrow> Table" where
  "described_table schema tableName cols pk keys idx =
     tds_table schema tableName (mark_primary (first_cells pk) (List.map_filter described_column cols))
       (List.map_filter described_key keys) (fold next_index_row (List.map_filter described_index idx) [])"

definition describeTableInSchema :: "(bytes \<Rightarrow> ('s, bytes list list) call) \<Rightarrow> bytes \<Rightarrow> bytes \<Rightarrow> ('s, Table) call" where
  "describeTableInSchema ask schema tableName =
     and_then (ask (tds_describe_query schema tableName)) (\<lambda>cols.
     and_then (ask (tds_describe_primary schema tableName)) (\<lambda>pk.
     and_then (ask (tds_describe_keys schema tableName)) (\<lambda>keys.
     and_then (ask (tds_describe_indexes schema tableName)) (\<lambda>idx.
       return_ok (described_table schema tableName cols pk keys idx)))))"


section \<open>Databases and schemas\<close>

definition tds_ask :: "'s Tds \<Rightarrow> bytes \<Rightarrow> ('s TdDb, bytes list list) call" where
  "tds_ask lib sql d = (case tds_execute lib sql 0 d of (r, d1) \<Rightarrow> (map_sum id sr_tableData (firstOrThrow r), d1))"

text \<open>The names of the schema handles; a handle is its database and this name.\<close>

definition tds_schemas :: "'s Tds \<Rightarrow> ('s TdDb, bytes list) call" where
  "tds_schemas lib = loadSchemaNames (tds_ask lib)"

definition forEachSchema :: "'s Tds \<Rightarrow> (bytes \<Rightarrow> ('s TdDb, 'a list) call) \<Rightarrow> ('s TdDb, 'a list) call" where
  "forEachSchema lib f = and_then (loadSchemaNames (tds_ask lib)) (collect f)"

definition tds_tables :: "'s Tds \<Rightarrow> ('s TdDb, Table list) call" where
  "tds_tables lib = forEachSchema lib (loadTablesForSchema (tds_ask lib))"

definition tds_views :: "'s Tds \<Rightarrow> ('s TdDb, Table list) call" where
  "tds_views lib = forEachSchema lib (loadViewsForSchema (tds_ask lib))"

definition tds_routines :: "'s Tds \<Rightarrow> ('s TdDb, Routine list) call" where
  "tds_routines lib = forEachSchema lib (loadRoutinesForSchema (tds_ask lib))"

definition tds_describeTable :: "'s Tds \<Rightarrow> bytes \<Rightarrow> ('s TdDb, Table) call" where
  "tds_describeTable lib tableName =
     (case str_find_char (CHR ''.'') tableName 0 of
        Some dot \<Rightarrow> describeTableInSchema (tds_ask lib) (take dot tableName) (drop (dot + 1) tableName)
      | None \<Rightarrow> and_then (tds_ask lib ''SELECT SCHEMA_NAME()'') (\<lambda>def.
          describeTableInSchema (tds_ask lib) (case def of (schema # _) # _ \<Rightarrow> schema | _ \<Rightarrow> ''dbo'') tableName))"

definition tds_renameSchema :: "bytes \<Rightarrow> Status" where
  "tds_renameSchema newName = (False, ''renameSchema not supported on MSSQL'')"

definition tds_dropSchema :: "'s Tds \<Rightarrow> bytes \<Rightarrow> 's TdDb \<Rightarrow> Status \<times> 's TdDb" where
  "tds_dropSchema lib name d = (case tds_execute lib (''DROP SCHEMA '' @ tds_quoteIdent name) 0 d of (r, d1) \<Rightarrow> (toStatus r, d1))"


section \<open>The connection\<close>

definition tds_connection :: "ConnectionInfo \<Rightarrow> 's TdDb Pool" where
  "tds_connection info = new_pool (if ci_database info = [] then info\<lparr>ci_database := ''master''\<rparr> else info)"

definition tds_connection_open :: "'s Tds \<Rightarrow> 's TdDb Pool \<Rightarrow> Status \<times> 's TdDb Pool" where
  "tds_connection_open lib p =
     (case at_database new_TdDb [] (tds_open lib) p of
        (None, p1) \<Rightarrow> ((True, []), p1\<lparr>pl_open := True\<rparr>)
      | (Some e, p1) \<Rightarrow> ((False, e), p1\<lparr>pl_open := False\<rparr>))"

definition tds_databases :: "'s Tds \<Rightarrow> ('s TdDb Pool, nat list) call" where
  "tds_databases lib p =
     (case at_database new_TdDb [] (tds_ask lib ''SELECT name FROM sys.databases WHERE database_id > 4 ORDER BY name'') p of
        (Inl e, p1) \<Rightarrow> (Inl e, p1)
      | (Inr data, p1) \<Rightarrow> (case pool_databases new_TdDb (first_cells data) p1 of (is, p2) \<Rightarrow> (Inr is, p2)))"

text \<open>\<open>None\<close> when the call does not return.\<close>

definition tds_createDatabase :: "'s Tds \<Rightarrow> CreateDatabaseOptions \<Rightarrow> 's TdDb Pool \<Rightarrow> Status option" where
  "tds_createDatabase lib opts p =
     (if opt_name opts = [] then Some (False, ''Database name cannot be empty'')
      else execOnMaster lib (pl_info p) (''CREATE DATABASE '' @ tds_quoteIdent (opt_name opts)))"

definition tds_drop_text :: "bytes \<Rightarrow> bytes" where
  "tds_drop_text name =
     ''ALTER DATABASE '' @ tds_quoteIdent name @ '' SET SINGLE_USER WITH ROLLBACK IMMEDIATE; DROP DATABASE '' @ tds_quoteIdent name"

definition tds_dropDatabase :: "'s Tds \<Rightarrow> bytes \<Rightarrow> 's TdDb Pool \<Rightarrow> (Status \<times> 's TdDb Pool) option" where
  "tds_dropDatabase lib name p =
     (if name = [] then Some ((False, ''Database name cannot be empty''), p)
      else let p1 = pool_erase name p
        in case execOnMaster lib (pl_info p1) (tds_drop_text name) of
             None \<Rightarrow> None
           | Some (ok, e) \<Rightarrow> Some ((ok, e),
               if ok \<and> name = ci_database (pl_info p1) then p1\<lparr>pl_info := (pl_info p1)\<lparr>ci_database := ''master''\<rparr>\<rparr> else p1))"

definition tds_renameDatabase :: "'s Tds \<Rightarrow> bytes \<Rightarrow> bytes \<Rightarrow> 's TdDb Pool \<Rightarrow> (Status \<times> 's TdDb Pool) option" where
  "tds_renameDatabase lib oldName newName p =
     (let p1 = pool_erase oldName p
      in map_option (\<lambda>st. (st, p1)) (execOnMaster lib (pl_info p1)
           (''ALTER DATABASE '' @ tds_quoteIdent oldName @ '' MODIFY NAME = '' @ tds_quoteIdent newName)))"


section \<open>What a success means\<close>

text \<open>
  A result for which \<^verbatim>\<open>dbresults\<close> itself answers \<^verbatim>\<open>FAIL\<close>. A row set that breaks off while it is read is not
  one: the code does not look at how \<^verbatim>\<open>dbnextrow\<close> ended.
\<close>

definition result_refused :: "TdsEvent \<Rightarrow> bool" where
  "result_refused ev \<longleftrightarrow> (case ev of TdsFail e \<Rightarrow> True | _ \<Rightarrow> False)"

lemma flagged_mono: "flagged flag k r \<Longrightarrow> k < k' \<or> k = k' \<and> r \<le> r' \<Longrightarrow> flagged flag k' r'"
  by (auto simp: flagged_def split: option.splits)

lemma tds_failed_sel [simp]: "\<not> sr_success (tds_failed e)" "sr_tableData (tds_failed e) = []"
  by (simp_all add: tds_failed_def default_statement_def)

lemma tds_extract_success: "sr_success (extractDbLibResult L flag k ev) \<longleftrightarrow> \<not> result_refused ev"
  by (auto simp: extractDbLibResult_def extract_set_def extract_count_def Let_def default_statement_def result_refused_def
      split: TdsEvent.split)

lemma tds_extract_within: "0 < L \<Longrightarrow> within_limit L (extractDbLibResult L flag k ev)"
  by (auto simp: within_limit_def extractDbLibResult_def extract_set_def extract_count_def Let_def default_statement_def
      split: TdsEvent.split)

text \<open>Nothing raises the flag before the last event is read.\<close>

definition uncancelled :: "(nat \<times> nat) option \<Rightarrow> nat \<Rightarrow> TdsEvent list \<Rightarrow> bool" where
  "uncancelled flag k evs \<longleftrightarrow> evs = [] \<or> \<not> flagged flag (k + length evs - 1) (event_rows (last evs) + 1)"

lemma uncancelled_Cons:
  "uncancelled flag k (ev # evs) \<longleftrightarrow> \<not> flagged flag k (event_rows ev + 1) \<and> uncancelled flag (k + 1) evs"
  using flagged_mono [of flag k "event_rows ev + 1" "k + length evs" "event_rows (last evs) + 1"]
  by (cases evs) (auto simp: uncancelled_def)

lemma tds_results_success:
  "list_all sr_success (fst (tds_results L flag k evs dead)) \<longleftrightarrow>
     dead = None \<and> (\<not> list_ex result_refused evs) \<and> uncancelled flag k evs"
proof (induction L flag k evs dead rule: tds_results.induct)
  case (1 L flag k dead)
  then show ?case by (auto simp: uncancelled_def split: option.split)
next
  case (2 L flag k ev evs dead)
  then show ?case
    by (auto simp: uncancelled_Cons tds_extract_success result_refused_def split: TdsEvent.splits prod.splits)
qed

lemma tds_results_others:
  "list_all sr_success (butlast (fst (tds_results L flag k evs dead)))"
  "fst (tds_results L flag k evs dead) = [] \<longleftrightarrow> evs = [] \<and> dead = None"
  "0 < L \<Longrightarrow> list_all (within_limit L) (fst (tds_results L flag k evs dead))"
proof (induction L flag k evs dead rule: tds_results.induct)
  case (2 L flag k ev evs dead)
  {
    case 1
    then show ?case using 2 by (auto simp: tds_extract_success result_refused_def split: TdsEvent.splits prod.splits)
  next
    case 2
    then show ?case by (auto split: TdsEvent.splits prod.splits)
  next
    case 3
    then show ?case using 2 tds_extract_within [of L flag k ev]
      by (auto simp: within_limit_def split: TdsEvent.splits prod.splits)
  }
qed (auto simp: within_limit_def split: option.split)

text \<open>
  C26: Running a batch is reported as a success exactly when the session opens, the server runs the
  batch, gives at least one result and refuses none, the connection outlives the last result and
  nobody cancels before it is read. A row set that breaks off while it is read does not count as a
  failure. Only the last result can be a failure, and no row set exceeds its limit.
\<close>

theorem mssql_success_meaning:
  "(qr_success (fst (tds_execute lib sql L d)) \<longleftrightarrow>
     (case fst (tds_ensureConn lib d) of Inl e \<Rightarrow> False
      | Inr c \<Rightarrow> let rep = td_exec lib (c_str sql) c
          in te_exec rep = None \<and> te_events rep \<noteq> [] \<and> \<not> list_ex result_refused (te_events rep) \<and> te_dead rep = None \<and>
             uncancelled (te_flag rep) 0 (te_events rep))) \<and>
   list_all sr_success (butlast (qr_statements (fst (tds_execute lib sql L d)))) \<and>
   list_all (within_limit L) (qr_statements (fst (tds_execute lib sql L d)))"
proof -
  let ?L = "if 0 < L then L else INT_MAX"
  have L: "0 < ?L" by (simp add: INT_MAX_def)
  have limit: "list_all (within_limit ?L) rs \<Longrightarrow> list_all (within_limit L) rs" for rs
    by (auto simp: list_all_iff within_limit_def)
  have batch: "list_all sr_success (fst (tds_results ?L flag k evs dead)) \<longleftrightarrow>
        dead = None \<and> \<not> list_ex result_refused evs \<and> uncancelled flag k evs"
      "list_all sr_success (butlast (fst (tds_results ?L flag k evs dead)))"
      "fst (tds_results ?L flag k evs dead) = [] \<longleftrightarrow> evs = [] \<and> dead = None"
      "list_all (within_limit L) (fst (tds_results ?L flag k evs dead))" for flag k evs dead
    by (rule tds_results_success tds_results_others(1,2) limit [OF tds_results_others(3) [OF L]])+
  show ?thesis
  proof (cases "tds_ensureConn lib d")
    case (Pair r d1)
    show ?thesis
    proof (cases r)
      case (Inl e)
      with Pair show ?thesis by (simp add: tds_execute_def qr_success_def within_limit_def)
    next
      case (Inr c)
      let ?rep = "td_exec lib (c_str sql) c"
      obtain rs cancelled where results: "tds_results ?L (te_flag ?rep) 0 (te_events ?rep) (te_dead ?rep) = (rs, cancelled)"
        by fastforce
      show ?thesis
      proof (cases "te_exec ?rep")
        case None
        with Pair Inr results have run: "qr_statements (fst (tds_execute lib sql L d)) = rs"
          by (simp add: tds_execute_def executeQueryOnProcess_def Let_def)
        show ?thesis
          using batch [of "te_flag ?rep" 0 "te_events ?rep" "te_dead ?rep"]
          unfolding qr_success_def run results Pair Inr using None by (auto simp: Let_def)
      next
        case (Some e)
        with Pair Inr show ?thesis
          by (simp add: tds_execute_def executeQueryOnProcess_def Let_def qr_success_def within_limit_def)
      qed
    qed
  qed
qed


section \<open>When an administrative call returns\<close>

definition complete_event :: "TdsEvent \<Rightarrow> bool" where
  "complete_event ev \<longleftrightarrow> (case ev of TdsSet names data complete \<Rightarrow> complete | _ \<Rightarrow> True)"

lemma drain_rows_stops:
  assumes "drain_rows evs dead k r = Some u"
  shows "\<exists>q \<ge> r. row_code evs dead k q = Code_No_More"
proof (rule drain_rows.raw_induct [where P = "\<lambda>evs dead k r u. \<exists>q \<ge> r. row_code evs dead k q = Code_No_More", OF _ assms])
  fix loop evs dead k r u
  assume IH: "\<And>evs dead k r u. loop evs dead k r = Some u \<Longrightarrow> \<exists>q \<ge> r. row_code evs dead k q = Code_No_More"
    and body: "(if row_code evs dead k r = Code_No_More then Some () else loop evs dead k (r + 1)) = Some u"
  show "\<exists>q \<ge> r. row_code evs dead k q = Code_No_More"
  proof (cases "row_code evs dead k r = Code_No_More")
    case False
    with body IH obtain q where "q \<ge> r + 1" "row_code evs dead k q = Code_No_More" by fastforce
    then show ?thesis by (intro exI [of _ q]) simp
  qed auto
qed

lemma drain_rows_reaches:
  "row_code evs dead k (r + n) = Code_No_More \<Longrightarrow> drain_rows evs dead k r = Some ()"
proof (induction n arbitrary: r)
  case 0
  then show ?case by (subst drain_rows.simps) simp
next
  case (Suc n)
  then have "drain_rows evs dead k (r + 1) = Some ()" by simp
  then show ?case by (subst drain_rows.simps) simp
qed

lemma drain_rows_event:
  assumes "k < length evs"
  shows "drain_rows evs dead k 0 = Some () \<longleftrightarrow> complete_event (evs ! k)"
proof
  assume "drain_rows evs dead k 0 = Some ()"
  then obtain q where "row_code evs dead k q = Code_No_More" by (auto dest: drain_rows_stops)
  with assms show "complete_event (evs ! k)"
    by (auto simp: row_code_def complete_event_def split: TdsEvent.splits if_splits)
next
  assume "complete_event (evs ! k)"
  with assms have "row_code evs dead k (0 + event_rows (evs ! k)) = Code_No_More"
    by (auto simp: row_code_def complete_event_def event_rows_def split: TdsEvent.splits)
  then show "drain_rows evs dead k 0 = Some ()" by (rule drain_rows_reaches)
qed

lemma drain_rows_dead: "drain_rows evs True (length evs) 0 = None"
  using drain_rows_stops [of evs True "length evs" 0]
  by (cases "drain_rows evs True (length evs) 0") (auto simp: row_code_def)

lemma drainResults_needs:
  assumes "drainResults evs dead k = Some u"
  shows "k \<le> length evs \<longrightarrow> \<not> dead \<and> list_all complete_event (drop k evs)"
proof (rule drainResults.raw_induct
    [where P = "\<lambda>evs dead k u. k \<le> length evs \<longrightarrow> \<not> dead \<and> list_all complete_event (drop k evs)", OF _ assms])
  fix loop evs dead k u
  assume IH: "\<And>evs dead k u. loop evs dead k = Some u \<Longrightarrow> k \<le> length evs \<longrightarrow> \<not> dead \<and> list_all complete_event (drop k evs)"
    and body: "(if results_code evs dead k = Code_No_More then Some ()
      else case drain_rows evs dead k 0 of None \<Rightarrow> None | Some u \<Rightarrow> loop evs dead (k + 1)) = Some u"
  show "k \<le> length evs \<longrightarrow> \<not> dead \<and> list_all complete_event (drop k evs)"
  proof (cases "k < length evs")
    case True
    then have "results_code evs dead k \<noteq> Code_No_More" by (auto simp: results_code_def split: TdsEvent.split)
    with body obtain v where v: "drain_rows evs dead k 0 = Some v" "loop evs dead (k + 1) = Some u"
      by (auto split: option.splits)
    with True IH [OF v(2)] have "\<not> dead \<and> list_all complete_event (drop (k + 1) evs)" by simp
    moreover have "complete_event (evs ! k)" using v(1) drain_rows_event [OF True] by (cases v) simp
    ultimately show ?thesis using True by (simp add: Cons_nth_drop_Suc [symmetric])
  next
    case False
    with body drain_rows_dead [of evs] show ?thesis by (cases dead) (auto simp: results_code_def)
  qed
qed

lemma drainResults_ends:
  "list_all complete_event (drop k evs) \<Longrightarrow> drainResults evs False k = Some ()"
proof (induction "length evs - k" arbitrary: k)
  case 0
  then have "results_code evs False k = Code_No_More" by (simp add: results_code_def)
  then show ?case by (subst drainResults.simps) simp
next
  case (Suc n)
  then have k: "k < length evs" by simp
  with Suc have "complete_event (evs ! k)" "drainResults evs False (k + 1) = Some ()"
    by (simp_all add: Cons_nth_drop_Suc [symmetric])
  with drain_rows_event [OF k] show ?case by (subst drainResults.simps) simp
qed

lemma drainResults_iff: "drainResults evs dead 0 \<noteq> None \<longleftrightarrow> \<not> dead \<and> list_all complete_event evs"
  using drainResults_needs [of evs dead 0] drainResults_ends [of 0 evs] by auto

lemma execOnMaster_eq:
  "execOnMaster lib info sql =
     (case openDbLibConnection lib info ''master'' of
        Inl e \<Rightarrow> Some (False, e)
      | Inr s \<Rightarrow>
          let rep = td_exec lib (c_str sql) s
          in case te_exec rep of
               Some e \<Rightarrow> Some (False, known_error e)
             | None \<Rightarrow> if te_dead rep = None \<and> list_all complete_event (te_events rep) then Some (True, []) else None)"
proof -
  have "drainResults evs dead 0 = (if \<not> dead \<and> list_all complete_event evs then Some () else None)" for evs dead
    using drainResults_iff [of evs dead] by (cases "drainResults evs dead 0") auto
  then show ?thesis by (auto simp: execOnMaster_def Let_def split: sum.split option.split)
qed

text \<open>
  C27: Creating, dropping or renaming a database through master returns exactly when no session
  opens, the server refuses the batch, or its results end on a living connection and every row set
  among them ends regularly; it then reports the refusal, and success otherwise.
\<close>

theorem execOnMaster_returns:
  "execOnMaster lib info sql =
     (case openDbLibConnection lib info ''master'' of
        Inl e \<Rightarrow> Some (False, e)
      | Inr s \<Rightarrow>
          let rep = td_exec lib (c_str sql) s
          in case te_exec rep of
               Some e \<Rightarrow> Some (False, known_error e)
             | None \<Rightarrow> if te_dead rep = None \<and> list_all complete_event (te_events rep) then Some (True, []) else None)"
  by (rule execOnMaster_eq)


section \<open>Listings\<close>

lemma yields_ask: "yields speaks (tds_ask lib sql) (\<lambda>_. True)"
  by (auto simp: yields_def speaks_def tds_ask_def firstOrThrow_def split: prod.split)

lemma tds_table_in: "table_in schema schema (tds_table schema name cols keys idxs)"
  by (simp add: table_in_def tds_table_def default_table_def)

lemma tds_tables_of_listed:
  "map tbl_name (tds_tables_of schema names cols pk keys idx) = names"
  "list_all (table_in schema schema) (tds_tables_of schema names cols pk keys idx)"
  "incoming_exact (tds_tables_of schema names cols pk keys idx)"
  unfolding tds_tables_of_def Let_def
  by (simp add: populate_maps split_beta comp_def tds_table_def,
      rule populate_in, simp add: list_all_iff tds_table_in split_beta, rule populate_exact)

lemma tds_tables_listed:
  "listing speaks (tds_ask lib (tds_tables_query schema)) first_cells
     (\<lambda>ts. list_all (table_in schema schema) ts \<and> incoming_exact ts) (loadTablesForSchema (tds_ask lib) schema)"
  unfolding loadTablesForSchema_def Let_def
  by (intro listing_and_then [OF yields_ask] yields_and_then [OF yields_ask] yields_if yields_return)
    (simp_all add: tds_tables_of_listed)

lemma tds_views_listed:
  "listing speaks (tds_ask lib (tds_views_query schema)) first_cells
     (list_all (table_in schema schema)) (loadViewsForSchema (tds_ask lib) schema)"
  unfolding loadViewsForSchema_def Let_def
  by (intro listing_and_then [OF yields_ask] yields_and_then [OF yields_ask] yields_if yields_return)
    (auto simp: list_all_iff tds_table_in split_beta comp_def tds_table_def table_in_def)


section \<open>Handles of a connection\<close>

interpretation tds: database_pool new_TdDb tb_name
  by unfold_locales (simp add: new_TdDb_def)

lemma tds_ensureConn_name: "tb_name (snd (tds_ensureConn lib d)) = tb_name d"
  by (auto simp: tds_ensureConn_def split: option.split sum.split)

lemma tds_open_name: "tb_name (snd (tds_open lib d)) = tb_name d"
  using tds_ensureConn_name [of lib d] by (auto simp: tds_open_def split: prod.split sum.split)

lemma tds_execute_name: "tb_name (snd (tds_execute lib sql L d)) = tb_name d"
  using tds_ensureConn_name [of lib d] by (auto simp: tds_execute_def split: prod.split sum.split)

lemma tds_ask_name: "tb_name (snd (tds_ask lib sql d)) = tb_name d"
  using tds_execute_name [of lib sql 0 d] by (auto simp: tds_ask_def split: prod.split)

text \<open>The states of a connection; what reads and writes through a handle do to it is a sequence of texts.\<close>

inductive tds_reachable :: "'s Tds \<Rightarrow> ConnectionInfo \<Rightarrow> 's TdDb Pool \<Rightarrow> bool" for lib info where
  td_start: "tds_reachable lib info (tds_connection info)"
| td_opened: "tds_reachable lib info p \<Longrightarrow> tds_reachable lib info (snd (tds_connection_open lib p))"
| td_closed: "tds_reachable lib info p \<Longrightarrow> tds_reachable lib info (pool_close p)"
| td_listed: "tds_reachable lib info p \<Longrightarrow> tds_reachable lib info (snd (tds_databases lib p))"
| td_asked: "tds_reachable lib info p \<Longrightarrow> tds_reachable lib info (snd (pool_database new_TdDb name p))"
| td_fresh: "tds_reachable lib info p \<Longrightarrow> tds_reachable lib info (snd (pool_openDatabase new_TdDb name p))"
| td_dropped: "tds_reachable lib info p \<Longrightarrow> tds_dropDatabase lib name p = Some (st, p') \<Longrightarrow> tds_reachable lib info p'"
| td_renamed: "tds_reachable lib info p \<Longrightarrow> tds_renameDatabase lib old name p = Some (st, p') \<Longrightarrow> tds_reachable lib info p'"
| td_executed: "tds_reachable lib info p \<Longrightarrow> tds_reachable lib info (snd (at_handle i (tds_execute lib sql L) p))"

definition tds_pool_ok :: "'s TdDb Pool \<Rightarrow> bool" where
  "tds_pool_ok p \<longleftrightarrow> pool_ok tb_name p \<and> ci_database (pl_info p) \<noteq> []"

lemma pl_info_kept [simp]:
  "pl_info (snd (pool_database new n p)) = pl_info p" "pl_info (snd (at_handle i f p)) = pl_info p"
  "pl_info (pool_close p) = pl_info p" "pl_info (pool_erase n p) = pl_info p"
  "pl_info (snd (pool_openDatabase new n p)) = pl_info p" "pl_info (snd (at_database new n f p)) = pl_info p"
  by (auto simp: pool_database_def pool_add_def at_handle_def pool_close_def pool_erase_def pool_openDatabase_def
      at_database_def Let_def split: option.split prod.splits)

lemma pl_info_databases [simp]: "pl_info (snd (pool_databases new ns p)) = pl_info p"
proof (induction ns arbitrary: p)
  case (Cons n ns)
  obtain i q where "pool_database new n p = (i, q)" by fastforce
  with Cons.IH [of q] pl_info_kept(1) [of new n p] show ?case by (simp split: prod.split) (metis snd_conv)
qed simp

lemma tds_reachable_ok: "tds_reachable lib info p \<Longrightarrow> tds_pool_ok p"
proof (induction rule: tds_reachable.induct)
  case td_start
  show ?case by (simp add: tds_pool_ok_def pool_ok_def tds_connection_def new_pool_def)
next
  case (td_opened p)
  have "pool_ok tb_name (snd (at_database new_TdDb [] (tds_open lib) p))"
    using td_opened.IH by (intro tds.ok_at_database tds_open_name) (simp add: tds_pool_ok_def)
  with td_opened.IH have "tds_pool_ok (snd (at_database new_TdDb [] (tds_open lib) p))" by (simp add: tds_pool_ok_def)
  then show ?case by (simp add: tds_connection_open_def tds_pool_ok_def split_beta split: option.split)
next
  case (td_closed p)
  then show ?case by (simp add: tds_pool_ok_def pool_ok_close)
next
  case (td_listed p)
  let ?ask = "tds_ask lib ''SELECT name FROM sys.databases WHERE database_id > 4 ORDER BY name''"
  let ?p1 = "snd (at_database new_TdDb [] ?ask p)"
  have "pool_ok tb_name ?p1"
    using td_listed.IH by (intro tds.ok_at_database tds_ask_name) (simp add: tds_pool_ok_def)
  with td_listed.IH have ok: "tds_pool_ok ?p1" by (simp add: tds_pool_ok_def)
  then have "tds_pool_ok (snd (pool_databases new_TdDb ns ?p1))" for ns by (simp add: tds_pool_ok_def tds.ok_databases)
  with ok show ?case by (simp add: tds_databases_def split_beta split: sum.split)
next
  case (td_asked p name)
  then show ?case by (simp add: tds_pool_ok_def tds.ok_database)
next
  case (td_fresh p name)
  then show ?case by (simp add: tds_pool_ok_def tds.ok_openDatabase)
next
  case (td_dropped p name st p')
  then show ?case
    by (auto simp: tds_dropDatabase_def tds_pool_ok_def Let_def pool_ok_erase split: if_splits option.splits)
next
  case (td_renamed p old name st p')
  then show ?case by (auto simp: tds_renameDatabase_def tds_pool_ok_def Let_def pool_ok_erase)
next
  case (td_executed p i sql L)
  then show ?case by (simp add: tds_pool_ok_def pool_ok_at_handle tds_execute_name)
qed

text \<open>
  In every state a SQL Server connection can reach there is a default database; a name has one
  handle that bears it, the same each time. Dropping a database leaves no handle under its name,
  whether it succeeds or not; the default changes only when it is reported as dropped, to master.
\<close>

lemma mssql_connection_handles:
  assumes "tds_reachable lib info p"
  shows "ci_database (pl_info p) \<noteq> [] \<and> pool_ok tb_name p \<and>
    (case pool_database new_TdDb name p of (i, p1) \<Rightarrow>
       i < length (pl_handles p1) \<and> tb_name (pl_handles p1 ! i) = pool_name name p \<and> pool_name name p \<noteq> [] \<and>
       pool_database new_TdDb name p1 = (i, p1)) \<and>
    (case tds_dropDatabase lib name p of
       None \<Rightarrow> True
     | Some ((ok, e), p') \<Rightarrow> (name = [] \<or> name \<notin> fst ` set (pl_cache p')) \<and>
         ci_database (pl_info p') = (if ok \<and> name = ci_database (pl_info p) then ''master'' else ci_database (pl_info p)))"
proof -
  have ok: "tds_pool_ok p" using assms by (rule tds_reachable_ok)
  obtain i p1 where p1: "pool_database new_TdDb name p = (i, p1)" by fastforce
  have pool: "pool_ok tb_name p" using ok by (simp add: tds_pool_ok_def)
  have "case tds_dropDatabase lib name p of
       None \<Rightarrow> True
     | Some ((ok, e), p') \<Rightarrow> (name = [] \<or> name \<notin> fst ` set (pl_cache p')) \<and>
         ci_database (pl_info p') = (if ok \<and> name = ci_database (pl_info p) then ''master'' else ci_database (pl_info p))"
    by (auto simp: tds_dropDatabase_def Let_def pool_erase_def split: option.split)
  with ok pool p1 tds.database_ok(3,4) [OF pool p1] tds.database_again [OF pool p1] show ?thesis
    by (simp add: tds_pool_ok_def pool_name_def)
qed


section \<open>A server for runs\<close>

text \<open>
  It takes every login and every database; an ALTER with a DROP behind it does the first and refuses
  the second, another ALTER succeeds, and the rows of anything else end with a failure.
\<close>

definition grumpy :: "unit Tds" where
  "grumpy = \<lparr>td_login = True, td_option = \<lambda>key value. True, td_open = \<lambda>login. Inr (), td_use = \<lambda>name s. (None, s),
     td_dead = \<lambda>s. False,
     td_exec = \<lambda>text s. \<lparr>te_exec = None,
       te_events = (if starts_with text ''ALTER DATABASE [a] SET'' then [TdsCount (-1), TdsFail ''in use'']
                    else if starts_with text ''ALTER'' then [TdsCount (-1)]
                    else [TdsSet [''x''] [[TdsValue (Some ''1'') ''1'']] False]),
       te_dead = None, te_messages = [], te_flag = None, te_session = \<lambda>cancelled. ()\<rparr>\<rparr>"

lemma grumpy_open: "openDbLibConnection grumpy default_info name = Inr ()"
  by (simp add: openDbLibConnection_def grumpy_def tds_login_def Let_def default_info_def)

lemma mssql_connection_handles_witness:
  "pool_ok tb_name (snd (pool_database new_TdDb ''a'' (snd (tds_connection_open grumpy (tds_connection default_info)))))"
proof -
  have "tds_reachable grumpy default_info
      (snd (pool_database new_TdDb ''a'' (snd (tds_connection_open grumpy (tds_connection default_info)))))"
    by (intro td_asked td_opened td_start)
  from mssql_connection_handles [OF this] show ?thesis by blast
qed

lemma mssql_departures:
  "tl_encryption (tds_login (default_info\<lparr>ci_sslmode := VerifyIdentity\<rparr>)) = None"
  "tl_caFile (tds_login (default_info\<lparr>ci_sslmode := VerifyIdentity\<rparr>)) = None"
  "qr_success (fst (tds_execute grumpy ''SELECT x FROM t'' 0 (new_TdDb default_info ''a'')))"
  "execOnMaster grumpy default_info ''SELECT x FROM t'' = None"
  "map_option fst (tds_dropDatabase grumpy ''a'' (new_pool default_info)) = Some (True, [])"
  "map_option (\<lambda>(st, p). (fst st, ci_database (pl_info p)))
     (tds_renameDatabase grumpy ''b'' ''c'' (new_pool (default_info\<lparr>ci_database := ''b''\<rparr>))) = Some (True, ''b'')"
proof -
  show "tl_encryption (tds_login (default_info\<lparr>ci_sslmode := VerifyIdentity\<rparr>)) = None"
    "tl_caFile (tds_login (default_info\<lparr>ci_sslmode := VerifyIdentity\<rparr>)) = None"
    by (simp_all add: tds_login_def Let_def)
  show "qr_success (fst (tds_execute grumpy ''SELECT x FROM t'' 0 (new_TdDb default_info ''a'')))"
    by (simp add: tds_execute_def tds_ensureConn_def new_TdDb_def grumpy_open executeQueryOnProcess_def Let_def)
      (simp add: grumpy_def c_str_def starts_with_def extractDbLibResult_def extract_set_def Let_def qr_success_def flagged_def
        default_statement_def)
  show "execOnMaster grumpy default_info ''SELECT x FROM t'' = None"
    by (simp add: execOnMaster_eq grumpy_open) (simp add: grumpy_def c_str_def starts_with_def complete_event_def)
  show "map_option fst (tds_dropDatabase grumpy ''a'' (new_pool default_info)) = Some (True, [])"
    by (simp add: tds_dropDatabase_def execOnMaster_eq grumpy_open Let_def new_pool_def pool_erase_def)
      (simp add: grumpy_def c_str_def starts_with_def complete_event_def tds_drop_text_def tds_quoteIdent_def, blast)
  show "map_option (\<lambda>(st, p). (fst st, ci_database (pl_info p)))
     (tds_renameDatabase grumpy ''b'' ''c'' (new_pool (default_info\<lparr>ci_database := ''b''\<rparr>))) = Some (True, ''b'')"
    by (simp add: tds_renameDatabase_def execOnMaster_eq Let_def new_pool_def pool_erase_def)
      (simp add: grumpy_def openDbLibConnection_def tds_login_def default_info_def Let_def c_str_def starts_with_def
        complete_event_def tds_quoteIdent_def, blast)
qed

end
