(* ===== verification/Duckdb_Backend.thy ===== *)
theory Duckdb_Backend
  imports Sqlite_Backend
begin

text \<open>
  DuckDB (\<^verbatim>\<open>src/duckdb_connection.cpp\<close>): running a text statement by statement, the catalog with its lists
  in text form, opening a database file or a CSV file, the handles, and the rows of a CSV file that
  meet a condition. DuckDB is a parameter over a world \<open>'w\<close> that holds the databases, with handles
  \<open>'d\<close> of databases and \<open>'c\<close> of connections. The lemmas show what a batch returns, that lists read
  back, that a CSV file is never opened as a database, and what the handles are.
\<close>


section \<open>Running a text\<close>

text \<open>A cell is null or has a text, which may be a null pointer; an error text may be one too.\<close>

datatype DuckCell = DuckNull | DuckText "bytes option"

text \<open>What a statement that ran returns, by its return type: rows under column names, or a count.\<close>

datatype DuckResult =
    DuckRows "bytes option list" "DuckCell list list"
  | DuckChanged nat

record ('w, 'd, 'c, 't, 'p) Duck =
  du_open :: "bytes \<Rightarrow> bool \<Rightarrow> 'w \<Rightarrow> (bytes option + 'd) \<times> 'w"
  du_connect :: "'d \<Rightarrow> 'w \<Rightarrow> 'c option \<times> 'w"
  du_query :: "bytes \<Rightarrow> 'c \<Rightarrow> 'w \<Rightarrow> (bytes option + DuckCell list list) \<times> 'w"
  du_extract :: "bytes \<Rightarrow> 'c \<Rightarrow> 'w \<Rightarrow> ('t list \<times> bytes option) \<times> 'w"
  du_prepare :: "'t \<Rightarrow> 'c \<Rightarrow> 'w \<Rightarrow> (bytes option + 'p) \<times> 'w"
  du_run :: "'p \<Rightarrow> 'c \<Rightarrow> 'w \<Rightarrow> (bytes option + DuckResult) \<times> 'w"

definition text_or :: "bytes \<Rightarrow> bytes option \<Rightarrow> bytes" where
  "text_or other t = (case t of None \<Rightarrow> other | Some s \<Rightarrow> s)"

definition cellText :: "DuckCell \<Rightarrow> bytes" where
  "cellText c = (case c of DuckNull \<Rightarrow> NULL_SENTINEL | DuckText t \<Rightarrow> text_or [] t)"

definition duck_literal :: "bytes \<Rightarrow> bytes" where
  "duck_literal s = [squote] @ double_char squote s @ [squote]"

definition duck_quoteIdent :: "bytes \<Rightarrow> bytes" where
  "duck_quoteIdent s = [dquote] @ double_char dquote s @ [dquote]"

definition truthy :: "bytes \<Rightarrow> bool" where
  "truthy v \<longleftrightarrow> v = ''true'' \<or> v = ''1''"

text \<open>\<^verbatim>\<open>DuckDBDatabaseNode::rows\<close>: rows of a catalog query, or an exception.\<close>

definition duck_rows :: "('w, 'd, 'c, 't, 'p) Duck \<Rightarrow> 'c \<Rightarrow> bytes \<Rightarrow> ('w, bytes list list) call" where
  "duck_rows lib con sql w =
     (case du_query lib (c_str sql) con w of
        (Inl e, w') \<Rightarrow> (Inl (text_or ''query failed'' e), w')
      | (Inr data, w') \<Rightarrow> (Inr (map (map cellText) data), w'))"

definition duck_failure :: "bytes \<Rightarrow> StatementResult" where
  "duck_failure message = default_statement\<lparr>sr_success := False, sr_errorMessage := message\<rparr>"

definition duck_result :: "int \<Rightarrow> DuckResult \<Rightarrow> StatementResult" where
  "duck_result rowLimit res =
     (case res of
        DuckRows names data \<Rightarrow>
          let kept = map (map cellText) (limited rowLimit data); n = length kept
          in default_statement\<lparr>sr_columnNames := map (text_or []) names, sr_tableData := kept,
               sr_message := ''Returned '' @ nat_to_string n @ '' row'' @ (if n = 1 then [] else ''s'')\<rparr>
      | DuckChanged n \<Rightarrow>
          default_statement\<lparr>sr_affectedRows := to_int32 (int n), sr_message := ''Query executed successfully''\<rparr>)"

fun duck_statements ::
    "('w, 'd, 'c, 't, 'p) Duck \<Rightarrow> 'c \<Rightarrow> int \<Rightarrow> 't list \<Rightarrow> 'w \<Rightarrow> StatementResult list \<times> 'w" where
  "duck_statements lib con rowLimit [] w = ([], w)"
| "duck_statements lib con rowLimit (t # ts) w =
     (case du_prepare lib t con w of
        (Inl e, w1) \<Rightarrow> ([duck_failure (text_or ''Failed to prepare statement'' e)], w1)
      | (Inr p, w1) \<Rightarrow>
          (case du_run lib p con w1 of
             (Inl e, w2) \<Rightarrow> ([duck_failure (text_or ''Query failed'' e)], w2)
           | (Inr res, w2) \<Rightarrow>
               (case duck_statements lib con rowLimit ts w2 of (rs, w3) \<Rightarrow> (duck_result rowLimit res # rs, w3))))"

definition duck_execute :: "('w, 'd, 'c, 't, 'p) Duck \<Rightarrow> 'c \<Rightarrow> bytes \<Rightarrow> int \<Rightarrow> 'w \<Rightarrow> QueryResult \<times> 'w" where
  "duck_execute lib con query rowLimit w =
     (case du_extract lib (c_str query) con w of
        (([], e), w1) \<Rightarrow>
          (\<lparr>qr_statements = [duck_failure (text_or ''Failed to parse query'' e)], qr_messages = []\<rparr>, w1)
      | ((t # ts, e), w1) \<Rightarrow>
          (case duck_statements lib con rowLimit (t # ts) w1 of (rs, w2) \<Rightarrow> (\<lparr>qr_statements = rs, qr_messages = []\<rparr>, w2)))"


section \<open>Lists in text form\<close>

definition trim_spaces :: "bytes \<Rightarrow> bytes" where
  "trim_spaces s = trim_right_spaces (dropWhile (\<lambda>c. c = CHR '' '') s)"

function list_items :: "bytes \<Rightarrow> bytes list" where
  "list_items s =
     (if s = [] then []
      else let piece = takeWhile (\<lambda>c. c \<noteq> CHR '','') s; item = trim_spaces piece
        in (if item = [] then [] else [item]) @ list_items (drop (length piece + 1) s))"
  by pat_completeness auto
termination by (relation "measure length") auto

declare list_items.simps [simp del]

definition parseList :: "bytes \<Rightarrow> bytes list" where
  "parseList v =
     list_items (if length v \<ge> 2 \<and> hd v = CHR ''['' \<and> last v = CHR '']'' then butlast (tl v) else v)"

text \<open>The column of an index expression, without its double quotes.\<close>

definition unquoted :: "bytes \<Rightarrow> bytes" where
  "unquoted col = (if length col \<ge> 2 \<and> hd col = dquote \<and> last col = dquote then butlast (tl col) else col)"


section \<open>The catalog\<close>

definition duck_column :: "bytes list \<Rightarrow> Column option" where
  "duck_column row =
     (if length row < 6 then None
      else Some (default_column\<lparr>col_name := row ! 1, col_type := row ! 2, col_isNotNull := truthy (row ! 3),
        col_defaultValue := (if row ! 4 \<noteq> NULL_SENTINEL then row ! 4 else []), col_isPrimaryKey := truthy (row ! 5)\<rparr>))"

definition duck_index :: "bytes list \<Rightarrow> Index" where
  "duck_index row = default_index\<lparr>idx_name := row ! 0, idx_isUnique := truthy (row ! 1), idx_isPrimary := truthy (row ! 2),
     idx_columns := map unquoted (parseList (row ! 3)), idx_type := ''ART''\<rparr>"

definition duck_keys :: "bytes \<Rightarrow> bytes list \<Rightarrow> ForeignKey list" where
  "duck_keys tableName row =
     map (\<lambda>(s, d). default_key\<lparr>fk_sourceColumn := s, fk_targetTable := row ! 1, fk_targetColumn := d,
         fk_name := ''fk_'' @ tableName @ ''_'' @ s\<rparr>)
       (zip (parseList (row ! 0)) (parseList (row ! 2)))"

definition duck_table :: "bytes \<Rightarrow> bytes list list \<Rightarrow> bytes list list \<Rightarrow> bytes list list \<Rightarrow> Table" where
  "duck_table name cols idx keys =
     default_table\<lparr>tbl_name := name, tbl_fullName := name, tbl_columns := List.map_filter duck_column cols,
       tbl_indexes := map duck_index idx, tbl_foreignKeys := concat (map (duck_keys name) keys)\<rparr>"

definition duck_load :: "('w, 'd, 'c, 't, 'p) Duck \<Rightarrow> 'c \<Rightarrow> bytes \<Rightarrow> bool \<Rightarrow> ('w, Table) call" where
  "duck_load lib con name isView =
     and_then (duck_rows lib con (''PRAGMA table_info('' @ duck_literal name @ '')'')) (\<lambda>cols.
       if isView then return_ok (duck_table name cols [] [])
       else and_then (duck_rows lib con
         (''SELECT index_name, is_unique, is_primary, expressions::VARCHAR FROM duckdb_indexes() WHERE schema_name '' @
       ''= 'main' AND table_name = '' @
          duck_literal name)) (\<lambda>idx.
         and_then (duck_rows lib con
           (''SELECT constraint_column_names::VARCHAR, referenced_table, referenced_column_names::VARCHAR '' @
       ''FROM duckdb_constraints() WHERE constraint_type = 'FOREIGN KEY' AND schema_name = 'main' AND '' @
       ''table_name = '' @
            duck_literal name)) (\<lambda>keys.
           return_ok (duck_table name cols idx keys))))"

definition duck_tables_query :: bytes where
  "duck_tables_query =
       ''SELECT table_name FROM information_schema.tables WHERE table_type = 'BASE TABLE' AND table_schema '' @
       ''= 'main' ORDER BY table_name''"

definition duck_views_query :: bytes where
  "duck_views_query =
       ''SELECT view_name, sql FROM duckdb_views() WHERE schema_name = 'main' AND NOT internal ORDER '' @
       ''BY view_name''"

definition duck_tables :: "('w, 'd, 'c, 't, 'p) Duck \<Rightarrow> 'c \<Rightarrow> ('w, Table list) call" where
  "duck_tables lib con =
     and_then (duck_rows lib con duck_tables_query)
       (\<lambda>data. and_then (collect (\<lambda>row. one (duck_load lib con (row ! 0) False)) data)
         (\<lambda>ts. return_ok (populateIncomingForeignKeys ts)))"

definition duck_views :: "('w, 'd, 'c, 't, 'p) Duck \<Rightarrow> 'c \<Rightarrow> ('w, Table list) call" where
  "duck_views lib con =
     and_then (duck_rows lib con duck_views_query)
       (collect (\<lambda>row. one (and_then (duck_load lib con (row ! 0) True)
         (\<lambda>v. return_ok (v\<lparr>tbl_definition := view_body (row ! 1)\<rparr>)))))"

definition duck_sequences :: "('w, 'd, 'c, 't, 'p) Duck \<Rightarrow> 'c \<Rightarrow> ('w, bytes list) call" where
  "duck_sequences lib con =
     and_then (duck_rows lib con ''SELECT sequence_name FROM duckdb_sequences() ORDER BY sequence_name'')
       (\<lambda>data. return_ok (map (\<lambda>row. row ! 0) data))"

definition duck_describeTable :: "('w, 'd, 'c, 't, 'p) Duck \<Rightarrow> 'c \<Rightarrow> bytes \<Rightarrow> ('w, Table) call" where
  "duck_describeTable lib con name = duck_load lib con name False"


section \<open>The connection and its handles\<close>

text \<open>\<^verbatim>\<open>std::filesystem::path(path).stem()\<close>: the file name without its extension.\<close>

definition stemOf :: "bytes \<Rightarrow> bytes" where
  "stemOf path = take (length (path_filename path) - length (path_extension path)) (path_filename path)"

record ('d, 'c) DuckNode =
  dn_db :: 'd
  dn_con :: 'c
  dn_name :: bytes

record ('d, 'c) DuckConn =
  dc_info :: ConnectionInfo
  dc_db :: "'d option"
  dc_defaultDb :: "('d, 'c) DuckNode option"

definition new_DuckConn :: "ConnectionInfo \<Rightarrow> ('d, 'c) DuckConn" where
  "new_DuckConn info = \<lparr>dc_info = info, dc_db = None, dc_defaultDb = None\<rparr>"

definition duck_close :: "('d, 'c) DuckConn \<Rightarrow> ('d, 'c) DuckConn" where
  "duck_close c = c\<lparr>dc_defaultDb := None, dc_db := None\<rparr>"

definition duck_isOpen :: "('d, 'c) DuckConn \<Rightarrow> bool" where
  "duck_isOpen c \<longleftrightarrow> dc_db c \<noteq> None"

definition duck_openDatabase ::
    "('w, 'd, 'c, 't, 'p) Duck \<Rightarrow> ('d, 'c) DuckConn \<Rightarrow> 'w \<Rightarrow> ('d, 'c) DuckNode option \<times> 'w" where
  "duck_openDatabase lib c w =
     (case dc_db c of
        None \<Rightarrow> (None, w)
      | Some d \<Rightarrow> (case du_connect lib d w of
          (None, w1) \<Rightarrow> (None, w1)
        | (Some con, w1) \<Rightarrow> (Some \<lparr>dn_db = d, dn_con = con, dn_name = path_filename (ci_path (dc_info c))\<rparr>, w1)))"

definition duck_database ::
    "('w, 'd, 'c, 't, 'p) Duck \<Rightarrow> ('d, 'c) DuckConn \<Rightarrow> 'w \<Rightarrow> (('d, 'c) DuckNode option \<times> ('d, 'c) DuckConn) \<times> 'w" where
  "duck_database lib c w =
     (case dc_defaultDb c of
        Some nd \<Rightarrow> ((Some nd, c), w)
      | None \<Rightarrow> (case duck_openDatabase lib c w of (nd, w1) \<Rightarrow> ((nd, c\<lparr>dc_defaultDb := nd\<rparr>), w1)))"

definition duck_databases ::
    "('w, 'd, 'c, 't, 'p) Duck \<Rightarrow> ('d, 'c) DuckConn \<Rightarrow> 'w \<Rightarrow> (('d, 'c) DuckNode list \<times> ('d, 'c) DuckConn) \<times> 'w" where
  "duck_databases lib c w =
     (case duck_database lib c w of ((nd, c1), w1) \<Rightarrow> ((case nd of None \<Rightarrow> [] | Some n \<Rightarrow> [n], c1), w1))"

definition csv_view_text :: "bytes \<Rightarrow> bytes" where
  "csv_view_text path =
     ''CREATE VIEW '' @ duck_quoteIdent (stemOf path) @ '' AS SELECT * FROM read_csv('' @ duck_literal path @ '')''"

text \<open>\<open>None\<close> stands for the call through a null handle, whose behaviour is undefined.\<close>

definition duck_open ::
    "('w, 'd, 'c, 't, 'p) Duck \<Rightarrow> ('d, 'c) DuckConn \<Rightarrow> 'w \<Rightarrow> ((Status \<times> ('d, 'c) DuckConn) \<times> 'w) option" where
  "duck_open lib c w =
     (if dc_db c \<noteq> None then Some (((True, []), c), w)
      else let path = ci_path (dc_info c); csv = isCsvPath path
        in case du_open lib (if csv then '':memory:'' else c_str path) (ci_readOnly (dc_info c) \<and> \<not> csv) w of
             (Inl e, w1) \<Rightarrow> Some (((False, text_or ''Unable to open database'' e), c), w1)
           | (Inr d, w1) \<Rightarrow>
               let c1 = c\<lparr>dc_db := Some d\<rparr>
               in if \<not> csv then Some (((True, []), c1), w1)
                  else (case duck_database lib c1 w1 of
                      ((None, c2), w2) \<Rightarrow> None
                    | ((Some nd, c2), w2) \<Rightarrow>
                        (case duck_execute lib (dn_con nd) (csv_view_text path) 0 w2 of (r, w3) \<Rightarrow>
                           Some (if qr_success r then (((True, []), c2), w3)
                                 else (((False, ''Failed to read CSV: '' @ qr_errorMessage r), duck_close c2), w3)))))"


section \<open>Rows of a CSV file\<close>

record CsvFormat =
  csv_delimiter :: bytes
  csv_quote :: char
  csv_header :: bool
  csv_encoding :: bytes

definition csv_rows_text :: "bytes \<Rightarrow> bytes \<Rightarrow> CsvFormat \<Rightarrow> bytes" where
  "csv_rows_text path whereText f =
     ''SELECT __dearsql_row FROM (SELECT row_number() OVER () - 1 AS __dearsql_row, * FROM read_csv('' @
     duck_literal path @ '', delim = '' @ duck_literal (csv_delimiter f) @ '', quote = '' @ duck_literal [csv_quote f] @
     '', header = '' @ (if csv_header f then ''true'' else ''false'') @ '', encoding = '' @ duck_literal (csv_encoding f) @
     '', null_padding = true, parallel = false)) WHERE ('' @ (if whereText = [] then ''true'' else whereText) @ '') ORDER BY 1''"

text \<open>\<^verbatim>\<open>std::stoull\<close>, which throws without a digit or beyond 64 bits.\<close>

definition row_id :: "bytes \<Rightarrow> bytes + nat" where
  "row_id s = (case signed_digits s of (neg, ds) \<Rightarrow>
     if ds = [] \<or> 2 ^ 64 \<le> nat_of_digits ds then Inl ''stoull'' else Inr (strtoull s))"

definition row_number :: "bytes list \<Rightarrow> bytes + nat" where
  "row_number row = (case row of [] \<Rightarrow> Inl ''vector::_M_range_check'' | s # _ \<Rightarrow> row_id s)"

definition csvMatchingRows ::
    "('w, 'd, 'c, 't, 'p) Duck \<Rightarrow> bytes \<Rightarrow> bytes \<Rightarrow> CsvFormat \<Rightarrow> ('w, nat list) call" where
  "csvMatchingRows lib path whereText f w =
     (case du_open lib '':memory:'' False w of
        (Inl e, w1) \<Rightarrow> (Inl (text_or ''Unable to open DuckDB'' e), w1)
      | (Inr d, w1) \<Rightarrow>
          (case du_connect lib d w1 of
             (None, w2) \<Rightarrow> (Inl ''Unable to connect to DuckDB'', w2)
           | (Some con, w2) \<Rightarrow>
               (case duck_rows lib con (csv_rows_text path whereText f) w2 of
                  (Inl e, w3) \<Rightarrow> (Inl e, w3)
                | (Inr data, w3) \<Rightarrow> (map_result row_number data, w3))))"


section \<open>Listings\<close>

text \<open>DuckDB's tables have no schema, and their full name is their name.\<close>

lemma duck_load_named:
  "may_fail (duck_load lib con n isView) (\<lambda>t. tbl_name t = n \<and> tbl_schema t = [] \<and> tbl_fullName t = n)"
  unfolding duck_load_def
  by (intro yields_and_then [OF may_fail_any] yields_if yields_return) (simp_all add: duck_table_def default_table_def)

definition duck_in :: "Table \<Rightarrow> bool" where
  "duck_in t \<longleftrightarrow> tbl_schema t = [] \<and> tbl_fullName t = tbl_name t"

lemma duck_load_in: "may_fail (duck_load lib con n isView) (\<lambda>t. tbl_name t = n \<and> duck_in t)"
  by (rule yields_mono [OF duck_load_named]) (simp add: duck_in_def)

lemma populate_duck_in: "list_all duck_in ts \<Longrightarrow> list_all duck_in (populateIncomingForeignKeys ts)"
  unfolding list_all_length populate_fields(2)
  using populate_fields(1) [of _ ts] by (fastforce simp: duck_in_def)

lemma duck_tables_listed:
  "listing (\<lambda>_. True) (duck_rows lib con duck_tables_query) (map (\<lambda>row. row ! 0))
     (\<lambda>ts. list_all duck_in ts \<and> incoming_exact ts) (duck_tables lib con)"
  unfolding duck_tables_def
proof (rule listing_and_then [OF may_fail_any], rule yields_and_then)
  fix data
  show "may_fail (collect (\<lambda>row. one (duck_load lib con (row ! 0) False)) data)
      (\<lambda>ts. map tbl_name ts = map (\<lambda>row. row ! 0) data \<and> list_all duck_in ts)"
    by (rule yields_collect_named, rule one_named, rule duck_load_in)
qed (simp add: yields_return populate_maps populate_exact populate_duck_in)

lemma duck_views_listed:
  "listing (\<lambda>_. True) (duck_rows lib con duck_views_query) (map (\<lambda>row. row ! 0)) (list_all duck_in) (duck_views lib con)"
  unfolding duck_views_def
proof (rule listing_and_then [OF may_fail_any], rule yields_collect_named, rule one_named)
  fix row :: "bytes list"
  show "may_fail (and_then (duck_load lib con (row ! 0) True) (\<lambda>v. return_ok (v\<lparr>tbl_definition := view_body (row ! 1)\<rparr>)))
      (\<lambda>t. tbl_name t = row ! 0 \<and> duck_in t)"
    by (rule yields_and_then [OF duck_load_in], rule yields_return) (simp add: duck_in_def)
qed


section \<open>Lists read back\<close>

text \<open>The text DuckDB gives for a list of texts.\<close>

definition list_text :: "bytes list \<Rightarrow> bytes" where
  "list_text names = ''['' @ join_with '', '' names @ '']''"

definition listable :: "bytes \<Rightarrow> bool" where
  "listable n \<longleftrightarrow> n \<noteq> [] \<and> CHR '','' \<notin> set n \<and> hd n \<noteq> CHR '' '' \<and> last n \<noteq> CHR '' ''"

lemma dropWhile_hd: "s \<noteq> [] \<Longrightarrow> hd s \<noteq> c \<Longrightarrow> dropWhile (\<lambda>x. x = c) s = s"
  by (cases s) auto

lemma trim_listable: "listable n \<Longrightarrow> trim_spaces n = n" "listable n \<Longrightarrow> trim_spaces (CHR '' '' # n) = n"
  by (simp_all add: listable_def trim_spaces_def trim_right_spaces_def dropWhile_hd hd_rev)

lemma list_items_last:
  assumes "CHR '','' \<notin> set s" "trim_spaces s = n" "n \<noteq> []" "s \<noteq> []"
  shows "list_items s = [n]"
proof -
  have piece: "takeWhile (\<lambda>c. c \<noteq> CHR '','') s = s" using assms(1) by (auto simp: takeWhile_eq_all_conv)
  show ?thesis
    using assms(2-4) by (subst list_items.simps) (simp add: Let_def piece list_items.simps [of "[]"])
qed

lemma list_items_more:
  assumes "CHR '','' \<notin> set s" "trim_spaces s = n" "n \<noteq> []"
  shows "list_items (s @ CHR '','' # rest) = n # list_items rest"
proof -
  have "takeWhile (\<lambda>c. c \<noteq> CHR '','') (s @ CHR '','' # rest) = s" using assms(1) by (subst takeWhile_append2) auto
  then show ?thesis using assms(2,3) by (subst list_items.simps) (simp add: Let_def)
qed

lemma list_items_join:
  "list_all listable names \<Longrightarrow> list_items (join_with '', '' names) = names"
  "list_all listable names \<Longrightarrow> names \<noteq> [] \<Longrightarrow> list_items (CHR '' '' # join_with '', '' names) = names"
proof (induction names rule: induct_list012)
  case 1
  {
    case 1
    show ?case by (simp add: list_items.simps)
  next
    case 2
    then show ?case by simp
  }
next
  case (2 n)
  {
    case 1
    with trim_listable(1) [of n] show ?case by (intro list_items_last) (auto simp: listable_def)
  next
    case 2
    with trim_listable(2) [of n] show ?case by (intro list_items_last) (auto simp: listable_def)
  }
next
  case (3 n m names)
  {
    case 1
    with 3(4) trim_listable(1) [of n] list_items_more [of n n] show ?case by (simp add: listable_def)
  next
    case 2
    with 3(4) trim_listable(2) [of n] list_items_more [of "CHR '' '' # n" n] show ?case by (simp add: listable_def)
  }
qed

lemma parseList_list_text: "list_all listable names \<Longrightarrow> parseList (list_text names) = names"
  by (simp add: parseList_def list_text_def list_items_join(1) butlast_append)

lemma double_char_none: "q \<notin> set s \<Longrightarrow> double_char q s = s"
  by (induction s) auto

lemma quoted_listable: "listable n \<Longrightarrow> dquote \<notin> set n \<Longrightarrow> listable (duck_quoteIdent n)"
  by (auto simp: listable_def duck_quoteIdent_def double_char_none)

lemma unquoted_quoted: "dquote \<notin> set n \<Longrightarrow> unquoted (duck_quoteIdent n) = n"
  by (simp add: unquoted_def duck_quoteIdent_def double_char_none butlast_append)

text \<open>
  Lists of names that are not empty, have no comma and neither start nor end with a space are
  read back from the text DuckDB gives for them: the columns of an index, quoted or not, and the
  column pairs of a foreign key, one key for each pair.
\<close>

lemma duck_lists_read_back:
  assumes "list_all listable src" "list_all listable dst" "length src = length dst" "list_all (\<lambda>n. dquote \<notin> set n) src"
  shows "idx_columns (duck_index [name, uniq, prim, list_text src]) = src \<and>
    idx_columns (duck_index [name, uniq, prim, list_text (map duck_quoteIdent src)]) = src \<and>
    map (\<lambda>k. (fk_sourceColumn k, fk_targetTable k, fk_targetColumn k)) (duck_keys t [list_text src, target, list_text dst]) =
      map (\<lambda>(s, d). (s, target, d)) (zip src dst)"
proof -
  have plain: "unquoted n = n" if "dquote \<notin> set n" for n
    using that by (cases n) (auto simp: unquoted_def)
  have "list_all listable (map duck_quoteIdent src)"
    using assms(1,4) quoted_listable by (auto simp: list_all_iff)
  with assms plain unquoted_quoted show ?thesis
    by (auto simp: duck_index_def default_index_def duck_keys_def default_key_def parseList_list_text map_idI list_all_iff)
qed

lemma duck_lists_read_back_witness:
  "idx_columns (duck_index [''i'', ''true'', ''false'', list_text [''a'', ''b c'']]) = [''a'', ''b c'']"
  using duck_lists_read_back [of "[''a'', ''b c'']" "[''x'', ''y'']" "''i''" "''true''" "''false''" "''t''" "''u''"]
  by (simp add: listable_def)


section \<open>Handles\<close>

inductive duck_reachable :: "('w, 'd, 'c, 't, 'p) Duck \<Rightarrow> ConnectionInfo \<Rightarrow> ('d, 'c) DuckConn \<Rightarrow> bool" for lib info where
  dk_new: "duck_reachable lib info (new_DuckConn info)"
| dk_opened: "duck_reachable lib info c \<Longrightarrow> duck_open lib c w = Some ((st, c'), w') \<Longrightarrow> duck_reachable lib info c'"
| dk_closed: "duck_reachable lib info c \<Longrightarrow> duck_reachable lib info (duck_close c)"
| dk_asked: "duck_reachable lib info c \<Longrightarrow> duck_reachable lib info (snd (fst (duck_database lib c w)))"

definition duck_ok :: "ConnectionInfo \<Rightarrow> ('d, 'c) DuckConn \<Rightarrow> bool" where
  "duck_ok info c \<longleftrightarrow> dc_info c = info \<and>
     (\<forall>nd. dc_defaultDb c = Some nd \<longrightarrow> dc_db c = Some (dn_db nd) \<and> dn_name nd = path_filename (ci_path info))"

lemma duck_database_ok:
  "duck_ok info c \<Longrightarrow> duck_database lib c w = ((nd, c'), w') \<Longrightarrow>
     duck_ok info c' \<and> dc_db c' = dc_db c \<and> dc_defaultDb c' = nd \<and> (duck_isOpen c \<or> nd = None)"
  by (auto simp: duck_ok_def duck_database_def duck_openDatabase_def duck_isOpen_def split: option.splits prod.splits)

lemma duck_open_ok:
  assumes "duck_ok info c" "duck_open lib c w = Some (((ok, e), c'), w')"
  shows "duck_ok info c' \<and> (ok \<longleftrightarrow> duck_isOpen c')"
proof (cases "dc_db c")
  case (Some d)
  with assms show ?thesis by (auto simp: duck_open_def duck_isOpen_def)
next
  case None
  obtain r w1 where r: "du_open lib (if isCsvPath (ci_path (dc_info c)) then '':memory:'' else c_str (ci_path (dc_info c)))
      (ci_readOnly (dc_info c) \<and> \<not> isCsvPath (ci_path (dc_info c))) w = (r, w1)" by fastforce
  show ?thesis
  proof (cases r)
    case (Inl e')
    with None r assms show ?thesis by (auto simp: duck_open_def Let_def duck_isOpen_def)
  next
    case (Inr d)
    have opened: "duck_ok info (c\<lparr>dc_db := Some d\<rparr>)" using assms(1) None by (auto simp: duck_ok_def)
    obtain nd c2 w2 where db: "duck_database lib (c\<lparr>dc_db := Some d\<rparr>) w1 = ((nd, c2), w2)" by (metis prod.exhaust)
    note ok2 = duck_database_ok [OF opened db]
    then have "duck_ok info c2" "duck_isOpen c2" "duck_ok info (duck_close c2)" "\<not> duck_isOpen (duck_close c2)"
      by (auto simp: duck_isOpen_def duck_ok_def duck_close_def)
    with None r Inr assms(2) opened db show ?thesis
      by (auto simp: duck_open_def Let_def duck_isOpen_def split: if_splits option.splits prod.splits)
  qed
qed

lemma duck_reachable_ok: "duck_reachable lib info c \<Longrightarrow> duck_ok info c"
proof (induction rule: duck_reachable.induct)
  case (dk_opened c w st c' w')
  then show ?case using duck_open_ok by (metis prod.exhaust)
next
  case (dk_asked c w)
  then show ?case using duck_database_ok by (metis prod.collapse)
qed (auto simp: duck_ok_def new_DuckConn_def duck_close_def)

text \<open>
  In every state of a DuckDB connection, opening it succeeds exactly when it is then open, and a
  CSV file is only ever read: the database opened for it is in memory, never the file. Asking for
  the database gives nothing when closed; a node it gives is over the open database and is given
  again without another connection.
\<close>

lemma duck_connection_handles:
  assumes "duck_reachable lib info c"
  shows "(case duck_open lib c w of None \<Rightarrow> True | Some (((ok, e), c'), w') \<Rightarrow> ok = duck_isOpen c') \<and>
    (\<not> isCsvPath (ci_path info) \<or>
       duck_open lib c w = duck_open (lib\<lparr>du_open := \<lambda>path readOnly. du_open lib '':memory:'' False\<rparr>) c w) \<and>
    (case duck_database lib c w of ((nd, c1), w1) \<Rightarrow>
       (duck_isOpen c \<or> nd = None) \<and> duck_isOpen c1 = duck_isOpen c \<and>
       (case nd of None \<Rightarrow> True
        | Some n \<Rightarrow> dc_db c1 = Some (dn_db n) \<and> dn_name n = path_filename (ci_path info) \<and>
            duck_database lib c1 w' = ((Some n, c1), w'))) \<and>
    \<not> duck_isOpen (duck_close c)"
proof -
  have ok: "duck_ok info c" using assms by (rule duck_reachable_ok)
  have "case duck_open lib c w of None \<Rightarrow> True | Some (((ok, e), c'), w') \<Rightarrow> ok = duck_isOpen c'"
  proof (cases "duck_open lib c w")
    case (Some x)
    obtain ok' e c' w' where "x = (((ok', e), c'), w')" by (metis prod.exhaust)
    with Some duck_open_ok [OF ok, of lib w ok' e c' w'] show ?thesis by simp
  qed simp
  moreover have "duck_open lib c w = duck_open (lib\<lparr>du_open := \<lambda>path readOnly. du_open lib '':memory:'' False\<rparr>) c w"
    if "isCsvPath (ci_path info)"
  proof -
    let ?lib = "lib\<lparr>du_open := \<lambda>path readOnly. du_open lib '':memory:'' False\<rparr>"
    have "duck_statements ?lib con L ts v = duck_statements lib con L ts v" for con L ts v
      by (induction lib con L ts v rule: duck_statements.induct) (auto split: sum.splits prod.splits)
    then have st: "duck_statements ?lib = duck_statements lib" by (intro ext)
    have ex: "duck_execute ?lib = duck_execute lib"
      by (intro ext, unfold duck_execute_def st) simp
    have db: "duck_database ?lib = duck_database lib"
    proof -
      have "du_connect ?lib = du_connect lib" by simp
      then show ?thesis by (intro ext, unfold duck_database_def duck_openDatabase_def) (simp only:)
    qed
    show ?thesis
      using ok that unfolding duck_open_def ex db by (simp add: Let_def duck_ok_def)
  qed
  moreover obtain nd c1 w1 where db: "duck_database lib c w = ((nd, c1), w1)" by (metis prod.exhaust)
  note db_ok = duck_database_ok [OF ok db]
  moreover have "duck_database lib c1 w' = ((Some n, c1), w')" if "nd = Some n" for n
    using db_ok that by (simp add: duck_database_def)
  ultimately show ?thesis
    using db by (auto simp: duck_ok_def duck_isOpen_def duck_close_def split: option.split)
qed


text \<open>One database in memory, which takes every text; the world counts connections and has room for two.\<close>

definition pond :: "(nat, unit, nat, bytes, bytes) Duck" where
  "pond = \<lparr>du_open = \<lambda>path readOnly w. (Inr (), w), du_connect = \<lambda>d w. (if w < 2 then Some w else None, w + 1),
     du_query = \<lambda>sql con w. (Inr [], w), du_extract = \<lambda>text con w. (([text], None), w),
     du_prepare = \<lambda>t con w. (Inr t, w), du_run = \<lambda>p con w. (Inr (DuckChanged 3000000000), w)\<rparr>"

definition csv_info :: ConnectionInfo where
  "csv_info = default_info\<lparr>ci_path := ''/data/a.csv''\<rparr>"

lemma csv_path: "isCsvPath ''/data/a.csv''" "path_filename ''/data/a.csv'' = ''a.csv''"
  by code_simp+

lemma pond_open:
  "duck_open pond (new_DuckConn csv_info) w = (if 2 \<le> w then None
     else Some (((True, []), \<lparr>dc_info = csv_info, dc_db = Some (),
       dc_defaultDb = Some \<lparr>dn_db = (), dn_con = w, dn_name = ''a.csv''\<rparr>\<rparr>), w + 1))"
  by (simp add: duck_open_def new_DuckConn_def csv_info_def csv_path Let_def duck_database_def duck_openDatabase_def
      duck_execute_def pond_def duck_result_def qr_success_def default_statement_def default_info_def)

lemma duck_connection_handles_witness:
  "duck_isOpen (snd (fst (the (duck_open pond (new_DuckConn csv_info) 0)))) \<and>
   \<not> duck_isOpen (duck_close (snd (fst (the (duck_open pond (new_DuckConn csv_info) 0)))))"
proof -
  note opened = pond_open [of 0]
  have "duck_reachable pond csv_info (snd (fst (the (duck_open pond (new_DuckConn csv_info) 0))))"
    using dk_opened [OF dk_new, of pond csv_info 0] by (simp add: opened)
  from duck_connection_handles [OF this, of "Suc 0"] opened show ?thesis by (simp add: duck_isOpen_def)
qed


section \<open>Where the backend departs from what it means to do\<close>

lemma duck_departures:
  "parseList (list_text [''a,b'', ''c'']) = [''a'', ''b'', ''c'']"
  "unquoted (duck_quoteIdent (''x'' @ [dquote] @ ''y'')) = ''x'' @ [dquote, dquote] @ ''y''"
  "duck_open pond (new_DuckConn csv_info) 2 = None"
  "map sr_affectedRows (qr_statements (fst (duck_execute pond 0 ''DELETE FROM t'' 0 0))) = [-1294967296]"
  by (code_simp, code_simp, simp add: pond_open)
    (simp add: duck_execute_def pond_def duck_result_def default_statement_def to_int32_def)

end
