(* ===== verification/Value_Text.thy ===== *)
theory Value_Text
  imports Double_Numbers
begin

text \<open>
  How the drivers' values become text with the standard library: \<^verbatim>\<open>std::to_string\<close> of a \<^verbatim>\<open>double\<close>,
  \<^verbatim>\<open>std::format("{}", x)\<close> of a \<^verbatim>\<open>double\<close> or \<^verbatim>\<open>float\<close>, padded numbers, and a time stamp through
  \<^verbatim>\<open>gmtime_r\<close> and \<^verbatim>\<open>strftime\<close>. The lemmas show that the shortest form is a decimal that rounds back to
  the number and that padding keeps its width.
\<close>


section \<open>Numbers\<close>

text \<open>At least \<open>w\<close> digits.\<close>

definition pad_zeros :: "nat \<Rightarrow> bytes \<Rightarrow> bytes" where
  "pad_zeros w ds = replicate (w - length ds) CHR ''0'' @ ds"

text \<open>\<^verbatim>\<open>{:02d}\<close> and \<^verbatim>\<open>{:04d}\<close>: the sign counts, the zeros come after it.\<close>

definition padded :: "nat \<Rightarrow> int \<Rightarrow> bytes" where
  "padded w v = (if v < 0 then CHR ''-'' # pad_zeros (w - 1) (nat_to_string (nat (- v))) else pad_zeros w (nat_to_string (nat v)))"

text \<open>\<^verbatim>\<open>%f\<close>: six digits behind the point, the exact value rounded half to even.\<close>

definition fixed_six :: "rat \<Rightarrow> bytes" where
  "fixed_six x =
     (let ds = pad_zeros 7 (nat_to_string (nat (round_even (x * 1000000))))
      in take (length ds - 6) ds @ ''.'' @ drop (length ds - 6) ds)"

fun double_to_string :: "Double \<Rightarrow> bytes" where
  "double_to_string (Fin s m) = (if s then ''-'' else []) @ fixed_six m"
| "double_to_string (Infinite s) = (if s then ''-'' else []) @ ''inf''"
| "double_to_string NaN = ''nan''"

text \<open>Rounding to \<^verbatim>\<open>float\<close>: 24 significant bits, no bit below \<open>2 powi -149\<close>.\<close>

definition nearest_float :: "rat \<Rightarrow> rat" where
  "nearest_float x =
     (if x \<le> 0 then 0
      else let b = max (bin_exp x - 23) (- 149) in of_int (round_even (x / 2 powi b)) * 2 powi b)"

text \<open>
  The shortest decimal: the fewest digits, nearest to the number, that round back to it. \<open>nearest_to\<close>
  is the rounding of the type, \<open>most\<close> the number of digits that always suffice.
\<close>

definition decimal :: "rat \<Rightarrow> nat \<Rightarrow> nat \<times> int" where
  "decimal x n = (let e = dec_exp x - int n + 1 in (nat (round_even (x / 10 powi e)), e))"

definition decimal_value :: "nat \<times> int \<Rightarrow> rat" where
  "decimal_value d = of_nat (fst d) * 10 powi snd d"

definition shortest_decimal :: "(rat \<Rightarrow> rat) \<Rightarrow> nat \<Rightarrow> rat \<Rightarrow> nat \<times> int" where
  "shortest_decimal nearest_to most x =
     (case List.find (\<lambda>n. nearest_to (decimal_value (decimal x n)) = x) [1..<most] of
        Some n \<Rightarrow> decimal x n | None \<Rightarrow> decimal x most)"

text \<open>
  \<^verbatim>\<open>std::to_chars\<close> without a format takes the shorter of the plain and the exponent form, the plain
  one on a tie. A plain whole number is written exactly, as \<^verbatim>\<open>printf\<close> would.
\<close>

definition plain_form :: "rat \<Rightarrow> bytes \<Rightarrow> int \<Rightarrow> bytes" where
  "plain_form x ds e =
     (if 0 \<le> e then nat_to_string (nat \<lfloor>x\<rfloor>)
      else let p = int (length ds) + e
        in if 0 < p then take (nat p) ds @ ''.'' @ drop (nat p) ds
           else ''0.'' @ replicate (nat (- p)) CHR ''0'' @ ds)"

definition exponent_form :: "bytes \<Rightarrow> int \<Rightarrow> bytes" where
  "exponent_form ds e =
     take 1 ds @ (if length ds = 1 then [] else ''.'' @ drop 1 ds) @ exponent_text (e + int (length ds) - 1)"

definition format_shortest :: "(rat \<Rightarrow> rat) \<Rightarrow> nat \<Rightarrow> Double \<Rightarrow> bytes" where
  "format_shortest nearest_to most d =
     (case d of
        NaN \<Rightarrow> ''nan''
      | Infinite s \<Rightarrow> (if s then ''-'' else []) @ ''inf''
      | Fin s x \<Rightarrow> (if s then ''-'' else []) @
          (if x = 0 then ''0''
           else let (m, e) = shortest_decimal nearest_to most x; ds = nat_to_string m;
                    plain = plain_form x ds e; sci = exponent_form ds e
             in if length plain \<le> length sci then plain else sci))"

definition format_number :: "Double \<Rightarrow> bytes" where
  "format_number = format_shortest nearest 17"

definition format_float :: "Double \<Rightarrow> bytes" where
  "format_float = format_shortest nearest_float 9"


section \<open>Times\<close>

text \<open>
  The Gregorian date of a day counted from 1970: years start in March, so that the leap day is the
  last of a year, and eras have 400 years.
\<close>

definition civil_from_days :: "int \<Rightarrow> int \<times> int \<times> int" where
  "civil_from_days days =
     (let z = days + 719468; era = z div 146097; doe = z - era * 146097;
          yoe = (doe - doe div 1460 + doe div 36524 - doe div 146096) div 365;
          doy = doe - (365 * yoe + yoe div 4 - yoe div 100);
          mp = (5 * doy + 2) div 153;
          d = doy - (153 * mp + 2) div 5 + 1;
          m = (if mp < 10 then mp + 3 else mp - 9)
      in (yoe + era * 400 + (if m \<le> 2 then 1 else 0), m, d))"

text \<open>
  \<^verbatim>\<open>strftime\<close> with \<^verbatim>\<open>%Y-%m-%d %H:%M:%S\<close> of milliseconds since 1970: the division of \<^verbatim>\<open>millis / 1000\<close>
  truncates towards zero.
\<close>

definition utc_text :: "int \<Rightarrow> bytes" where
  "utc_text millis =
     (let seconds = (if millis < 0 then - ((- millis) div 1000) else millis div 1000);
          (y, m, d) = civil_from_days (seconds div 86400); t = seconds mod 86400
      in to_string y @ ''-'' @ padded 2 m @ ''-'' @ padded 2 d @ '' '' @
         padded 2 (t div 3600) @ '':'' @ padded 2 (t mod 3600 div 60) @ '':'' @ padded 2 (t mod 60))"


section \<open>Lemmas\<close>

lemma length_pad_zeros: "length (pad_zeros w ds) = max w (length ds)"
  by (simp add: pad_zeros_def)

lemma civil_dates:
  "civil_from_days 0 = (1970, 1, 1)" "civil_from_days (- 1) = (1969, 12, 31)"
  "civil_from_days 11016 = (2000, 2, 29)" "civil_from_days 47540 = (2100, 2, 28)" "civil_from_days 47541 = (2100, 3, 1)"
  by code_simp+

lemma utc_epoch: "utc_text 0 = utc_text (- 999)"
  by (simp add: utc_text_def)

lemma shortest_decimal_reads_back:
  "nearest_to (decimal_value (decimal x most)) = x \<Longrightarrow> nearest_to (decimal_value (shortest_decimal nearest_to most x)) = x"
  by (auto simp: shortest_decimal_def find_Some_iff split: option.split)

end
