(* ===== verification/Cassandra_Backend.thy ===== *)
theory Cassandra_Backend
  imports Value_Text Postgres_Session
begin

text \<open>
  Cassandra (\<^verbatim>\<open>src/cassandra_connection.cpp\<close>): opening a session with its TLS settings, running a statement
  in a keyspace, values as text, the catalog, and the keyspaces of a connection. All handles share
  the one session of their connection. The DataStax driver is a parameter over a session state
  \<open>'s\<close>. The lemmas show in which keyspace a statement runs, which TLS settings check certificates,
  and that the columns of a table come with its primary key first.
\<close>


section \<open>Values\<close>

text \<open>A value by its type; addresses and UUIDs come with the text the driver prints for them.\<close>

datatype CassValue =
    CText bytes
  | CInt int
  | CCounter int
  | CSmall int
  | CTiny int
  | CBool bool
  | CFloat Double
  | CDouble Double
  | CUuid bytes
  | CInet bytes
  | CTimestamp int
  | COther

definition cassValueToString :: "CassValue option \<Rightarrow> bytes" where
  "cassValueToString v =
     (case v of
        None \<Rightarrow> NULL_SENTINEL
      | Some (CText s) \<Rightarrow> s
      | Some (CInt i) \<Rightarrow> to_string i
      | Some (CCounter i) \<Rightarrow> to_string i
      | Some (CSmall i) \<Rightarrow> to_string i
      | Some (CTiny i) \<Rightarrow> to_string i
      | Some (CBool b) \<Rightarrow> (if b then BOOL_TRUE_SENTINEL else BOOL_FALSE_SENTINEL)
      | Some (CFloat d) \<Rightarrow> double_to_string d
      | Some (CDouble d) \<Rightarrow> double_to_string d
      | Some (CUuid s) \<Rightarrow> c_str s
      | Some (CInet s) \<Rightarrow> c_str s
      | Some (CTimestamp ms) \<Rightarrow> utc_text ms
      | Some COther \<Rightarrow> ''<unsupported>'')"

text \<open>A result: the names of its columns and the rows of its first page.\<close>

record CassResult =
  cr_columns :: "bytes list"
  cr_page :: "CassValue option list list"

text \<open>A column by name; what is not a string, or missing, is empty.\<close>

definition column_value :: "CassResult \<Rightarrow> bytes \<Rightarrow> CassValue option list \<Rightarrow> CassValue option" where
  "column_value res name row = (case map_of (zip (cr_columns res) row) name of None \<Rightarrow> None | Some v \<Rightarrow> v)"

definition getStringCol :: "CassResult \<Rightarrow> bytes \<Rightarrow> CassValue option list \<Rightarrow> bytes" where
  "getStringCol res name row = (case column_value res name row of Some (CText s) \<Rightarrow> s | _ \<Rightarrow> [])"


section \<open>Opening a session\<close>

text \<open>The TLS settings: a trusted certificate, and whether the peer's certificate is checked.\<close>

record CassTls =
  ct_trusted :: "bytes option"
  ct_verify :: bool

record CassOptions =
  co_host :: bytes
  co_port :: int
  co_credentials :: "(bytes \<times> bytes) option"
  co_tls :: "CassTls option"

text \<open>
  The driver and the file system: the content of a file if it can be read, whether a certificate is
  taken, connecting, and executing a statement with a page size (the driver's own where none is set).
\<close>

record 's Cass =
  ca_file :: "bytes \<Rightarrow> bytes option"
  ca_trust :: "bytes \<Rightarrow> bool"
  ca_connect :: "CassOptions \<Rightarrow> bytes + 's"
  ca_execute :: "bytes \<Rightarrow> int option \<Rightarrow> 's \<Rightarrow> (bytes + CassResult) \<times> 's"

record 's CassConn =
  cc_info :: ConnectionInfo
  cc_session :: "'s option"
  cc_keyspace :: bytes
  cc_cache :: "bytes list"

text \<open>PostgreSQL's default port stands for none.\<close>

definition cass_port :: "ConnectionInfo \<Rightarrow> ConnectionInfo" where
  "cass_port info = (if ci_port info = 0 \<or> ci_port info = 5432 then info\<lparr>ci_port := 9042\<rparr> else info)"

definition new_CassConn :: "ConnectionInfo \<Rightarrow> 's CassConn" where
  "new_CassConn info = \<lparr>cc_info = cass_port info, cc_session = None, cc_keyspace = [], cc_cache = []\<rparr>"

definition applySslConfig :: "'s Cass \<Rightarrow> ConnectionInfo \<Rightarrow> bytes + CassTls option" where
  "applySslConfig lib info =
     (let path = ci_sslCACertPath info
      in if ci_sslmode info = Disable then Inr None
         else if ci_sslmode info = VerifyCA \<and> path \<noteq> []
         then (case ca_file lib path of
             None \<Rightarrow> Inl (''Cannot read CA cert: '' @ path)
           | Some pem \<Rightarrow> if \<not> ca_trust lib pem then Inl ''Failed to add CA cert to SSL context''
               else Inr (Some \<lparr>ct_trusted = Some pem, ct_verify = True\<rparr>))
         else Inr (Some \<lparr>ct_trusted = None, ct_verify = False\<rparr>))"

definition cass_options :: "ConnectionInfo \<Rightarrow> CassTls option \<Rightarrow> CassOptions" where
  "cass_options info tls =
     \<lparr>co_host = ci_host info, co_port = ci_port info,
      co_credentials = (if ci_username info \<noteq> [] then Some (ci_username info, ci_password info) else None), co_tls = tls\<rparr>"

definition cass_open :: "'s Cass \<Rightarrow> 's CassConn \<Rightarrow> Status \<times> 's CassConn" where
  "cass_open lib c =
     (let c1 = c\<lparr>cc_session := None, cc_keyspace := []\<rparr>
      in case applySslConfig lib (cc_info c) of
           Inl e \<Rightarrow> ((False, e), c1)
         | Inr tls \<Rightarrow> (case ca_connect lib (cass_options (cc_info c) tls) of
             Inl e \<Rightarrow> ((False, ''Cassandra connect failed: '' @ e), c1)
           | Inr s \<Rightarrow> ((True, []), c1\<lparr>cc_session := Some s\<rparr>)))"

definition cass_close :: "'s CassConn \<Rightarrow> 's CassConn" where
  "cass_close c = c\<lparr>cc_cache := [], cc_session := None, cc_keyspace := []\<rparr>"

definition cass_isOpen :: "'s CassConn \<Rightarrow> bool" where
  "cass_isOpen c \<longleftrightarrow> cc_session c \<noteq> None"


section \<open>Running a statement\<close>

definition cass_quoteIdent :: "bytes \<Rightarrow> bytes" where
  "cass_quoteIdent s = [dquote] @ double_char dquote s @ [dquote]"

definition cass_text :: "bytes \<Rightarrow> bytes" where
  "cass_text s = [squote] @ double_char squote s @ [squote]"

text \<open>\<^verbatim>\<open>runCql\<close>, for the catalog: no page size, and no keyspace.\<close>

definition runCql :: "'s Cass \<Rightarrow> bytes \<Rightarrow> 's CassConn \<Rightarrow> (bytes + CassResult) \<times> 's CassConn" where
  "runCql lib cql c =
     (case cc_session c of
        None \<Rightarrow> (Inl ''Not connected'', c)
      | Some s \<Rightarrow> (case ca_execute lib (c_str cql) None s of (r, s1) \<Rightarrow> (r, c\<lparr>cc_session := Some s1\<rparr>)))"

definition cass_failure :: "bytes \<Rightarrow> StatementResult" where
  "cass_failure message = default_statement\<lparr>sr_success := False, sr_errorMessage := message\<rparr>"

definition cass_result :: "int \<Rightarrow> CassResult \<Rightarrow> StatementResult" where
  "cass_result rowLimit res =
     (if cr_columns res = [] then default_statement\<lparr>sr_message := ''Query executed successfully''\<rparr>
      else let data = map (map cassValueToString) (limited rowLimit (cr_page res)); n = length data
        in default_statement\<lparr>sr_columnNames := cr_columns res, sr_tableData := data,
             sr_message := ''Returned '' @ nat_to_string n @ '' row'' @ (if n = 1 then [] else ''s'')\<rparr>)"

text \<open>The keyspace is switched first, unless the session is known to be in it; a refusal is dropped.\<close>

definition switch_keyspace :: "'s Cass \<Rightarrow> bytes \<Rightarrow> 's \<Rightarrow> bytes \<Rightarrow> 's \<times> bytes" where
  "switch_keyspace lib keyspace s active =
     (if keyspace \<noteq> [] \<and> keyspace \<noteq> active
      then (case ca_execute lib (c_str (''USE '' @ cass_quoteIdent keyspace)) None s of
          (Inl e, s1) \<Rightarrow> (s1, active) | (Inr r, s1) \<Rightarrow> (s1, keyspace))
      else (s, active))"

definition cass_execute :: "'s Cass \<Rightarrow> bytes \<Rightarrow> int \<Rightarrow> bytes \<Rightarrow> 's CassConn \<Rightarrow> QueryResult \<times> 's CassConn" where
  "cass_execute lib cql rowLimit keyspace c =
     (case cc_session c of
        None \<Rightarrow> (\<lparr>qr_statements = [cass_failure ''Not connected''], qr_messages = []\<rparr>, c)
      | Some s \<Rightarrow>
          (case switch_keyspace lib keyspace s (cc_keyspace c) of (s1, active) \<Rightarrow>
             (case ca_execute lib (c_str cql) (Some (if rowLimit > 0 then rowLimit else 1000)) s1 of (r, s2) \<Rightarrow>
                (\<lparr>qr_statements = [case r of Inl e \<Rightarrow> cass_failure e | Inr res \<Rightarrow> cass_result rowLimit res],
                  qr_messages = []\<rparr>, c\<lparr>cc_session := Some s2, cc_keyspace := active\<rparr>))))"


section \<open>Keyspaces\<close>

definition listKeyspaces :: "'s Cass \<Rightarrow> 's CassConn \<Rightarrow> bytes list \<times> 's CassConn" where
  "listKeyspaces lib c =
     (case cass_execute lib ''SELECT keyspace_name FROM system_schema.keyspaces'' 10000 [] c of (r, c1) \<Rightarrow>
        if \<not> qr_success r \<or> qr_statements r = [] then ([], c1)
        else (first_cells (sr_tableData (hd (qr_statements r))), c1))"

text \<open>A handle is its connection and this name, so the cache only remembers which names have one.\<close>

definition cass_database :: "bytes \<Rightarrow> 's CassConn \<Rightarrow> bytes \<times> 's CassConn" where
  "cass_database name c =
     (let n = (if name = [] then ci_database (cc_info c) else name)
      in if n \<in> set (cc_cache c) then (n, c) else (n, c\<lparr>cc_cache := n # cc_cache c\<rparr>))"

fun cass_database_list :: "bytes list \<Rightarrow> 's CassConn \<Rightarrow> bytes list \<times> 's CassConn" where
  "cass_database_list [] c = ([], c)"
| "cass_database_list (n # ns) c =
     (case cass_database n c of (m, c1) \<Rightarrow> (case cass_database_list ns c1 of (ms, c2) \<Rightarrow> (m # ms, c2)))"

definition cass_databases :: "'s Cass \<Rightarrow> 's CassConn \<Rightarrow> bytes list \<times> 's CassConn" where
  "cass_databases lib c = (case listKeyspaces lib c of (names, c1) \<Rightarrow> cass_database_list names c1)"

definition cass_statement :: "'s Cass \<Rightarrow> bytes \<Rightarrow> 's CassConn \<Rightarrow> Status \<times> 's CassConn" where
  "cass_statement lib cql c = (case cass_execute lib cql 0 [] c of (r, c1) \<Rightarrow> (toStatus r, c1))"

definition cass_createDatabase :: "'s Cass \<Rightarrow> CreateDatabaseOptions \<Rightarrow> 's CassConn \<Rightarrow> Status \<times> 's CassConn" where
  "cass_createDatabase lib opts c =
     (if \<not> cass_isOpen c then ((False, ''Not connected''), c)
      else cass_statement lib (''CREATE KEYSPACE IF NOT EXISTS '' @ cass_quoteIdent (opt_name opts) @
        '' WITH replication = {'class':'SimpleStrategy','replication_factor':1}'') c)"

definition cass_dropDatabase :: "'s Cass \<Rightarrow> bytes \<Rightarrow> 's CassConn \<Rightarrow> Status \<times> 's CassConn" where
  "cass_dropDatabase lib name c =
     (if \<not> cass_isOpen c then ((False, ''Not connected''), c)
      else cass_statement lib (''DROP KEYSPACE IF EXISTS '' @ cass_quoteIdent name)
        (c\<lparr>cc_cache := filter (\<lambda>n. n \<noteq> name) (cc_cache c)\<rparr>))"


section \<open>The catalog of a keyspace\<close>

record Pending =
  pe_column :: Column
  pe_kind :: bytes
  pe_position :: int

definition key_rank :: "bytes \<Rightarrow> nat" where
  "key_rank kind = (if kind = ''partition_key'' then 0 else if kind = ''clustering'' then 1 else 2)"

definition pending_before :: "Pending \<Rightarrow> Pending \<Rightarrow> bool" where
  "pending_before a b =
     (let ra = key_rank (pe_kind a); rb = key_rank (pe_kind b)
      in if ra \<noteq> rb then ra < rb
         else if ra < 2 then pe_position a < pe_position b
         else text_before (col_name (pe_column a)) (col_name (pe_column b)))"

definition pending_row :: "CassResult \<Rightarrow> CassValue option list \<Rightarrow> Pending" where
  "pending_row res row =
     (let kind = getStringCol res ''kind'' row; key = (kind = ''partition_key'' \<or> kind = ''clustering'')
      in \<lparr>pe_column = default_column\<lparr>col_name := getStringCol res ''column_name'' row, col_type := getStringCol res ''type'' row,
            col_isPrimaryKey := key, col_isNotNull := key\<rparr>,
          pe_kind = kind,
          pe_position = (case column_value res ''position'' row of Some (CInt i) \<Rightarrow> i | _ \<Rightarrow> 0)\<rparr>)"

definition sorted_columns :: "CassResult \<Rightarrow> Column list" where
  "sorted_columns res = map pe_column (stable_sort_by pending_before (map (pending_row res) (cr_page res)))"

definition loadColumns :: "'s Cass \<Rightarrow> bytes \<Rightarrow> bytes \<Rightarrow> 's CassConn \<Rightarrow> Column list \<times> 's CassConn" where
  "loadColumns lib ks tableName c =
     (case runCql lib (''SELECT column_name, type, kind, position FROM system_schema.columns WHERE keyspace_name = '' @
         cass_text ks @ '' AND table_name = '' @ cass_text tableName) c of
        (Inl e, c1) \<Rightarrow> ([], c1)
      | (Inr res, c1) \<Rightarrow> (sorted_columns res, c1))"

definition cass_named :: "bytes \<Rightarrow> bytes \<Rightarrow> Column list \<Rightarrow> Table" where
  "cass_named ks name cols =
     default_table\<lparr>tbl_name := name, tbl_schema := ks, tbl_fullName := ks @ ''.'' @ name, tbl_columns := cols\<rparr>"

fun cass_each :: "('b \<Rightarrow> 's \<Rightarrow> 'a \<times> 's) \<Rightarrow> 'b list \<Rightarrow> 's \<Rightarrow> 'a list \<times> 's" where
  "cass_each f [] c = ([], c)"
| "cass_each f (x # xs) c = (case f x c of (a, c1) \<Rightarrow> (case cass_each f xs c1 of (as, c2) \<Rightarrow> (a # as, c2)))"

definition cass_tables :: "'s Cass \<Rightarrow> bytes \<Rightarrow> 's CassConn \<Rightarrow> Table list \<times> 's CassConn" where
  "cass_tables lib ks c =
     (case runCql lib (''SELECT table_name FROM system_schema.tables WHERE keyspace_name = '' @ cass_text ks) c of
        (Inl e, c1) \<Rightarrow> ([], c1)
      | (Inr res, c1) \<Rightarrow> cass_each (\<lambda>row c. let n = getStringCol res ''table_name'' row
          in case loadColumns lib ks n c of (cols, c') \<Rightarrow> (cass_named ks n cols, c')) (cr_page res) c1)"

definition cass_views :: "'s Cass \<Rightarrow> bytes \<Rightarrow> 's CassConn \<Rightarrow> Table list \<times> 's CassConn" where
  "cass_views lib ks c =
     (case runCql lib (''SELECT view_name, base_table_name FROM system_schema.views WHERE keyspace_name = '' @ cass_text ks) c of
        (Inl e, c1) \<Rightarrow> ([], c1)
      | (Inr res, c1) \<Rightarrow> cass_each (\<lambda>row c. let n = getStringCol res ''view_name'' row
          in case loadColumns lib ks n c of (cols, c') \<Rightarrow>
            ((cass_named ks n cols)\<lparr>tbl_definition := ''Materialized view of '' @ getStringCol res ''base_table_name'' row\<rparr>, c'))
          (cr_page res) c1)"

definition cass_describeTable :: "'s Cass \<Rightarrow> bytes \<Rightarrow> bytes \<Rightarrow> 's CassConn \<Rightarrow> Table \<times> 's CassConn" where
  "cass_describeTable lib ks tableName c =
     (case loadColumns lib ks tableName c of (cols, c1) \<Rightarrow> (cass_named ks tableName cols, c1))"


section \<open>Data\<close>

text \<open>\<^verbatim>\<open>CassandraDatabase::execute\<close>: a text of the user, in the keyspace of the handle.\<close>

definition cass_run :: "'s Cass \<Rightarrow> bytes \<Rightarrow> bytes \<Rightarrow> int \<Rightarrow> 's CassConn \<Rightarrow> QueryResult \<times> 's CassConn" where
  "cass_run lib ks sql rowLimit c = cass_execute lib sql rowLimit ks c"

definition cass_path :: "bytes \<Rightarrow> bytes \<Rightarrow> bytes" where
  "cass_path ks name = cass_quoteIdent ks @ ''.'' @ cass_quoteIdent name"

definition cass_filter :: "bytes \<Rightarrow> bytes" where
  "cass_filter whereClause = (if whereClause \<noteq> [] then '' WHERE '' @ whereClause @ '' ALLOW FILTERING'' else [])"

definition cass_data_text :: "bytes \<Rightarrow> Table \<Rightarrow> int \<Rightarrow> bytes \<Rightarrow> bytes \<Rightarrow> bytes" where
  "cass_data_text ks table limit whereClause orderByClause =
     ''SELECT * FROM '' @ cass_path ks (tbl_name table) @ cass_filter whereClause @
     (if orderByClause \<noteq> [] then '' ORDER BY '' @ orderByClause else []) @
     '' LIMIT '' @ to_string (if limit > 0 then limit else 1000)"

definition cass_getTableData ::
    "'s Cass \<Rightarrow> bytes \<Rightarrow> Table \<Rightarrow> int \<Rightarrow> int \<Rightarrow> bytes \<Rightarrow> bytes \<Rightarrow> 's CassConn \<Rightarrow> bytes list list \<times> 's CassConn" where
  "cass_getTableData lib ks table limit offset whereClause orderByClause c =
     (case cass_execute lib (cass_data_text ks table limit whereClause orderByClause) limit [] c of (r, c1) \<Rightarrow>
        (case qr_statements r of [] \<Rightarrow> [] | s # _ \<Rightarrow> sr_tableData s, c1))"

definition cass_getColumnNames :: "'s Cass \<Rightarrow> bytes \<Rightarrow> Table \<Rightarrow> 's CassConn \<Rightarrow> bytes list \<times> 's CassConn" where
  "cass_getColumnNames lib ks table c =
     (if tbl_columns table \<noteq> [] then (map col_name (tbl_columns table), c)
      else (case loadColumns lib ks (tbl_name table) c of (cols, c1) \<Rightarrow> (map col_name cols, c1)))"

definition cass_getRowCount :: "'s Cass \<Rightarrow> bytes \<Rightarrow> Table \<Rightarrow> bytes \<Rightarrow> 's CassConn \<Rightarrow> int \<times> 's CassConn" where
  "cass_getRowCount lib ks table whereClause c =
     (case cass_execute lib (''SELECT COUNT(*) FROM '' @ cass_path ks (tbl_name table) @ cass_filter whereClause) 1 [] c of (r, c1) \<Rightarrow>
        (if \<not> qr_success r then 0
         else case qr_statements r of
             s # _ \<Rightarrow> (case sr_tableData s of
                 (cell # _) # _ \<Rightarrow> (case stoi cell of None \<Rightarrow> 0 | Some n \<Rightarrow> n) | _ \<Rightarrow> 0)
           | [] \<Rightarrow> 0, c1))"

definition cass_create_text :: "bytes \<Rightarrow> Table \<Rightarrow> bytes" where
  "cass_create_text ks table =
     (let pk = map col_name (filter col_isPrimaryKey (tbl_columns table))
      in ''CREATE TABLE '' @ cass_path ks (tbl_name table) @ '' ('' @
         join_with '', '' (map (\<lambda>c. cass_quoteIdent (col_name c) @ '' '' @ (if col_type c = [] then ''text'' else col_type c))
           (tbl_columns table)) @
         (if pk = [] then [] else '', PRIMARY KEY ('' @ join_with '', '' (map cass_quoteIdent pk) @ '')'') @ '')'')"

definition cass_createTable :: "'s Cass \<Rightarrow> bytes \<Rightarrow> Table \<Rightarrow> 's CassConn \<Rightarrow> Status \<times> 's CassConn" where
  "cass_createTable lib ks table = cass_statement lib (cass_create_text ks table)"

definition cass_dropTable :: "'s Cass \<Rightarrow> bytes \<Rightarrow> bytes \<Rightarrow> 's CassConn \<Rightarrow> Status \<times> 's CassConn" where
  "cass_dropTable lib ks tableName = cass_statement lib (''DROP TABLE '' @ cass_path ks tableName)"


section \<open>In which keyspace a statement runs\<close>

text \<open>
  What a server keeps of the keyspace \<open>cur\<close> of a session: a USE that is accepted sets it, one that is
  refused does not, and \<open>quiet\<close> texts leave it alone. Names of keyspaces have no zero byte.
\<close>

definition use_text :: "bytes \<Rightarrow> bytes" where
  "use_text ks = c_str (''USE '' @ cass_quoteIdent ks)"

definition keeps_keyspace :: "'s Cass \<Rightarrow> ('s \<Rightarrow> bytes) \<Rightarrow> (bytes \<Rightarrow> bool) \<Rightarrow> bool" where
  "keeps_keyspace lib cur quiet \<longleftrightarrow>
     (\<forall>opts s. ca_connect lib opts = Inr s \<longrightarrow> cur s = []) \<and>
     (\<forall>ks size s. CHR 0x00 \<notin> set ks \<longrightarrow> (case ca_execute lib (use_text ks) size s of
        (Inl e, s1) \<Rightarrow> cur s1 = cur s | (Inr r, s1) \<Rightarrow> cur s1 = ks)) \<and>
     (\<forall>t size s. quiet t \<longrightarrow> cur (snd (ca_execute lib t size s)) = cur s)"

inductive cass_reachable :: "'s Cass \<Rightarrow> (bytes \<Rightarrow> bool) \<Rightarrow> 's CassConn \<Rightarrow> bool" for lib quiet where
  cs_new: "cass_reachable lib quiet (new_CassConn info)"
| cs_opened: "cass_reachable lib quiet c \<Longrightarrow> cass_reachable lib quiet (snd (cass_open lib c))"
| cs_closed: "cass_reachable lib quiet c \<Longrightarrow> cass_reachable lib quiet (cass_close c)"
| cs_asked: "cass_reachable lib quiet c \<Longrightarrow> cass_reachable lib quiet (snd (cass_database name c))"
| cs_executed: "cass_reachable lib quiet c \<Longrightarrow> quiet (c_str cql) \<Longrightarrow> CHR 0x00 \<notin> set ks \<Longrightarrow>
    cass_reachable lib quiet (snd (cass_execute lib cql rowLimit ks c))"
| cs_read: "cass_reachable lib quiet c \<Longrightarrow> quiet (c_str cql) \<Longrightarrow> cass_reachable lib quiet (snd (runCql lib cql c))"

definition keyspace_known :: "('s \<Rightarrow> bytes) \<Rightarrow> 's CassConn \<Rightarrow> bool" where
  "keyspace_known cur c \<longleftrightarrow> (\<forall>s. cc_session c = Some s \<longrightarrow> cur s = cc_keyspace c)"

lemma switch_known:
  assumes "keeps_keyspace lib cur quiet" "cur s = active" "CHR 0x00 \<notin> set ks" "switch_keyspace lib ks s active = (s1, active1)"
  shows "cur s1 = active1 \<and> (ks = [] \<or> active1 = ks \<or>
    active1 = active \<and> (\<exists>e. ca_execute lib (use_text ks) None s = (Inl e, s1)))"
proof (cases "ks \<noteq> [] \<and> ks \<noteq> active")
  case True
  obtain r s' where run: "ca_execute lib (use_text ks) None s = (r, s')" by fastforce
  have "case r of Inl e \<Rightarrow> cur s' = cur s | Inr x \<Rightarrow> cur s' = ks"
    using assms(1,3) run unfolding keeps_keyspace_def by (metis (no_types, lifting) case_prod_conv)
  with True run assms(2,4) show ?thesis
    by (cases r) (auto simp: switch_keyspace_def use_text_def)
qed (use assms in \<open>auto simp: switch_keyspace_def\<close>)

lemma execute_known:
  assumes "keeps_keyspace lib cur quiet" "quiet (c_str cql)" "CHR 0x00 \<notin> set ks" "keyspace_known cur c"
  shows "keyspace_known cur (snd (cass_execute lib cql rowLimit ks c))"
proof (cases "cc_session c")
  case (Some s)
  obtain s1 active where sw: "switch_keyspace lib ks s (cc_keyspace c) = (s1, active)" by fastforce
  have "cur s1 = active" using switch_known [OF assms(1) _ assms(3) sw] assms(4) Some by (simp add: keyspace_known_def)
  with Some sw assms(1,2) show ?thesis
    by (simp add: cass_execute_def keyspace_known_def keeps_keyspace_def split_beta)
qed (use assms(4) in \<open>simp add: cass_execute_def\<close>)

lemma cass_reachable_known:
  assumes "cass_reachable lib quiet c" "keeps_keyspace lib cur quiet"
  shows "keyspace_known cur c"
  using assms(1)
proof (induction rule: cass_reachable.induct)
  case (cs_opened c)
  show ?case using assms(2)
    by (auto simp: cass_open_def keyspace_known_def keeps_keyspace_def Let_def split: sum.split)
next
  case (cs_executed c cql rowLimit ks)
  then show ?case using execute_known [OF assms(2)] by blast
next
  case (cs_read c cql)
  then show ?case using assms(2)
    by (auto simp: runCql_def keyspace_known_def keeps_keyspace_def split: option.split prod.split) (metis snd_conv)
qed (auto simp: keyspace_known_def new_CassConn_def cass_close_def cass_database_def Let_def)

text \<open>
  C29: Take a connection in any state it reaches by opening, closing, asking for keyspaces and running
  texts that leave the session's keyspace alone (\<open>quiet\<close>, so no USE typed by the user). Then a text run by
  the handle of a keyspace meets a session in that keyspace; or the server refused the USE, and it
  meets the session in the keyspace it was left in.
\<close>

theorem cass_statement_keyspace:
  assumes "cass_reachable lib quiet c" "keeps_keyspace lib cur quiet" "cc_session c = Some s"
    and "ks \<noteq> []" "CHR 0x00 \<notin> set ks"
  shows "\<exists>s1 r s2. ca_execute lib (c_str sql) (Some (if rowLimit > 0 then rowLimit else 1000)) s1 = (r, s2) \<and>
    (cur s1 = ks \<or> (\<exists>e. ca_execute lib (use_text ks) None s = (Inl e, s1)) \<and> cur s1 = cc_keyspace c) \<and>
    qr_statements (fst (cass_run lib ks sql rowLimit c)) =
      [case r of Inl e \<Rightarrow> cass_failure e | Inr res \<Rightarrow> cass_result rowLimit res] \<and>
    cc_session (snd (cass_run lib ks sql rowLimit c)) = Some s2"
proof -
  have known: "cur s = cc_keyspace c"
    using cass_reachable_known [OF assms(1,2)] assms(3) by (simp add: keyspace_known_def)
  obtain s1 active where sw: "switch_keyspace lib ks s (cc_keyspace c) = (s1, active)" by fastforce
  obtain r s2 where run: "ca_execute lib (c_str sql) (Some (if rowLimit > 0 then rowLimit else 1000)) s1 = (r, s2)"
    by fastforce
  have "cur s1 = ks \<or> (\<exists>e. ca_execute lib (use_text ks) None s = (Inl e, s1)) \<and> cur s1 = cc_keyspace c"
    using switch_known [OF assms(2) known assms(5) sw] assms(4) by auto
  with run show ?thesis
    by (intro exI [of _ s1] exI [of _ r] exI [of _ s2] conjI) (simp_all add: cass_run_def cass_execute_def assms(3) sw)
qed


section \<open>Columns in order\<close>

definition position_key :: "Pending \<Rightarrow> int" where
  "position_key p = (if key_rank (pe_kind p) < 2 then pe_position p else 0)"

definition name_key :: "Pending \<Rightarrow> nat list" where
  "name_key p = (if key_rank (pe_kind p) < 2 then [] else map byte (col_name (pe_column p)))"

lemma pending_before_keys:
  "pending_before a b \<longleftrightarrow> key_rank (pe_kind a) < key_rank (pe_kind b) \<or> key_rank (pe_kind a) = key_rank (pe_kind b) \<and>
     (position_key a < position_key b \<or> position_key a = position_key b \<and> name_key a < name_key b)"
  by (simp add: pending_before_def Let_def position_key_def name_key_def text_before_less)

interpretation pending_order: strict_weak_order pending_before
proof
  show "pending_before x y \<Longrightarrow> \<not> pending_before y x" for x y
    unfolding pending_before_keys by auto
  show "\<not> pending_before x y \<Longrightarrow> \<not> pending_before y z \<Longrightarrow> \<not> pending_before x z" for x y z
    unfolding pending_before_keys by (auto simp: not_less)
qed

lemma key_rank_primary: "key_rank (pe_kind (pending_row res row)) < 2 \<longleftrightarrow> col_isPrimaryKey (pe_column (pending_row res row))"
  by (simp add: pending_row_def key_rank_def Let_def default_column_def)

lemma sorted_wrt_split:
  "sorted_wrt (\<lambda>x y. P x \<or> \<not> P y) xs \<Longrightarrow> xs = filter P xs @ filter (\<lambda>x. \<not> P x) xs"
proof (induction xs)
  case (Cons x xs)
  show ?case
  proof (cases "P x")
    case False
    with Cons.prems have "filter P xs = []" "filter (\<lambda>x. \<not> P x) xs = xs" by (auto simp: filter_empty_conv filter_id_conv)
    with False show ?thesis by simp
  qed (use Cons in auto)
qed simp

text \<open>
  Loading the columns of a table gives each row of the catalog once; the columns of the primary
  key come first, and the others follow in the order of their names.
\<close>

lemma cass_columns_key_first:
  "mset (sorted_columns res) = mset (map (\<lambda>row. pe_column (pending_row res row)) (cr_page res)) \<and>
   sorted_columns res = filter col_isPrimaryKey (sorted_columns res) @ filter (\<lambda>c. \<not> col_isPrimaryKey c) (sorted_columns res) \<and>
   sorted_wrt (\<lambda>a b. \<not> text_before (col_name b) (col_name a)) (filter (\<lambda>c. \<not> col_isPrimaryKey c) (sorted_columns res))"
proof -
  define ps where "ps = stable_sort_by pending_before (map (pending_row res) (cr_page res))"
  have cols: "sorted_columns res = map pe_column ps" by (simp add: sorted_columns_def ps_def)
  have sub: "set ps = pending_row res ` set (cr_page res)" by (simp add: ps_def pending_order.sort_set)
  have ranks: "key_rank (pe_kind p) < 2 \<longleftrightarrow> col_isPrimaryKey (pe_column p)" if "p \<in> set ps" for p
    using that key_rank_primary unfolding sub by auto
  have ord: "sorted_wrt (\<lambda>x y. \<not> pending_before y x) ps"
    using pending_order.sort_ordered unfolding ps_def pending_order.ordered_def .
  have "sorted_wrt (\<lambda>x y. (col_isPrimaryKey (pe_column x) \<or> \<not> col_isPrimaryKey (pe_column y)) \<and>
      (col_isPrimaryKey (pe_column x) \<or> col_isPrimaryKey (pe_column y) \<or>
        \<not> text_before (col_name (pe_column y)) (col_name (pe_column x)))) ps"
  proof (rule sorted_wrt_mono_rel [OF _ ord])
    fix x y
    assume xy: "x \<in> set ps" "y \<in> set ps" "\<not> pending_before y x"
    with ranks [OF xy(1)] ranks [OF xy(2)] show "(col_isPrimaryKey (pe_column x) \<or> \<not> col_isPrimaryKey (pe_column y)) \<and>
      (col_isPrimaryKey (pe_column x) \<or> col_isPrimaryKey (pe_column y) \<or>
        \<not> text_before (col_name (pe_column y)) (col_name (pe_column x)))"
      by (auto simp: pending_before_def Let_def key_rank_def split: if_splits)
  qed
  then have w: "sorted_wrt (\<lambda>x y. (col_isPrimaryKey x \<or> \<not> col_isPrimaryKey y) \<and>
      (col_isPrimaryKey x \<or> col_isPrimaryKey y \<or> \<not> text_before (col_name y) (col_name x))) (sorted_columns res)"
    by (simp add: cols sorted_wrt_map)
  have "sorted_columns res = filter col_isPrimaryKey (sorted_columns res) @ filter (\<lambda>c. \<not> col_isPrimaryKey c) (sorted_columns res)"
    by (rule sorted_wrt_split, rule sorted_wrt_mono_rel [OF _ w]) simp
  moreover have "sorted_wrt (\<lambda>a b. \<not> text_before (col_name b) (col_name a)) (filter (\<lambda>c. \<not> col_isPrimaryKey c) (sorted_columns res))"
    by (rule sorted_wrt_mono_rel [OF _ sorted_wrt_filter [OF w]]) auto
  moreover have "mset (sorted_columns res) = mset (map (\<lambda>row. pe_column (pending_row res row)) (cr_page res))"
    by (simp add: cols ps_def pending_order.sort_mset image_mset.compositionality comp_def)
  ultimately show ?thesis by blast
qed


section \<open>A server for runs\<close>

text \<open>
  Its session state is the keyspace; USE sets it unless the keyspace is gone, and anything else
  returns a page of at most 1500 rows that show the keyspace.
\<close>

definition ring :: "bytes Cass" where
  "ring = \<lparr>ca_file = \<lambda>path. None, ca_trust = \<lambda>pem. False, ca_connect = \<lambda>opts. Inr [],
     ca_execute = \<lambda>t size s.
       if t = use_text ''gone'' then (Inl ''no such keyspace'', s)
       else if starts_with t ''USE '' then (Inr \<lparr>cr_columns = [], cr_page = []\<rparr>, undouble dquote (butlast (drop 5 t)))
       else (Inr \<lparr>cr_columns = [''k''], cr_page = replicate (nat (min 1500 (case size of None \<Rightarrow> 5000 | Some n \<Rightarrow> n))) [Some (CText s)]\<rparr>, s)\<rparr>"

lemma c_str_clean: "CHR 0x00 \<notin> set s \<Longrightarrow> c_str s = s"
  by (auto simp: c_str_def takeWhile_eq_all_conv)

lemma set_double_char: "set (double_char q s) \<subseteq> set s"
  by (induction s) auto

lemma use_text_clean: "CHR 0x00 \<notin> set ks \<Longrightarrow> use_text ks = ''USE '' @ cass_quoteIdent ks"
  using set_double_char [of dquote ks] by (auto simp: use_text_def cass_quoteIdent_def intro!: c_str_clean)

lemma ring_keeps_keyspace: "keeps_keyspace ring id (\<lambda>t. \<not> starts_with t ''USE '')"
  unfolding keeps_keyspace_def
proof (intro conjI allI impI)
  fix ks size and s :: bytes
  assume ks: "CHR 0x00 \<notin> set ks"
  show "case ca_execute ring (use_text ks) size s of (Inl e, s1) \<Rightarrow> id s1 = id s | (Inr r, s1) \<Rightarrow> id s1 = ks"
    using undouble_double [of dquote ks]
    by (simp add: ring_def use_text_clean [OF ks] cass_quoteIdent_def starts_with_def butlast_append)
qed (auto simp: ring_def starts_with_def use_text_clean)

lemma ring_use:
  "ca_execute ring (use_text ''gone'') n s = (Inl ''no such keyspace'', s)"
  "ca_execute ring (use_text ''a'') n s = (Inr \<lparr>cr_columns = [], cr_page = []\<rparr>, ''a'')"
  by (simp_all add: ring_def use_text_clean cass_quoteIdent_def starts_with_def)

text \<open>What one SELECT returns, by the keyspace it ran in.\<close>

lemma ring_select:
  "cc_session c = Some s \<Longrightarrow> switch_keyspace ring ks s (cc_keyspace c) = (s1, active) \<Longrightarrow>
     cass_execute ring ''SELECT k FROM t'' L ks c =
       (\<lparr>qr_statements = [cass_result L \<lparr>cr_columns = [''k''],
           cr_page = replicate (nat (min 1500 (if L > 0 then L else 1000))) [Some (CText s1)]\<rparr>], qr_messages = []\<rparr>,
        c\<lparr>cc_session := Some s1, cc_keyspace := active\<rparr>)"
  using use_text_clean [of "''gone''"]
  by (simp add: cass_execute_def ring_def c_str_def starts_with_def cass_quoteIdent_def)

definition opened_ring :: "bytes CassConn" where
  "opened_ring = \<lparr>cc_info = cass_port (default_info\<lparr>ci_sslmode := VerifyFull\<rparr>), cc_session = Some [], cc_keyspace = [], cc_cache = []\<rparr>"

definition ringed :: "bytes CassConn" where
  "ringed = snd (cass_execute ring ''SELECT k FROM t'' 1 ''a'' opened_ring)"

lemma ringed_state: "cc_session ringed = Some ''a''" "cc_keyspace ringed = ''a''"
proof -
  have "switch_keyspace ring ''a'' [] (cc_keyspace opened_ring) = (''a'', ''a'')"
    using ring_use(2) by (simp add: switch_keyspace_def use_text_def opened_ring_def)
  from ring_select [OF _ this, of 1] show "cc_session ringed = Some ''a''" "cc_keyspace ringed = ''a''"
    by (simp_all add: ringed_def opened_ring_def)
qed

lemma ringed_reachable: "cass_reachable ring (\<lambda>t. \<not> starts_with t ''USE '') ringed"
proof -
  have "snd (cass_open ring (new_CassConn (default_info\<lparr>ci_sslmode := VerifyFull\<rparr>))) = opened_ring"
    by (simp add: cass_open_def new_CassConn_def applySslConfig_def ring_def opened_ring_def cass_port_def default_info_def)
  then have "cass_reachable ring (\<lambda>t. \<not> starts_with t ''USE '') opened_ring" by (metis cs_new cs_opened)
  then show ?thesis unfolding ringed_def by (rule cs_executed) (simp_all add: c_str_def starts_with_def)
qed

theorem cass_statement_keyspace_witness:
  "\<exists>s1 r s2. ca_execute ring (c_str ''SELECT k FROM t'') (Some 1000) s1 = (r, s2) \<and>
    (s1 = ''gone'' \<or> (\<exists>e. ca_execute ring (use_text ''gone'') None ''a'' = (Inl e, s1)) \<and> s1 = ''a'')"
  using cass_statement_keyspace [OF ringed_reachable ring_keeps_keyspace ringed_state(1), of "''gone''" "''SELECT k FROM t''" 0]
  by (fastforce simp: ringed_state)


section \<open>Where the backend departs from what it means to do\<close>

text \<open>
  Concrete runs: the strict TLS modes check no certificate; a text in a keyspace that is gone
  runs in the keyspace used last; a request for all rows returns the first thousand of a larger
  table; ALLOW FILTERING stands before ORDER BY and LIMIT, where CQL has it last; listing and
  counting on a closed connection give no table and zero rows.
\<close>

lemma cassandra_deviations:
  "applySslConfig ring (default_info\<lparr>ci_sslmode := VerifyFull, ci_sslCACertPath := ''ca.pem''\<rparr>) =
     Inr (Some \<lparr>ct_trusted = None, ct_verify = False\<rparr>) \<and>
   map sr_tableData (qr_statements (fst (cass_run ring ''gone'' ''SELECT k FROM t'' 1 ringed))) = [[[''a'']]] \<and>
   map (length \<circ> sr_tableData) (qr_statements (fst (cass_run ring ''a'' ''SELECT k FROM t'' 0 ringed))) = [1000] \<and>
   map (length \<circ> sr_tableData) (qr_statements (fst (cass_run ring ''a'' ''SELECT k FROM t'' 1200 ringed))) = [1200] \<and>
   cass_data_text ''a'' (default_table\<lparr>tbl_name := ''t''\<rparr>) 5 ''x = 1'' ''y'' =
     ''SELECT * FROM '' @ cass_path ''a'' ''t'' @ '' WHERE x = 1 ALLOW FILTERING ORDER BY y LIMIT 5'' \<and>
   fst (cass_tables ring ''a'' (cass_close ringed)) = [] \<and>
   fst (cass_getRowCount ring ''a'' (default_table\<lparr>tbl_name := ''t''\<rparr>) [] (cass_close ringed)) = 0"
proof -
  have stay: "switch_keyspace ring ''gone'' ''a'' (cc_keyspace ringed) = (''a'', ''a'')"
    "switch_keyspace ring ''a'' ''a'' (cc_keyspace ringed) = (''a'', ''a'')"
    using ring_use(1) by (simp_all add: switch_keyspace_def use_text_def ringed_state)
  have rows: "cass_run ring ''a'' ''SELECT k FROM t'' L ringed = (\<lparr>qr_statements = [cass_result L \<lparr>cr_columns = [''k''],
      cr_page = replicate (nat (min 1500 (if L > 0 then L else 1000))) [Some (CText ''a'')]\<rparr>], qr_messages = []\<rparr>,
      ringed\<lparr>cc_session := Some ''a'', cc_keyspace := ''a''\<rparr>)" for L
    unfolding cass_run_def by (rule ring_select [OF ringed_state(1) stay(2)])
  have "map sr_tableData (qr_statements (fst (cass_run ring ''gone'' ''SELECT k FROM t'' 1 ringed))) = [[[''a'']]]"
    unfolding cass_run_def ring_select [OF ringed_state(1) stay(1)]
    by (simp add: cass_result_def limited_def cassValueToString_def)
  moreover have "map (length \<circ> sr_tableData) (qr_statements (fst (cass_run ring ''a'' ''SELECT k FROM t'' 0 ringed))) = [1000]"
    "map (length \<circ> sr_tableData) (qr_statements (fst (cass_run ring ''a'' ''SELECT k FROM t'' 1200 ringed))) = [1200]"
    by (simp_all add: rows cass_result_def limited_def Let_def)
  moreover have "to_string 5 = ''5''" by (simp add: to_string_def nat_to_string.simps digit_char_eval)
  ultimately show ?thesis
    by (simp add: applySslConfig_def Let_def cass_data_text_def cass_filter_def default_table_def cass_tables_def runCql_def
        cass_close_def cass_getRowCount_def cass_execute_def qr_success_def cass_failure_def default_statement_def)
qed

lemmas cassandra_departures =
  cassandra_deviations [THEN conjunct1]
  cassandra_deviations [THEN conjunct2, THEN conjunct1]
  cassandra_deviations [THEN conjunct2, THEN conjunct2, THEN conjunct1]
  cassandra_deviations [THEN conjunct2, THEN conjunct2, THEN conjunct2, THEN conjunct1]
  cassandra_deviations [THEN conjunct2, THEN conjunct2, THEN conjunct2, THEN conjunct2, THEN conjunct1]
  cassandra_deviations [THEN conjunct2, THEN conjunct2, THEN conjunct2, THEN conjunct2, THEN conjunct2, THEN conjunct1]
  cassandra_deviations [THEN conjunct2, THEN conjunct2, THEN conjunct2, THEN conjunct2, THEN conjunct2, THEN conjunct2]

end
