(* ===== verification/Mongodb_Backend.thy ===== *)
theory Mongodb_Backend
  imports Value_Text Catalog_Reading
begin

text \<open>
  MongoDB (\<^verbatim>\<open>src/mongodb_connection.cpp\<close>): documents as text, the columns of a collection guessed from
  a sample, commands written as JSON, table data, and the connection with its pool and its cache of
  handles. The driver is a parameter over a server state \<open>'s\<close> and pools \<open>'p\<close>. The lemmas show what the
  guessed columns are, when a command is a success and which rows it shows, and which pool a handle
  works on.
\<close>


section \<open>Documents and their text\<close>

text \<open>Identifiers and decimals come with the text the driver prints for them; the other types are \<open>BOther\<close>.\<close>

datatype Bson =
    BString bytes
  | BInt32 int
  | BInt64 int
  | BDouble Double
  | BBool bool
  | BOid bytes
  | BDate int
  | BNull
  | BDecimal bytes
  | BBinary bytes
  | BDoc "(bytes \<times> Bson) list"
  | BArray "Bson list"
  | BOther bytes

type_synonym Document = "(bytes \<times> Bson) list"

record FindOptions =
  fo_limit :: int
  fo_skip :: int
  fo_sort :: "Document option"

text \<open>
  The driver: reading and printing JSON, the texts of its type errors, opening a pool and taking a
  client from it, and the operations on a server, database and collection. A cursor gives documents
  and possibly an error after them.
\<close>

record ('p, 's) Mongo =
  mg_from_json :: "bytes \<Rightarrow> bytes + Document"
  mg_to_json :: "Bson \<Rightarrow> bytes + bytes"
  mg_wrong_type :: bytes
  mg_unset :: bytes
  mg_pool :: "bytes \<Rightarrow> 's \<Rightarrow> (bytes + 'p) \<times> 's"
  mg_acquire :: "'p \<Rightarrow> 's \<Rightarrow> bytes option \<times> 's"
  mg_databases :: "'p \<Rightarrow> 's \<Rightarrow> (bytes + bytes list) \<times> 's"
  mg_collections :: "'p \<Rightarrow> bytes \<Rightarrow> 's \<Rightarrow> (bytes + bytes list) \<times> 's"
  mg_find :: "'p \<Rightarrow> bytes \<Rightarrow> bytes \<Rightarrow> Document \<Rightarrow> FindOptions \<Rightarrow> 's \<Rightarrow> (Document list \<times> bytes option) \<times> 's"
  mg_aggregate :: "'p \<Rightarrow> bytes \<Rightarrow> bytes \<Rightarrow> Document list \<Rightarrow> 's \<Rightarrow> (Document list \<times> bytes option) \<times> 's"
  mg_indexes :: "'p \<Rightarrow> bytes \<Rightarrow> bytes \<Rightarrow> 's \<Rightarrow> (Document list \<times> bytes option) \<times> 's"
  mg_insert_one :: "'p \<Rightarrow> bytes \<Rightarrow> bytes \<Rightarrow> Document \<Rightarrow> 's \<Rightarrow> bytes option \<times> 's"
  mg_insert_many :: "'p \<Rightarrow> bytes \<Rightarrow> bytes \<Rightarrow> Document list \<Rightarrow> 's \<Rightarrow> (bytes + int option) \<times> 's"
  mg_update_many :: "'p \<Rightarrow> bytes \<Rightarrow> bytes \<Rightarrow> Document \<Rightarrow> Document \<Rightarrow> 's \<Rightarrow> (bytes + int option) \<times> 's"
  mg_delete_many :: "'p \<Rightarrow> bytes \<Rightarrow> bytes \<Rightarrow> Document \<Rightarrow> 's \<Rightarrow> (bytes + int option) \<times> 's"
  mg_count :: "'p \<Rightarrow> bytes \<Rightarrow> bytes \<Rightarrow> Document \<Rightarrow> 's \<Rightarrow> (bytes + int) \<times> 's"
  mg_create :: "'p \<Rightarrow> bytes \<Rightarrow> bytes \<Rightarrow> 's \<Rightarrow> bytes option \<times> 's"
  mg_drop :: "'p \<Rightarrow> bytes \<Rightarrow> bytes \<Rightarrow> 's \<Rightarrow> bytes option \<times> 's"
  mg_run_command :: "'p \<Rightarrow> bytes \<Rightarrow> Document \<Rightarrow> 's \<Rightarrow> (bytes + Document) \<times> 's"
  mg_drop_database :: "'p \<Rightarrow> bytes \<Rightarrow> 's \<Rightarrow> bytes option \<times> 's"

text \<open>What a call may throw: the library's \<^verbatim>\<open>Error\<close>, or an exception of the driver.\<close>

datatype Thrown = ThrownError bytes | ThrownDriver bytes

text \<open>An element as text; only nested documents and arrays can fail to print.\<close>

definition bsonElementToString :: "('p, 's) Mongo \<Rightarrow> Bson option \<Rightarrow> bytes + bytes" where
  "bsonElementToString lib elem =
     (case elem of
        None \<Rightarrow> Inr []
      | Some (BString s) \<Rightarrow> Inr s
      | Some (BInt32 i) \<Rightarrow> Inr (to_string i)
      | Some (BInt64 i) \<Rightarrow> Inr (to_string i)
      | Some (BDouble d) \<Rightarrow> Inr (double_to_string d)
      | Some (BBool b) \<Rightarrow> Inr (if b then BOOL_TRUE_SENTINEL else BOOL_FALSE_SENTINEL)
      | Some (BOid t) \<Rightarrow> Inr t
      | Some (BDate ms) \<Rightarrow> Inr (utc_text ms)
      | Some BNull \<Rightarrow> Inr NULL_SENTINEL
      | Some (BDecimal t) \<Rightarrow> Inr t
      | Some (BDoc d) \<Rightarrow> mg_to_json lib (BDoc d)
      | Some (BArray a) \<Rightarrow> mg_to_json lib (BArray a)
      | Some v \<Rightarrow> (case mg_to_json lib (BDoc [(''v'', v)]) of Inl e \<Rightarrow> Inr ''<unknown>'' | Inr t \<Rightarrow> Inr t))"

definition is_string :: "Bson option \<Rightarrow> bool" where
  "is_string v = (case v of Some (BString s) \<Rightarrow> True | _ \<Rightarrow> False)"

definition bson_string :: "('p, 's) Mongo \<Rightarrow> Bson option \<Rightarrow> bytes + bytes" where
  "bson_string lib v = (case v of None \<Rightarrow> Inl (mg_unset lib) | Some (BString s) \<Rightarrow> Inr s | Some _ \<Rightarrow> Inl (mg_wrong_type lib))"

definition get_document :: "('p, 's) Mongo \<Rightarrow> Bson option \<Rightarrow> bytes + Document" where
  "get_document lib v = (case v of None \<Rightarrow> Inl (mg_unset lib) | Some (BDoc d) \<Rightarrow> Inr d | Some _ \<Rightarrow> Inl (mg_wrong_type lib))"

definition get_array :: "('p, 's) Mongo \<Rightarrow> Bson option \<Rightarrow> bytes + Bson list" where
  "get_array lib v = (case v of None \<Rightarrow> Inl (mg_unset lib) | Some (BArray a) \<Rightarrow> Inr a | Some _ \<Rightarrow> Inl (mg_wrong_type lib))"

fun documents_of :: "('p, 's) Mongo \<Rightarrow> Bson list \<Rightarrow> bytes + Document list" where
  "documents_of lib [] = Inr []"
| "documents_of lib (v # vs) =
     (case get_document lib (Some v) of
        Inl e \<Rightarrow> Inl e
      | Inr d \<Rightarrow> (case documents_of lib vs of Inl e \<Rightarrow> Inl e | Inr ds \<Rightarrow> Inr (d # ds)))"


section \<open>Columns from a sample\<close>

fun bson_type :: "Bson \<Rightarrow> bytes" where
  "bson_type (BDouble d) = ''double''"
| "bson_type (BString s) = ''string''"
| "bson_type (BDoc d) = ''object''"
| "bson_type (BArray a) = ''array''"
| "bson_type (BBinary b) = ''binary''"
| "bson_type (BOid t) = ''objectId''"
| "bson_type (BBool b) = ''bool''"
| "bson_type (BDate ms) = ''date''"
| "bson_type BNull = ''null''"
| "bson_type (BInt32 i) = ''int32''"
| "bson_type (BInt64 i) = ''int64''"
| "bson_type (BDecimal t) = ''decimal128''"
| "bson_type (BOther t) = ''unknown''"

definition sample_column :: "bytes \<Rightarrow> Bson \<Rightarrow> Column" where
  "sample_column name v =
     default_column\<lparr>col_name := name, col_type := bson_type v,
       col_isPrimaryKey := (name = ''_id''), col_isNotNull := (name = ''_id'')\<rparr>"

text \<open>The fields not seen before, of one document and of all.\<close>

fun sample_fields :: "bytes list \<Rightarrow> Document \<Rightarrow> Column list \<times> bytes list" where
  "sample_fields seen [] = ([], seen)"
| "sample_fields seen ((name, v) # fs) =
     (if name \<in> set seen then sample_fields seen fs
      else let (cs, seen1) = sample_fields (name # seen) fs in (sample_column name v # cs, seen1))"

fun sample_documents :: "bytes list \<Rightarrow> Document list \<Rightarrow> Column list" where
  "sample_documents seen [] = []"
| "sample_documents seen (d # ds) = (let (cs, seen1) = sample_fields seen d in cs @ sample_documents seen1 ds)"

definition field_before :: "Column \<Rightarrow> Column \<Rightarrow> bool" where
  "field_before a b =
     (if col_name a = ''_id'' then True else if col_name b = ''_id'' then False else text_before (col_name a) (col_name b))"

text \<open>A cursor that fails leaves the columns found so far, in the order of the documents.\<close>

definition inferred :: "Document list \<times> bytes option \<Rightarrow> Column list" where
  "inferred found =
     (let cols = sample_documents [] (fst found)
      in if snd found = None then stable_sort_by field_before cols else cols)"

definition inferSchemaFromSample :: "('p, 's) Mongo \<Rightarrow> 'p \<Rightarrow> bytes \<Rightarrow> bytes \<Rightarrow> int \<Rightarrow> 's \<Rightarrow> Column list \<times> 's" where
  "inferSchemaFromSample lib p db coll sampleSize s =
     (case mg_find lib p db coll [] \<lparr>fo_limit = sampleSize, fo_skip = 0, fo_sort = None\<rparr> s of
        (found, s1) \<Rightarrow> (inferred found, s1))"


section \<open>Indexes\<close>

definition mongo_index :: "('p, 's) Mongo \<Rightarrow> Document \<Rightarrow> bytes + Index" where
  "mongo_index lib doc =
     (case (case map_of doc ''name'' of None \<Rightarrow> Inr [] | Some v \<Rightarrow> bson_string lib (Some v)) of
        Inl e \<Rightarrow> Inl e
      | Inr name \<Rightarrow> Inr \<lparr>idx_name = name,
          idx_columns = (case map_of doc ''key'' of Some (BDoc ks) \<Rightarrow> map fst ks | _ \<Rightarrow> []),
          idx_isUnique = (name = ''_id_'' \<or> (case map_of doc ''unique'' of Some (BBool b) \<Rightarrow> b | _ \<Rightarrow> False)),
          idx_isPrimary = (name = ''_id_''), idx_type = []\<rparr>)"

text \<open>The first one that cannot be read ends the list.\<close>

fun mongo_indexes :: "('p, 's) Mongo \<Rightarrow> Document list \<Rightarrow> Index list" where
  "mongo_indexes lib [] = []"
| "mongo_indexes lib (d # ds) = (case mongo_index lib d of Inl e \<Rightarrow> [] | Inr i \<Rightarrow> i # mongo_indexes lib ds)"

definition getCollectionIndexes :: "('p, 's) Mongo \<Rightarrow> 'p \<Rightarrow> bytes \<Rightarrow> bytes \<Rightarrow> 's \<Rightarrow> Index list \<times> 's" where
  "getCollectionIndexes lib p db coll s = (case mg_indexes lib p db coll s of (found, s1) \<Rightarrow> (mongo_indexes lib (fst found), s1))"


section \<open>Collections as tables\<close>

text \<open>A handle: its pool, the name of its connection and its own.\<close>

record 'p MongoDb =
  mh_pool :: "'p option"
  mh_conn :: bytes
  mh_name :: bytes

definition mongo_named :: "'p MongoDb \<Rightarrow> bytes \<Rightarrow> Table" where
  "mongo_named h coll = default_table\<lparr>tbl_name := coll, tbl_fullName := mh_conn h @ ''.'' @ mh_name h @ ''.'' @ coll\<rparr>"

definition mongo_table :: "('p, 's) Mongo \<Rightarrow> 'p MongoDb \<Rightarrow> 'p \<Rightarrow> bytes \<Rightarrow> 's \<Rightarrow> Table \<times> 's" where
  "mongo_table lib h p coll s =
     (case inferSchemaFromSample lib p (mh_name h) coll 100 s of (cols, s1) \<Rightarrow>
      case getCollectionIndexes lib p (mh_name h) coll s1 of (idxs, s2) \<Rightarrow>
        ((mongo_named h coll)\<lparr>tbl_columns := cols, tbl_indexes := idxs\<rparr>, s2))"

fun mongo_table_list :: "('p, 's) Mongo \<Rightarrow> 'p MongoDb \<Rightarrow> 'p \<Rightarrow> bytes list \<Rightarrow> 's \<Rightarrow> Table list \<times> 's" where
  "mongo_table_list lib h p [] s = ([], s)"
| "mongo_table_list lib h p (n # ns) s =
     (if starts_with n ''system.'' then mongo_table_list lib h p ns s
      else case mongo_table lib h p n s of (t, s1) \<Rightarrow>
           case mongo_table_list lib h p ns s1 of (ts, s2) \<Rightarrow> (t # ts, s2))"

definition mongo_tables :: "('p, 's) Mongo \<Rightarrow> 'p MongoDb \<Rightarrow> 's \<Rightarrow> (Thrown + Table list) \<times> 's" where
  "mongo_tables lib h s =
     (case mh_pool h of
        None \<Rightarrow> (Inr [], s)
      | Some p \<Rightarrow> (case mg_acquire lib p s of
            (Some e, s1) \<Rightarrow> (Inl (ThrownError e), s1)
          | (None, s1) \<Rightarrow> (case mg_collections lib p (mh_name h) s1 of
                (Inl e, s2) \<Rightarrow> (Inl (ThrownError e), s2)
              | (Inr names, s2) \<Rightarrow> (case mongo_table_list lib h p names s2 of (ts, s3) \<Rightarrow> (Inr ts, s3)))))"

definition mongo_describeTable :: "('p, 's) Mongo \<Rightarrow> 'p MongoDb \<Rightarrow> bytes \<Rightarrow> 's \<Rightarrow> (Thrown + Table) \<times> 's" where
  "mongo_describeTable lib h coll s =
     (case mh_pool h of
        None \<Rightarrow> (Inr (mongo_named h coll), s)
      | Some p \<Rightarrow> (case mg_acquire lib p s of
            (Some e, s1) \<Rightarrow> (Inl (ThrownError e), s1)
          | (None, s1) \<Rightarrow> (case mongo_table lib h p coll s1 of (t, s2) \<Rightarrow> (Inr t, s2))))"


section \<open>Commands\<close>

text \<open>What a command leaves of its statement result when an exception ends it.\<close>

definition failed_with :: "bytes \<Rightarrow> StatementResult \<Rightarrow> StatementResult" where
  "failed_with e st = st\<lparr>sr_success := False, sr_errorMessage := e\<rparr>"

definition plural_documents :: "bytes \<Rightarrow> int \<Rightarrow> bytes" where
  "plural_documents verb n = verb @ '' '' @ to_string n @ '' document'' @ (if n = 1 then [] else ''s'')"

text \<open>Rows up to the first document that does not print.\<close>

fun printed_rows :: "(Document \<Rightarrow> bytes + bytes list) \<Rightarrow> Document list \<Rightarrow> bytes list list \<times> bytes option" where
  "printed_rows show_doc [] = ([], None)"
| "printed_rows show_doc (d # ds) =
     (case show_doc d of
        Inl e \<Rightarrow> ([], Some e)
      | Inr row \<Rightarrow> (case printed_rows show_doc ds of (rest, err) \<Rightarrow> (row # rest, err)))"

definition find_row :: "('p, 's) Mongo \<Rightarrow> Document \<Rightarrow> bytes + bytes list" where
  "find_row lib d =
     (case (case map_of d ''_id'' of None \<Rightarrow> Inr [] | Some v \<Rightarrow> mg_to_json lib (BDoc [(''_id'', v)])) of
        Inl e \<Rightarrow> Inl e
      | Inr key \<Rightarrow> (case mg_to_json lib (BDoc d) of Inl e \<Rightarrow> Inl e | Inr t \<Rightarrow> Inr [key, t]))"

definition document_row :: "('p, 's) Mongo \<Rightarrow> Document \<Rightarrow> bytes + bytes list" where
  "document_row lib d = (case mg_to_json lib (BDoc d) of Inl e \<Rightarrow> Inl e | Inr t \<Rightarrow> Inr [t])"

text \<open>The rows of a cursor; an error of the cursor comes after its documents.\<close>

definition cursor_result :: "(Document \<Rightarrow> bytes + bytes list) \<Rightarrow> bytes list \<Rightarrow> Document list \<times> bytes option \<Rightarrow> StatementResult" where
  "cursor_result show_doc names found =
     (case printed_rows show_doc (fst found) of (shown, err) \<Rightarrow>
        let st = default_statement\<lparr>sr_columnNames := names, sr_tableData := shown\<rparr>
        in case (case err of Some e \<Rightarrow> Some e | None \<Rightarrow> snd found) of
             Some e \<Rightarrow> failed_with e st
           | None \<Rightarrow> st\<lparr>sr_message := plural_documents ''Returned'' (int (length shown))\<rparr>)"

definition find_command :: "('p, 's) Mongo \<Rightarrow> 'p \<Rightarrow> bytes \<Rightarrow> bytes \<Rightarrow> int \<Rightarrow> Document \<Rightarrow> 's \<Rightarrow> StatementResult \<times> 's" where
  "find_command lib p db coll rowLimit view s =
     (case (case map_of view ''filter'' of None \<Rightarrow> Inr [] | Some v \<Rightarrow> get_document lib (Some v)) of
        Inl e \<Rightarrow> (failed_with e default_statement, s)
      | Inr flt \<Rightarrow> (case mg_find lib p db coll flt \<lparr>fo_limit = rowLimit, fo_skip = 0, fo_sort = None\<rparr> s of
            (found, s1) \<Rightarrow> (cursor_result (find_row lib) [''_id'', ''document''] found, s1)))"

definition aggregate_command :: "('p, 's) Mongo \<Rightarrow> 'p \<Rightarrow> bytes \<Rightarrow> bytes \<Rightarrow> Document \<Rightarrow> 's \<Rightarrow> StatementResult \<times> 's" where
  "aggregate_command lib p db coll view s =
     (case (case map_of view ''pipeline'' of
              None \<Rightarrow> Inr []
            | Some v \<Rightarrow> (case get_array lib (Some v) of Inl e \<Rightarrow> Inl e | Inr stages \<Rightarrow> documents_of lib stages)) of
        Inl e \<Rightarrow> (failed_with e default_statement, s)
      | Inr stages \<Rightarrow> (case mg_aggregate lib p db coll stages s of
            (found, s1) \<Rightarrow> (cursor_result (document_row lib) [''document''] found, s1)))"

text \<open>A count of the driver, if it reports one, as a 32-bit integer.\<close>

definition count_of :: "int option \<Rightarrow> int" where
  "count_of r = (case r of None \<Rightarrow> 0 | Some n \<Rightarrow> to_int32 n)"

definition inserted :: "int \<Rightarrow> StatementResult" where
  "inserted n = default_statement\<lparr>sr_affectedRows := n, sr_message := ''Insert executed successfully''\<rparr>"

definition insert_command :: "('p, 's) Mongo \<Rightarrow> 'p \<Rightarrow> bytes \<Rightarrow> bytes \<Rightarrow> Document \<Rightarrow> 's \<Rightarrow> StatementResult \<times> 's" where
  "insert_command lib p db coll view s =
     (case map_of view ''document'' of
        Some v \<Rightarrow> (case get_document lib (Some v) of
            Inl e \<Rightarrow> (failed_with e default_statement, s)
          | Inr d \<Rightarrow> (case mg_insert_one lib p db coll d s of
                (Some e, s1) \<Rightarrow> (failed_with e default_statement, s1)
              | (None, s1) \<Rightarrow> (inserted 1, s1)))
      | None \<Rightarrow> (case map_of view ''documents'' of
            None \<Rightarrow> (inserted 0, s)
          | Some v \<Rightarrow> (case (case get_array lib (Some v) of Inl e \<Rightarrow> Inl e | Inr vs \<Rightarrow> documents_of lib vs) of
                Inl e \<Rightarrow> (failed_with e default_statement, s)
              | Inr ds \<Rightarrow> (case mg_insert_many lib p db coll ds s of
                    (Inl e, s1) \<Rightarrow> (failed_with e default_statement, s1)
                  | (Inr r, s1) \<Rightarrow> (inserted (count_of r), s1)))))"

definition changed :: "bytes \<Rightarrow> bytes + int option \<Rightarrow> StatementResult" where
  "changed verb r =
     (case r of
        Inl e \<Rightarrow> failed_with e default_statement
      | Inr n \<Rightarrow> default_statement\<lparr>sr_affectedRows := count_of n, sr_message := plural_documents verb (count_of n)\<rparr>)"

definition update_command :: "('p, 's) Mongo \<Rightarrow> 'p \<Rightarrow> bytes \<Rightarrow> bytes \<Rightarrow> Document \<Rightarrow> 's \<Rightarrow> StatementResult \<times> 's" where
  "update_command lib p db coll view s =
     (case get_document lib (map_of view ''filter'') of
        Inl e \<Rightarrow> (failed_with e default_statement, s)
      | Inr flt \<Rightarrow> (case get_document lib (map_of view ''update'') of
            Inl e \<Rightarrow> (failed_with e default_statement, s)
          | Inr upd \<Rightarrow> (case mg_update_many lib p db coll flt upd s of (r, s1) \<Rightarrow> (changed ''Updated'' r, s1))))"

definition delete_command :: "('p, 's) Mongo \<Rightarrow> 'p \<Rightarrow> bytes \<Rightarrow> bytes \<Rightarrow> Document \<Rightarrow> 's \<Rightarrow> StatementResult \<times> 's" where
  "delete_command lib p db coll view s =
     (case get_document lib (map_of view ''filter'') of
        Inl e \<Rightarrow> (failed_with e default_statement, s)
      | Inr flt \<Rightarrow> (case mg_delete_many lib p db coll flt s of (r, s1) \<Rightarrow> (changed ''Deleted'' r, s1)))"

definition done_or :: "bytes \<Rightarrow> bytes option \<Rightarrow> StatementResult" where
  "done_or message r = (case r of Some e \<Rightarrow> failed_with e default_statement | None \<Rightarrow> default_statement\<lparr>sr_message := message\<rparr>)"

definition command_result :: "('p, 's) Mongo \<Rightarrow> bytes + Document \<Rightarrow> StatementResult" where
  "command_result lib r =
     (case r of
        Inl e \<Rightarrow> failed_with e default_statement
      | Inr d \<Rightarrow> (case mg_to_json lib (BDoc d) of
            Inl e \<Rightarrow> failed_with e (default_statement\<lparr>sr_columnNames := [''result'']\<rparr>)
          | Inr t \<Rightarrow> default_statement\<lparr>sr_columnNames := [''result''], sr_tableData := [[t]],
              sr_message := ''Command executed successfully''\<rparr>))"

definition runCommand :: "('p, 's) Mongo \<Rightarrow> 'p \<Rightarrow> bytes \<Rightarrow> Document \<Rightarrow> 's \<Rightarrow> StatementResult \<times> 's" where
  "runCommand lib p db view s =
     (case map_of view ''commandDoc'' of
        None \<Rightarrow> (default_statement, s)
      | Some v \<Rightarrow> (case get_document lib (Some v) of
            Inl e \<Rightarrow> (failed_with e default_statement, s)
          | Inr d \<Rightarrow> (case mg_run_command lib p db d s of (r, s1) \<Rightarrow> (command_result lib r, s1))))"

definition string_or :: "bytes \<Rightarrow> Bson option \<Rightarrow> bytes" where
  "string_or otherwise v = (case v of Some (BString s) \<Rightarrow> s | _ \<Rightarrow> otherwise)"

text \<open>The wrapper form: the command, and the collection where it needs one.\<close>

definition wrapped_command :: "('p, 's) Mongo \<Rightarrow> 'p \<Rightarrow> bytes \<Rightarrow> int \<Rightarrow> Document \<Rightarrow> 's \<Rightarrow> StatementResult \<times> 's" where
  "wrapped_command lib p name rowLimit view s =
     (let db = string_or name (map_of view ''database''); coll = string_or [] (map_of view ''collection'');
          command = string_or ''find'' (map_of view ''command'')
      in if command = ''find'' \<and> coll \<noteq> [] then find_command lib p db coll rowLimit view s
         else if command = ''aggregate'' \<and> coll \<noteq> [] then aggregate_command lib p db coll view s
         else if command = ''insert'' \<and> coll \<noteq> [] then insert_command lib p db coll view s
         else if command = ''update'' \<and> coll \<noteq> [] then update_command lib p db coll view s
         else if command = ''delete'' \<and> coll \<noteq> [] then delete_command lib p db coll view s
         else if command = ''createCollection'' \<and> coll \<noteq> []
         then (case mg_create lib p db coll s of (r, s1) \<Rightarrow> (done_or ''Collection created successfully'' r, s1))
         else if command = ''dropCollection'' \<and> coll \<noteq> []
         then (case mg_drop lib p db coll s of (r, s1) \<Rightarrow> (done_or ''Collection dropped successfully'' r, s1))
         else if command = ''runCommand'' then runCommand lib p db view s
         else (failed_with ''Unknown command or missing collection name'' default_statement, s))"

definition mongo_statement :: "('p, 's) Mongo \<Rightarrow> 'p MongoDb \<Rightarrow> bytes \<Rightarrow> int \<Rightarrow> 's \<Rightarrow> StatementResult \<times> 's" where
  "mongo_statement lib h sql rowLimit s =
     (case mh_pool h of
        None \<Rightarrow> (failed_with ''Not connected'' default_statement, s)
      | Some p \<Rightarrow> (case mg_from_json lib sql of
            Inl e \<Rightarrow> (failed_with (''Invalid JSON command: '' @ e) default_statement, s)
          | Inr view \<Rightarrow> (case mg_acquire lib p s of
                (Some e, s1) \<Rightarrow> (failed_with e default_statement, s1)
              | (None, s1) \<Rightarrow>
                  if is_string (map_of view ''command'') then wrapped_command lib p (mh_name h) rowLimit view s1
                  else (case mg_run_command lib p (mh_name h) view s1 of (r, s2) \<Rightarrow> (command_result lib r, s2)))))"

definition mongo_execute :: "('p, 's) Mongo \<Rightarrow> 'p MongoDb \<Rightarrow> bytes \<Rightarrow> int \<Rightarrow> 's \<Rightarrow> QueryResult \<times> 's" where
  "mongo_execute lib h sql rowLimit s =
     (case mongo_statement lib h sql rowLimit s of (st, s1) \<Rightarrow> (\<lparr>qr_statements = [st], qr_messages = []\<rparr>, s1))"


section \<open>Table data\<close>

definition mongo_getColumnNames :: "('p, 's) Mongo \<Rightarrow> 'p MongoDb \<Rightarrow> Table \<Rightarrow> 's \<Rightarrow> (Thrown + bytes list) \<times> 's" where
  "mongo_getColumnNames lib h table s =
     (if tbl_columns table \<noteq> [] then (Inr (map col_name (tbl_columns table)), s)
      else case mh_pool h of
          None \<Rightarrow> (Inr [''_id'', ''document''], s)
        | Some p \<Rightarrow> (case mg_acquire lib p s of
              (Some e, s1) \<Rightarrow> (Inl (ThrownError e), s1)
            | (None, s1) \<Rightarrow> (case inferSchemaFromSample lib p (mh_name h) (tbl_name table) 100 s1 of (cols, s2) \<Rightarrow>
                (Inr (if cols \<noteq> [] then map col_name cols else [''_id'', ''document'']), s2))))"

text \<open>A filter that is not JSON is no filter.\<close>

definition filter_document :: "('p, 's) Mongo \<Rightarrow> bytes \<Rightarrow> Document" where
  "filter_document lib whereClause =
     (if whereClause = [] then [] else case mg_from_json lib whereClause of Inl e \<Rightarrow> [] | Inr d \<Rightarrow> d)"

definition sort_document :: "('p, 's) Mongo \<Rightarrow> bytes \<Rightarrow> Document option" where
  "sort_document lib orderByClause =
     (if orderByClause = [] then None else case mg_from_json lib orderByClause of Inl e \<Rightarrow> None | Inr d \<Rightarrow> Some d)"

fun element_cells :: "('p, 's) Mongo \<Rightarrow> Document \<Rightarrow> bytes list \<Rightarrow> bytes + bytes list" where
  "element_cells lib d [] = Inr []"
| "element_cells lib d (n # ns) =
     (case bsonElementToString lib (map_of d n) of
        Inl e \<Rightarrow> Inl e
      | Inr cell \<Rightarrow> (case element_cells lib d ns of Inl e \<Rightarrow> Inl e | Inr cells \<Rightarrow> Inr (cell # cells)))"

definition thrown_text :: "Thrown \<Rightarrow> bytes" where
  "thrown_text t = (case t of ThrownError e \<Rightarrow> e | ThrownDriver e \<Rightarrow> e)"

definition mongo_getTableData ::
    "('p, 's) Mongo \<Rightarrow> 'p MongoDb \<Rightarrow> Table \<Rightarrow> int \<Rightarrow> int \<Rightarrow> bytes \<Rightarrow> bytes \<Rightarrow> 's \<Rightarrow> (Thrown + bytes list list) \<times> 's" where
  "mongo_getTableData lib h table limit offset whereClause orderByClause s =
     (case mh_pool h of
        None \<Rightarrow> (Inr [], s)
      | Some p \<Rightarrow> (case mg_acquire lib p s of
            (Some e, s1) \<Rightarrow> (Inl (ThrownError e), s1)
          | (None, s1) \<Rightarrow> (case mongo_getColumnNames lib h table s1 of
                (Inl t, s2) \<Rightarrow> (Inl (ThrownError (thrown_text t)), s2)
              | (Inr names, s2) \<Rightarrow>
                  (case mg_find lib p (mh_name h) (tbl_name table) (filter_document lib whereClause)
                      \<lparr>fo_limit = limit, fo_skip = offset, fo_sort = sort_document lib orderByClause\<rparr> s2 of
                    (found, s3) \<Rightarrow>
                      (case printed_rows (\<lambda>d. element_cells lib d names) (fst found) of
                         (cells, Some e) \<Rightarrow> (Inl (ThrownError e), s3)
                       | (cells, None) \<Rightarrow> (case snd found of
                             Some e \<Rightarrow> (Inl (ThrownError e), s3) | None \<Rightarrow> (Inr cells, s3)))))))"

text \<open>Counting passes on what the driver throws.\<close>

definition mongo_getRowCount :: "('p, 's) Mongo \<Rightarrow> 'p MongoDb \<Rightarrow> Table \<Rightarrow> bytes \<Rightarrow> 's \<Rightarrow> (Thrown + int) \<times> 's" where
  "mongo_getRowCount lib h table whereClause s =
     (case mh_pool h of
        None \<Rightarrow> (Inr 0, s)
      | Some p \<Rightarrow> (case mg_acquire lib p s of
            (Some e, s1) \<Rightarrow> (Inl (ThrownDriver e), s1)
          | (None, s1) \<Rightarrow> (case mg_count lib p (mh_name h) (tbl_name table) (filter_document lib whereClause) s1 of
                (Inl e, s2) \<Rightarrow> (Inl (ThrownDriver e), s2)
              | (Inr n, s2) \<Rightarrow> (Inr (to_int32 n), s2))))"

text \<open>An operation of the pool, as a status.\<close>

definition pool_status :: "('p, 's) Mongo \<Rightarrow> ('p \<Rightarrow> 's \<Rightarrow> bytes option \<times> 's) \<Rightarrow> 'p option \<Rightarrow> 's \<Rightarrow> Status \<times> 's" where
  "pool_status lib f pool s =
     (case pool of
        None \<Rightarrow> ((False, ''Not connected''), s)
      | Some p \<Rightarrow> (case mg_acquire lib p s of
            (Some e, s1) \<Rightarrow> ((False, e), s1)
          | (None, s1) \<Rightarrow> (case f p s1 of (Some e, s2) \<Rightarrow> ((False, e), s2) | (None, s2) \<Rightarrow> ((True, []), s2))))"

definition mongo_createTable :: "('p, 's) Mongo \<Rightarrow> 'p MongoDb \<Rightarrow> Table \<Rightarrow> 's \<Rightarrow> Status \<times> 's" where
  "mongo_createTable lib h table s = pool_status lib (\<lambda>p. mg_create lib p (mh_name h) (tbl_name table)) (mh_pool h) s"

definition mongo_dropTable :: "('p, 's) Mongo \<Rightarrow> 'p MongoDb \<Rightarrow> bytes \<Rightarrow> 's \<Rightarrow> Status \<times> 's" where
  "mongo_dropTable lib h tableName s = pool_status lib (\<lambda>p. mg_drop lib p (mh_name h) tableName) (mh_pool h) s"


section \<open>The connection\<close>

text \<open>\<open>mc_given\<close> are the settings \<^verbatim>\<open>info()\<close> shows, \<open>mc_info\<close> those that are used.\<close>

record 'p MongoConn =
  mc_given :: ConnectionInfo
  mc_info :: ConnectionInfo
  mc_pool :: "'p option"
  mc_open :: bool
  mc_cache :: "(bytes \<times> 'p MongoDb) list"

definition mongo_port :: "ConnectionInfo \<Rightarrow> ConnectionInfo" where
  "mongo_port info = (if ci_port info = 0 \<or> ci_port info = 5432 then info\<lparr>ci_port := 27017\<rparr> else info)"

definition new_MongoConn :: "ConnectionInfo \<Rightarrow> 'p MongoConn" where
  "new_MongoConn info = \<lparr>mc_given = info, mc_info = mongo_port info, mc_pool = None, mc_open = False, mc_cache = []\<rparr>"

definition mongo_open_failed :: "bytes \<Rightarrow> 'p MongoConn \<Rightarrow> Status \<times> 'p MongoConn" where
  "mongo_open_failed e c = ((False, ''MongoDB connection failed: '' @ e), c\<lparr>mc_pool := None, mc_open := False\<rparr>)"

definition mongo_open :: "('p, 's) Mongo \<Rightarrow> 'p MongoConn \<Rightarrow> 's \<Rightarrow> (Status \<times> 'p MongoConn) \<times> 's" where
  "mongo_open lib c s =
     (case mg_pool lib (buildConnectionString (mc_info c) []) s of
        (Inl e, s1) \<Rightarrow> (mongo_open_failed e c, s1)
      | (Inr p, s1) \<Rightarrow> (case mg_acquire lib p s1 of
            (Some e, s2) \<Rightarrow> (mongo_open_failed e c, s2)
          | (None, s2) \<Rightarrow> (case mg_databases lib p s2 of
                (Inl e, s3) \<Rightarrow> (mongo_open_failed e c, s3)
              | (Inr names, s3) \<Rightarrow> (((True, []), c\<lparr>mc_pool := Some p, mc_open := True\<rparr>), s3))))"

definition mongo_close :: "'p MongoConn \<Rightarrow> 'p MongoConn" where
  "mongo_close c = c\<lparr>mc_cache := [], mc_pool := None, mc_open := False\<rparr>"

definition mongo_isOpen :: "'p MongoConn \<Rightarrow> bool" where
  "mongo_isOpen c = mc_open c"

definition mongo_database :: "bytes \<Rightarrow> 'p MongoConn \<Rightarrow> 'p MongoDb option \<times> 'p MongoConn" where
  "mongo_database name c =
     (let n0 = (if name = [] then ci_database (mc_info c) else name); n = (if n0 = [] then ''test'' else n0)
      in case mc_pool c of
           None \<Rightarrow> (None, c)
         | Some p \<Rightarrow> (case map_of (mc_cache c) n of
               Some h \<Rightarrow> (Some h, c)
             | None \<Rightarrow> (let h = \<lparr>mh_pool = Some p, mh_conn = ci_name (mc_info c), mh_name = n\<rparr>
                 in (Some h, c\<lparr>mc_cache := (n, h) # mc_cache c\<rparr>))))"

fun mongo_database_list :: "bytes list \<Rightarrow> 'p MongoConn \<Rightarrow> 'p MongoDb option list \<times> 'p MongoConn" where
  "mongo_database_list [] c = ([], c)"
| "mongo_database_list (n # ns) c =
     (case mongo_database n c of (h, c1) \<Rightarrow> (case mongo_database_list ns c1 of (hs, c2) \<Rightarrow> (h # hs, c2)))"

definition mongo_databases ::
    "('p, 's) Mongo \<Rightarrow> 'p MongoConn \<Rightarrow> 's \<Rightarrow> ((Thrown + 'p MongoDb option list) \<times> 'p MongoConn) \<times> 's" where
  "mongo_databases lib c s =
     (case mc_pool c of
        None \<Rightarrow> ((Inr [], c), s)
      | Some p \<Rightarrow> (case mg_acquire lib p s of
            (Some e, s1) \<Rightarrow> ((Inl (ThrownError e), c), s1)
          | (None, s1) \<Rightarrow> (case mg_databases lib p s1 of
                (Inl e, s2) \<Rightarrow> ((Inl (ThrownError e), c), s2)
              | (Inr names, s2) \<Rightarrow> (case mongo_database_list names c of (hs, c1) \<Rightarrow> ((Inr hs, c1), s2)))))"

definition mongo_dropDatabase :: "('p, 's) Mongo \<Rightarrow> bytes \<Rightarrow> 'p MongoConn \<Rightarrow> 's \<Rightarrow> (Status \<times> 'p MongoConn) \<times> 's" where
  "mongo_dropDatabase lib name c s =
     (case pool_status lib (\<lambda>p. mg_drop_database lib p name) (mc_pool c) s of
        (st, s1) \<Rightarrow> ((st, c\<lparr>mc_cache := filter (\<lambda>e. fst e \<noteq> name) (mc_cache c)\<rparr>), s1))"


section \<open>The columns of a sample\<close>

lemma sample_fields_append:
  "sample_fields seen (fs @ gs) =
     (let (cs, seen1) = sample_fields seen fs; (ds, seen2) = sample_fields seen1 gs in (cs @ ds, seen2))"
  by (induction seen fs rule: sample_fields.induct) (auto simp: Let_def split: prod.split)

lemma sample_documents_concat: "sample_documents seen ds = fst (sample_fields seen (concat ds))"
  by (induction ds arbitrary: seen) (auto simp: sample_fields_append Let_def split: prod.split)

lemma col_name_sample: "col_name (sample_column n v) = n"
  by (simp add: sample_column_def default_column_def)

lemma sample_fields_set:
  "set (fst (sample_fields seen fs)) = {sample_column n v |n v. n \<notin> set seen \<and> map_of fs n = Some v}"
proof (induction seen fs rule: sample_fields.induct)
  case (2 seen name v fs)
  show ?case
  proof (cases "name \<in> set seen")
    case False
    obtain cs seen1 where rest: "sample_fields (name # seen) fs = (cs, seen1)" by fastforce
    have "set cs = {sample_column n w |n w. n \<notin> set (name # seen) \<and> map_of fs n = Some w}"
      using 2(2) [OF False] rest by simp
    then show ?thesis using False rest by (auto simp: Let_def split: if_splits)
  qed (use 2 in \<open>auto split: if_splits\<close>)
qed simp

lemma sample_fields_distinct:
  "distinct (map col_name (fst (sample_fields seen fs)))"
proof (induction seen fs rule: sample_fields.induct)
  case (2 seen name v fs)
  have "name \<notin> col_name ` set (fst (sample_fields (name # seen) fs))"
    unfolding sample_fields_set by (auto simp: col_name_sample)
  with 2 show ?case by (auto simp: Let_def col_name_sample split: prod.split)
qed simp

text \<open>The comparison of the source holds between \<open>_id\<close> and itself; on other pairs it is this order.\<close>

definition field_less :: "Column \<Rightarrow> Column \<Rightarrow> bool" where
  "field_less a b \<longleftrightarrow> col_name b \<noteq> ''_id'' \<and> (col_name a = ''_id'' \<or> text_before (col_name a) (col_name b))"

definition field_key :: "Column \<Rightarrow> nat list option" where
  "field_key c = (if col_name c = ''_id'' then None else Some (map byte (col_name c)))"

lemma field_less_key:
  "field_less a b \<longleftrightarrow> (case field_key b of None \<Rightarrow> False | Some t \<Rightarrow> (case field_key a of None \<Rightarrow> True | Some u \<Rightarrow> u < t))"
  by (simp add: field_less_def field_key_def text_before_less)

interpretation field_order: strict_weak_order field_less
proof
  show "field_less x y \<Longrightarrow> \<not> field_less y x" for x y
    unfolding field_less_key by (auto split: option.splits)
  show "\<not> field_less x y \<Longrightarrow> \<not> field_less y z \<Longrightarrow> \<not> field_less x z" for x y z
    unfolding field_less_key by (auto split: option.splits)
qed

lemma field_before_less: "col_name a \<noteq> col_name b \<Longrightarrow> field_before a b = field_less a b"
  by (auto simp: field_before_def field_less_def)

lemma insert_by_cong: "\<forall>y\<in>set ys. lt x y = lt' x y \<and> lt y x = lt' y x \<Longrightarrow> insert_by lt x ys = insert_by lt' x ys"
  by (induction ys) auto

lemma sort_cong:
  "sorted_wrt (\<lambda>x y. lt x y = lt' x y \<and> lt y x = lt' y x) xs \<Longrightarrow> strict_weak_order lt' \<Longrightarrow> stable_sort_by lt xs = stable_sort_by lt' xs"
proof (induction xs)
  case (Cons x xs)
  then have "set (foldr (insert_by lt') xs []) = set xs"
    using strict_weak_order.sort_set [of lt' xs] by (simp add: stable_sort_by_def)
  with Cons show ?case by (auto simp: stable_sort_by_def intro!: insert_by_cong)
qed (simp add: stable_sort_by_def)

lemma field_sort:
  assumes "distinct (map col_name cs)"
  shows "stable_sort_by field_before cs = stable_sort_by field_less cs"
proof (rule sort_cong [OF _ field_order.strict_weak_order_axioms])
  from assms have "sorted_wrt (\<lambda>x y. col_name x \<noteq> col_name y) cs"
    by (simp add: distinct_conv_nth sorted_wrt_iff_nth_less)
  then show "sorted_wrt (\<lambda>x y. field_before x y = field_less x y \<and> field_before y x = field_less y x) cs"
    by (rule sorted_wrt_mono_rel [rotated]) (metis field_before_less)
qed

lemma field_less_total: "col_name a \<noteq> col_name b \<Longrightarrow> \<not> field_less b a \<Longrightarrow> field_less a b"
proof -
  assume ne: "col_name a \<noteq> col_name b" and nl: "\<not> field_less b a"
  from ne have "field_key a \<noteq> field_key b"
    by (auto simp: field_key_def dest!: map_injective intro: inj_onI split: if_splits)
  with nl show ?thesis unfolding field_less_key by (cases "field_key a"; cases "field_key b") auto
qed

text \<open>
  The columns guessed from a sample are its fields, each once, with the type of the first document
  that has it; \<open>_id\<close> is the key. When the sample was read to its end, \<open>_id\<close> comes first and the
  others follow in strict order of their names.
\<close>

lemma inferred_columns:
  "set (inferred (docs, err)) = {sample_column n v |n v. map_of (concat docs) n = Some v} \<and>
   distinct (map col_name (inferred (docs, err))) \<and>
   sorted_wrt (\<lambda>a b. col_name b \<noteq> ''_id'' \<and> (col_name a = ''_id'' \<or> text_before (col_name a) (col_name b)))
     (inferred (docs, None))"
proof -
  define cs where "cs = sample_documents [] docs"
  have cs: "set cs = {sample_column n v |n v. map_of (concat docs) n = Some v}" "distinct (map col_name cs)"
    by (simp_all add: cs_def sample_documents_concat sample_fields_set sample_fields_distinct)
  have all: "inferred (docs, None) = stable_sort_by field_less cs"
    by (simp add: inferred_def field_sort cs(2) flip: cs_def)
  have names: "mset (map col_name (stable_sort_by field_less cs)) = mset (map col_name cs)"
    by (simp add: field_order.sort_mset)
  then have dist: "distinct (map col_name (stable_sort_by field_less cs))"
    using cs(2) mset_eq_imp_distinct_iff by blast
  have "sorted_wrt (\<lambda>x y. \<not> field_less y x \<and> col_name x \<noteq> col_name y) (stable_sort_by field_less cs)"
    using field_order.sort_ordered [of cs] dist
    by (simp add: field_order.ordered_def distinct_conv_nth sorted_wrt_iff_nth_less)
  then have "sorted_wrt field_less (stable_sort_by field_less cs)"
    by (rule sorted_wrt_mono_rel [rotated]) (use field_less_total in blast)
  moreover have "set (inferred (docs, err)) = set cs \<and> distinct (map col_name (inferred (docs, err)))"
  proof (cases err)
    case None
    then show ?thesis using all dist by (simp add: field_order.sort_set)
  next
    case (Some e)
    then show ?thesis using cs(2) by (simp add: inferred_def flip: cs_def)
  qed
  ultimately show ?thesis unfolding all using cs(1) by (simp add: field_less_def [abs_def])
qed


section \<open>What a command reports\<close>

definition prints :: "('a \<Rightarrow> bytes + 'b) \<Rightarrow> 'a \<Rightarrow> bool" where
  "prints f x \<longleftrightarrow> (case f x of Inl e \<Rightarrow> False | Inr y \<Rightarrow> True)"

lemma prints_Inr: "f x = Inr y \<Longrightarrow> prints f x" and prints_Inl: "f x = Inl e \<Longrightarrow> \<not> prints f x"
  by (simp_all add: prints_def)

lemma printed_rows_takeWhile: "map Inr (fst (printed_rows f ds)) = map f (takeWhile (prints f) ds)"
  by (induction ds) (auto simp: prints_Inr prints_Inl split: sum.split prod.split)

lemma printed_rows_all: "snd (printed_rows f ds) = None \<longleftrightarrow> (\<forall>d\<in>set ds. prints f d)"
  by (induction ds) (auto simp: prints_Inr prints_Inl split: sum.split prod.split)

lemma cursor_result_spec:
  "sr_success (cursor_result f names (ds, err)) \<longleftrightarrow> err = None \<and> (\<forall>d\<in>set ds. prints f d)"
  "sr_tableData (cursor_result f names (ds, err)) = fst (printed_rows f ds)"
  "sr_columnNames (cursor_result f names (ds, err)) = names"
  using printed_rows_all [of f ds]
  by (auto simp: cursor_result_def failed_with_def default_statement_def Let_def split: prod.split option.split)

text \<open>
  C32: A find on a collection sends its filter and the row limit to the named database, or that of the
  handle, and reports one statement: its rows are those of the documents before the first that does
  not print, and it is a success exactly when the cursor ended without an error and all print.
\<close>

theorem mongo_find_reports:
  assumes "mh_pool h = Some p" "mg_from_json lib sql = Inr view" "mg_acquire lib p s = (None, s1)"
    and "map_of view ''command'' = Some (BString ''find'')" "map_of view ''collection'' = Some (BString coll)" "coll \<noteq> []"
    and "case map_of view ''filter'' of None \<Rightarrow> flt = [] | Some v \<Rightarrow> v = BDoc flt"
    and "mg_find lib p (string_or (mh_name h) (map_of view ''database'')) coll flt
           \<lparr>fo_limit = rowLimit, fo_skip = 0, fo_sort = None\<rparr> s1 = ((docs, err), s2)"
  shows "\<exists>st. mongo_execute lib h sql rowLimit s = (\<lparr>qr_statements = [st], qr_messages = []\<rparr>, s2) \<and>
    map Inr (sr_tableData st) = map (find_row lib) (takeWhile (prints (find_row lib)) docs) \<and>
    (sr_success st \<longleftrightarrow> err = None \<and> (\<forall>d\<in>set docs. prints (find_row lib) d))"
proof -
  have "find_command lib p (string_or (mh_name h) (map_of view ''database'')) coll rowLimit view s1 =
      (cursor_result (find_row lib) [''_id'', ''document''] (docs, err), s2)"
    using assms(7,8) by (auto simp: find_command_def get_document_def split: option.splits)
  then have "mongo_execute lib h sql rowLimit s =
      (\<lparr>qr_statements = [cursor_result (find_row lib) [''_id'', ''document''] (docs, err)], qr_messages = []\<rparr>, s2)"
    using assms(1-6)
    by (simp add: mongo_execute_def mongo_statement_def is_string_def wrapped_command_def string_or_def)
  then show ?thesis by (auto simp: cursor_result_spec printed_rows_takeWhile)
qed


section \<open>Handles\<close>

inductive mongo_reachable :: "('p, 's) Mongo \<Rightarrow> ConnectionInfo \<Rightarrow> 'p MongoConn \<Rightarrow> bool" for lib info where
  mr_new: "mongo_reachable lib info (new_MongoConn info)"
| mr_open: "mongo_reachable lib info c \<Longrightarrow> mongo_reachable lib info (snd (fst (mongo_open lib c s)))"
| mr_close: "mongo_reachable lib info c \<Longrightarrow> mongo_reachable lib info (mongo_close c)"
| mr_database: "mongo_reachable lib info c \<Longrightarrow> mongo_reachable lib info (snd (mongo_database name c))"
| mr_databases: "mongo_reachable lib info c \<Longrightarrow> mongo_reachable lib info (snd (fst (mongo_databases lib c s)))"
| mr_drop: "mongo_reachable lib info c \<Longrightarrow> mongo_reachable lib info (snd (fst (mongo_dropDatabase lib name c s)))"

definition mongo_handles :: "ConnectionInfo \<Rightarrow> 'p MongoConn \<Rightarrow> bool" where
  "mongo_handles info c \<longleftrightarrow> mc_info c = mongo_port info \<and> (mc_open c \<longleftrightarrow> mc_pool c \<noteq> None) \<and> distinct (map fst (mc_cache c)) \<and>
     (\<forall>(n, h)\<in>set (mc_cache c). n \<noteq> [] \<and> mh_name h = n \<and> mh_conn h = ci_name info \<and> mh_pool h \<noteq> None)"

lemma mongo_port_name: "ci_name (mongo_port info) = ci_name info" "ci_database (mongo_port info) = ci_database info"
  by (simp_all add: mongo_port_def)

lemma mongo_database_handles: "mongo_handles info c \<Longrightarrow> mongo_handles info (snd (mongo_database name c))"
  by (auto simp: mongo_database_def mongo_handles_def Let_def mongo_port_name map_of_eq_None_iff split: option.split)

lemma mongo_database_list_handles: "mongo_handles info c \<Longrightarrow> mongo_handles info (snd (mongo_database_list ns c))"
proof (induction ns arbitrary: c)
  case (Cons n ns)
  from Cons.IH [OF mongo_database_handles [OF Cons.prems, of n]] show ?case by (auto split: prod.split)
qed simp

lemma mongo_reachable_handles: "mongo_reachable lib info c \<Longrightarrow> mongo_handles info c"
proof (induction rule: mongo_reachable.induct)
  case (mr_databases c s)
  then show ?case
    using mongo_database_list_handles [OF mr_databases.IH]
    by (auto simp: mongo_databases_def split: option.split sum.split prod.split) (metis snd_conv)
next
  case (mr_database c name)
  then show ?case by (simp add: mongo_database_handles)
qed (auto simp: mongo_handles_def new_MongoConn_def mongo_open_def mongo_open_failed_def mongo_close_def
      mongo_dropDatabase_def distinct_map_filter split: option.split sum.split prod.split)

text \<open>
  In every state a MongoDB connection can reach, it gives a handle exactly when it is open; the
  handle bears the name asked for, or the configured one, or test, has a pool, and is given again
  for that name; a dropped database keeps no handle.
\<close>

lemma mongo_handles_named:
  assumes "mongo_reachable lib info c"
  shows "(fst (mongo_database name c) \<noteq> None \<longleftrightarrow> mongo_isOpen c) \<and>
    (case mongo_database name c of
       (None, c1) \<Rightarrow> c1 = c
     | (Some h, c1) \<Rightarrow>
         mh_name h = (if name \<noteq> [] then name else if ci_database info \<noteq> [] then ci_database info else ''test'') \<and>
         mh_conn h = ci_name info \<and> mh_pool h \<noteq> None \<and> mongo_database name c1 = (Some h, c1) \<and>
         mongo_database (mh_name h) c1 = (Some h, c1)) \<and>
    name \<notin> fst ` set (mc_cache (snd (fst (mongo_dropDatabase lib name c s))))"
proof -
  define n where "n = (if name \<noteq> [] then name else if ci_database info \<noteq> [] then ci_database info else ''test'')"
  have inv: "mongo_handles info c" using assms by (rule mongo_reachable_handles)
  have n: "n \<noteq> []" by (simp add: n_def)
  have db: "mongo_database name c = (case mc_pool c of
      None \<Rightarrow> (None, c)
    | Some p \<Rightarrow> (case map_of (mc_cache c) n of
          Some h \<Rightarrow> (Some h, c)
        | None \<Rightarrow> (let h = \<lparr>mh_pool = Some p, mh_conn = ci_name info, mh_name = n\<rparr> in (Some h, c\<lparr>mc_cache := (n, h) # mc_cache c\<rparr>))))"
    unfolding mongo_database_def Let_def n_def
    using inv by (auto simp: mongo_handles_def mongo_port_name split: option.split)
  have again: "mongo_database m c1 = (Some h, c1)"
    if "m = name \<or> m = n" "mc_info c1 = mc_info c" "mc_pool c1 = Some p" "map_of (mc_cache c1) n = Some h" for m c1 h p
    using that n inv by (auto simp: mongo_database_def mongo_handles_def mongo_port_name n_def Let_def)
  have open_pool: "mongo_isOpen c \<longleftrightarrow> mc_pool c \<noteq> None" using inv by (simp add: mongo_isOpen_def mongo_handles_def)
  have dropped: "name \<notin> fst ` set (mc_cache (snd (fst (mongo_dropDatabase lib name c s))))"
    by (auto simp: mongo_dropDatabase_def split: prod.split)
  show ?thesis
  proof (cases "mc_pool c")
    case None
    then show ?thesis using open_pool dropped by (simp add: db)
  next
    case (Some p)
    show ?thesis
    proof (cases "map_of (mc_cache c) n")
      case None
      with Some open_pool dropped show ?thesis by (simp add: db Let_def again flip: n_def)
    next
      case (Some h)
      with inv have "mh_name h = n" "mh_conn h = ci_name info" "mh_pool h \<noteq> None"
        by (auto simp: mongo_handles_def dest!: map_of_SomeD)
      with Some \<open>mc_pool c = Some p\<close> open_pool dropped show ?thesis by (simp add: db again flip: n_def)
    qed
  qed
qed


section \<open>A server for runs\<close>

text \<open>
  Pools are numbered as they are opened, the state is the next number; taking a client from pool 9
  fails. A collection has three documents, of which a filter finds one; the JSON reader knows three
  texts, and documents print as \<open>{}\<close>.
\<close>

definition find_text :: bytes where "find_text = ''{\"command\":\"find\",\"collection\":\"c\"}''"
definition insert_text :: bytes where "insert_text = ''{\"command\":\"insert\",\"collection\":\"c\"}''"
definition run_text :: bytes where "run_text = ''{\"command\":\"runCommand\"}''"

definition shelf :: "(nat, nat) Mongo" where
  "shelf = \<lparr>mg_from_json = \<lambda>t. if t = find_text then Inr [(''command'', BString ''find''), (''collection'', BString ''c'')]
       else if t = insert_text then Inr [(''command'', BString ''insert''), (''collection'', BString ''c'')]
       else if t = run_text then Inr [(''command'', BString ''runCommand'')] else Inl ''bad'',
     mg_to_json = \<lambda>v. Inr ''{}'', mg_wrong_type = ''type'', mg_unset = ''unset'',
     mg_pool = \<lambda>uri s. (Inr s, Suc s), mg_acquire = \<lambda>p s. (if p = 9 then Some ''timeout'' else None, s),
     mg_databases = \<lambda>p s. (Inr [''a''], s), mg_collections = \<lambda>p db s. (Inr [''c''], s),
     mg_find = \<lambda>p db coll flt opts s. (([[(''_id'', BInt32 1)]], None), s),
     mg_aggregate = \<lambda>p db coll st s. (([], None), s), mg_indexes = \<lambda>p db coll s. (([], None), s),
     mg_insert_one = \<lambda>p db coll d s. (None, s), mg_insert_many = \<lambda>p db coll ds s. (Inr None, s),
     mg_update_many = \<lambda>p db coll f u s. (Inr None, s), mg_delete_many = \<lambda>p db coll f s. (Inr None, s),
     mg_count = \<lambda>p db coll f s. (Inr (if f = [] then 3 else 1), s), mg_create = \<lambda>p db coll s. (None, s),
     mg_drop = \<lambda>p db coll s. (None, s), mg_run_command = \<lambda>p db d s. (Inr [], s), mg_drop_database = \<lambda>p db s. (None, s)\<rparr>"

definition shelf_handle :: "nat MongoDb" where
  "shelf_handle = \<lparr>mh_pool = Some 0, mh_conn = ''m'', mh_name = ''a''\<rparr>"

lemma shelf_texts: "insert_text \<noteq> find_text" "run_text \<noteq> find_text" "run_text \<noteq> insert_text"
  by (simp_all add: find_text_def insert_text_def run_text_def)

theorem mongo_find_reports_witness:
  "\<exists>st. mongo_execute shelf shelf_handle find_text 10 0 = (\<lparr>qr_statements = [st], qr_messages = []\<rparr>, 0) \<and> sr_success st"
  using mongo_find_reports [of shelf_handle 0 shelf find_text "[(''command'', BString ''find''), (''collection'', BString ''c'')]"
      0 0 "''c''" "[]" 10 "[[(''_id'', BInt32 1)]]" "None" 0]
  by (fastforce simp: shelf_def shelf_handle_def prints_def find_row_def)

lemma mongo_handles_named_witness:
  "fst (mongo_database [] (snd (fst (mongo_open shelf (new_MongoConn default_info) 4)))) \<noteq> None"
  using mongo_handles_named [OF mr_open [OF mr_new, of shelf default_info 4], of "[]" 0]
  by (simp add: mongo_open_def shelf_def mongo_isOpen_def)

definition opened_shelf :: "nat MongoConn" where
  "opened_shelf = snd (fst (mongo_open shelf (new_MongoConn default_info) 0))"

definition reopened_shelf :: "nat MongoConn" where
  "reopened_shelf = snd (fst (mongo_open shelf (snd (mongo_database ''a'' opened_shelf)) 1))"

lemma shelf_opens:
  "mongo_open shelf c n = (if n = 9 then (mongo_open_failed ''timeout'' c, 10) else (((True, []), c\<lparr>mc_pool := Some n, mc_open := True\<rparr>), Suc n))"
  by (simp add: mongo_open_def shelf_def)

text \<open>
  Concrete runs: an insert without documents and a command without its document are successes that do
  nothing; a filter that is not JSON counts everything; counting throws an exception of the driver
  where listing throws the library's; after opening again a name still gives the handle with the pool
  of before; \<^verbatim>\<open>info()\<close> shows another port than the one used; the order of columns puts \<open>_id\<close> before
  itself.
\<close>

lemma mongo_deviations:
  "mongo_execute shelf shelf_handle insert_text 0 s = (\<lparr>qr_statements = [inserted 0], qr_messages = []\<rparr>, s)"
  "mongo_execute shelf shelf_handle run_text 0 s = (\<lparr>qr_statements = [default_statement], qr_messages = []\<rparr>, s)"
  "mongo_getRowCount shelf shelf_handle (default_table\<lparr>tbl_name := ''c''\<rparr>) ''x = 1'' s = (Inr 3, s)"
  "mongo_getRowCount shelf (shelf_handle\<lparr>mh_pool := Some 9\<rparr>) (default_table\<lparr>tbl_name := ''c''\<rparr>) [] s = (Inl (ThrownDriver ''timeout''), s)"
  "mongo_tables shelf (shelf_handle\<lparr>mh_pool := Some 9\<rparr>) s = (Inl (ThrownError ''timeout''), s)"
  "mc_pool reopened_shelf = Some 1" "map_option mh_pool (fst (mongo_database ''a'' reopened_shelf)) = Some (Some 0)"
  "ci_port (mc_given reopened_shelf) = 5432" "ci_port (mc_info reopened_shelf) = 27017"
  "field_before (sample_column ''_id'' v) (sample_column ''_id'' v)"
proof -
  show "mongo_execute shelf shelf_handle insert_text 0 s = (\<lparr>qr_statements = [inserted 0], qr_messages = []\<rparr>, s)"
    "mongo_execute shelf shelf_handle run_text 0 s = (\<lparr>qr_statements = [default_statement], qr_messages = []\<rparr>, s)"
    using shelf_texts
    by (simp_all add: mongo_execute_def mongo_statement_def shelf_def shelf_handle_def is_string_def wrapped_command_def
        string_or_def insert_command_def runCommand_def)
  have "''x = 1'' \<noteq> find_text" "''x = 1'' \<noteq> insert_text" "''x = 1'' \<noteq> run_text"
    by (simp_all add: find_text_def insert_text_def run_text_def)
  then show "mongo_getRowCount shelf shelf_handle (default_table\<lparr>tbl_name := ''c''\<rparr>) ''x = 1'' s = (Inr 3, s)"
    by (simp add: mongo_getRowCount_def shelf_def shelf_handle_def filter_document_def to_int32_def)
  show "mc_pool reopened_shelf = Some 1" "map_option mh_pool (fst (mongo_database ''a'' reopened_shelf)) = Some (Some 0)"
    "ci_port (mc_given reopened_shelf) = 5432" "ci_port (mc_info reopened_shelf) = 27017"
    by (simp_all add: reopened_shelf_def opened_shelf_def shelf_opens mongo_database_def new_MongoConn_def mongo_port_def
        default_info_def Let_def)
qed (simp_all add: mongo_getRowCount_def mongo_tables_def shelf_def shelf_handle_def field_before_def col_name_sample)

end
