(* ===== verification/Oracle_Client.thy ===== *)
theory Oracle_Client
  imports Database_Api
begin

text \<open>
  The Oracle client library: where it is installed, downloading and unpacking it
  (\<^verbatim>\<open>src/oracle_installer.cpp\<close>), and the process-wide ODPI-C context with its memory of failures
  (\<^verbatim>\<open>getDpiContext\<close> in \<^verbatim>\<open>src/oracle_connection.cpp\<close>), on Linux and macOS. File system, environment,
  shell, HTTP and the loading of the library are parameters over a world \<open>'w\<close>. The lemmas show what
  each outcome of an installation reports, that an installation is tried once, and that a failure is
  remembered until something changed.
\<close>


section \<open>The system\<close>

datatype Platform = Linux_x64 | Linux_arm64 | Mac_arm64 | Mac_x64 | Unsupported

text \<open>
  What a download delivers in order: data, or a report of its progress. The status of the response
  depends on whether the receiver stopped it; there is none without a response.
\<close>

datatype HttpEvent = Chunk bytes | Report int int

record Http =
  ht_events :: "HttpEvent list"
  ht_status :: "bool \<Rightarrow> int option"

record 'w Sys =
  sy_exists :: "bytes \<Rightarrow> 'w \<Rightarrow> bool"
  sy_entries :: "bytes \<Rightarrow> 'w \<Rightarrow> (bytes \<times> bool) list"
  sy_canonical :: "bytes \<Rightarrow> 'w \<Rightarrow> bytes option"
  sy_create_directories :: "bytes \<Rightarrow> 'w \<Rightarrow> bytes option \<times> 'w"
  sy_open :: "bytes \<Rightarrow> 'w \<Rightarrow> bool \<times> 'w"
  sy_write :: "bytes \<Rightarrow> bytes \<Rightarrow> 'w \<Rightarrow> bool \<times> 'w"
  sy_copy :: "bytes \<Rightarrow> bytes \<Rightarrow> bool \<Rightarrow> 'w \<Rightarrow> bool \<times> 'w"
  sy_remove :: "bytes \<Rightarrow> 'w \<Rightarrow> 'w"
  sy_remove_all :: "bytes \<Rightarrow> 'w \<Rightarrow> 'w"
  sy_system :: "bytes \<Rightarrow> 'w \<Rightarrow> int \<times> 'w"
  sy_get :: "bytes \<Rightarrow> bytes \<Rightarrow> 'w \<Rightarrow> Http \<times> 'w"
  sy_getenv :: "bytes \<Rightarrow> 'w \<Rightarrow> bytes option"
  sy_setenv :: "bytes \<Rightarrow> bytes \<Rightarrow> 'w \<Rightarrow> 'w"
  sy_cmdline :: "'w \<Rightarrow> bytes option"
  sy_execv :: "bytes list \<Rightarrow> 'w \<Rightarrow> bool \<times> 'w"
  sy_dpi :: "bytes option \<Rightarrow> 'w \<Rightarrow> bytes option \<times> 'w"

definition is_linux :: "Platform \<Rightarrow> bool" where
  "is_linux pf \<longleftrightarrow> pf = Linux_x64 \<or> pf = Linux_arm64"

definition is_mac :: "Platform \<Rightarrow> bool" where
  "is_mac pf \<longleftrightarrow> pf = Mac_x64 \<or> pf = Mac_arm64"

definition kDownloadHost :: bytes where
  "kDownloadHost = ''https://download.oracle.com''"

fun kDownloadPath :: "Platform \<Rightarrow> bytes" where
  "kDownloadPath Linux_x64 = ''/otn_software/linux/instantclient/2326100/instantclient-basiclite-linux.x64-23.26.1.0.0.zip''"
| "kDownloadPath Linux_arm64 = ''/otn_software/linux/instantclient/2326100/instantclient-basiclite-linux.arm64-23.26.1.0.0.zip''"
| "kDownloadPath Mac_arm64 = ''/otn_software/mac/instantclient/233023/instantclient-basiclite-macos.arm64-23.3.0.23.09-2.dmg''"
| "kDownloadPath Mac_x64 = ''/otn_software/mac/instantclient/1916000/instantclient-basiclite-macos.x64-19.16.0.0.0dbru.dmg''"
| "kDownloadPath Unsupported = []"

fun kArchiveName :: "Platform \<Rightarrow> bytes" where
  "kArchiveName Linux_x64 = ''instantclient-basiclite-linux.x64-23.26.1.0.0.zip''"
| "kArchiveName Linux_arm64 = ''instantclient-basiclite-linux.arm64-23.26.1.0.0.zip''"
| "kArchiveName Mac_arm64 = ''instantclient-basiclite-macos.arm64-23.3.0.23.09-2.dmg''"
| "kArchiveName Mac_x64 = ''instantclient-basiclite-macos.x64-19.16.0.0.0dbru.dmg''"
| "kArchiveName Unsupported = []"

fun kExpectedDirName :: "Platform \<Rightarrow> bytes" where
  "kExpectedDirName Linux_x64 = ''instantclient_23_26''"
| "kExpectedDirName Linux_arm64 = ''instantclient_23_26''"
| "kExpectedDirName Mac_arm64 = ''instantclient_23_3''"
| "kExpectedDirName Mac_x64 = ''instantclient_19_16''"
| "kExpectedDirName Unsupported = []"

text \<open>\<^verbatim>\<open>fs::path\<close>: appending a relative path, and the last component.\<close>

definition path_join :: "bytes \<Rightarrow> bytes \<Rightarrow> bytes" where
  "path_join dir name = (if dir = [] \<or> last dir = CHR ''/'' then dir @ name else dir @ ''/'' @ name)"

definition filename :: "bytes \<Rightarrow> bytes" where
  "filename path = rev (takeWhile (\<lambda>c. c \<noteq> CHR ''/'') (rev path))"

text \<open>Between single quotes for the shell, as it stands.\<close>

definition shell_quoted :: "bytes \<Rightarrow> bytes" where
  "shell_quoted s = [squote] @ s @ [squote]"

text \<open>The state of the process: the cached directory and the root, and the context with its options.\<close>

record Client =
  cl_cachedDir :: bytes
  cl_installRoot :: bytes
  cx_ctx :: bool
  cx_error :: bytes
  cx_failed :: bool
  cx_failedInstalled :: bool
  cx_autoInstallAttempted :: bool
  cx_autoInstall :: bool
  cx_reexec :: bool
  cx_libDir :: bytes

definition new_Client :: Client where
  "new_Client = \<lparr>cl_cachedDir = [], cl_installRoot = [], cx_ctx = False, cx_error = [], cx_failed = False,
     cx_failedInstalled = False, cx_autoInstallAttempted = False, cx_autoInstall = True, cx_reexec = True, cx_libDir = []\<rparr>"


section \<open>Where the client is\<close>

definition baseDir :: "'w Sys \<Rightarrow> Client \<Rightarrow> 'w \<Rightarrow> bytes" where
  "baseDir sys c w =
     (if cl_installRoot c \<noteq> [] then cl_installRoot c
      else case sy_getenv sys ''HOME'' w of
          None \<Rightarrow> path_join ''.'' ''oracle-client''
        | Some home \<Rightarrow> if home = [] then path_join ''.'' ''oracle-client''
            else path_join (path_join home ''.dearsql'') ''oracle-client'')"

definition downloadUrl :: "Platform \<Rightarrow> bytes" where
  "downloadUrl pf = (if kDownloadPath pf = [] then [] else kDownloadHost @ kDownloadPath pf)"

definition setInstallRoot :: "bytes \<Rightarrow> Client \<Rightarrow> Client" where
  "setInstallRoot dir c = c\<lparr>cl_installRoot := dir, cl_cachedDir := []\<rparr>"

definition installDir :: "'w Sys \<Rightarrow> Platform \<Rightarrow> Client \<Rightarrow> 'w \<Rightarrow> bytes \<times> Client" where
  "installDir sys pf c w =
     (if cl_cachedDir c \<noteq> [] then (cl_cachedDir c, c)
      else let base = baseDir sys c w; expected = path_join base (kExpectedDirName pf)
        in if sy_exists sys expected w then (expected, c\<lparr>cl_cachedDir := expected\<rparr>)
           else if sy_exists sys base w
           then (case List.find (\<lambda>(p, dir). dir \<and> starts_with (filename p) ''instantclient_'') (sy_entries sys base w) of
                   Some (p, _) \<Rightarrow> (p, c\<lparr>cl_cachedDir := p\<rparr>)
                 | None \<Rightarrow> (expected, c))
           else (expected, c))"

definition isInstalled :: "'w Sys \<Rightarrow> Platform \<Rightarrow> Client \<Rightarrow> 'w \<Rightarrow> bool \<times> Client" where
  "isInstalled sys pf c w =
     (case installDir sys pf c w of (dir, c1) \<Rightarrow>
        (sy_exists sys dir w \<and>
         (if is_linux pf then sy_exists sys (path_join dir ''libclntsh.so'') w
          else if is_mac pf then sy_exists sys (path_join dir ''libclntsh.dylib'') w else False), c1))"


section \<open>The bundled libaio\<close>

definition hasCorrectLibaioSoname :: "'w Sys \<Rightarrow> bytes \<Rightarrow> 'w \<Rightarrow> bool \<times> 'w" where
  "hasCorrectLibaioSoname sys file w =
     (case sy_system sys (''objdump -p '' @ shell_quoted file @ '' 2>/dev/null | grep -q '' @
        shell_quoted (''SONAME.*libaio'' @ [backslash] @ ''.so'' @ [backslash] @ ''.1$'')) w of (ret, w1) \<Rightarrow> (ret = 0, w1))"

definition deb_arch :: "Platform \<Rightarrow> bytes" where
  "deb_arch pf = (if pf = Linux_x64 then ''amd64'' else ''arm64'')"

definition deb_lib :: "Platform \<Rightarrow> bytes" where
  "deb_lib pf = (if pf = Linux_x64 then ''lib/x86_64-linux-gnu'' else ''lib/aarch64-linux-gnu'')"

text \<open>Data written to an open file until a write fails, which stops the download.\<close>

fun write_chunks :: "'w Sys \<Rightarrow> bytes \<Rightarrow> HttpEvent list \<Rightarrow> 'w \<Rightarrow> bool \<times> 'w" where
  "write_chunks sys path [] w = (True, w)"
| "write_chunks sys path (Report cur all # evs) w = write_chunks sys path evs w"
| "write_chunks sys path (Chunk data # evs) w =
     (case sy_write sys path data w of (ok, w1) \<Rightarrow> if ok then write_chunks sys path evs w1 else (False, w1))"

definition unpack_deb :: "bytes \<Rightarrow> bytes \<Rightarrow> bytes" where
  "unpack_deb destDir debFile =
     ''cd '' @ shell_quoted destDir @ '' && (ar p '' @ shell_quoted debFile @
     '' data.tar.zst 2>/dev/null | tar --zstd -xf - --wildcards '*/libaio.so*' 2>/dev/null || ar p '' @
     shell_quoted debFile @
     '' data.tar.xz 2>/dev/null | tar -xJf - --wildcards '*/libaio.so*' 2>/dev/null || ar p '' @
     shell_quoted debFile @
     '' data.tar.gz 2>/dev/null | tar -xzf - --wildcards '*/libaio.so*' 2>/dev/null)''"

definition downloadLibaio :: "'w Sys \<Rightarrow> Platform \<Rightarrow> bytes \<Rightarrow> 'w \<Rightarrow> bool \<times> 'w" where
  "downloadLibaio sys pf dir w =
     (let target = path_join dir ''libaio.so.1''; debName = ''libaio1_0.3.112-13build1_'' @ deb_arch pf @ ''.deb'';
          debFile = path_join dir debName; searchDir = path_join (path_join dir ''usr'') (deb_lib pf)
      in case sy_open sys debFile w of
          (False, w1) \<Rightarrow> (False, w1)
        | (True, w1) \<Rightarrow>
           (case sy_get sys ''https://archive.ubuntu.com'' (''/ubuntu/pool/main/liba/libaio/'' @ debName) w1 of (http, w2) \<Rightarrow>
            case write_chunks sys debFile (ht_events http) w2 of (written, w3) \<Rightarrow>
              if ht_status http (\<not> written) \<noteq> Some 200 \<or> \<not> written then (False, sy_remove sys debFile w3)
              else (case sy_system sys (unpack_deb dir debFile) w3 of (ret, w4) \<Rightarrow>
                let w5 = sy_remove sys debFile w4
                in if ret \<noteq> 0 then (False, w5)
                   else let w6 = (if sy_exists sys searchDir w5
                          then (case List.find (\<lambda>(p, d). starts_with (filename p) ''libaio.so.1'') (sy_entries sys searchDir w5) of
                                  Some (p, _) \<Rightarrow> snd (sy_copy sys p target True w5) | None \<Rightarrow> w5)
                          else w5);
                        w7 = sy_remove_all sys (path_join dir ''usr'') w6
                     in (sy_exists sys target w7, w7))))"

definition libaio_candidates :: "bytes list" where
  "libaio_candidates =
     [''/usr/lib/x86_64-linux-gnu/libaio.so.1'', ''/usr/lib/aarch64-linux-gnu/libaio.so.1'', ''/usr/lib64/libaio.so.1'',
      ''/usr/lib/libaio.so.1'', ''/lib/x86_64-linux-gnu/libaio.so.1'', ''/lib64/libaio.so.1'']"

text \<open>The first copy of the system that will do; \<open>False\<close> when there is none.\<close>

fun copy_libaio :: "'w Sys \<Rightarrow> bytes \<Rightarrow> bytes list \<Rightarrow> 'w \<Rightarrow> bool \<times> 'w" where
  "copy_libaio sys target [] w = (False, w)"
| "copy_libaio sys target (f # fs) w =
     (if \<not> sy_exists sys f w then copy_libaio sys target fs w
      else case sy_canonical sys f w of
          None \<Rightarrow> copy_libaio sys target fs w
        | Some resolved \<Rightarrow> (case hasCorrectLibaioSoname sys resolved w of
              (False, w1) \<Rightarrow> copy_libaio sys target fs w1
            | (True, w1) \<Rightarrow> (case sy_copy sys f target False w1 of
                  (True, w2) \<Rightarrow> (True, w2)
                | (False, w2) \<Rightarrow> copy_libaio sys target fs w2)))"

definition ensureLibaioImpl :: "'w Sys \<Rightarrow> Platform \<Rightarrow> bytes \<Rightarrow> 'w \<Rightarrow> 'w" where
  "ensureLibaioImpl sys pf dir w =
     (let target = path_join dir ''libaio.so.1'';
          (present, w1) = (if sy_exists sys target w
             then (case hasCorrectLibaioSoname sys target w of (ok, w') \<Rightarrow> if ok then (True, w') else (False, sy_remove sys target w'))
             else (False, w))
      in if present then w1
         else case copy_libaio sys target libaio_candidates w1 of
             (True, w2) \<Rightarrow> w2 | (False, w2) \<Rightarrow> snd (downloadLibaio sys pf dir w2))"

definition ensureLibaio :: "'w Sys \<Rightarrow> Platform \<Rightarrow> bytes \<Rightarrow> 'w \<Rightarrow> 'w" where
  "ensureLibaio sys pf dir w = (if dir = [] then w else ensureLibaioImpl sys pf dir w)"


section \<open>Installing\<close>

record Progress =
  pr_phase :: bytes
  pr_done :: int
  pr_total :: int
  pr_message :: bytes

definition notice :: "bytes \<Rightarrow> int \<Rightarrow> int \<Rightarrow> bytes \<Rightarrow> Progress" where
  "notice phase d t m = \<lparr>pr_phase = phase, pr_done = d, pr_total = t, pr_message = m\<rparr>"

text \<open>
  The receiver of the archive: \<open>cancel n\<close> is the answer to the \<open>n\<close>th poll. The result is whether it
  stopped the download, whether a write failed, the bytes written and the polls made, with the
  notices on the way.
\<close>

fun receive :: "'w Sys \<Rightarrow> bytes \<Rightarrow> (nat \<Rightarrow> bool) \<Rightarrow> HttpEvent list \<Rightarrow> nat \<Rightarrow> int \<Rightarrow> 'w \<Rightarrow>
    (bool \<times> bool \<times> int \<times> nat) \<times> Progress list \<times> 'w" where
  "receive sys path cancel [] n written w = ((False, False, written, n), [], w)"
| "receive sys path cancel (Report cur all # evs) n written w =
     (case receive sys path cancel evs n written w of (r, ps, w1) \<Rightarrow> (r, notice ''downloading'' cur all [] # ps, w1))"
| "receive sys path cancel (Chunk data # evs) n written w =
     (if cancel n then ((True, False, written, n + 1), [], w)
      else case sy_write sys path data w of (ok, w1) \<Rightarrow>
        if ok then receive sys path cancel evs (n + 1) (written + int (length data)) w1
        else ((True, True, written, n + 1), [], w1))"

definition extract_archive :: "'w Sys \<Rightarrow> Platform \<Rightarrow> bytes \<Rightarrow> bytes \<Rightarrow> bytes \<Rightarrow> 'w \<Rightarrow> int \<times> 'w" where
  "extract_archive sys pf archive dest installPath w =
     (if is_mac pf \<and> ends_with archive ''.dmg''
      then let mount = dest @ ''/oracle_dmg_mount''; w1 = snd (sy_create_directories sys mount w)
        in (case sy_system sys (''hdiutil attach '' @ shell_quoted archive @ '' -mountpoint '' @ shell_quoted mount @
              '' -nobrowse -quiet'') w1 of (ret, w2) \<Rightarrow>
              (if ret = 0
               then (let w3 = snd (sy_create_directories sys installPath w2)
                 in case sy_system sys (''cp -R '' @ shell_quoted (mount @ ''/.'') @ '' '' @ shell_quoted installPath) w3 of (ret2, w4) \<Rightarrow>
                   (ret2, sy_remove_all sys mount (snd (sy_system sys (''hdiutil detach '' @ shell_quoted mount @ '' -quiet'') w4))))
               else (ret, sy_remove_all sys mount w2)))
      else sy_system sys (''unzip -o -q '' @ shell_quoted archive @ '' -d '' @ shell_quoted dest) w)"

definition failed_install :: "bytes \<Rightarrow> Progress list \<Rightarrow> Client \<Rightarrow> 'w \<Rightarrow> Status \<times> Progress list \<times> Client \<times> 'w" where
  "failed_install err ps c w = ((False, err), ps @ [notice ''error'' 0 0 err], c, w)"

text \<open>After the download: unpack, look again, and bundle libaio.\<close>

definition unpack :: "'w Sys \<Rightarrow> Platform \<Rightarrow> bytes \<Rightarrow> int \<Rightarrow> Progress list \<Rightarrow> Client \<Rightarrow> 'w \<Rightarrow>
    Status \<times> Progress list \<times> Client \<times> 'w" where
  "unpack sys pf parent written ps c w =
     (let archive = path_join parent (kArchiveName pf); installPath = path_join parent (kExpectedDirName pf);
          ps1 = ps @ [notice ''extracting'' written written []]
      in case extract_archive sys pf archive parent installPath w of (ret, w1) \<Rightarrow>
         let w2 = sy_remove sys archive w1
         in if ret \<noteq> 0 then failed_install ''Failed to extract Oracle Instant Client archive'' ps1 c w2
            else case isInstalled sys pf (c\<lparr>cl_cachedDir := []\<rparr>) w2 of
                (False, c1) \<Rightarrow> failed_install
                  ''Extraction completed but Oracle Client libraries not found in expected location'' ps1 c1 w2
              | (True, c1) \<Rightarrow>
                  ((True, []), ps1 @ (if is_linux pf then [notice ''installing-libaio'' 0 0 []] else []) @
                     [notice ''done'' 0 0 (''Installed to '' @ installPath)], c1,
                   if is_linux pf then ensureLibaioImpl sys pf installPath w2 else w2))"

text \<open>Downloading into the open archive.\<close>

definition fetch :: "'w Sys \<Rightarrow> Platform \<Rightarrow> (nat \<Rightarrow> bool) \<Rightarrow> bytes \<Rightarrow> Progress list \<Rightarrow> Client \<Rightarrow> 'w \<Rightarrow>
    Status \<times> Progress list \<times> Client \<times> 'w" where
  "fetch sys pf cancel parent ps c w =
     (let archive = path_join parent (kArchiveName pf)
      in case sy_get sys kDownloadHost (kDownloadPath pf) w of (http, w1) \<Rightarrow>
         case receive sys archive cancel (ht_events http) 0 0 w1 of ((stopped, writeFailed, written, n), reports, w2) \<Rightarrow>
           let ps1 = ps @ reports; status = ht_status http stopped; w3 = sy_remove sys archive w2
           in if cancel n then ((False, ''cancelled''), ps1, c, w3)
              else if status \<noteq> Some 200
              then failed_install (''Download failed: '' @ (case status of Some k \<Rightarrow> to_string k | None \<Rightarrow> ''no response'')) ps1 c w3
              else if writeFailed then failed_install ''Download failed while writing to disk'' ps1 c w3
              else unpack sys pf parent written ps1 c w2)"

definition install_fresh :: "'w Sys \<Rightarrow> Platform \<Rightarrow> (nat \<Rightarrow> bool) \<Rightarrow> Client \<Rightarrow> 'w \<Rightarrow> Status \<times> Progress list \<times> Client \<times> 'w" where
  "install_fresh sys pf cancel c w =
     (let parent = baseDir sys c w; archive = path_join parent (kArchiveName pf);
          ps = [notice ''downloading'' 0 0 (kDownloadHost @ kDownloadPath pf)]
      in case sy_create_directories sys parent w of
           (Some e, w1) \<Rightarrow> failed_install (''Failed to create directory '' @ parent @ '': '' @ e) [] c w1
         | (None, w1) \<Rightarrow> (case sy_open sys archive w1 of
               (False, w2) \<Rightarrow> failed_install (''Failed to create download file: '' @ archive) ps c w2
             | (True, w2) \<Rightarrow> fetch sys pf cancel parent ps c w2))"

definition install :: "'w Sys \<Rightarrow> Platform \<Rightarrow> (nat \<Rightarrow> bool) \<Rightarrow> Client \<Rightarrow> 'w \<Rightarrow> Status \<times> Progress list \<times> Client \<times> 'w" where
  "install sys pf cancel c w =
     (if kDownloadPath pf = []
      then ((False, ''Oracle Instant Client auto-install is not supported on this platform''), [], c, w)
      else case isInstalled sys pf c w of
        (True, c1) \<Rightarrow> (case installDir sys pf c1 w of (dir, c2) \<Rightarrow>
            ((True, []), [notice ''done'' 0 0 (''Already installed at '' @ dir)], c2, w))
      | (False, c1) \<Rightarrow> install_fresh sys pf cancel (c1\<lparr>cl_cachedDir := []\<rparr>) w)"


section \<open>The context\<close>

text \<open>The pieces between a separator, the last one included.\<close>

fun split_at_char :: "char \<Rightarrow> bytes \<Rightarrow> bytes list" where
  "split_at_char c [] = [[]]"
| "split_at_char c (x # xs) =
     (if x = c then [] # split_at_char c xs
      else case split_at_char c xs of p # ps \<Rightarrow> (x # p) # ps | [] \<Rightarrow> [[x]])"

definition ldLibraryPathContains :: "'w Sys \<Rightarrow> bytes \<Rightarrow> 'w \<Rightarrow> bool" where
  "ldLibraryPathContains sys dir w =
     (case sy_getenv sys ''LD_LIBRARY_PATH'' w of
        None \<Rightarrow> False
      | Some env \<Rightarrow> env \<noteq> [] \<and> dir \<in> set (split_at_char (CHR '':'') env))"

text \<open>Arguments, each ended by a zero byte; what follows the last one is dropped.\<close>

definition cmdline_args :: "bytes \<Rightarrow> bytes list" where
  "cmdline_args t = butlast (split_at_char (CHR 0x00) t)"

text \<open>\<open>True\<close> when the process was replaced.\<close>

definition reexecWithLdLibraryPath :: "'w Sys \<Rightarrow> bytes \<Rightarrow> 'w \<Rightarrow> bool \<times> 'w" where
  "reexecWithLdLibraryPath sys dir w =
     (if sy_getenv sys ''DEARSQL_ORACLE_LD_BOOTSTRAPPED'' w \<noteq> None then (False, w)
      else let w1 = sy_setenv sys ''DEARSQL_ORACLE_LD_BOOTSTRAPPED'' ''1'' w;
               newPath = (case sy_getenv sys ''LD_LIBRARY_PATH'' w1 of
                   Some cur \<Rightarrow> if cur \<noteq> [] then dir @ '':'' @ cur else dir | None \<Rightarrow> dir);
               w2 = sy_setenv sys ''LD_LIBRARY_PATH'' newPath w1
        in case sy_cmdline sys w2 of
             None \<Rightarrow> (False, w2)
           | Some t \<Rightarrow> if cmdline_args t = [] then (False, w2) else sy_execv sys (cmdline_args t) w2)"

datatype ContextResult = Replaced | Missing | Ready

definition context_error :: "bytes \<Rightarrow> bytes" where
  "context_error msg = (if str_find ''DPI-1047'' msg 0 \<noteq> None then ''Oracle Instant Client is not installed.'' else msg)"

text \<open>Before the library is loaded from the installed directory; \<open>True\<close> when the process was replaced.\<close>

definition prepare_client :: "'w Sys \<Rightarrow> Platform \<Rightarrow> bytes \<Rightarrow> Client \<Rightarrow> 'w \<Rightarrow> bool \<times> 'w" where
  "prepare_client sys pf dir c w =
     (if \<not> is_linux pf then (False, w)
      else let w1 = ensureLibaio sys pf dir w
        in if cx_reexec c \<and> \<not> ldLibraryPathContains sys dir w1 then reexecWithLdLibraryPath sys dir w1 else (False, w1))"

definition create_context :: "'w Sys \<Rightarrow> bool \<Rightarrow> Client \<Rightarrow> 'w \<Rightarrow> ContextResult \<times> Client \<times> 'w" where
  "create_context sys installed c w =
     (case sy_dpi sys (if installed then Some (cx_libDir c) else None) w of
        (Some msg, w1) \<Rightarrow> (Missing, c\<lparr>cx_error := context_error msg, cx_ctx := False, cx_failed := True, cx_failedInstalled := installed\<rparr>, w1)
      | (None, w1) \<Rightarrow> (Ready, c\<lparr>cx_ctx := True, cx_failed := False, cx_error := []\<rparr>, w1))"

text \<open>Loading the library, from the installed directory or from wherever the loader finds it.\<close>

definition load_client :: "'w Sys \<Rightarrow> Platform \<Rightarrow> bool \<Rightarrow> Client \<Rightarrow> 'w \<Rightarrow> ContextResult \<times> Client \<times> 'w" where
  "load_client sys pf installed c w =
     (if installed
      then (case installDir sys pf c w of (dir, c1) \<Rightarrow>
        let c2 = c1\<lparr>cx_libDir := dir\<rparr>
        in case prepare_client sys pf dir c2 w of (replaced, w1) \<Rightarrow>
             if replaced then (Replaced, c2, w1) else create_context sys True c2 w1)
      else create_context sys False c w)"

text \<open>Whether a call runs the installer.\<close>

definition tries_install :: "'w Sys \<Rightarrow> Platform \<Rightarrow> bool \<Rightarrow> Client \<Rightarrow> 'w \<Rightarrow> bool" where
  "tries_install sys pf allowInstall c w \<longleftrightarrow>
     \<not> cx_ctx c \<and> \<not> fst (isInstalled sys pf c w) \<and> allowInstall \<and> cx_autoInstall c \<and> \<not> cx_autoInstallAttempted c"

text \<open>Whether the client is there, after installing it where that is called for; \<open>Inl\<close> when that failed.\<close>

definition find_client :: "'w Sys \<Rightarrow> Platform \<Rightarrow> bool \<Rightarrow> Client \<Rightarrow> 'w \<Rightarrow> (Client + bool \<times> Client) \<times> 'w" where
  "find_client sys pf allowInstall c w =
     (case isInstalled sys pf c w of (present, c0) \<Rightarrow>
        if tries_install sys pf allowInstall c w
        then (case install sys pf (\<lambda>_. False) (c0\<lparr>cx_autoInstallAttempted := True\<rparr>) w of ((ok, err), ps, c1, w1) \<Rightarrow>
          if \<not> ok
          then (Inl (c1\<lparr>cx_error := ''Oracle Instant Client auto-install failed: '' @
                 (if err = [] then ''unknown error'' else err), cx_failed := True, cx_failedInstalled := False\<rparr>), w1)
          else (Inr (isInstalled sys pf c1 w1), w1))
        else (Inr (present, c0), w))"

definition getDpiContext :: "'w Sys \<Rightarrow> Platform \<Rightarrow> bool \<Rightarrow> Client \<Rightarrow> 'w \<Rightarrow> ContextResult \<times> Client \<times> 'w" where
  "getDpiContext sys pf allowInstall c w =
     (if cx_ctx c then (Ready, c, w)
      else case find_client sys pf allowInstall c w of
          (Inl c1, w1) \<Rightarrow> (Missing, c1, w1)
        | (Inr (installed, c1), w1) \<Rightarrow>
            if cx_failed c1 \<and> cx_failedInstalled c1 = installed then (Missing, c1, w1)
            else load_client sys pf installed c1 w1)"

definition lastInitError :: "Client \<Rightarrow> bytes" where
  "lastInitError c = (if cx_error c = [] then ''Failed to initialize ODPI-C context'' else cx_error c)"

definition setClientOptions :: "bool \<Rightarrow> bool \<Rightarrow> Client \<Rightarrow> Client" where
  "setClientOptions autoInstall reexec c = c\<lparr>cx_autoInstall := autoInstall, cx_reexec := reexec\<rparr>"

definition needsClientInstall :: "'w Sys \<Rightarrow> Platform \<Rightarrow> Client \<Rightarrow> 'w \<Rightarrow> bool option \<times> Client \<times> 'w" where
  "needsClientInstall sys pf c w =
     (case getDpiContext sys pf False c w of (r, c1, w1) \<Rightarrow>
        (case r of Replaced \<Rightarrow> None | Missing \<Rightarrow> Some True | Ready \<Rightarrow> Some False, c1, w1))"

definition resetContext :: "Client \<Rightarrow> Client" where
  "resetContext c = c\<lparr>cx_failed := False, cx_failedInstalled := False, cx_autoInstallAttempted := False, cx_error := []\<rparr>"


section \<open>What an installation reports\<close>

lemma installDir_again: "installDir sys pf c w = (dir, c1) \<Longrightarrow> installDir sys pf c1 w = (dir, c1)"
proof (cases "cl_cachedDir c = []")
  case True
  assume d: "installDir sys pf c w = (dir, c1)"
  with True have "c1 = c \<or> c1 = c\<lparr>cl_cachedDir := dir\<rparr>"
    by (auto simp: installDir_def Let_def split: if_splits option.splits)
  moreover have "c\<lparr>cl_cachedDir := []\<rparr> = c" using True by simp
  ultimately show ?thesis using d True by (cases "dir = []") (auto simp: installDir_def)
qed (auto simp: installDir_def)

lemma isInstalled_again: "isInstalled sys pf c w = (b, c1) \<Longrightarrow> isInstalled sys pf c1 w = (b, c1)"
  by (auto simp: isInstalled_def installDir_again split: prod.splits)

text \<open>The report of one installation: how it ended, and what was seen of it last.\<close>

definition reported :: "'w Sys \<Rightarrow> Platform \<Rightarrow> Status \<times> Progress list \<times> Client \<times> 'w \<Rightarrow> bool" where
  "reported sys pf = (\<lambda>(st, ps, c1, w1).
     if fst st
     then snd st = [] \<and> ps \<noteq> [] \<and> pr_phase (last ps) = ''done'' \<and>
       (\<exists>w0 dir. fst (isInstalled sys pf c1 w0) \<and> (w1 = w0 \<or> is_linux pf \<and> w1 = ensureLibaioImpl sys pf dir w0))
     else snd st \<noteq> [] \<and> (snd st = ''cancelled'' \<or> pf = Unsupported \<or> ps \<noteq> [] \<and> last ps = notice ''error'' 0 0 (snd st)))"

lemma failed_install_reported: "err \<noteq> [] \<Longrightarrow> reported sys pf (failed_install err ps c w)"
  by (simp add: reported_def failed_install_def)

lemma unpack_reported: "reported sys pf (unpack sys pf parent written ps c w)"
proof -
  obtain ret w1 where ex: "extract_archive sys pf (path_join parent (kArchiveName pf)) parent (path_join parent (kExpectedDirName pf)) w = (ret, w1)"
    by fastforce
  obtain b c1 where ins: "isInstalled sys pf (c\<lparr>cl_cachedDir := []\<rparr>) (sy_remove sys (path_join parent (kArchiveName pf)) w1) = (b, c1)"
    by fastforce
  show ?thesis
  proof (cases "ret = 0 \<and> b")
    case True
    with isInstalled_again [OF ins]
    have "fst (isInstalled sys pf c1 (sy_remove sys (path_join parent (kArchiveName pf)) w1))" by simp
    with True ex ins show ?thesis
      by (cases "is_linux pf") (fastforce simp: unpack_def reported_def notice_def Let_def)+
  next
    case False
    with ex ins show ?thesis by (auto simp: unpack_def Let_def intro!: failed_install_reported)
  qed
qed

lemma fetch_reported: "reported sys pf (fetch sys pf cancel parent ps c w)"
proof -
  have cancelled: "reported sys pf ((False, ''cancelled''), qs, d, v)" for qs d v by (simp add: reported_def)
  show ?thesis
    unfolding fetch_def Let_def by (auto simp: cancelled unpack_reported failed_install_reported split: prod.split)
qed

lemma install_fresh_reported: "reported sys pf (install_fresh sys pf cancel c w)"
  unfolding install_fresh_def Let_def
  by (auto simp: fetch_reported failed_install_reported split: prod.split option.split bool.split)

lemma install_reported: "reported sys pf (install sys pf cancel c w)"
proof (cases "kDownloadPath pf = []")
  case True
  then have "pf = Unsupported" by (cases pf) auto
  with True show ?thesis by (simp add: install_def reported_def)
next
  case False
  obtain b c1 where ins: "isInstalled sys pf c w = (b, c1)" by fastforce
  show ?thesis
  proof (cases b)
    case True
    obtain dir c2 where dir: "installDir sys pf c1 w = (dir, c2)" by fastforce
    have again: "isInstalled sys pf c1 w = (True, c1)" using isInstalled_again [OF ins] True by simp
    then have "c2 = c1" using dir by (simp add: isInstalled_def)
    with again have "fst (isInstalled sys pf c2 w)" by simp
    with False True ins dir show ?thesis by (auto simp: install_def reported_def notice_def)
  next
    case inst: False
    with False ins show ?thesis by (simp add: install_def install_fresh_reported)
  qed
qed


section \<open>One installation, and a memory of failures\<close>

definition same_context :: "Client \<Rightarrow> Client \<Rightarrow> bool" where
  "same_context c c1 \<longleftrightarrow> cx_ctx c1 = cx_ctx c \<and> cx_failed c1 = cx_failed c \<and> cx_failedInstalled c1 = cx_failedInstalled c \<and>
     cx_autoInstallAttempted c1 = cx_autoInstallAttempted c \<and> cx_autoInstall c1 = cx_autoInstall c"

lemma same_context_simps [simp]:
  "same_context c c" "same_context c (c1\<lparr>cl_cachedDir := d\<rparr>) = same_context c c1"
  "same_context (c\<lparr>cl_cachedDir := d\<rparr>) c1 = same_context c c1"
  by (simp_all add: same_context_def)

lemma same_context_trans: "same_context c c1 \<Longrightarrow> same_context c1 c2 \<Longrightarrow> same_context c c2"
  by (simp add: same_context_def)

lemma installDir_context: "same_context c (snd (installDir sys pf c w))"
  by (auto simp: installDir_def Let_def split: option.split)

lemma isInstalled_context: "same_context c (snd (isInstalled sys pf c w))"
  using installDir_context [of c sys pf w] by (auto simp: isInstalled_def split: prod.split)

lemma failed_install_context: "same_context d (fst (snd (snd (failed_install err ps c w)))) = same_context d c"
  by (simp add: failed_install_def)

lemma unpack_context: "same_context c (fst (snd (snd (unpack sys pf parent written ps c w))))"
  using isInstalled_context [of "c\<lparr>cl_cachedDir := []\<rparr>" sys pf]
  by (auto simp: unpack_def Let_def failed_install_context split: prod.split bool.split) (metis snd_conv)+

lemma install_fresh_context: "same_context c (fst (snd (snd (install_fresh sys pf cancel c w))))"
  unfolding install_fresh_def fetch_def Let_def
  by (auto simp: failed_install_context unpack_context split: prod.split option.split bool.split)

lemma install_context: "same_context c (fst (snd (snd (install sys pf cancel c w))))"
proof -
  obtain b c1 where ins: "isInstalled sys pf c w = (b, c1)" by fastforce
  have c1: "same_context c c1" using isInstalled_context [of c sys pf w] ins by simp
  have "same_context c1 (snd (installDir sys pf c1 w))" by (rule installDir_context)
  moreover have "same_context c1 (fst (snd (snd (install_fresh sys pf cancel (c1\<lparr>cl_cachedDir := []\<rparr>) w))))"
    using install_fresh_context [of "c1\<lparr>cl_cachedDir := []\<rparr>" sys pf cancel w] by simp
  ultimately show ?thesis
    using ins c1 by (auto simp: install_def split: prod.split bool.split intro: same_context_trans)
qed

text \<open>What loading the library leaves: a context exactly when it is ready, else a remembered failure.\<close>

lemma create_context_state:
  "create_context sys installed c w = (r, c1, w1) \<Longrightarrow>
     (r = Ready \<longleftrightarrow> cx_ctx c1) \<and> r \<noteq> Replaced \<and> (r = Missing \<longrightarrow> cx_failed c1 \<and> cx_failedInstalled c1 = installed) \<and>
     cx_autoInstallAttempted c1 = cx_autoInstallAttempted c \<and> cx_autoInstall c1 = cx_autoInstall c"
  by (auto simp: create_context_def split: prod.splits option.splits)

lemma load_client_state:
  assumes "load_client sys pf installed c w = (r, c1, w1)" "\<not> cx_ctx c"
  shows "(r = Ready \<longleftrightarrow> cx_ctx c1) \<and> (r = Missing \<longrightarrow> cx_failed c1 \<and> cx_failedInstalled c1 = installed) \<and>
    cx_autoInstallAttempted c1 = cx_autoInstallAttempted c \<and> cx_autoInstall c1 = cx_autoInstall c"
proof (cases installed)
  case True
  obtain dir d where dir: "installDir sys pf c w = (dir, d)" by fastforce
  have same: "same_context c d" using installDir_context [of c sys pf w] dir by simp
  obtain b v where p: "prepare_client sys pf dir (d\<lparr>cx_libDir := dir\<rparr>) w = (b, v)" by fastforce
  show ?thesis
  proof (cases b)
    case True
    with \<open>installed\<close> assms dir p same show ?thesis by (auto simp: load_client_def same_context_def)
  next
    case False
    with \<open>installed\<close> assms(1) dir p have "create_context sys True (d\<lparr>cx_libDir := dir\<rparr>) v = (r, c1, w1)"
      by (simp add: load_client_def)
    from create_context_state [OF this] same \<open>installed\<close> show ?thesis by (auto simp: same_context_def)
  qed
next
  case False
  with assms(1) have "create_context sys False c w = (r, c1, w1)" by (simp add: load_client_def)
  from create_context_state [OF this] False show ?thesis by auto
qed

lemma find_client_quiet:
  "\<not> tries_install sys pf allowInstall c w \<Longrightarrow> find_client sys pf allowInstall c w = (Inr (isInstalled sys pf c w), w)"
  by (simp add: find_client_def split: prod.split)

text \<open>What looking for the client changes of the context.\<close>

definition after_find :: "Client \<Rightarrow> bool \<Rightarrow> Client \<Rightarrow> bool" where
  "after_find c tried c1 \<longleftrightarrow> cx_ctx c1 = cx_ctx c \<and> cx_autoInstall c1 = cx_autoInstall c \<and>
     (cx_autoInstallAttempted c1 \<longleftrightarrow> cx_autoInstallAttempted c \<or> tried)"

lemma find_client_state:
  "case fst (find_client sys pf allowInstall c w) of
     Inl c1 \<Rightarrow> after_find c (tries_install sys pf allowInstall c w) c1 \<and> cx_failed c1
   | Inr (b, c1) \<Rightarrow> after_find c (tries_install sys pf allowInstall c w) c1"
proof -
  obtain b c0 where ins: "isInstalled sys pf c w = (b, c0)" by fastforce
  have c0: "same_context c c0" using isInstalled_context [of c sys pf w] ins by simp
  show ?thesis
  proof (cases "tries_install sys pf allowInstall c w")
    case True
    let ?c = "c0\<lparr>cx_autoInstallAttempted := True\<rparr>"
    obtain ok err ps d v where run: "install sys pf (\<lambda>_. False) ?c w = ((ok, err), ps, d, v)" by (metis prod.collapse)
    have d: "same_context ?c d" using install_context [of ?c sys pf "\<lambda>_. False" w] run by simp
    have "same_context d (snd (isInstalled sys pf d v))" by (rule isInstalled_context)
    with True ins run c0 d show ?thesis
      by (auto simp: find_client_def after_find_def same_context_def split: prod.split)
  qed (use ins c0 in \<open>auto simp: find_client_quiet after_find_def same_context_def\<close>)
qed

lemma getDpiContext_state:
  assumes "getDpiContext sys pf allowInstall c w = (r, c1, w1)"
  shows "(r = Ready \<longleftrightarrow> cx_ctx c1) \<and> (r = Missing \<longrightarrow> cx_failed c1) \<and>
    (cx_autoInstallAttempted c1 \<longleftrightarrow> cx_autoInstallAttempted c \<or> tries_install sys pf allowInstall c w)"
proof (cases "cx_ctx c")
  case True
  with assms show ?thesis by (auto simp: getDpiContext_def tries_install_def)
next
  case False
  obtain f v where f: "find_client sys pf allowInstall c w = (f, v)" by fastforce
  note st = find_client_state [where sys = sys and pf = pf and allowInstall = allowInstall and c = c and w = w, unfolded f]
  show ?thesis
  proof (cases f)
    case (Inl d)
    with False assms f st show ?thesis by (auto simp: getDpiContext_def after_find_def)
  next
    case (Inr bd)
    obtain b d where "bd = (b, d)" by fastforce
    with Inr False assms f st load_client_state [of sys pf b d v r c1 w1] show ?thesis
      by (auto simp: getDpiContext_def after_find_def split: if_splits)
  qed
qed

text \<open>
  A series of calls: asking for the context, in a world that others may have changed, and resetting it.
  How often the installer runs.
\<close>

datatype 'w ContextCall = AskContext bool "'w \<Rightarrow> 'w" | ResetContext

fun installs :: "'w Sys \<Rightarrow> Platform \<Rightarrow> 'w ContextCall list \<Rightarrow> Client \<Rightarrow> 'w \<Rightarrow> nat" where
  "installs sys pf [] c w = 0"
| "installs sys pf (ResetContext # calls) c w = installs sys pf calls (resetContext c) w"
| "installs sys pf (AskContext allowInstall others # calls) c w =
     (case getDpiContext sys pf allowInstall c (others w) of (r, c1, w1) \<Rightarrow>
        (if tries_install sys pf allowInstall c (others w) then 1 else 0) + installs sys pf calls c1 w1)"

abbreviation resets :: "'w ContextCall list \<Rightarrow> nat" where
  "resets calls \<equiv> length (filter (\<lambda>call. case call of ResetContext \<Rightarrow> True | _ \<Rightarrow> False) calls)"

lemma installs_at_most: "installs sys pf calls c w \<le> (if cx_autoInstallAttempted c then 0 else 1) + resets calls"
proof (induction calls arbitrary: c w)
  case (Cons call calls)
  show ?case
  proof (cases call)
    case (AskContext allowInstall others)
    obtain r c1 w1 where run: "getDpiContext sys pf allowInstall c (others w) = (r, c1, w1)" by (metis prod.collapse)
    have "installs sys pf calls c1 w1 \<le> (if cx_autoInstallAttempted c1 then 0 else 1) + resets calls" by (rule Cons.IH)
    with getDpiContext_state [OF run] AskContext run show ?thesis by (auto simp: tries_install_def split: if_splits)
  next
    case ResetContext
    with Cons.IH [of "resetContext c" w] show ?thesis by (simp add: resetContext_def)
  qed
qed simp

text \<open>
  C31: However often the Oracle context is asked for, and whatever happens to the files meanwhile, the
  installer runs at most once, and once more for each reset, which is meant to forget the attempt;
  it never runs for a call that does not allow it, and its outcome is reported.
  A context is there exactly when a call was ready. After a failure a call that cannot install
  fails again without touching anything as long as the client is there or not there as it was.
\<close>

theorem client_context_remembers:
  assumes "getDpiContext sys pf allowInstall c w = (r, c1, w1)"
  shows "installs sys pf calls c w \<le> (if cx_autoInstallAttempted c then 0 else 1) + resets calls \<and>
    reported sys pf (install sys pf cancel c w) \<and>
    \<not> tries_install sys pf False c w \<and> (r = Ready \<longleftrightarrow> cx_ctx c1) \<and>
    (r = Missing \<and> fst (isInstalled sys pf c1 w2) = cx_failedInstalled c1 \<and> \<not> tries_install sys pf again c1 w2 \<longrightarrow>
       getDpiContext sys pf again c1 w2 = (Missing, snd (isInstalled sys pf c1 w2), w2))"
proof (intro conjI impI)
  note st = getDpiContext_state [OF assms]
  show "r = Ready \<longleftrightarrow> cx_ctx c1" using st by simp
  assume m: "r = Missing \<and> fst (isInstalled sys pf c1 w2) = cx_failedInstalled c1 \<and> \<not> tries_install sys pf again c1 w2"
  obtain b c2 where ins: "isInstalled sys pf c1 w2 = (b, c2)" by fastforce
  have "same_context c1 c2" using isInstalled_context [of c1 sys pf w2] ins by simp
  with st m ins show "getDpiContext sys pf again c1 w2 = (Missing, snd (isInstalled sys pf c1 w2), w2)"
    by (auto simp: getDpiContext_def find_client_quiet same_context_def)
qed (simp_all add: installs_at_most install_reported tries_install_def)


section \<open>A machine for runs\<close>

text \<open>
  Nothing is installed and the library is not found; the disk takes no data. The world counts the
  attempts to load the library. A download whose receiver stops it has no response.
\<close>

definition bare :: "nat Sys" where
  "bare = \<lparr>sy_exists = \<lambda>p w. False, sy_entries = \<lambda>p w. [], sy_canonical = \<lambda>p w. None,
     sy_create_directories = \<lambda>p w. (None, w), sy_open = \<lambda>p w. (True, w), sy_write = \<lambda>p d w. (False, w),
     sy_copy = \<lambda>p q b w. (False, w), sy_remove = \<lambda>p w. w, sy_remove_all = \<lambda>p w. w, sy_system = \<lambda>t w. (1, w),
     sy_get = \<lambda>h p w. (\<lparr>ht_events = [Chunk ''PK''], ht_status = \<lambda>stopped. if stopped then None else Some 200\<rparr>, w),
     sy_getenv = \<lambda>n w. None, sy_setenv = \<lambda>n v w. w, sy_cmdline = \<lambda>w. None, sy_execv = \<lambda>a w. (False, w),
     sy_dpi = \<lambda>d w. (Some ''DPI-1047: cannot locate the library'', Suc w)\<rparr>"

lemma bare_sel:
  "sy_exists bare p w = False" "sy_create_directories bare p w = (None, w)" "sy_open bare p w = (True, w)"
  "sy_write bare p d w = (False, w)" "sy_remove bare p w = w"
  "sy_get bare h p w = (\<lparr>ht_events = [Chunk ''PK''], ht_status = \<lambda>stopped. if stopped then None else Some 200\<rparr>, w)"
  "sy_dpi bare dir w = (Some ''DPI-1047: cannot locate the library'', Suc w)"
  by (simp_all add: bare_def)

lemma bare_not_installed: "cl_cachedDir c = [] \<Longrightarrow> isInstalled bare pf c w = (False, c)"
  by (simp add: isInstalled_def installDir_def bare_sel Let_def)

definition failed_once :: Client where
  "failed_once = new_Client\<lparr>cx_error := context_error ''DPI-1047: cannot locate the library'', cx_failed := True, cx_failedInstalled := False\<rparr>"

lemma bare_first: "getDpiContext bare Linux_x64 False new_Client 0 = (Missing, failed_once, 1)"
  by (simp add: getDpiContext_def find_client_quiet tries_install_def bare_not_installed new_Client_def load_client_def
      create_context_def failed_once_def bare_sel)

theorem client_context_remembers_witness:
  "installs bare Linux_x64 [AskContext True id, AskContext True id] new_Client 0 \<le> 1 \<and>
   getDpiContext bare Linux_x64 False failed_once 1 = (Missing, failed_once, 1)"
  using client_context_remembers [OF bare_first, of "[AskContext True id, AskContext True id]" "\<lambda>_. False" 1 False]
  by (simp add: bare_not_installed failed_once_def new_Client_def tries_install_def)

text \<open>
  A disk that is full is reported as a missing response, since stopping the download drops it; a quote
  in the root ends the quotes of the shell command.
\<close>

lemma client_departures:
  "fst (install bare Linux_x64 (\<lambda>_. False) new_Client 0) = (False, ''Download failed: no response'')"
  "shell_quoted (''/o'' @ [squote] @ ''x'') = [squote] @ ''/o'' @ [squote] @ ''x'' @ [squote]"
  by (simp_all add: install_def bare_not_installed new_Client_def install_fresh_def fetch_def Let_def failed_install_def
      shell_quoted_def bare_sel)

end
