(* ===== verification/Oracle_Backend.thy ===== *)
theory Oracle_Backend
  imports Value_Text Catalog_Reading Oracle_Client
begin

text \<open>
  Oracle (\<^verbatim>\<open>src/oracle_connection.cpp\<close>): values as text, running one statement, connect strings with their
  TLS settings, a handle per schema with a session of its own, the catalog, and the connection that
  probes for a service and administers users. ODPI-C and the server are a parameter over a session
  state \<open>'s\<close>. The lemmas show in which schema a statement runs, what a success means, and that listings
  are consistent.
\<close>


section \<open>Values\<close>

datatype OraCell =
    ONull
  | OBytes bytes
  | ODouble Double
  | OFloat Double
  | OInt64 int
  | OUint64 nat
  | OBool bool
  | OTimestamp int int int int int int
  | OIntervalDS int int int int
  | OIntervalYM int int
  | OOther

fun dataToString :: "OraCell \<Rightarrow> bytes" where
  "dataToString ONull = NULL_SENTINEL"
| "dataToString (OBytes s) = s"
| "dataToString (ODouble d) = format_number d"
| "dataToString (OFloat d) = format_float d"
| "dataToString (OInt64 i) = to_string i"
| "dataToString (OUint64 n) = nat_to_string n"
| "dataToString (OBool b) = (if b then BOOL_TRUE_SENTINEL else BOOL_FALSE_SENTINEL)"
| "dataToString (OTimestamp y mo d h mi sec) =
     padded 4 y @ ''-'' @ padded 2 mo @ ''-'' @ padded 2 d @ '' '' @ padded 2 h @ '':'' @ padded 2 mi @ '':'' @ padded 2 sec"
| "dataToString (OIntervalDS d h mi sec) =
     to_string d @ '' '' @ padded 2 h @ '':'' @ padded 2 mi @ '':'' @ padded 2 sec"
| "dataToString (OIntervalYM y mo) = to_string y @ ''-'' @ to_string mo"
| "dataToString OOther = ''<unsupported>''"


section \<open>Running a statement\<close>

text \<open>
  What an executed statement has: the names of its columns, at least one, and its rows, with whether
  fetching them ends in an error; or a number of affected rows.
\<close>

datatype OraReply = OraRows "bytes list" "OraCell list list" bool | OraCount nat

text \<open>
  The library: whether a path is a regular file, opening a session with user, password and connect
  string, preparing a text (the result tells whether it is a query), executing it with or without
  commit, and a ping.
\<close>

record 's Ora =
  or_file :: "bytes \<Rightarrow> bool"
  or_connect :: "bytes \<Rightarrow> bytes \<Rightarrow> bytes \<Rightarrow> bytes + 's"
  or_prepare :: "bytes \<Rightarrow> 's \<Rightarrow> (bytes + bool) \<times> 's"
  or_execute :: "bytes \<Rightarrow> bool \<Rightarrow> 's \<Rightarrow> (bytes + OraReply) \<times> 's"
  or_ping :: "'s \<Rightarrow> bool"

definition ora_failed :: "bytes \<Rightarrow> StatementResult" where
  "ora_failed message = default_statement\<lparr>sr_success := False, sr_errorMessage := message\<rparr>"

text \<open>Rows are fetched until the limit, the end or an error, which counts as the end.\<close>

fun ora_result :: "int \<Rightarrow> OraReply \<Rightarrow> StatementResult" where
  "ora_result rowLimit (OraRows names cells broken) =
     (let data = map (map dataToString) (limited rowLimit cells); n = length data
      in default_statement\<lparr>sr_columnNames := names, sr_tableData := data,
           sr_message := ''Returned '' @ nat_to_string n @ '' row'' @ (if n = 1 then [] else ''s'') @
             (if rowLimit > 0 \<and> int n \<ge> rowLimit then '' (limited to '' @ to_string rowLimit @ '')'' else [])\<rparr>)"
| "ora_result rowLimit (OraCount n) =
     default_statement\<lparr>sr_affectedRows := to_int32 (int n),
       sr_message := (if n > 0 then nat_to_string n @ '' row(s) affected'' else ''Query executed successfully'')\<rparr>"

definition ora_statement :: "'s Ora \<Rightarrow> bytes \<Rightarrow> int \<Rightarrow> 's \<Rightarrow> StatementResult \<times> 's" where
  "ora_statement lib sql rowLimit s =
     (case or_prepare lib sql s of
        (Inl e, s1) \<Rightarrow> (ora_failed e, s1)
      | (Inr isQuery, s1) \<Rightarrow> (case or_execute lib sql (\<not> isQuery) s1 of
            (Inl e, s2) \<Rightarrow> (ora_failed e, s2)
          | (Inr reply, s2) \<Rightarrow> (ora_result rowLimit reply, s2)))"

definition runQuery :: "'s Ora \<Rightarrow> bytes \<Rightarrow> int \<Rightarrow> 's \<Rightarrow> QueryResult \<times> 's" where
  "runQuery lib sql rowLimit s =
     (case ora_statement lib sql rowLimit s of (st, s1) \<Rightarrow> (\<lparr>qr_statements = [st], qr_messages = []\<rparr>, s1))"

definition ora_queryRows :: "'s Ora \<Rightarrow> bytes \<Rightarrow> ('s, bytes list list) call" where
  "ora_queryRows lib sql s =
     (case runQuery lib sql 0 s of (r, s1) \<Rightarrow>
        (if \<not> qr_success r then Inl (qr_errorMessage r) else Inr (sr_tableData (hd (qr_statements r))), s1))"

definition ora_firstColumn :: "bytes list list \<Rightarrow> bytes list" where
  "ora_firstColumn data = filter (\<lambda>n. \<not> isNullSentinel n) (first_cells data)"


section \<open>Sessions\<close>

definition ora_text :: "bytes \<Rightarrow> bytes" where
  "ora_text s = [squote] @ double_char squote s @ [squote]"

definition ora_quoteIdent :: "bytes \<Rightarrow> bytes" where
  "ora_quoteIdent s = [dquote] @ double_char dquote s @ [dquote]"

text \<open>\<^verbatim>\<open>fs::path::parent_path\<close> of a file.\<close>

definition parent_path :: "bytes \<Rightarrow> bytes" where
  "parent_path p =
     (let d = rev (dropWhile (\<lambda>c. c \<noteq> CHR ''/'') (rev p)); s = rev (dropWhile (\<lambda>c. c = CHR ''/'') (rev d))
      in if s = [] \<and> d \<noteq> [] then ''/'' else s)"

definition walletLocation :: "'s Ora \<Rightarrow> bytes \<Rightarrow> bytes" where
  "walletLocation lib path =
     (if path = [] then [] else if or_file lib path \<and> parent_path path \<noteq> [] then parent_path path else path)"

definition ora_address :: "ConnectionInfo \<Rightarrow> bytes" where
  "ora_address info = ci_host info @ '':'' @ to_string (ci_port info) @ ''/'' @ ci_database info"

definition buildConnectString :: "'s Ora \<Rightarrow> ConnectionInfo \<Rightarrow> bytes + bytes" where
  "buildConnectString lib info =
     (let m = ci_sslmode info; location = walletLocation lib (ci_sslCACertPath info)
      in if \<not> (m = Require \<or> m = VerifyCA \<or> m = VerifyFull) then Inr (ora_address info)
         else if m = Require then Inr (''tcps://'' @ ora_address info @ ''?ssl_server_dn_match=off'')
         else if location = [] then Inl ''Oracle TLS verify mode requires a wallet path or wallet file location''
         else Inr (''tcps://'' @ ora_address info @ ''?wallet_location='' @ [dquote] @ location @ [dquote]))"

definition createConn :: "'s Ora \<Rightarrow> ConnectionInfo \<Rightarrow> bytes + 's" where
  "createConn lib info =
     (case buildConnectString lib info of
        Inl e \<Rightarrow> Inl e
      | Inr text \<Rightarrow> (case or_connect lib (ci_username info) (ci_password info) text of
            Inl e \<Rightarrow> Inl (''Oracle connection failed: '' @ e) | Inr s \<Rightarrow> Inr s))"

definition ora_upper :: "bytes \<Rightarrow> bytes" where
  "ora_upper = map toupper"

text \<open>A handle: one schema on its own session.\<close>

record 's OraDb =
  od_info :: ConnectionInfo
  od_schema :: bytes
  od_session :: "'s option"

definition new_OraDb :: "ConnectionInfo \<Rightarrow> bytes \<Rightarrow> 's OraDb" where
  "new_OraDb info schema = \<lparr>od_info = info, od_schema = schema, od_session = None\<rparr>"

definition schema_text :: "bytes \<Rightarrow> bytes" where
  "schema_text schema = ''ALTER SESSION SET CURRENT_SCHEMA = '' @ ora_quoteIdent schema"

text \<open>The session, opened on first use with the schema of the handle as the current one.\<close>

definition ora_ensureConn :: "'s Ora \<Rightarrow> ('s OraDb, 's) call" where
  "ora_ensureConn lib d =
     (case od_session d of
        Some s \<Rightarrow> (Inr s, d)
      | None \<Rightarrow> (case createConn lib (od_info d) of
            Inl e \<Rightarrow> (Inl e, d)
          | Inr s \<Rightarrow>
              if od_schema d = ora_upper (ci_username (od_info d)) then (Inr s, d\<lparr>od_session := Some s\<rparr>)
              else (case runQuery lib (schema_text (od_schema d)) 0 s of (r, s1) \<Rightarrow>
                if \<not> qr_success r then (Inl (qr_errorMessage r), d) else (Inr s1, d\<lparr>od_session := Some s1\<rparr>))))"

definition ora_execute :: "'s Ora \<Rightarrow> bytes \<Rightarrow> int \<Rightarrow> 's OraDb \<Rightarrow> QueryResult \<times> 's OraDb" where
  "ora_execute lib sql rowLimit d =
     (case ora_ensureConn lib d of
        (Inl e, d1) \<Rightarrow> (\<lparr>qr_statements = [ora_failed e], qr_messages = []\<rparr>, d1)
      | (Inr s, d1) \<Rightarrow> (case runQuery lib sql rowLimit s of (r, s1) \<Rightarrow> (r, d1\<lparr>od_session := Some s1\<rparr>)))"

definition ora_alive :: "'s Ora \<Rightarrow> 's OraDb \<Rightarrow> bool" where
  "ora_alive lib d = (case od_session d of None \<Rightarrow> True | Some s \<Rightarrow> or_ping lib s)"

definition ora_ask :: "'s Ora \<Rightarrow> bytes \<Rightarrow> ('s OraDb, bytes list list) call" where
  "ora_ask lib sql d =
     (case ora_ensureConn lib d of
        (Inl e, d1) \<Rightarrow> (Inl e, d1)
      | (Inr s, d1) \<Rightarrow> (case ora_queryRows lib sql s of (r, s1) \<Rightarrow> (r, d1\<lparr>od_session := Some s1\<rparr>)))"


section \<open>The catalog of a schema\<close>

definition columnType :: "bytes \<Rightarrow> bytes \<Rightarrow> bytes \<Rightarrow> bytes \<Rightarrow> bytes" where
  "columnType dataType dataLen prec scale =
     (if \<not> isNullSentinel prec
      then (if \<not> isNullSentinel scale \<and> scale \<noteq> ''0'' then dataType @ ''('' @ prec @ '','' @ scale @ '')''
            else dataType @ ''('' @ prec @ '')'')
      else if dataType \<in> {''VARCHAR2'', ''CHAR'', ''NVARCHAR2'', ''RAW''} then dataType @ ''('' @ dataLen @ '')''
      else dataType)"

definition ora_columns_query :: "bytes \<Rightarrow> bytes \<Rightarrow> bytes" where
  "ora_columns_query owner flt =
       ''SELECT TABLE_NAME, COLUMN_NAME, DATA_TYPE, NULLABLE, DATA_LENGTH, DATA_PRECISION, DATA_SCALE, '' @
       ''IDENTITY_COLUMN FROM ALL_TAB_COLUMNS WHERE OWNER = '' @
       ora_text owner @ flt @ '' ORDER BY TABLE_NAME, COLUMN_ID''"

definition ora_column_row :: "bytes list \<Rightarrow> (bytes \<times> Column) option" where
  "ora_column_row row =
     (if length row < 8 then None
      else Some (row ! 0, default_column\<lparr>col_name := row ! 1, col_type := columnType (row ! 2) (row ! 4) (row ! 5) (row ! 6),
        col_isNotNull := (row ! 3 = ''N''), col_isAutoIncrement := (row ! 7 = ''YES'')\<rparr>))"

definition table_filter :: "bytes \<Rightarrow> bytes \<Rightarrow> bytes" where
  "table_filter alias tableName = (if tableName = [] then [] else '' AND '' @ alias @ ''.TABLE_NAME = '' @ ora_text tableName)"

definition ora_primary_query :: "bytes \<Rightarrow> bytes \<Rightarrow> bytes" where
  "ora_primary_query owner tableName =
       ''SELECT ac.TABLE_NAME, acc.COLUMN_NAME FROM ALL_CONS_COLUMNS acc JOIN ALL_CONSTRAINTS ac ON acc.CONSTRAINT_NAME '' @
       ''= ac.CONSTRAINT_NAME AND acc.OWNER = ac.OWNER WHERE ac.CONSTRAINT_TYPE = 'P' AND ac.OWNER = '' @
       ora_text owner @ table_filter ''ac'' tableName"

definition ora_primary_row :: "bytes list \<Rightarrow> (bytes \<times> bytes) option" where
  "ora_primary_row row = (if length row < 2 then None else Some (row ! 0, row ! 1))"

definition ora_keys_query :: "bytes \<Rightarrow> bytes \<Rightarrow> bytes" where
  "ora_keys_query owner tableName =
       ''SELECT ac.TABLE_NAME, ac.CONSTRAINT_NAME, acc.COLUMN_NAME, rc.TABLE_NAME, rcc.COLUMN_NAME FROM '' @
       ''ALL_CONSTRAINTS ac JOIN ALL_CONS_COLUMNS acc ON ac.CONSTRAINT_NAME = acc.CONSTRAINT_NAME AND '' @
       ''ac.OWNER = acc.OWNER JOIN ALL_CONSTRAINTS rc ON ac.R_CONSTRAINT_NAME = rc.CONSTRAINT_NAME AND '' @
       ''ac.R_OWNER = rc.OWNER JOIN ALL_CONS_COLUMNS rcc ON rc.CONSTRAINT_NAME = rcc.CONSTRAINT_NAME '' @
       ''AND rc.OWNER = rcc.OWNER AND acc.POSITION = rcc.POSITION WHERE ac.CONSTRAINT_TYPE = 'R' AND '' @
       ''ac.OWNER = '' @
       ora_text owner @ table_filter ''ac'' tableName @ '' ORDER BY ac.TABLE_NAME, ac.CONSTRAINT_NAME, acc.POSITION''"

definition ora_key_row :: "bytes list \<Rightarrow> (bytes \<times> ForeignKey) option" where
  "ora_key_row row =
     (if length row < 5 then None
      else Some (row ! 0, default_key\<lparr>fk_name := row ! 1, fk_sourceColumn := row ! 2, fk_targetTable := row ! 3,
        fk_targetColumn := row ! 4\<rparr>))"

definition ora_indexes_query :: "bytes \<Rightarrow> bytes \<Rightarrow> bytes" where
  "ora_indexes_query owner tableName =
       ''SELECT i.TABLE_NAME, i.INDEX_NAME, i.UNIQUENESS, ic.COLUMN_NAME FROM ALL_INDEXES i JOIN ALL_IND_COLUMNS '' @
       ''ic ON i.INDEX_NAME = ic.INDEX_NAME AND i.OWNER = ic.INDEX_OWNER LEFT JOIN ALL_CONSTRAINTS c '' @
       ''ON i.INDEX_NAME = c.INDEX_NAME AND i.OWNER = c.OWNER WHERE i.OWNER = '' @
       ora_text owner @ table_filter ''i'' tableName @
       '' AND (c.CONSTRAINT_TYPE IS NULL OR c.CONSTRAINT_TYPE != 'P') ORDER BY i.TABLE_NAME, i.INDEX_NAME, '' @
       ''ic.COLUMN_POSITION''"

definition ora_index_row :: "bytes list \<Rightarrow> (bytes \<times> bytes \<times> bool \<times> bytes) option" where
  "ora_index_row row = (if length row < 4 then None else Some (row ! 0, row ! 1, row ! 2 = ''UNIQUE'', row ! 3))"

text \<open>An entry of the ordered map from index names; every row sets whether the index is unique.\<close>

definition ora_add_index :: "bytes \<times> bool \<times> bytes \<Rightarrow> Index list \<Rightarrow> Index list" where
  "ora_add_index = (\<lambda>(name, unique, column) idxs.
     map (\<lambda>i. if idx_name i = name then i\<lparr>idx_isUnique := unique\<rparr> else i) (add_index_row name unique column idxs))"

definition index_before :: "Index \<Rightarrow> Index \<Rightarrow> bool" where
  "index_before a b = text_before (idx_name a) (idx_name b)"

definition ora_index_list :: "(bytes \<times> bool \<times> bytes) list \<Rightarrow> Index list" where
  "ora_index_list data = stable_sort_by index_before (fold ora_add_index data [])"

definition ora_keyed :: "bytes list \<Rightarrow> Column list \<Rightarrow> Column list" where
  "ora_keyed pk cols = (if pk = [] then cols else map (\<lambda>c. c\<lparr>col_isPrimaryKey := (col_name c \<in> set pk)\<rparr>) cols)"

definition ora_path :: "'s OraDb \<Rightarrow> bytes" where
  "ora_path d = ci_name (od_info d) @ ''.'' @ od_schema d"

definition ora_table :: "'s OraDb \<Rightarrow> bytes \<Rightarrow> Column list \<Rightarrow> ForeignKey list \<Rightarrow> Index list \<Rightarrow> Table" where
  "ora_table d name cols keys idxs =
     default_table\<lparr>tbl_name := name, tbl_schema := od_schema d,
       tbl_fullName := ora_path d @ ''.'' @ name,
       tbl_columns := cols, tbl_foreignKeys := keys, tbl_indexes := idxs\<rparr>"

definition ora_tables_of ::
    "'s OraDb \<Rightarrow> bytes list \<Rightarrow> bytes list list \<Rightarrow> bytes list list \<Rightarrow> bytes list list \<Rightarrow> bytes list list \<Rightarrow> Table list" where
  "ora_tables_of d names cols pk keys idx =
     populateIncomingForeignKeys (map (\<lambda>(name, c, k, i). ora_table d name (ora_keyed (by_name ora_primary_row pk name) c) k i)
       (zip names (zip (moved_out (by_name ora_column_row cols) names)
         (zip (moved_out (by_name ora_key_row keys) names) (moved_out (\<lambda>n. ora_index_list (by_name ora_index_row idx n)) names)))))"

definition ora_tables_query :: "bytes \<Rightarrow> bytes" where
  "ora_tables_query owner = ''SELECT TABLE_NAME FROM ALL_TABLES WHERE OWNER = '' @ ora_text owner @ '' ORDER BY TABLE_NAME''"

definition ora_views_query :: "bytes \<Rightarrow> bytes" where
  "ora_views_query owner = ''SELECT VIEW_NAME FROM ALL_VIEWS WHERE OWNER = '' @ ora_text owner @ '' ORDER BY VIEW_NAME''"

definition ora_tables :: "'s Ora \<Rightarrow> ('s OraDb, Table list) call" where
  "ora_tables lib d0 =
     (let owner = od_schema d0
      in and_then (ora_ask lib (ora_tables_query owner))
        (\<lambda>data. let names = ora_firstColumn data
          in if names = [] then return_ok []
             else and_then (ora_ask lib (ora_columns_query owner [])) (\<lambda>cols.
               and_then (ora_ask lib (ora_primary_query owner [])) (\<lambda>pk.
               and_then (ora_ask lib (ora_keys_query owner [])) (\<lambda>keys.
               and_then (ora_ask lib (ora_indexes_query owner [])) (\<lambda>idx.
                 return_ok (ora_tables_of d0 names cols pk keys idx)))))) d0)"

definition ora_views :: "'s Ora \<Rightarrow> ('s OraDb, Table list) call" where
  "ora_views lib d0 =
     (let owner = od_schema d0
      in and_then (ora_ask lib (ora_views_query owner))
        (\<lambda>data. let names = ora_firstColumn data
          in if names = [] then return_ok []
             else and_then (ora_ask lib (ora_columns_query owner
                 ('' AND TABLE_NAME IN (SELECT VIEW_NAME FROM ALL_VIEWS WHERE OWNER = '' @ ora_text owner @ '')''))) (\<lambda>cols.
               return_ok (map (\<lambda>(n, cs). ora_table d0 n cs [] []) (zip names (moved_out (by_name ora_column_row cols) names))))) d0)"

definition ora_sequences :: "'s Ora \<Rightarrow> ('s OraDb, bytes list) call" where
  "ora_sequences lib d0 =
     and_then (ora_ask lib (''SELECT SEQUENCE_NAME FROM ALL_SEQUENCES WHERE SEQUENCE_OWNER = '' @ ora_text (od_schema d0) @
         '' ORDER BY SEQUENCE_NAME'')) (\<lambda>data. return_ok (ora_firstColumn data)) d0"

definition ora_routines_query :: "bytes \<Rightarrow> bytes" where
  "ora_routines_query owner =
       ''SELECT o.OBJECT_NAME, o.OBJECT_NAME || '(' || NVL((SELECT LISTAGG(a.ARGUMENT_NAME || ' ' || '' @
       ''a.DATA_TYPE, ', ') WITHIN GROUP (ORDER BY a.POSITION) FROM ALL_ARGUMENTS a WHERE a.OWNER = o.OWNER '' @
       ''AND a.OBJECT_NAME = o.OBJECT_NAME AND a.POSITION > 0), '' @ [squote, squote] @
       '') || ')' AS signature, o.OBJECT_TYPE, NVL((SELECT a.DATA_TYPE FROM ALL_ARGUMENTS a WHERE a.OWNER '' @
       ''= o.OWNER AND a.OBJECT_NAME = o.OBJECT_NAME AND a.POSITION = 0), '' @ [squote, squote] @
       '') AS return_type FROM ALL_OBJECTS o WHERE o.OWNER = '' @
       ora_text owner @
       '' AND o.OBJECT_TYPE IN ('FUNCTION', 'PROCEDURE') ORDER BY o.OBJECT_TYPE, o.OBJECT_NAME''"

definition ora_routine_row :: "bytes list \<Rightarrow> Routine option" where
  "ora_routine_row row =
     (if length row < 4 then None
      else Some \<lparr>rt_name = row ! 0, rt_signature = row ! 1,
        rt_kind = (if row ! 2 = ''FUNCTION'' then RFunction else RProcedure),
        rt_returnType = (if isNullSentinel (row ! 3) then [] else row ! 3)\<rparr>)"

definition ora_routines :: "'s Ora \<Rightarrow> ('s OraDb, Routine list) call" where
  "ora_routines lib d0 =
     and_then (ora_ask lib (ora_routines_query (od_schema d0))) (\<lambda>data. return_ok (List.map_filter ora_routine_row data)) d0"

definition ora_describeTable :: "'s Ora \<Rightarrow> bytes \<Rightarrow> ('s OraDb, Table) call" where
  "ora_describeTable lib tableName d0 =
     (let owner = od_schema d0
      in and_then (ora_ask lib (ora_columns_query owner ('' AND TABLE_NAME = '' @ ora_text tableName))) (\<lambda>cols.
         and_then (ora_ask lib (ora_primary_query owner tableName)) (\<lambda>pk.
         and_then (ora_ask lib (ora_keys_query owner tableName)) (\<lambda>keys.
         and_then (ora_ask lib (ora_indexes_query owner tableName)) (\<lambda>idx.
           return_ok (ora_table d0 tableName
             (ora_keyed (by_name ora_primary_row pk tableName) (by_name ora_column_row cols tableName))
             (by_name ora_key_row keys tableName) (ora_index_list (by_name ora_index_row idx tableName))))))) d0)"

text \<open>The defaults of the interface over a handle; column names need an owner.\<close>

definition ora_db :: "'s Ora \<Rightarrow> bytes \<Rightarrow> 's OraDb Db" where
  "ora_db lib schema = \<lparr>db_type = ORACLE, db_schemaName = schema, db_execute = ora_execute lib, db_describeTable = ora_describeTable lib\<rparr>"

definition ora_getColumnNames :: "'s Ora \<Rightarrow> Table \<Rightarrow> ('s OraDb, bytes list) call" where
  "ora_getColumnNames lib table d =
     getColumnNames (ora_db lib (od_schema d)) (if tbl_schema table \<noteq> [] then table else table\<lparr>tbl_schema := od_schema d\<rparr>) d"


section \<open>The connection\<close>

text \<open>\<open>on_shown\<close> are the settings \<^verbatim>\<open>info()\<close> shows; the login session lists owners and administers users.\<close>

record 's OraConn =
  on_shown :: ConnectionInfo
  on_info :: ConnectionInfo
  on_session :: "'s option"
  on_default :: bytes
  on_cache :: "(bytes \<times> nat) list"
  on_handles :: "'s OraDb list"

text \<open>Prefer and allow mean plain TCP.\<close>

definition new_OraConn :: "ConnectionInfo \<Rightarrow> 's OraConn" where
  "new_OraConn info =
     \<lparr>on_shown = info,
      on_info = (if ci_sslmode info = Prefer \<or> ci_sslmode info = Allow then info\<lparr>ci_sslmode := Disable\<rparr> else info),
      on_session = None, on_default = [], on_cache = [], on_handles = []\<rparr>"

definition ora_services :: "bytes list" where
  "ora_services = [''FREEPDB1'', ''XEPDB1'', ''XE'', ''ORCL'', ''FREE'']"

text \<open>The first usual service that takes the login, if none is named.\<close>

definition probe_service :: "'s Ora \<Rightarrow> ConnectionInfo \<Rightarrow> ConnectionInfo" where
  "probe_service lib info =
     (if ci_database info \<noteq> [] then info
      else case List.find (\<lambda>name. case createConn lib (info\<lparr>ci_database := name\<rparr>) of Inl e \<Rightarrow> False | Inr s \<Rightarrow> True) ora_services of
          Some name \<Rightarrow> info\<lparr>ci_database := name\<rparr> | None \<Rightarrow> info)"

text \<open>Opening the login session once the context is there.\<close>

definition ora_login :: "'s Ora \<Rightarrow> 's OraConn \<Rightarrow> Status \<times> 's OraConn" where
  "ora_login lib c =
     (let info = probe_service lib (on_info c); c1 = c\<lparr>on_info := info\<rparr>
      in if ci_database info = []
         then ((False, ''Could not find a valid Oracle service. Try specifying the service name.''), c1)
         else case createConn lib info of
             Inl e \<Rightarrow> ((False, e), c1)
           | Inr s \<Rightarrow> ((True, []), c1\<lparr>on_session := Some s, on_default := ora_upper (ci_username info)\<rparr>))"

text \<open>\<open>None\<close> when the process was replaced on the way.\<close>

definition ora_open ::
    "'w Sys \<Rightarrow> Platform \<Rightarrow> 's Ora \<Rightarrow> 's OraConn \<Rightarrow> Client \<Rightarrow> 'w \<Rightarrow> (Status \<times> 's OraConn) option \<times> Client \<times> 'w" where
  "ora_open sys pf lib c client w =
     (if on_session c \<noteq> None then (Some ((True, []), c\<lparr>on_shown := on_info c\<rparr>), client, w)
      else case getDpiContext sys pf True client w of
          (Replaced, client1, w1) \<Rightarrow> (None, client1, w1)
        | (Missing, client1, w1) \<Rightarrow> (Some ((False, lastInitError client1), c\<lparr>on_shown := on_info c\<rparr>), client1, w1)
        | (Ready, client1, w1) \<Rightarrow>
            (case ora_login lib c of (st, c1) \<Rightarrow> (Some (st, c1\<lparr>on_shown := on_info c1\<rparr>), client1, w1)))"

definition ora_close :: "'s OraConn \<Rightarrow> 's OraConn" where
  "ora_close c = c\<lparr>on_cache := [], on_session := None\<rparr>"

definition ora_isOpen :: "'s OraConn \<Rightarrow> bool" where
  "ora_isOpen c \<longleftrightarrow> on_session c \<noteq> None"

definition ora_name :: "bytes \<Rightarrow> 's OraConn \<Rightarrow> bytes" where
  "ora_name name c = (if name = [] then on_default c else name)"

definition ora_database :: "bytes \<Rightarrow> 's OraConn \<Rightarrow> nat option \<times> 's OraConn" where
  "ora_database name c =
     (if on_session c = None then (None, c)
      else let n = ora_name name c
        in case map_of (on_cache c) n of
             Some i \<Rightarrow> (Some i, c)
           | None \<Rightarrow> (let i = length (on_handles c)
               in (Some i, c\<lparr>on_handles := on_handles c @ [new_OraDb (on_info c) n], on_cache := (n, i) # on_cache c\<rparr>)))"

definition ora_openDatabase :: "bytes \<Rightarrow> 's OraConn \<Rightarrow> nat option \<times> 's OraConn" where
  "ora_openDatabase name c =
     (if on_session c = None then (None, c)
      else (Some (length (on_handles c)), c\<lparr>on_handles := on_handles c @ [new_OraDb (on_info c) (ora_name name c)]\<rparr>))"

fun ora_database_list :: "bytes list \<Rightarrow> 's OraConn \<Rightarrow> nat option list \<times> 's OraConn" where
  "ora_database_list [] c = ([], c)"
| "ora_database_list (n # ns) c =
     (case ora_database n c of (i, c1) \<Rightarrow> (case ora_database_list ns c1 of (is, c2) \<Rightarrow> (i # is, c2)))"

definition ora_owners_query :: bytes where
  "ora_owners_query =
       ''SELECT DISTINCT OWNER FROM ALL_OBJECTS WHERE OBJECT_TYPE IN ('TABLE','VIEW','SEQUENCE','PROCEDURE','FUNCTION','PACKAGE') '' @
       ''AND OWNER NOT IN ('SYS','SYSTEM','DBSNMP','OUTLN','MDSYS','ORDSYS','ORDDATA','CTXSYS','XDB','WMSYS','APPQOSSYS','DBSFWUSER','REMOTE_SCHEDULER_AGENT','GSMADMIN_INTERNAL','OJVMSYS','LBACSYS','GGSYS') '' @
       ''ORDER BY OWNER''"

definition ora_databases :: "'s Ora \<Rightarrow> ('s OraConn, nat option list) call" where
  "ora_databases lib c =
     (case on_session c of
        None \<Rightarrow> (Inl ''Not connected to Oracle'', c)
      | Some s \<Rightarrow> (case ora_queryRows lib ora_owners_query s of
            (Inl e, s1) \<Rightarrow> (Inl e, c\<lparr>on_session := Some s1\<rparr>)
          | (Inr data, s1) \<Rightarrow> (case ora_database_list (ora_firstColumn data) (c\<lparr>on_session := Some s1\<rparr>) of (is, c1) \<Rightarrow> (Inr is, c1))))"

text \<open>A schema is a user; what the grant says is not looked at.\<close>

definition ora_createDatabase :: "'s Ora \<Rightarrow> CreateDatabaseOptions \<Rightarrow> 's OraConn \<Rightarrow> Status \<times> 's OraConn" where
  "ora_createDatabase lib opts c =
     (if opt_name opts = [] then ((False, ''Schema name cannot be empty''), c)
      else case on_session c of
          None \<Rightarrow> ((False, ''Not connected to Oracle''), c)
        | Some s \<Rightarrow> (let user = ora_quoteIdent (opt_name opts)
            in case runQuery lib (''CREATE USER '' @ user @ '' IDENTIFIED BY '' @ user) 0 s of (r, s1) \<Rightarrow>
               if \<not> qr_success r then ((False, qr_errorMessage r), c\<lparr>on_session := Some s1\<rparr>)
               else ((True, []), c\<lparr>on_session := Some (snd (runQuery lib (''GRANT CONNECT, RESOURCE TO '' @ user) 0 s1))\<rparr>)))"

definition ora_dropDatabase :: "'s Ora \<Rightarrow> bytes \<Rightarrow> 's OraConn \<Rightarrow> Status \<times> 's OraConn" where
  "ora_dropDatabase lib name c =
     (let c1 = c\<lparr>on_cache := filter (\<lambda>e. fst e \<noteq> name) (on_cache c)\<rparr>
      in case on_session c1 of
           None \<Rightarrow> ((False, ''Not connected to Oracle''), c1)
         | Some s \<Rightarrow> (case runQuery lib (''DROP USER '' @ ora_quoteIdent name @ '' CASCADE'') 0 s of (r, s1) \<Rightarrow>
             (toStatus r, c1\<lparr>on_session := Some s1\<rparr>)))"


section \<open>In which schema a statement runs\<close>

text \<open>
  What a server keeps of the current schema \<open>cur\<close> of a session: it starts as the one of the user in
  upper case, an accepted ALTER SESSION sets it, a refused one does not, and \<open>quiet\<close> texts leave it
  alone.
\<close>

definition keeps_schema :: "'s Ora \<Rightarrow> ('s \<Rightarrow> bytes) \<Rightarrow> (bytes \<Rightarrow> bool) \<Rightarrow> bool" where
  "keeps_schema lib cur quiet \<longleftrightarrow>
     (\<forall>u p t s. or_connect lib u p t = Inr s \<longrightarrow> cur s = ora_upper u) \<and>
     (\<forall>t s. cur (snd (or_prepare lib t s)) = cur s) \<and>
     (\<forall>schema b s. case or_execute lib (schema_text schema) b s of (Inl e, s1) \<Rightarrow> cur s1 = cur s | (Inr r, s1) \<Rightarrow> cur s1 = schema) \<and>
     (\<forall>t b s. quiet t \<longrightarrow> cur (snd (or_execute lib t b s)) = cur s)"

text \<open>The states of a handle whose texts leave the schema alone, its catalog queries among them.\<close>

inductive ora_used :: "'s Ora \<Rightarrow> (bytes \<Rightarrow> bool) \<Rightarrow> ConnectionInfo \<Rightarrow> bytes \<Rightarrow> 's OraDb \<Rightarrow> bool" for lib quiet info schema where
  ou_new: "ora_used lib quiet info schema (new_OraDb info schema)"
| ou_executed: "ora_used lib quiet info schema d \<Longrightarrow> quiet sql \<Longrightarrow> ora_used lib quiet info schema (snd (ora_execute lib sql L d))"
| ou_asked: "ora_used lib quiet info schema d \<Longrightarrow> quiet sql \<Longrightarrow> ora_used lib quiet info schema (snd (ora_ask lib sql d))"

definition schema_known :: "('s \<Rightarrow> bytes) \<Rightarrow> bytes \<Rightarrow> 's OraDb \<Rightarrow> bool" where
  "schema_known cur schema d \<longleftrightarrow> od_schema d = schema \<and> (case od_session d of None \<Rightarrow> True | Some s \<Rightarrow> cur s = schema)"

lemma ora_statement_success:
  "sr_success (fst (ora_statement lib sql L s)) \<longleftrightarrow>
     (\<exists>q s1 reply s2. or_prepare lib sql s = (Inr q, s1) \<and> or_execute lib sql (\<not> q) s1 = (Inr reply, s2))"
proof -
  have "sr_success (ora_result L reply)" for reply by (cases reply) (simp_all add: Let_def default_statement_def)
  then show ?thesis
    by (auto simp: ora_statement_def ora_failed_def default_statement_def split: prod.split sum.split)
qed

lemma ora_statement_within: "within_limit L (fst (ora_statement lib sql L s))"
proof -
  have "within_limit L (ora_result L reply)" for reply
    by (cases reply) (auto simp: within_limit_def limited_def Let_def default_statement_def)
  then show ?thesis
    by (auto simp: ora_statement_def ora_failed_def within_limit_def default_statement_def split: prod.split sum.split)
qed

lemma ora_statement_quiet:
  assumes "keeps_schema lib cur quiet" "quiet sql"
  shows "cur (snd (ora_statement lib sql L s)) = cur s"
proof -
  obtain q s1 where p: "or_prepare lib sql s = (q, s1)" by fastforce
  have "cur s1 = cur s" using assms(1) p unfolding keeps_schema_def by (metis snd_conv)
  moreover have "cur (snd (or_execute lib sql b s1)) = cur s1" for b using assms unfolding keeps_schema_def by blast
  ultimately show ?thesis using p by (auto simp: ora_statement_def split: sum.split prod.split) (metis snd_conv)+
qed

lemma ora_statement_schema:
  assumes "keeps_schema lib cur quiet" "ora_statement lib (schema_text schema) 0 s = (st, s1)" "sr_success st"
  shows "cur s1 = schema"
proof -
  obtain q s0 reply s2 where "or_prepare lib (schema_text schema) s = (Inr q, s0)"
      "or_execute lib (schema_text schema) (\<not> q) s0 = (Inr reply, s2)"
    using ora_statement_success [of lib "schema_text schema" 0 s] assms(2,3) by auto
  moreover from this(2) have "cur s2 = schema"
    using assms(1) unfolding keeps_schema_def by (metis (mono_tags, lifting) case_prod_conv sum.case(2))
  ultimately show ?thesis using assms(2) by (simp add: ora_statement_def)
qed

lemma ensureConn_known:
  assumes keeps: "keeps_schema lib cur quiet" and known: "schema_known cur schema d"
    and run: "ora_ensureConn lib d = (r, d1)"
  shows "schema_known cur schema d1 \<and> (case r of Inl e \<Rightarrow> True | Inr s \<Rightarrow> cur s = schema \<and> od_session d1 = Some s)"
proof (cases "od_session d")
  case (Some s)
  with known run show ?thesis by (auto simp: ora_ensureConn_def schema_known_def)
next
  case None
  show ?thesis
  proof (cases "createConn lib (od_info d)")
    case (Inl e)
    with None run have "r = Inl e" "d1 = d" by (simp_all add: ora_ensureConn_def)
    with known show ?thesis by simp
  next
    case (Inr s)
    then have login: "cur s = ora_upper (ci_username (od_info d))"
      using keeps by (auto simp: createConn_def keeps_schema_def split: sum.splits)
    obtain st s1 where st: "ora_statement lib (schema_text schema) 0 s = (st, s1)" by fastforce
    have rq: "runQuery lib (schema_text (od_schema d)) 0 s = (\<lparr>qr_statements = [st], qr_messages = []\<rparr>, s1)"
      using st known by (simp add: runQuery_def schema_known_def)
    have "(if od_schema d = ora_upper (ci_username (od_info d)) then (Inr s, d\<lparr>od_session := Some s\<rparr>)
        else if \<not> sr_success st then (Inl (qr_errorMessage \<lparr>qr_statements = [st], qr_messages = []\<rparr>), d)
        else (Inr s1, d\<lparr>od_session := Some s1\<rparr>)) = (r, d1)"
      using None Inr run
      by (cases "od_schema d = ora_upper (ci_username (od_info d))") (simp_all add: ora_ensureConn_def rq qr_success_def)
    then show ?thesis
      using known login None ora_statement_schema [OF keeps st]
      by (auto simp: schema_known_def split: if_splits)
  qed
qed

lemma ora_used_known:
  assumes "ora_used lib quiet info schema d" "keeps_schema lib cur quiet"
  shows "schema_known cur schema d"
  using assms(1)
proof induction
  case ou_new
  show ?case by (simp add: schema_known_def new_OraDb_def)
next
  case (ou_executed d sql L)
  obtain r d1 where run: "ora_ensureConn lib d = (r, d1)" by fastforce
  note k = ensureConn_known [OF assms(2) ou_executed.IH run]
  show ?case
    using run k ora_statement_quiet [OF assms(2) ou_executed.hyps(2)]
    by (auto simp: ora_execute_def runQuery_def schema_known_def split: sum.split prod.split) (metis snd_conv)
next
  case (ou_asked d sql)
  obtain r d1 where run: "ora_ensureConn lib d = (r, d1)" by fastforce
  note k = ensureConn_known [OF assms(2) ou_asked.IH run]
  show ?case
    using run k ora_statement_quiet [OF assms(2) ou_asked.hyps(2)]
    by (auto simp: ora_ask_def ora_queryRows_def runQuery_def schema_known_def split: sum.split prod.split) (metis snd_conv)+
qed

text \<open>
  C30: Take an Oracle handle in any state it reaches by texts that leave the session's current schema
  alone (\<open>quiet\<close>, so no ALTER SESSION SET CURRENT_SCHEMA typed by the user). Then a text either is answered
  with the reason why there is no session in its schema, or it runs in a session whose current
  schema is that of the handle. Then it is a success exactly when the server takes it and executes
  it, committing unless it is a query, and its rows keep the limit.
\<close>

theorem oracle_statements_in_schema:
  assumes "ora_used lib quiet info schema d" "keeps_schema lib cur quiet"
  shows "case fst (ora_ensureConn lib d) of
      Inl e \<Rightarrow> fst (ora_execute lib sql L d) = \<lparr>qr_statements = [ora_failed e], qr_messages = []\<rparr>
    | Inr s \<Rightarrow> cur s = schema \<and> fst (ora_execute lib sql L d) = fst (runQuery lib sql L s) \<and>
        (qr_success (fst (ora_execute lib sql L d)) \<longleftrightarrow>
          (\<exists>q s1 reply s2. or_prepare lib sql s = (Inr q, s1) \<and> or_execute lib sql (\<not> q) s1 = (Inr reply, s2))) \<and>
        list_all (within_limit L) (qr_statements (fst (ora_execute lib sql L d)))"
proof -
  obtain r d1 where run: "ora_ensureConn lib d = (r, d1)" by fastforce
  note k = ensureConn_known [OF assms(2) ora_used_known [OF assms] run]
  have st: "fst (runQuery lib sql L s) = \<lparr>qr_statements = [fst (ora_statement lib sql L s)], qr_messages = []\<rparr>" for s
    by (simp add: runQuery_def split: prod.split)
  show ?thesis
  proof (cases r)
    case (Inr s)
    have "fst (ora_execute lib sql L d) = fst (runQuery lib sql L s)"
      using run Inr by (simp add: ora_execute_def split: prod.split)
    with run k Inr show ?thesis
      by (simp add: st qr_success_def ora_statement_success ora_statement_within)
  qed (use run in \<open>simp add: ora_execute_def\<close>)
qed


section \<open>Listings\<close>

lemma ora_table_in: "table_in (od_schema d) (ora_path d) (ora_table d name cols keys idxs)"
  by (simp add: table_in_def ora_table_def default_table_def)

lemma ora_tables_of_listed:
  "map tbl_name (ora_tables_of d names cols pk keys idx) = names"
  "list_all (table_in (od_schema d) (ora_path d)) (ora_tables_of d names cols pk keys idx)"
  "incoming_exact (ora_tables_of d names cols pk keys idx)"
  unfolding ora_tables_of_def
  by (simp add: populate_maps split_beta comp_def ora_table_def,
      rule populate_in, simp add: list_all_iff ora_table_in split_beta, rule populate_exact)

lemma yields_any: "yields (\<lambda>_. True) c (\<lambda>_. True)"
  by (simp add: yields_def split: sum.split)

lemma listing_at:
  "listing E first names P c \<Longrightarrow>
     case fst (c s) of Inl e \<Rightarrow> E e | Inr ts \<Rightarrow> \<exists>data. fst (first s) = Inr data \<and> map tbl_name ts = names data \<and> P ts"
  by (simp add: listing_def)

text \<open>What listings give, where they do not fail: the tables the server names, in the schema of the handle.\<close>

lemma ora_tables_listed:
  "case fst (ora_tables lib d) of Inl e \<Rightarrow> True | Inr ts \<Rightarrow>
     \<exists>data. fst (ora_ask lib (ora_tables_query (od_schema d)) d) = Inr data \<and> map tbl_name ts = ora_firstColumn data \<and>
       list_all (table_in (od_schema d) (ora_path d)) ts \<and> incoming_exact ts"
  unfolding ora_tables_def Let_def
  by (rule listing_at, intro listing_and_then [OF yields_any] yields_and_then [OF yields_any] yields_if yields_return)
    (simp_all add: ora_tables_of_listed)

lemma ora_views_listed:
  "case fst (ora_views lib d) of Inl e \<Rightarrow> True | Inr ts \<Rightarrow>
     \<exists>data. fst (ora_ask lib (ora_views_query (od_schema d)) d) = Inr data \<and> map tbl_name ts = ora_firstColumn data \<and>
       list_all (table_in (od_schema d) (ora_path d)) ts"
  unfolding ora_views_def Let_def
  by (rule listing_at, intro listing_and_then [OF yields_any] yields_and_then [OF yields_any] yields_if yields_return)
    (auto simp: list_all_iff ora_table_in split_beta comp_def ora_table_def table_in_def ora_path_def)


section \<open>A server for runs\<close>

text \<open>
  Its session state is the current schema; it refuses GRANT, and a SELECT is a query without rows. An
  ALTER SESSION sets the schema it names.
\<close>

definition vault :: "bytes Ora" where
  "vault = \<lparr>or_file = \<lambda>p. False, or_connect = \<lambda>u p t. Inr (ora_upper u),
     or_prepare = \<lambda>t s. (Inr (starts_with t ''SELECT''), s),
     or_execute = \<lambda>t commit s. if starts_with t ''GRANT'' then (Inl ''refused'', s)
       else if starts_with t ''ALTER SESSION'' then (Inr (OraCount 0), undouble dquote (butlast (drop 36 t)))
       else if starts_with t ''SELECT'' then (Inr (OraRows [''N''] [] False), s)
       else (Inr (OraCount 0), s),
     or_ping = \<lambda>s. True\<rparr>"

lemma vault_keeps_schema: "keeps_schema vault id (\<lambda>t. \<not> starts_with t ''ALTER SESSION'')"
proof -
  have "undouble dquote (butlast (drop 36 (schema_text schema))) = schema" for schema
    using undouble_double [of dquote schema] by (simp add: schema_text_def ora_quoteIdent_def butlast_append)
  then show ?thesis by (simp add: keeps_schema_def vault_def schema_text_def starts_with_def)
qed

theorem oracle_statements_in_schema_witness:
  "qr_success (fst (ora_execute vault ''SELECT 1 FROM DUAL'' 5 (new_OraDb default_info ''APP'')))"
proof -
  have "fst (ora_ensureConn vault (new_OraDb default_info ''APP'')) = Inr ''APP''"
    using undouble_double [of dquote "''APP''"]
    by (simp add: ora_ensureConn_def new_OraDb_def createConn_def buildConnectString_def default_info_def vault_def runQuery_def
        ora_statement_def schema_text_def ora_quoteIdent_def starts_with_def qr_success_def default_statement_def ora_upper_def)
  moreover have "or_prepare vault ''SELECT 1 FROM DUAL'' s = (Inr True, s)"
    "or_execute vault ''SELECT 1 FROM DUAL'' b s = (Inr (OraRows [''N''] [] False), s)" for s b
    by (simp_all add: vault_def starts_with_def)
  ultimately show ?thesis
    using oracle_statements_in_schema [OF ou_new vault_keeps_schema, where info = default_info and schema = "''APP''"
      and sql = "''SELECT 1 FROM DUAL''" and L = 5] by (auto simp: ex_bool_eq)
qed

text \<open>
  Concrete runs: the strictest TLS mode connects in clear text; a row set that breaks off is a success
  with the rows so far, and one that has exactly as many rows as the limit is said to be limited; a
  user whose grant is refused is reported as created; without a wallet and a service name the error
  is about the service; the parts of a negative interval each have a sign.
\<close>

lemma oracle_departures:
  "buildConnectString vault (default_info\<lparr>ci_sslmode := VerifyIdentity, ci_host := ''h'', ci_database := ''XE''\<rparr>) =
     Inr (ora_address (default_info\<lparr>ci_host := ''h'', ci_database := ''XE''\<rparr>))"
  "sr_success (ora_result 0 (OraRows [''N''] [[OBytes ''x'']] True))"
  "sr_tableData (ora_result 0 (OraRows [''N''] [[OBytes ''x'']] True)) = [[''x'']]"
  "sr_message (ora_result 1 (OraRows [''N''] [[OBytes ''x'']] False)) = ''Returned 1 row (limited to 1)''"
  "fst (ora_createDatabase vault \<lparr>opt_name = ''U'', opt_comment = [], opt_owner = [], opt_templateDb = [], opt_encoding = [],
     opt_tablespace = [], opt_charset = [], opt_collation = []\<rparr> ((new_OraConn default_info)\<lparr>on_session := Some []\<rparr>)) = (True, [])"
  "fst (runQuery vault (''GRANT CONNECT, RESOURCE TO '' @ ora_quoteIdent ''U'') 0 []) = \<lparr>qr_statements = [ora_failed ''refused''], qr_messages = []\<rparr>"
  "fst (ora_login vault (new_OraConn (default_info\<lparr>ci_sslmode := VerifyFull\<rparr>))) =
     (False, ''Could not find a valid Oracle service. Try specifying the service name.'')"
  "dataToString (OIntervalDS 0 (- 1) (- 2) 0) = ''0 -1:-2:00''"
proof -
  show "buildConnectString vault (default_info\<lparr>ci_sslmode := VerifyIdentity, ci_host := ''h'', ci_database := ''XE''\<rparr>) =
     Inr (ora_address (default_info\<lparr>ci_host := ''h'', ci_database := ''XE''\<rparr>))"
    by (simp add: buildConnectString_def ora_address_def)
  show "sr_message (ora_result 1 (OraRows [''N''] [[OBytes ''x'']] False)) = ''Returned 1 row (limited to 1)''"
    by (simp add: limited_def default_statement_def to_string_def nat_to_string.simps digit_char_eval)
  show "fst (ora_login vault (new_OraConn (default_info\<lparr>ci_sslmode := VerifyFull\<rparr>))) =
     (False, ''Could not find a valid Oracle service. Try specifying the service name.'')"
    by (simp add: ora_login_def probe_service_def new_OraConn_def default_info_def ora_services_def createConn_def
        buildConnectString_def walletLocation_def Let_def)
  show "dataToString (OIntervalDS 0 (- 1) (- 2) 0) = ''0 -1:-2:00''"
    by (simp add: padded_def pad_zeros_def to_string_def nat_to_string.simps digit_char_eval)
qed (simp_all add: limited_def default_statement_def ora_createDatabase_def new_OraConn_def vault_def runQuery_def ora_statement_def
    starts_with_def qr_success_def Let_def)

end
