(* ===== verification/Connection_Factory.thy ===== *)
theory Connection_Factory
  imports Redis_Connection Postgres_Connection Sqlite_Backend Mysql_Backend Mssql_Backend Duckdb_Backend
    Cassandra_Backend Mongodb_Backend Oracle_Backend
begin

text \<open>
  Which backend serves which database type (\<^verbatim>\<open>src/factory.cpp\<close>). The lemma shows that each type gets a
  new, closed connection of its own kind and family, and that the SQL builder and the tokenizer's
  dialect of that type are those of the backend.
\<close>

text \<open>A connection by its class.\<close>

datatype ('rs, 'pg, 'my, 'ms, 'sq, 'd, 'c, 'mg, 'os, 'ca) Connection =
    SQLiteConnection "'sq SqConn"
  | PostgresConnection "'pg PgDb Pool"
  | MySQLConnection "'my MyDb Pool"
  | MSSQLConnection "'ms TdDb Pool"
  | RedisConnection "'rs RedisConnection"
  | DuckDBConnection "('d, 'c) DuckConn"
  | MongoDBConnection "'mg MongoConn"
  | OracleConnection "'os OraConn"
  | CassandraConnection "'ca CassConn"

definition makeConnection :: "bool \<Rightarrow> ConnectionInfo \<Rightarrow> ('rs, 'pg, 'my, 'ms, 'sq, 'd, 'c, 'mg, 'os, 'ca) Connection option" where
  "makeConnection hasDuckdb info =
     (case ci_type info of
        SQLITE \<Rightarrow> Some (SQLiteConnection (new_SqConn info))
      | POSTGRESQL \<Rightarrow> Some (PostgresConnection (pg_connection info))
      | REDSHIFT \<Rightarrow> Some (PostgresConnection (pg_connection info))
      | COCKROACHDB \<Rightarrow> Some (PostgresConnection (pg_connection info))
      | MYSQL \<Rightarrow> Some (MySQLConnection (new_pool info))
      | MARIADB \<Rightarrow> Some (MySQLConnection (new_pool info))
      | TIDB \<Rightarrow> Some (MySQLConnection (new_pool info))
      | MONGODB \<Rightarrow> Some (MongoDBConnection (new_MongoConn info))
      | REDIS \<Rightarrow> Some (RedisConnection (new_redis_connection info))
      | MSSQL \<Rightarrow> Some (MSSQLConnection (tds_connection info))
      | ORACLE \<Rightarrow> Some (OracleConnection (new_OraConn info))
      | CASSANDRA \<Rightarrow> Some (CassandraConnection (new_CassConn info))
      | DUCKDB \<Rightarrow> if hasDuckdb then Some (DuckDBConnection (new_DuckConn info)) else None
      | S3 \<Rightarrow> None)"

text \<open>The \<^verbatim>\<open>type()\<close> of each class, and \<^verbatim>\<open>isOpen()\<close>.\<close>

fun connection_type :: "('rs, 'pg, 'my, 'ms, 'sq, 'd, 'c, 'mg, 'os, 'ca) Connection \<Rightarrow> DatabaseType" where
  "connection_type (SQLiteConnection c) = SQLITE"
| "connection_type (PostgresConnection p) = ci_type (pl_info p)"
| "connection_type (MySQLConnection p) = ci_type (pl_info p)"
| "connection_type (MSSQLConnection p) = MSSQL"
| "connection_type (RedisConnection c) = REDIS"
| "connection_type (DuckDBConnection c) = DUCKDB"
| "connection_type (MongoDBConnection c) = MONGODB"
| "connection_type (OracleConnection c) = ORACLE"
| "connection_type (CassandraConnection c) = CASSANDRA"

fun connection_isOpen :: "('rs, 'pg, 'my, 'ms, 'sq, 'd, 'c, 'mg, 'os, 'ca) Connection \<Rightarrow> bool" where
  "connection_isOpen (SQLiteConnection c) = sqlite_isOpen c"
| "connection_isOpen (PostgresConnection p) = pl_open p"
| "connection_isOpen (MySQLConnection p) = pl_open p"
| "connection_isOpen (MSSQLConnection p) = pl_open p"
| "connection_isOpen (RedisConnection c) = redis_isOpen c"
| "connection_isOpen (DuckDBConnection c) = duck_isOpen c"
| "connection_isOpen (MongoDBConnection c) = mongo_isOpen c"
| "connection_isOpen (OracleConnection c) = ora_isOpen c"
| "connection_isOpen (CassandraConnection c) = cass_isOpen c"

text \<open>The builder of the SQL each backend speaks; Redis and MongoDB have none of their own.\<close>

fun backend_builder :: "('rs, 'pg, 'my, 'ms, 'sq, 'd, 'c, 'mg, 'os, 'ca) Connection \<Rightarrow> Builder" where
  "backend_builder (PostgresConnection p) = PostgreSQLBuilder"
| "backend_builder (MySQLConnection p) = MySQLBuilder"
| "backend_builder (MSSQLConnection p) = MSSQLBuilder"
| "backend_builder (OracleConnection c) = OracleBuilder"
| "backend_builder (CassandraConnection c) = CassandraBuilder"
| "backend_builder (DuckDBConnection c) = DuckDBBuilder"
| "backend_builder _ = SQLiteBuilder"

definition is_postgres :: "('rs, 'pg, 'my, 'ms, 'sq, 'd, 'c, 'mg, 'os, 'ca) Connection \<Rightarrow> bool" where
  "is_postgres c \<longleftrightarrow> (case c of PostgresConnection p \<Rightarrow> True | _ \<Rightarrow> False)"

definition is_mysql :: "('rs, 'pg, 'my, 'ms, 'sq, 'd, 'c, 'mg, 'os, 'ca) Connection \<Rightarrow> bool" where
  "is_mysql c \<longleftrightarrow> (case c of MySQLConnection p \<Rightarrow> True | _ \<Rightarrow> False)"

text \<open>
  C34: A connection is made for every type but S3, and for DuckDB only where it is compiled in. It
  reports the type it was asked for, is not open, belongs to the PostgreSQL or MySQL class exactly
  when its type is of that family, and the SQL builder of its type is its backend's; its dialect
  takes backslash escapes exactly for the MySQL class.
\<close>

theorem makeConnection_fits:
  "(makeConnection hasDuckdb info = None \<longleftrightarrow> ci_type info = S3 \<or> ci_type info = DUCKDB \<and> hasDuckdb = False) \<and>
   (case makeConnection hasDuckdb info of None \<Rightarrow> True
    | Some c \<Rightarrow> connection_type c = ci_type info \<and> \<not> connection_isOpen c \<and>
        is_postgres c = isPostgresFamily (ci_type info) \<and> is_mysql c = isMySQLFamily (ci_type info) \<and>
        createSQLBuilder (connection_type c) = backend_builder c \<and>
        dl_backslashEscape (dialectFor (connection_type c)) = is_mysql c)"
  by (cases "ci_type info")
    (simp_all add: makeConnection_def new_SqConn_def sqlite_isOpen_def pg_connection_def new_pool_def redis_isOpen_def
      new_redis_connection_def new_redis_state_def tds_connection_def duck_isOpen_def new_DuckConn_def is_postgres_def
      mongo_isOpen_def new_MongoConn_def ora_isOpen_def new_OraConn_def cass_isOpen_def new_CassConn_def is_mysql_def isPostgresFamily_def isMySQLFamily_def dialectFor_def mysql_dialect_def default_dialect_def)

end
