(* ===== verification/Spec2Isabelle.thy ===== *)
theory Spec2Isabelle
  imports Sql_Completion Query_Plan_Proofs Syntax_Check Connection_Factory
begin

text \<open>
  A verification development of libdearsql, a C++ library that gives database clients one
  interface to many servers: connection settings, catalog types, SQL text builders, a SQL editor
  assistant (tokenizer, statement splitter, completion, identifier resolution), the default
  operations of a database handle, and one backend per server.

  \<^bold>\<open>Conventions.\<close> A \<^verbatim>\<open>std::string\<close> is a list of bytes (\<open>bytes\<close>), so offsets and lengths are
  those of the code; \<^verbatim>\<open>npos\<close> and \<^verbatim>\<open>std::nullopt\<close> are \<open>None\<close>. A struct is a record whose fields
  carry a short prefix, an enumeration a datatype with the source's enumerators. Exceptions are
  the left side of a sum, state is passed explicitly, and a loop that may run forever is a partial
  function into \<open>option\<close>, where \<open>None\<close> means that it never returns. Loops that advance an offset
  are total functions with a measure, so there is no fuel. Code outside the repository (client
  libraries, parsers, the server) is an argument of the definitions that call it.

  \<^bold>\<open>Parts and theories.\<close>

  \<^item> \<open>Dearsql_Prelude\<close>: the standard library as the sources use it: byte classes, \<^verbatim>\<open>find\<close>,
    \<^verbatim>\<open>substr\<close>, stable sorting (with the locale of strict weak orders), \<^verbatim>\<open>to_string\<close>, \<^verbatim>\<open>stoi\<close>.

  \<^item> \<open>Connection_Info\<close> (\<^verbatim>\<open>src/connection_info.cpp\<close>): database types and TLS modes with their text
    forms, the connection record, the connection strings. Round trips of the text forms and of
    the two escaping routines.

  \<^item> \<open>Catalog_Types\<close> (\<^verbatim>\<open>types.hpp\<close>, \<^verbatim>\<open>src/types.cpp\<close>, \<^verbatim>\<open>query_result.hpp\<close>): columns, indexes, keys,
    tables, routines, results; incoming foreign keys and byte sizes.

  \<^item> \<open>Ddl_Utils\<close> (\<^verbatim>\<open>ddl_utils.hpp\<close>) and \<open>Sql_Builder\<close> (\<^verbatim>\<open>src/sql_builder.cpp\<close>): the statements of
    every dialect; a builder class is a case of the dispatch on the dialect. \<open>Sql_Quoting\<close> shows
    with the library's own tokenizer that what is built reads back: one statement, naming exactly
    the tables and columns it was given, and where it does not.

  \<^item> \<open>Sql_Text\<close>, \<open>Sql_Lexer\<close>, \<open>Sql_Words\<close>, \<open>Sql_Analyzer\<close>, \<open>Sql_Completion\<close>
    (\<^verbatim>\<open>src/completion.cpp\<close>): text helpers, tokens and statement ranges, keyword and function
    tables, the analyzer (groups of parentheses, table references, select lists, context), and
    \<^verbatim>\<open>complete\<close> and \<^verbatim>\<open>resolveIdentifierAt\<close> on top. The tokens partition the text, statements are
    the stretches between semicolon tokens, groups are the matching parentheses, references resolve in
    the nearest scope, and items offered replace what was typed and read back as their labels.

  \<^item> \<open>Database_Api\<close> (\<^verbatim>\<open>database.hpp\<close>, \<^verbatim>\<open>src/database.cpp\<close>): the defaults of \<^verbatim>\<open>IDatabase\<close> over one
    \<^verbatim>\<open>execute\<close>, which is a parameter with its own session state. Any sequence of changes sends
    exactly the promised statements (refinement of a log of statements).

  \<^item> \<open>Redis_Protocol\<close> and \<open>Redis_Connection\<close> (\<^verbatim>\<open>src/redis_connection.cpp\<close>): command lines, replies and
    previews; then the shared state, the database handles and the connection over a hiredis client
    passed as a parameter, with the reachable states of a connection as an inductive predicate.

  \<^item> \<open>Double_Numbers\<close>, \<open>Query_Plan\<close>, \<open>Query_Plan_Proofs\<close> (\<^verbatim>\<open>explain.hpp\<close>, \<^verbatim>\<open>src/explain.cpp\<close>): the
    \<^verbatim>\<open>double\<close> of C++, the EXPLAIN statements, and the three readers of plans. The tree MySQL prints
    is the tree that is read, the SQLite reader returns exactly when its rows form a finite forest,
    and self times are bounded by totals.

  \<^item> \<open>Syntax_Check\<close> (\<^verbatim>\<open>src/syntax.cpp\<close>): which text each engine's parser gets and where a reported
    error points, the parsers being parameters.

  \<^item> \<open>Catalog_Reading\<close>: what the backends share, catalog rows grouped by table and the cache of one
    handle per database. Handles are shared pointers; the model numbers them. What every listing
    keeps: the names the server gave, in order, and the incoming keys they imply.

  \<^item> \<open>Postgres_Session\<close>, \<open>Postgres_Catalog\<close>, \<open>Postgres_Connection\<close> (\<^verbatim>\<open>src/postgres_connection.cpp\<close>):
    results read in chunks with a row limit, the search path, the listings (which give back the
    catalog they are answered from), and the cache of handles while databases are created, dropped
    and renamed.

  \<^item> \<open>Sqlite_Backend\<close>, \<open>Mysql_Backend\<close>, \<open>Mssql_Backend\<close>, \<open>Duckdb_Backend\<close> (\<^verbatim>\<open>src/sqlite_connection.cpp\<close>,
    \<^verbatim>\<open>src/mysql_connection.cpp\<close>, \<^verbatim>\<open>src/mssql_connection.cpp\<close>, \<^verbatim>\<open>src/duckdb_connection.cpp\<close>): opening
    with the TLS settings asked for, running a batch, the catalog, the handles. The lemmas show
    when a batch is a success, that row limits hold, and that listings are consistent.

  \<^item> \<open>Value_Text\<close>, \<open>Cassandra_Backend\<close>, \<open>Mongodb_Backend\<close> (\<^verbatim>\<open>src/cassandra_connection.cpp\<close>,
    \<^verbatim>\<open>src/mongodb_connection.cpp\<close>): drivers' values as text; a statement's keyspace and the columns of
    a table; commands given as JSON and the columns guessed from a sample of documents.

  \<^item> \<open>Oracle_Client\<close>, \<open>Oracle_Backend\<close> (\<^verbatim>\<open>src/oracle_installer.cpp\<close>, \<^verbatim>\<open>src/oracle_connection.cpp\<close>):
    installing the client library, the process-wide context that remembers failures, and the
    backend with one session per schema.

  \<^item> \<open>Connection_Factory\<close> (\<^verbatim>\<open>src/factory.cpp\<close>): the backend of each database type. This theory adds the
    properties that several backends share. Where a backend departs from what the interface says,
    concrete runs at the end of its theory show it.

  \<^bold>\<open>Locales.\<close> Each is interpreted on the model's own definitions in the theory that provides them:
  \<open>strict_weak_order\<close> (the comparators the code sorts with: names, completion items, scopes,
  Cassandra's columns, MongoDB's fields), \<open>ranked_search\<close> (the loops that keep the best match),
  \<open>identifier_quoting\<close> (what a builder promises of quoted names), \<open>session_log\<close> (what a database
  handle needs of its session), and \<open>database_pool\<close> with its extension \<open>guarded_pool\<close> (the cache of
  handles of PostgreSQL, MySQL and SQL Server, and what every handle in it keeps true).

  \<^bold>\<open>Guards that never act.\<close> The analyzer's definitions carry two guards the code does not have,
  so that they are total; \<open>Sql_Analyzer\<close> proves that on every analyzer the code builds they are
  never reached.

  \<^bold>\<open>Parameters.\<close> A client library is a record of functions over a state of its own, which stands for
  the server as well. The state changes only in calls of the library, so what other clients of a
  server do between two calls is part of the answer to the next call. These functions take and
  return byte strings: the conversion to C strings at that boundary is theirs. The rows of an answer
  are a finite list, so a statement whose rows never end is outside the model. Where a session has a
  current schema, keyspace or logical database, what the code relies on is stated as a hypothesis on
  the library, and the users' texts are those that leave it alone or that the handle notices: texts
  the handle does not notice (a typed SELECT, USE or SET SCHEMA) do break it, as the runs at the end
  of the backends' theories show.

  \<^bold>\<open>Not modelled.\<close> Locks (every operation runs under the one mutex of its object, so operations
  are sequential steps), memory management, the client libraries and servers, measured times, what
  \<^verbatim>\<open>cancel()\<close> sends from another thread (SQL Server's flag and the function the installer polls are
  modelled), the installer's Windows branches, tests, \<^verbatim>\<open>cmake/pg_query_prefix.h\<close> and build files.
\<close>


section \<open>Properties that span the backends\<close>

text \<open>
  C22: Whatever the server answers, a listing of tables or views that returns has exactly the tables
  the backend's own query for names was answered with, by name and in that order, each in the schema
  and under the path of its handle; and the incoming keys of each listed table are exactly the
  foreign keys of the listed tables that target it, in order, renamed to the table they come from.
  This holds of PostgreSQL and SQL Server, which fail only with a message, of SQLite, DuckDB and
  Oracle, which may fail in any way, and of MySQL on an open session; a MySQL handle that gets no
  session lists nothing instead of failing.
\<close>

theorem catalog_listings_exact:
  "listing speaks (pg_rows pq (tables_query schema)) first_cells
     (\<lambda>ts. list_all (table_in schema schema) ts \<and> incoming_exact ts) (tablesIn pq schema) \<and>
   listing speaks (pg_rows pq (views_query schema)) view_names (list_all (table_in schema schema)) (viewsIn pq schema) \<and>
   listing speaks (pg_rows pq (matviews_query schema)) view_names (list_all (table_in schema schema))
     (materializedViewsIn pq schema) \<and>
   listing speaks (tds_ask tds (tds_tables_query schema)) first_cells
     (\<lambda>ts. list_all (table_in schema schema) ts \<and> incoming_exact ts) (loadTablesForSchema (tds_ask tds) schema) \<and>
   listing speaks (tds_ask tds (tds_views_query schema)) first_cells
     (list_all (table_in schema schema)) (loadViewsForSchema (tds_ask tds) schema) \<and>
   listing (\<lambda>_. True) (queryRows lib sqlite_tables_query) (map first_text)
     (\<lambda>ts. list_all (table_in [] connName) ts \<and> incoming_exact ts) (sqlite_tables lib connName) \<and>
   listing (\<lambda>_. True) (queryRows lib sqlite_views_query) (map first_text)
     (list_all (table_in [] connName)) (sqlite_views lib connName) \<and>
   listing (\<lambda>_. True) (duck_rows duck con duck_tables_query) (map (\<lambda>row. row ! 0))
     (\<lambda>ts. list_all duck_in ts \<and> incoming_exact ts) (duck_tables duck con) \<and>
   listing (\<lambda>_. True) (duck_rows duck con duck_views_query) (map (\<lambda>row. row ! 0)) (list_all duck_in) (duck_views duck con) \<and>
   (case fst (my_ensureConn my d) of
      Inl e \<Rightarrow> fst (mysql_tables my d) = []
    | Inr c \<Rightarrow> map tbl_name (fst (mysql_tables my d)) = first_fields (fst (my_rows my (my_show_text ''BASE TABLE'') c)) \<and>
        list_all (table_in (md_name d) (my_path d)) (fst (mysql_tables my d)) \<and> incoming_exact (fst (mysql_tables my d))) \<and>
   (case fst (my_ensureConn my d) of
      Inl e \<Rightarrow> fst (mysql_views my d) = []
    | Inr c \<Rightarrow> map tbl_name (fst (mysql_views my d)) = first_fields (fst (my_rows my (my_show_text ''VIEW'') c)) \<and>
        list_all (table_in (md_name d) (my_path d)) (fst (mysql_views my d))) \<and>
   (case fst (ora_tables ora h) of Inl e \<Rightarrow> True | Inr ts \<Rightarrow>
      \<exists>data. fst (ora_ask ora (ora_tables_query (od_schema h)) h) = Inr data \<and> map tbl_name ts = ora_firstColumn data \<and>
        list_all (table_in (od_schema h) (ora_path h)) ts \<and> incoming_exact ts) \<and>
   (case fst (ora_views ora h) of Inl e \<Rightarrow> True | Inr ts \<Rightarrow>
      \<exists>data. fst (ora_ask ora (ora_views_query (od_schema h)) h) = Inr data \<and> map tbl_name ts = ora_firstColumn data \<and>
        list_all (table_in (od_schema h) (ora_path h)) ts)"
  by (intro conjI tablesIn_listed pg_views_listed tds_tables_listed tds_views_listed sqlite_tables_listed
      sqlite_views_listed duck_tables_listed duck_views_listed mysql_tables_listed mysql_views_listed
      ora_tables_listed ora_views_listed)

text \<open>The tables a handle of the clerk's library lists are those the library has, by name.\<close>

theorem catalog_listings_exact_witness:
  "case fst (tablesIn (clerk library_ask) ''public'' (new_PgDb default_info ''db'')) of
     Inl e \<Rightarrow> speaks e
   | Inr ts \<Rightarrow> \<exists>data. fst (pg_rows (clerk library_ask) (tables_query ''public'') (new_PgDb default_info ''db'')) = Inr data \<and>
       map tbl_name ts = first_cells data \<and> list_all (table_in ''public'' ''public'') ts \<and> incoming_exact ts"
  using catalog_listings_exact [where pq = "clerk library_ask" and schema = "''public''", THEN conjunct1]
  unfolding listing_def by blast

text \<open>
  C25: In every state a MySQL or a SQL Server connection can reach, a name has one handle that bears
  it, the same each time. Dropping a database leaves no handle under its name, whether the server
  did it or not (SQL Server refuses an empty name before that). A MySQL connection's default
  database changes only when that one was dropped, and then there is none. A SQL Server connection
  always has a default database; it changes only when that one is reported as dropped, to master,
  so that master stays the default even when master itself is reported as dropped.
\<close>

theorem server_connection_handles:
  assumes "my_pool_reachable my p" "tds_reachable tds info q"
  shows "pool_ok md_name p \<and>
    (case pool_database new_MyDb name p of (i, p1) \<Rightarrow>
       i < length (pl_handles p1) \<and> md_name (pl_handles p1 ! i) = pool_name name p \<and>
       pool_database new_MyDb name p1 = (i, p1)) \<and>
    (case my_dropDatabase my name p of ((ok, m), p') \<Rightarrow>
       name \<notin> fst ` set (pl_cache p') \<and>
       ci_database (pl_info p') = (if ok \<and> name = ci_database (pl_info p) then [] else ci_database (pl_info p))) \<and>
    ci_database (pl_info q) \<noteq> [] \<and> pool_ok tb_name q \<and>
    (case pool_database new_TdDb name q of (i, q1) \<Rightarrow>
       i < length (pl_handles q1) \<and> tb_name (pl_handles q1 ! i) = pool_name name q \<and> pool_name name q \<noteq> [] \<and>
       pool_database new_TdDb name q1 = (i, q1)) \<and>
    (case tds_dropDatabase tds name q of
       None \<Rightarrow> True
     | Some ((ok, e), q') \<Rightarrow> (name = [] \<or> name \<notin> fst ` set (pl_cache q')) \<and>
         ci_database (pl_info q') = (if ok \<and> name = ci_database (pl_info q) then ''master'' else ci_database (pl_info q)))"
  using mysql_connection_handles [OF assms(1), of name] mssql_connection_handles [OF assms(2), of name]
  by (elim conjE) (intro conjI; assumption)

theorem server_connection_handles_witness:
  "pool_ok md_name (snd (pool_database new_MyDb ''a'' (snd (my_connection_open offline (new_pool default_info))))) \<and>
   pool_ok tb_name (snd (pool_database new_TdDb ''a'' (snd (tds_connection_open grumpy (tds_connection default_info)))))"
proof -
  have "my_pool_reachable offline (snd (pool_database new_MyDb ''a'' (snd (my_connection_open offline (new_pool default_info)))))"
    by (intro my_asked my_opened my_start)
  moreover have "tds_reachable grumpy default_info
      (snd (pool_database new_TdDb ''a'' (snd (tds_connection_open grumpy (tds_connection default_info)))))"
    by (intro td_asked td_opened td_start)
  ultimately show ?thesis using server_connection_handles by blast
qed

text \<open>
  C28: In every state of a SQLite or DuckDB connection, asking for the database gives nothing when it
  is closed, and else one node over the open database, the same each time. Opening DuckDB succeeds
  exactly when it is then open, and a CSV file is only ever read: the database opened for it is in
  memory, never the file. A SQLite connection that is closed and opened again does not bring an old
  node back.
\<close>

theorem file_connection_handles:
  assumes "sqlite_reachable lib s" "duck_reachable duck info d"
  shows "(case sqlite_database s of (node, s1) \<Rightarrow>
       node = map_option (new_node (sc_info s)) (sc_handle s) \<and> sqlite_database s1 = (node, s1) \<and>
       sqlite_isOpen s1 = sqlite_isOpen s \<and> \<not> sqlite_isOpen (sqlite_close s1) \<and>
       fst (sqlite_database (sqlite_close s1)) = None \<and>
       fst (sqlite_database (snd (fst (sqlite_open lib (sqlite_close s1) v)))) =
         (case openHandle lib (sc_info s) v of (Inl e, v') \<Rightarrow> None | (Inr h, v') \<Rightarrow> Some (new_node (sc_info s) h))) \<and>
    (case duck_open duck d w of None \<Rightarrow> True | Some (((ok, e), d'), w') \<Rightarrow> ok = duck_isOpen d') \<and>
    (\<not> isCsvPath (ci_path info) \<or>
       duck_open duck d w = duck_open (duck\<lparr>du_open := \<lambda>path readOnly. du_open duck '':memory:'' False\<rparr>) d w) \<and>
    (case duck_database duck d w of ((nd, d1), w1) \<Rightarrow>
       (duck_isOpen d \<or> nd = None) \<and> duck_isOpen d1 = duck_isOpen d \<and>
       (case nd of None \<Rightarrow> True
        | Some n \<Rightarrow> dc_db d1 = Some (dn_db n) \<and> dn_name n = path_filename (ci_path info) \<and>
            duck_database duck d1 w' = ((Some n, d1), w'))) \<and>
    \<not> duck_isOpen (duck_close d)"
  by (rule conjI [OF sqlite_connection_nodes [OF assms(1)] duck_connection_handles [OF assms(2)]])

theorem file_connection_handles_witness:
  "sqlite_isOpen (snd (sqlite_database (snd (fst (sqlite_open one_file (new_SqConn default_info) 0))))) \<and>
   duck_isOpen (snd (fst (duck_database pond (snd (fst (the (duck_open pond (new_DuckConn csv_info) 0)))) 1)))"
proof -
  have "sqlite_reachable one_file (snd (fst (sqlite_open one_file (new_SqConn default_info) 0)))"
    by (intro sq_opened sq_new)
  moreover have "duck_reachable pond csv_info (snd (fst (the (duck_open pond (new_DuckConn csv_info) 0))))"
    using dk_opened [OF dk_new, of pond csv_info 0] by (simp add: pond_open)
  ultimately show ?thesis
    using file_connection_handles [of one_file "snd (fst (sqlite_open one_file (new_SqConn default_info) 0))" pond csv_info
      "snd (fst (the (duck_open pond (new_DuckConn csv_info) 0)))" 0 1]
    by (simp add: split_beta pond_open duck_isOpen_def)
      (simp add: sqlite_open_def one_file_def openHandle_def new_SqConn_def sqlite_isOpen_def split: prod.splits)
qed


section \<open>The columns of a table, guessed or read\<close>

text \<open>
  C33: The columns of a Cassandra table are those of the catalog, each once, the primary key first and
  the others by name. The columns of a MongoDB collection are the fields of the sample, each once,
  with the type of the first document that has it; when the sample was read to its end, \<open>_id\<close> comes
  first and the others follow in strict order of their names.
\<close>

theorem columns_in_order:
  "mset (sorted_columns res) = mset (map (\<lambda>row. pe_column (pending_row res row)) (cr_page res)) \<and>
   sorted_columns res = filter col_isPrimaryKey (sorted_columns res) @ filter (\<lambda>c. \<not> col_isPrimaryKey c) (sorted_columns res) \<and>
   sorted_wrt (\<lambda>a b. \<not> text_before (col_name b) (col_name a)) (filter (\<lambda>c. \<not> col_isPrimaryKey c) (sorted_columns res)) \<and>
   set (inferred (docs, err)) = {sample_column n v |n v. map_of (concat docs) n = Some v} \<and>
   distinct (map col_name (inferred (docs, err))) \<and>
   sorted_wrt (\<lambda>a b. col_name b \<noteq> ''_id'' \<and> (col_name a = ''_id'' \<or> text_before (col_name a) (col_name b)))
     (inferred (docs, None))"
  using cass_columns_key_first [of res] inferred_columns [of docs err] by blast

end
